(* ===== verification/Rust_Text.thy ===== *)
theory Rust_Text
  imports Prelude
begin

text \<open>
  The part of Rust's \<^verbatim>\<open>char\<close>, \<^verbatim>\<open>str\<close> and \<^verbatim>\<open>[T]\<close> interfaces that the sources use. A Rust
  \<^verbatim>\<open>String\<close> is a sequence of Unicode scalar values, so it is a list of code points here
  (\<open>rstring\<close>); \<open>utf8\<close> gives the bytes of \<^verbatim>\<open>as_bytes\<close> and \<^verbatim>\<open>len\<close>. A literal of the sources
  is written \<open>lit ''...''\<close>.
\<close>

section \<open>Characters\<close>

type_synonym uchar = nat
type_synonym rstring = "uchar list"

definition lit :: "string \<Rightarrow> rstring" where
  "lit s = map of_char s"

lemma lit_simps [simp]: "lit [] = []" "lit (c # s) = of_char c # lit s"
  by (simp_all add: lit_def)

text \<open>\<^verbatim>\<open>char::is_whitespace\<close>: the Unicode property \<^verbatim>\<open>White_Space\<close>.\<close>

definition is_whitespace :: "uchar \<Rightarrow> bool" where
  "is_whitespace c \<longleftrightarrow>
     (9 \<le> c \<and> c \<le> 13) \<or> c = 32 \<or> c = 133 \<or> c = 160 \<or> c = 5760 \<or>
     (8192 \<le> c \<and> c \<le> 8202) \<or> c = 8232 \<or> c = 8233 \<or> c = 8239 \<or> c = 8287 \<or> c = 12288"

text \<open>\<^verbatim>\<open>char::is_control\<close>: the general category \<^verbatim>\<open>Cc\<close>.\<close>

definition is_control :: "uchar \<Rightarrow> bool" where
  "is_control c \<longleftrightarrow> c \<le> 31 \<or> (127 \<le> c \<and> c \<le> 159)"

definition is_ascii_alphanumeric :: "uchar \<Rightarrow> bool" where
  "is_ascii_alphanumeric c \<longleftrightarrow>
     (48 \<le> c \<and> c \<le> 57) \<or> (65 \<le> c \<and> c \<le> 90) \<or> (97 \<le> c \<and> c \<le> 122)"

definition ascii_lower :: "uchar \<Rightarrow> uchar" where
  "ascii_lower c = (if 65 \<le> c \<and> c \<le> 90 then c + 32 else c)"

definition to_ascii_lowercase :: "rstring \<Rightarrow> rstring" where
  "to_ascii_lowercase s = map ascii_lower s"

definition eq_ignore_ascii_case :: "rstring \<Rightarrow> rstring \<Rightarrow> bool" where
  "eq_ignore_ascii_case s t \<longleftrightarrow> to_ascii_lowercase s = to_ascii_lowercase t"

lemma whitespace_space [simp]: "is_whitespace 32"
  by (simp add: is_whitespace_def)

lemma whitespace_newline [simp]: "is_whitespace 10"
  by (simp add: is_whitespace_def)

section \<open>UTF-8\<close>

definition utf8_char :: "uchar \<Rightarrow> bytes" where
  "utf8_char c =
     (if c < 128 then [of_nat c]
      else if c < 2048 then [of_nat (192 + c div 64), of_nat (128 + c mod 64)]
      else if c < 65536 then
        [of_nat (224 + c div 4096), of_nat (128 + c div 64 mod 64), of_nat (128 + c mod 64)]
      else
        [of_nat (240 + c div 262144), of_nat (128 + c div 4096 mod 64),
         of_nat (128 + c div 64 mod 64), of_nat (128 + c mod 64)])"

definition utf8 :: "rstring \<Rightarrow> bytes" where
  "utf8 s = concat (map utf8_char s)"

lemma utf8_append [simp]: "utf8 (s @ t) = utf8 s @ utf8 t"
  by (simp add: utf8_def)

lemma utf8_Nil [simp]: "utf8 [] = []"
  by (simp add: utf8_def)

lemma utf8_ascii: "\<forall>c \<in> set s. c < 128 \<Longrightarrow> utf8 s = map of_nat s"
  by (induction s) (auto simp: utf8_def utf8_char_def)

section \<open>Prefixes, suffixes and substrings\<close>

definition starts_with :: "'a list \<Rightarrow> 'a list \<Rightarrow> bool" where
  "starts_with s p \<longleftrightarrow> take (length p) s = p"

definition ends_with :: "'a list \<Rightarrow> 'a list \<Rightarrow> bool" where
  "ends_with s p \<longleftrightarrow> length p \<le> length s \<and> drop (length s - length p) s = p"

fun contains_str :: "'a list \<Rightarrow> 'a list \<Rightarrow> bool" where
  "contains_str [] p = (p = [])"
| "contains_str (c # cs) p = (starts_with (c # cs) p \<or> contains_str cs p)"

lemma starts_with_iff: "starts_with s p \<longleftrightarrow> (\<exists>t. s = p @ t)"
  unfolding starts_with_def by (metis append_eq_conv_conj append_take_drop_id)

lemma ends_with_iff: "ends_with s p \<longleftrightarrow> (\<exists>t. s = t @ p)"
proof
  assume "ends_with s p"
  then have "s = take (length s - length p) s @ p"
    unfolding ends_with_def by (metis append_take_drop_id)
  then show "\<exists>t. s = t @ p" by blast
qed (auto simp: ends_with_def)

lemma contains_str_iff: "contains_str s p \<longleftrightarrow> (\<exists>l r. s = l @ p @ r)"
proof (induction s)
  case Nil
  then show ?case by auto
next
  case (Cons c cs)
  show ?case
  proof
    assume "contains_str (c # cs) p"
    then consider "starts_with (c # cs) p" | "contains_str cs p" by auto
    then show "\<exists>l r. c # cs = l @ p @ r"
    proof cases
      case 1
      then show ?thesis unfolding starts_with_iff by (metis append_Nil)
    next
      case 2
      then show ?thesis using Cons.IH by (metis append_Cons)
    qed
  next
    assume "\<exists>l r. c # cs = l @ p @ r"
    then obtain l r where lr: "c # cs = l @ p @ r" by blast
    show "contains_str (c # cs) p"
    proof (cases l)
      case Nil
      with lr have "starts_with (c # cs) p" by (auto simp: starts_with_iff)
      then show ?thesis by simp
    next
      case (Cons a l')
      with lr have "cs = l' @ p @ r" by simp
      then have "contains_str cs p" using Cons.IH by blast
      then show ?thesis by simp
    qed
  qed
qed

section \<open>Trimming\<close>

definition trim_start :: "rstring \<Rightarrow> rstring" where
  "trim_start s = dropWhile is_whitespace s"

definition trim_end :: "rstring \<Rightarrow> rstring" where
  "trim_end s = rev (dropWhile is_whitespace (rev s))"

definition trim :: "rstring \<Rightarrow> rstring" where
  "trim s = trim_end (trim_start s)"

text \<open>\<^verbatim>\<open>trim_end_matches(ch)\<close>.\<close>

definition trim_end_matches :: "uchar \<Rightarrow> rstring \<Rightarrow> rstring" where
  "trim_end_matches c s = rev (dropWhile (\<lambda>x. x = c) (rev s))"

text \<open>A blank string: \<^verbatim>\<open>s.trim().is_empty()\<close>.\<close>

definition is_blank :: "rstring \<Rightarrow> bool" where
  "is_blank s \<longleftrightarrow> trim s = []"

lemma trim_Nil_iff: "trim s = [] \<longleftrightarrow> (\<forall>c \<in> set s. is_whitespace c)"
proof -
  have "trim s = [] \<longleftrightarrow> (\<forall>c \<in> set (trim_start s). is_whitespace c)"
    by (simp add: trim_def trim_end_def)
  also have "\<dots> \<longleftrightarrow> trim_start s = []"
  proof (cases "trim_start s")
    case (Cons a l)
    then have "\<not> is_whitespace a" by (simp add: trim_start_def dropWhile_eq_Cons_conv)
    with Cons show ?thesis by simp
  qed simp
  finally show ?thesis by (simp add: trim_start_def)
qed

lemma is_blank_iff: "is_blank s \<longleftrightarrow> (\<forall>c \<in> set s. is_whitespace c)"
  by (simp add: is_blank_def trim_Nil_iff)

lemma is_blank_Nil [simp]: "is_blank []"
  by (simp add: is_blank_iff)

lemma trim_ends_fixed:
  assumes "s = [] \<or> (\<not> is_whitespace (hd s) \<and> \<not> is_whitespace (last s))"
  shows "trim s = s"
proof (cases s rule: rev_cases)
  case (snoc l a)
  have st: "trim_start s = s"
    using assms snoc by (cases l) (auto simp: trim_start_def)
  have "trim_end s = s"
    using assms snoc by (simp add: trim_end_def)
  with st show ?thesis by (simp add: trim_def)
qed (simp add: trim_def trim_start_def trim_end_def)

lemma trim_start_hd: "trim_start s \<noteq> [] \<Longrightarrow> \<not> is_whitespace (hd (trim_start s))"
  unfolding trim_start_def by (induction s) auto

lemma trim_end_last: "trim_end s \<noteq> [] \<Longrightarrow> \<not> is_whitespace (last (trim_end s))"
  unfolding trim_end_def
  by (metis hd_dropWhile last_rev rev_is_Nil_conv dropWhile_eq_Nil_conv)

lemma trim_end_prefix: "\<exists>t. s = trim_end s @ t"
proof -
  have "s = rev (takeWhile is_whitespace (rev s) @ dropWhile is_whitespace (rev s))"
    by simp
  then show ?thesis unfolding trim_end_def by (metis rev_append)
qed

lemma trim_start_suffix: "\<exists>t. s = t @ trim_start s"
  unfolding trim_start_def by (metis takeWhile_dropWhile_id)

lemma trim_hd_last:
  "trim s \<noteq> [] \<Longrightarrow> \<not> is_whitespace (hd (trim s)) \<and> \<not> is_whitespace (last (trim s))"
proof -
  assume ne: "trim s \<noteq> []"
  obtain t where t: "trim_start s = trim s @ t"
    using trim_end_prefix [of "trim_start s"] by (auto simp: trim_def)
  with ne have "hd (trim s) = hd (trim_start s)" and "trim_start s \<noteq> []"
    by auto
  then show ?thesis
    using trim_start_hd [of s] trim_end_last [of "trim_start s"] ne by (simp add: trim_def)
qed

lemma trim_idem [simp]: "trim (trim s) = trim s"
  by (rule trim_ends_fixed) (use trim_hd_last [of s] in blast)

lemma set_trim_subset: "set (trim s) \<subseteq> set s"
proof -
  obtain t where "trim_start s = trim s @ t"
    using trim_end_prefix [of "trim_start s"] by (auto simp: trim_def)
  moreover obtain u where "s = u @ trim_start s"
    using trim_start_suffix [of s] by blast
  ultimately show ?thesis by (metis Un_upper1 Un_upper2 order_trans set_append)
qed

section \<open>Splitting and joining\<close>

text \<open>\<^verbatim>\<open>join(sep)\<close> on a slice of strings.\<close>

fun join :: "'a list \<Rightarrow> 'a list list \<Rightarrow> 'a list" where
  "join sep [] = []"
| "join sep [w] = w"
| "join sep (w # v # ws) = w @ sep @ join sep (v # ws)"

text \<open>\<^verbatim>\<open>split(ch)\<close>.\<close>

fun split_on :: "'a \<Rightarrow> 'a list \<Rightarrow> 'a list list" where
  "split_on p [] = [[]]"
| "split_on p (c # cs) =
     (if c = p then [] # split_on p cs
      else case split_on p cs of [] \<Rightarrow> [[c]] | w # ws \<Rightarrow> (c # w) # ws)"

text \<open>\<^verbatim>\<open>split_once(ch)\<close>: around the first occurrence.\<close>

fun split_once :: "'a \<Rightarrow> 'a list \<Rightarrow> ('a list \<times> 'a list) option" where
  "split_once p [] = None"
| "split_once p (c # cs) =
     (if c = p then Some ([], cs)
      else case split_once p cs of None \<Rightarrow> None | Some (l, r) \<Rightarrow> Some (c # l, r))"

text \<open>\<^verbatim>\<open>split_inclusive(pred)\<close>: the separator stays at the end of its piece.\<close>

fun split_inclusive :: "('a \<Rightarrow> bool) \<Rightarrow> 'a list \<Rightarrow> 'a list list" where
  "split_inclusive p [] = []"
| "split_inclusive p (c # cs) =
     (if p c then [c] # split_inclusive p cs
      else case split_inclusive p cs of [] \<Rightarrow> [[c]] | w # ws \<Rightarrow> (c # w) # ws)"

text \<open>\<^verbatim>\<open>str::lines\<close>: pieces ended by a newline, without it and without one carriage return
  before it.\<close>

definition strip_line_end :: "rstring \<Rightarrow> rstring" where
  "strip_line_end l =
     (if ends_with l [10]
      then (if ends_with (butlast l) [13] then butlast (butlast l) else butlast l)
      else l)"

definition str_lines :: "rstring \<Rightarrow> rstring list" where
  "str_lines s = map strip_line_end (split_inclusive (\<lambda>c. c = 10) s)"

text \<open>\<^verbatim>\<open>split_whitespace\<close>: the maximal runs without white space.\<close>

fun split_ws_from :: "rstring \<Rightarrow> rstring \<Rightarrow> rstring list" where
  "split_ws_from cur [] = (if cur = [] then [] else [cur])"
| "split_ws_from cur (c # cs) =
     (if is_whitespace c
      then (if cur = [] then split_ws_from [] cs else cur # split_ws_from [] cs)
      else split_ws_from (cur @ [c]) cs)"

definition split_whitespace :: "rstring \<Rightarrow> rstring list" where
  "split_whitespace s = split_ws_from [] s"

text \<open>\<^verbatim>\<open>replace(from, to)\<close> for a pattern that is not empty, and for a single character.\<close>

function replace_str :: "'a list \<Rightarrow> 'a list \<Rightarrow> 'a list \<Rightarrow> 'a list" where
  "replace_str p t s =
     (if s = [] then []
      else if p \<noteq> [] \<and> starts_with s p then t @ replace_str p t (drop (length p) s)
      else hd s # replace_str p t (tl s))"
  by pat_completeness auto
termination
  by (relation "measure (\<lambda>(p, t, s). length s)") auto

declare replace_str.simps [simp del]

definition replace_char :: "'a \<Rightarrow> 'a list \<Rightarrow> 'a list \<Rightarrow> 'a list" where
  "replace_char c t s = concat (map (\<lambda>x. if x = c then t else [x]) s)"

subsection \<open>Laws\<close>

lemma join_Cons: "ws \<noteq> [] \<Longrightarrow> join sep (w # ws) = w @ sep @ join sep ws"
  by (cases ws) auto

lemma split_on_nonempty [simp]: "split_on p s \<noteq> []"
  by (induction s) (auto split: list.splits)

lemma join_split_on: "join [p] (split_on p s) = s"
proof (induction s)
  case (Cons c cs)
  then show ?case
    by (cases "split_on p cs"; cases "tl (split_on p cs)") (auto simp: join_Cons)
qed simp

lemma split_on_no_sep: "w \<in> set (split_on p s) \<Longrightarrow> p \<notin> set w"
  by (induction s arbitrary: w) (auto split: list.splits if_splits)

lemma split_on_single: "p \<notin> set w \<Longrightarrow> split_on p w = [w]"
  by (induction w) auto

lemma split_on_append_sep: "p \<notin> set w \<Longrightarrow> split_on p (w @ p # s) = w # split_on p s"
  by (induction w) auto

lemma split_on_join:
  "ws \<noteq> [] \<Longrightarrow> \<forall>w \<in> set ws. p \<notin> set w \<Longrightarrow> split_on p (join [p] ws) = ws"
  by (induction "[p]" ws rule: join.induct) (auto simp: split_on_single split_on_append_sep)

lemma set_split_on_subset: "w \<in> set (split_on p s) \<Longrightarrow> set w \<subseteq> set s"
  by (induction s arbitrary: w) (fastforce split: list.splits if_splits)+

lemma split_once_Some: "split_once p s = Some (l, r) \<Longrightarrow> s = l @ p # r \<and> p \<notin> set l"
  by (induction s arbitrary: l) (auto split: if_splits option.splits)

lemma split_once_None_iff: "split_once p s = None \<longleftrightarrow> p \<notin> set s"
  by (induction s) (auto split: option.splits)

lemma split_once_append: "p \<notin> set l \<Longrightarrow> split_once p (l @ p # r) = Some (l, r)"
  by (induction l) auto

lemma concat_split_inclusive: "concat (split_inclusive p s) = s"
  by (induction s) (auto split: list.splits)

lemma split_inclusive_nonempty: "w \<in> set (split_inclusive p s) \<Longrightarrow> w \<noteq> []"
  by (induction s arbitrary: w) (auto split: list.splits if_splits)

lemma split_inclusive_Nil_iff: "split_inclusive p s = [] \<longleftrightarrow> s = []"
  by (cases s) (auto split: list.splits)

lemma split_ws_from_words:
  "\<forall>c \<in> set cur. \<not> is_whitespace c \<Longrightarrow> w \<in> set (split_ws_from cur s) \<Longrightarrow>
     w \<noteq> [] \<and> (\<forall>c \<in> set w. \<not> is_whitespace c)"
proof (induction s arbitrary: cur)
  case Nil
  then show ?case by (simp split: if_splits)
next
  case (Cons c cs)
  show ?case
  proof (cases "is_whitespace c")
    case True
    with Cons.prems have "w = cur \<and> cur \<noteq> [] \<or> w \<in> set (split_ws_from [] cs)"
      by (simp split: if_splits)
    with Cons.IH [of "[]"] Cons.prems(1) show ?thesis by auto
  next
    case False
    with Cons.prems Cons.IH [of "cur @ [c]"] show ?thesis by simp
  qed
qed

lemma split_whitespace_words:
  "w \<in> set (split_whitespace s) \<Longrightarrow> w \<noteq> [] \<and> (\<forall>c \<in> set w. \<not> is_whitespace c)"
  unfolding split_whitespace_def by (rule split_ws_from_words) auto

lemma split_ws_from_append:
  "\<forall>c \<in> set w. \<not> is_whitespace c \<Longrightarrow> split_ws_from cur (w @ s) = split_ws_from (cur @ w) s"
  by (induction w arbitrary: cur) auto

lemma concat_split_ws_from:
  "\<forall>c \<in> set cur. \<not> is_whitespace c \<Longrightarrow>
     concat (split_ws_from cur s) = cur @ filter (\<lambda>c. \<not> is_whitespace c) s"
  by (induction cur s rule: split_ws_from.induct) auto

lemma concat_split_whitespace:
  "concat (split_whitespace s) = filter (\<lambda>c. \<not> is_whitespace c) s"
  by (simp add: split_whitespace_def concat_split_ws_from)

lemma split_whitespace_join:
  "\<forall>w \<in> set ws. w \<noteq> [] \<and> (\<forall>c \<in> set w. \<not> is_whitespace c) \<Longrightarrow>
     split_whitespace (join [32] ws) = ws"
proof (induction "[32] :: rstring" ws rule: join.induct)
  case (2 w)
  then show ?case
    using split_ws_from_append [of w "[]" "[]"] by (simp add: split_whitespace_def)
next
  case (3 w v ws)
  then have "split_whitespace (join [32] (v # ws)) = v # ws" by auto
  with 3 show ?case
    using split_ws_from_append [of w "[]" "32 # join [32] (v # ws)"]
    by (simp add: split_whitespace_def)
qed (simp add: split_whitespace_def)

lemma split_whitespace_Nil_iff:
  "split_whitespace s = [] \<longleftrightarrow> (\<forall>c \<in> set s. is_whitespace c)"
proof
  assume "split_whitespace s = []"
  then have "filter (\<lambda>c. \<not> is_whitespace c) s = []"
    by (metis concat.simps(1) concat_split_whitespace)
  then show "\<forall>c \<in> set s. is_whitespace c" by (simp add: filter_empty_conv)
next
  assume "\<forall>c \<in> set s. is_whitespace c"
  then show "split_whitespace s = []"
    unfolding split_whitespace_def by (induction s) auto
qed

lemma set_replace_char: "c \<notin> set t \<Longrightarrow> c \<notin> set (replace_char c t s)"
  by (auto simp: replace_char_def)

section \<open>Decimal numbers\<close>

fun show_nat :: "nat \<Rightarrow> rstring" where
  "show_nat n = (if n < 10 then [48 + n] else show_nat (n div 10) @ [48 + n mod 10])"

declare show_nat.simps [simp del]

fun read_digits :: "nat \<Rightarrow> rstring \<Rightarrow> nat option" where
  "read_digits acc [] = Some acc"
| "read_digits acc (c # cs) =
     (if 48 \<le> c \<and> c \<le> 57 then read_digits (10 * acc + (c - 48)) cs else None)"

lemma read_digits_append:
  "read_digits acc (s @ t) = Option.bind (read_digits acc s) (\<lambda>n. read_digits n t)"
  by (induction acc s rule: read_digits.induct) auto

lemma read_show_nat: "read_digits 0 (show_nat n) = Some n"
proof (induction n rule: show_nat.induct)
  case (1 n)
  show ?case
  proof (cases "n < 10")
    case True
    then show ?thesis by (simp add: show_nat.simps [of n])
  next
    case False
    with 1 show ?thesis by (simp add: show_nat.simps [of n] read_digits_append)
  qed
qed

lemma show_nat_inject [simp]: "show_nat m = show_nat n \<longleftrightarrow> m = n"
  by (metis read_show_nat option.inject)

lemma show_nat_digits: "c \<in> set (show_nat n) \<Longrightarrow> 48 \<le> c \<and> c \<le> 57"
proof (induction n rule: show_nat.induct)
  case (1 n)
  then show ?case by (cases "n < 10") (auto simp: show_nat.simps [of n])
qed

lemma show_nat_nonempty [simp]: "show_nat n \<noteq> []"
  by (subst show_nat.simps) simp

text \<open>\<^verbatim>\<open>str::parse::<u64>\<close>: an optional plus sign, then at least one digit, and a value that
  fits.\<close>

definition parse_u64 :: "rstring \<Rightarrow> u64 option" where
  "parse_u64 s =
     (let d = (if s \<noteq> [] \<and> hd s = 43 then tl s else s) in
      if d = [] then None
      else case read_digits 0 d of
        None \<Rightarrow> None
      | Some n \<Rightarrow> if n < 2 ^ 64 then Some (of_nat n) else None)"

lemma parse_u64_show_nat: "n < 2 ^ 64 \<Longrightarrow> parse_u64 (show_nat n) = Some (of_nat n)"
proof -
  assume n: "n < 2 ^ 64"
  have "hd (show_nat n) \<noteq> 43"
    using show_nat_digits [of "hd (show_nat n)" n] hd_in_set [OF show_nat_nonempty, of n] by auto
  then show ?thesis using n by (simp add: parse_u64_def read_show_nat)
qed

lemma parse_u64_no_dot: "46 \<in> set s \<Longrightarrow> parse_u64 s = None"
proof -
  have rd: "46 \<in> set t \<Longrightarrow> read_digits acc t = None" for acc t
    by (induction acc t rule: read_digits.induct) auto
  assume "46 \<in> set s"
  then have "46 \<in> set (if s \<noteq> [] \<and> hd s = 43 then tl s else s)" by (cases s) auto
  then show ?thesis by (auto simp: parse_u64_def Let_def rd)
qed

section \<open>I/O errors\<close>

text \<open>\<^verbatim>\<open>std::io::Error\<close>: the kind the sources test for, and any other.\<close>

datatype io_error = IoNotFound | IoOther rstring

end
