(* ===== verification/Ordered_Containers.thy ===== *)
theory Ordered_Containers
  imports Rust_Text "HOL-Library.List_Lexorder"
begin

text \<open>
  Rust's \<^verbatim>\<open>BTreeSet<String>\<close> and \<^verbatim>\<open>BTreeMap<String, String>\<close> as strictly sorted lists, so that a
  loop over them visits the elements in the order the sources see. The order of \<^verbatim>\<open>String\<close> is
  lexicographic. Two contracts state what their clients rely on; both are interpreted on the
  operations below.
\<close>

section \<open>Contracts\<close>

locale set_ops =
  fixes insert_op :: "'a \<Rightarrow> 's \<Rightarrow> 's"
    and remove_op :: "'a \<Rightarrow> 's \<Rightarrow> 's"
    and members :: "'s \<Rightarrow> 'a set"
  assumes members_insert: "members (insert_op x s) = insert x (members s)"
    and members_remove: "members (remove_op x s) = members s - {x}"
begin

lemma move_disjoint:
  "members p \<inter> members c = {} \<Longrightarrow> members (remove_op x p) \<inter> members (insert_op x c) = {}"
  by (auto simp: members_insert members_remove)

lemma move_union:
  "x \<in> members p \<Longrightarrow>
     members (remove_op x p) \<union> members (insert_op x c) = members p \<union> members c"
  by (auto simp: members_insert members_remove)

lemma add_disjoint:
  "members p \<inter> members c = {} \<Longrightarrow> x \<notin> members c \<Longrightarrow> members (insert_op x p) \<inter> members c = {}"
  by (auto simp: members_insert)

end

locale map_ops =
  fixes put_op :: "'k \<Rightarrow> 'v \<Rightarrow> 'm \<Rightarrow> 'm"
    and get_op :: "'m \<Rightarrow> 'k \<Rightarrow> 'v option"
  assumes get_put: "get_op (put_op k v m) = (get_op m)(k \<mapsto> v)"
begin

lemma get_put_same: "get_op (put_op k v m) k = Some v"
  by (simp add: get_put)

lemma get_put_other: "k' \<noteq> k \<Longrightarrow> get_op (put_op k v m) k' = get_op m k'"
  by (simp add: get_put)

end

section \<open>Sets\<close>

fun btree_insert :: "rstring \<Rightarrow> rstring list \<Rightarrow> rstring list" where
  "btree_insert x [] = [x]"
| "btree_insert x (y # ys) =
     (if x < y then x # y # ys else if x = y then y # ys else y # btree_insert x ys)"

definition btree_remove :: "rstring \<Rightarrow> rstring list \<Rightarrow> rstring list" where
  "btree_remove x ys = filter (\<lambda>y. y \<noteq> x) ys"

definition btree_contains :: "rstring list \<Rightarrow> rstring \<Rightarrow> bool" where
  "btree_contains ys x \<longleftrightarrow> x \<in> set ys"

lemma set_btree_insert [simp]: "set (btree_insert x ys) = insert x (set ys)"
  by (induction x ys rule: btree_insert.induct) auto

lemma set_btree_remove [simp]: "set (btree_remove x ys) = set ys - {x}"
  by (auto simp: btree_remove_def)

lemma btree_remove_absent: "x \<notin> set ys \<Longrightarrow> btree_remove x ys = ys"
  by (auto simp: btree_remove_def filter_id_conv)

lemma btree_insert_present: "sorted_wrt (<) ys \<Longrightarrow> x \<in> set ys \<Longrightarrow> btree_insert x ys = ys"
  by (induction x ys rule: btree_insert.induct) auto

lemma sorted_btree_insert: "sorted_wrt (<) ys \<Longrightarrow> sorted_wrt (<) (btree_insert x ys)"
  by (induction x ys rule: btree_insert.induct) auto

lemma sorted_btree_remove: "sorted_wrt (<) ys \<Longrightarrow> sorted_wrt (<) (btree_remove x ys)"
  by (simp add: btree_remove_def sorted_wrt_filter)

interpretation btree: set_ops btree_insert btree_remove set
  by unfold_locales simp_all

section \<open>Maps\<close>

type_synonym bmap = "(rstring \<times> rstring) list"

fun bmap_insert :: "rstring \<Rightarrow> rstring \<Rightarrow> bmap \<Rightarrow> bmap" where
  "bmap_insert k v [] = [(k, v)]"
| "bmap_insert k v ((k', v') # m) =
     (if k < k' then (k, v) # (k', v') # m
      else if k = k' then (k, v) # m
      else (k', v') # bmap_insert k v m)"

lemma map_of_bmap_insert: "map_of (bmap_insert k v m) = (map_of m)(k \<mapsto> v)"
  by (induction k v m rule: bmap_insert.induct) (auto simp: fun_eq_iff)

lemma keys_bmap_insert: "fst ` set (bmap_insert k v m) = insert k (fst ` set m)"
  by (induction k v m rule: bmap_insert.induct) auto

lemma sorted_bmap_insert:
  "sorted_wrt (<) (map fst m) \<Longrightarrow> sorted_wrt (<) (map fst (bmap_insert k v m))"
proof (induction k v m rule: bmap_insert.induct)
  case (2 k v k' v' m)
  have keys: "set (map fst (bmap_insert k v m)) = insert k (set (map fst m))"
    using keys_bmap_insert [of k v m] by simp
  from 2 show ?case by (auto simp del: set_map simp: keys)
qed simp

interpretation bmap: map_ops bmap_insert "map_of :: bmap \<Rightarrow> rstring \<Rightarrow> rstring option"
  by unfold_locales (rule map_of_bmap_insert)

end
