(* ===== verification/Workflow_Journal.thy ===== *)
theory Workflow_Journal
  imports Ordered_Containers
begin

text \<open>
  The workflow journal of the archive-sync crate (\<^verbatim>\<open>src/lib.rs\<close>): the durable record of one
  generation, with its stages, work inventories, audit fields and checkpoints. Every method
  that takes \<^verbatim>\<open>&mut self\<close> returns the journal it leaves behind together with its result, since
  some of them change a field before they fail.
\<close>

section \<open>Data\<close>

definition WORKFLOW_JOURNAL_SCHEMA_VERSION :: u32 where
  "WORKFLOW_JOURNAL_SCHEMA_VERSION = 1"

datatype workflow_journal_error =
    EmptyField string
  | MissingField string
  | UnsupportedSchemaVersion u32 u32 \<comment> \<open>expected, actual\<close>
  | ReadJournal rstring io_error
  | ParseJournal rstring rstring
  | WriteJournal rstring io_error
  | SerializeJournal rstring rstring
  | PersistJournal rstring io_error
  | InvalidWorkflowAuthority
  | InvalidSubordinateAuthority rstring
  | InconsistentState string

datatype journal_authority = Workflow | Subordinate

datatype workflow_stage =
    SourceAcquisition
  | StageMailboxAdmission
  | ChunkDerivation
  | StageEmbedding
  | PublishedRootGeneration
  | RootHistoryPublication
  | TerminalSuccess
  | TerminalFailure

datatype work_kind =
    MailboxAdmission
  | Chunking
  | Embedding
  | Indexing
  | Publication

record generation_state =
  generation_id :: rstring
  journal_id :: rstring
  started_at :: rstring
  completed_at :: "rstring option"

record source_snapshot_state =
  source_snapshot_id :: rstring
  source_uri :: rstring
  acquisition_started_at :: "rstring option"
  acquisition_completed_at :: "rstring option"
  corpus_manifest_identity :: "rstring option"
  additional_provenance :: bmap

record effective_indexing_configuration_state =
  effective_indexing_configuration_id :: rstring
  chunking_policy_id :: rstring
  embedding_provider_or_model_id :: rstring
  delegated_published_root_generation_id :: rstring
  additional_root_affecting_inputs :: bmap

record work_inventory =
  pending :: "rstring list"
  completed :: "rstring list"

record work_inventories =
  wi_mailbox_admission :: work_inventory
  wi_chunking :: work_inventory
  wi_embedding :: work_inventory
  wi_indexing :: work_inventory
  wi_publication :: work_inventory

record audit_state =
  work_set_id :: "rstring option"
  work_set_frozen :: bool
  published_root_id :: "rstring option"
  published_root_recorded_at :: "rstring option"
  root_history_entry_id :: "rstring option"
  root_history_recorded_at :: "rstring option"
  root_change_explanation :: "rstring option"

record checkpoint_record =
  cp_stage :: workflow_stage
  cp_work_kind :: work_kind
  cp_item_id :: rstring
  cp_recorded_at :: rstring

record subordinate_journal_state =
  sj_authority :: journal_authority
  sj_implementation :: rstring
  sj_location :: rstring
  sj_last_observed_generation_id :: "rstring option"
  sj_metadata :: bmap

datatype terminal_outcome_kind = OutcomeSuccess | NonRecoverableFailure

record terminal_outcome_state =
  to_kind :: terminal_outcome_kind
  to_recorded_at :: rstring
  to_detail :: "rstring option"

record workflow_journal =
  schema_version :: u32
  authority :: journal_authority
  current_stage :: workflow_stage
  generation :: generation_state
  source_snapshot :: source_snapshot_state
  effective_indexing_configuration :: effective_indexing_configuration_state
  work :: work_inventories
  audit :: audit_state
  checkpoints :: "checkpoint_record list"
  subordinate_journals :: "subordinate_journal_state list"
  terminal_outcome :: "terminal_outcome_state option"

record workflow_journal_init =
  init_current_stage :: workflow_stage
  init_generation :: generation_state
  init_source_snapshot :: source_snapshot_state
  init_effective_indexing_configuration :: effective_indexing_configuration_state

section \<open>Work inventories\<close>

definition empty_inventory :: work_inventory where
  "empty_inventory = \<lparr>pending = [], completed = []\<rparr>"

definition inventory_queue :: "work_inventory \<Rightarrow> rstring \<Rightarrow> work_inventory" where
  "inventory_queue w item_id =
     (if btree_contains (completed w) item_id then w
      else w\<lparr>pending := btree_insert item_id (pending w)\<rparr>)"

definition inventory_checkpoint :: "work_inventory \<Rightarrow> rstring \<Rightarrow> work_inventory \<times> bool" where
  "inventory_checkpoint w item_id =
     (w\<lparr>pending := btree_remove item_id (pending w),
        completed := btree_insert item_id (completed w)\<rparr>,
      \<not> btree_contains (completed w) item_id)"

fun work_kind_pending_after_stage :: "workflow_stage \<Rightarrow> work_kind \<Rightarrow> bool" where
  "work_kind_pending_after_stage stage MailboxAdmission =
     (stage \<in> {ChunkDerivation, StageEmbedding, PublishedRootGeneration,
               RootHistoryPublication, TerminalSuccess})"
| "work_kind_pending_after_stage stage Chunking =
     (stage \<in> {StageEmbedding, PublishedRootGeneration, RootHistoryPublication,
               TerminalSuccess})"
| "work_kind_pending_after_stage stage Embedding =
     (stage \<in> {PublishedRootGeneration, RootHistoryPublication, TerminalSuccess})"
| "work_kind_pending_after_stage stage Indexing = False"
| "work_kind_pending_after_stage stage Publication = False"

fun workflow_stage_rank :: "workflow_stage \<Rightarrow> nat" where
  "workflow_stage_rank SourceAcquisition = 0"
| "workflow_stage_rank StageMailboxAdmission = 1"
| "workflow_stage_rank ChunkDerivation = 2"
| "workflow_stage_rank StageEmbedding = 3"
| "workflow_stage_rank PublishedRootGeneration = 4"
| "workflow_stage_rank RootHistoryPublication = 5"
| "workflow_stage_rank TerminalSuccess = 6"
| "workflow_stage_rank TerminalFailure = 6"

definition default_inventories :: work_inventories where
  "default_inventories =
     \<lparr>wi_mailbox_admission = empty_inventory, wi_chunking = empty_inventory,
      wi_embedding = empty_inventory, wi_indexing = empty_inventory,
      wi_publication = empty_inventory\<rparr>"

definition default_audit :: audit_state where
  "default_audit =
     \<lparr>work_set_id = None, work_set_frozen = False, published_root_id = None,
      published_root_recorded_at = None, root_history_entry_id = None,
      root_history_recorded_at = None, root_change_explanation = None\<rparr>"

fun inventories_get :: "work_inventories \<Rightarrow> work_kind \<Rightarrow> work_inventory" where
  "inventories_get w MailboxAdmission = wi_mailbox_admission w"
| "inventories_get w Chunking = wi_chunking w"
| "inventories_get w Embedding = wi_embedding w"
| "inventories_get w Indexing = wi_indexing w"
| "inventories_get w Publication = wi_publication w"

fun inventories_set :: "work_inventories \<Rightarrow> work_kind \<Rightarrow> work_inventory \<Rightarrow> work_inventories" where
  "inventories_set w MailboxAdmission v = w\<lparr>wi_mailbox_admission := v\<rparr>"
| "inventories_set w Chunking v = w\<lparr>wi_chunking := v\<rparr>"
| "inventories_set w Embedding v = w\<lparr>wi_embedding := v\<rparr>"
| "inventories_set w Indexing v = w\<lparr>wi_indexing := v\<rparr>"
| "inventories_set w Publication v = w\<lparr>wi_publication := v\<rparr>"

text \<open>The journal's \<^verbatim>\<open>inventory\<close> and what a write through \<^verbatim>\<open>inventory_mut\<close> leaves.\<close>

definition inventory :: "workflow_journal \<Rightarrow> work_kind \<Rightarrow> work_inventory" where
  "inventory j k = inventories_get (work j) k"

definition inventory_mut :: "workflow_journal \<Rightarrow> work_kind \<Rightarrow> work_inventory \<Rightarrow> workflow_journal" where
  "inventory_mut j k v = j\<lparr>work := inventories_set (work j) k v\<rparr>"

section \<open>Validation\<close>

definition require_non_empty :: "string \<Rightarrow> rstring \<Rightarrow> workflow_journal_error + unit" where
  "require_non_empty field v = (if is_blank v then Err (EmptyField field) else Ok ())"

definition require_non_empty_owned :: "string \<Rightarrow> rstring \<Rightarrow> workflow_journal_error + rstring" where
  "require_non_empty_owned field v = and_then (require_non_empty field v) (\<lambda>_. Ok v)"

fun require_optional_non_empty :: "string \<Rightarrow> rstring option \<Rightarrow> workflow_journal_error + unit" where
  "require_optional_non_empty field (Some v) = require_non_empty field v"
| "require_optional_non_empty field None = Ok ()"

definition require_paired_optional_fields ::
  "string \<Rightarrow> rstring option \<Rightarrow> string \<Rightarrow> rstring option \<Rightarrow> workflow_journal_error + unit" where
  "require_paired_optional_fields left_field left_value right_field right_value =
     (case (left_value \<noteq> None, right_value \<noteq> None) of
        (True, False) \<Rightarrow> Err (MissingField right_field)
      | (False, True) \<Rightarrow> Err (MissingField left_field)
      | _ \<Rightarrow> Ok ())"

definition validate_generation_state :: "generation_state \<Rightarrow> workflow_journal_error + unit" where
  "validate_generation_state g = checks
     [require_non_empty ''generation.generation_id'' (generation_id g),
      require_non_empty ''generation.journal_id'' (journal_id g),
      require_non_empty ''generation.started_at'' (started_at g),
      require_optional_non_empty ''generation.completed_at'' (completed_at g)]"

definition validate_source_snapshot_state ::
  "source_snapshot_state \<Rightarrow> workflow_journal_error + unit" where
  "validate_source_snapshot_state s = checks
     [require_non_empty ''source_snapshot.source_snapshot_id'' (source_snapshot_id s),
      require_non_empty ''source_snapshot.source_uri'' (source_uri s),
      require_optional_non_empty ''source_snapshot.acquisition_started_at''
        (acquisition_started_at s),
      require_optional_non_empty ''source_snapshot.acquisition_completed_at''
        (acquisition_completed_at s),
      require_optional_non_empty ''source_snapshot.corpus_manifest_identity''
        (corpus_manifest_identity s)]"

definition validate_effective_indexing_configuration ::
  "effective_indexing_configuration_state \<Rightarrow> workflow_journal_error + unit" where
  "validate_effective_indexing_configuration c = checks
     [require_non_empty
        ''effective_indexing_configuration.effective_indexing_configuration_id''
        (effective_indexing_configuration_id c),
      require_non_empty ''effective_indexing_configuration.chunking_policy_id''
        (chunking_policy_id c),
      require_non_empty ''effective_indexing_configuration.embedding_provider_or_model_id''
        (embedding_provider_or_model_id c),
      require_non_empty
        ''effective_indexing_configuration.delegated_published_root_generation_id''
        (delegated_published_root_generation_id c)]"

definition validate_work_inventory ::
  "string \<Rightarrow> string \<Rightarrow> work_inventory \<Rightarrow> workflow_journal_error + unit" where
  "validate_work_inventory pending_field completed_field wi = checks
     (concat (map (\<lambda>item_id.
        [require_non_empty pending_field item_id,
         if btree_contains (completed wi) item_id
         then Err (InconsistentState
           ''work inventory item must not appear in both pending and completed'')
         else Ok ()]) (pending wi))
      @ map (require_non_empty completed_field) (completed wi))"

definition validate_checkpoint_record :: "checkpoint_record \<Rightarrow> workflow_journal_error + unit" where
  "validate_checkpoint_record c = checks
     [if cp_stage c \<in> {TerminalSuccess, TerminalFailure}
      then Err (InconsistentState ''checkpoint.stage must not be terminal'') else Ok (),
      require_non_empty ''checkpoint.item_id'' (cp_item_id c),
      require_non_empty ''checkpoint.recorded_at'' (cp_recorded_at c)]"

fun work_kind_key :: "work_kind \<Rightarrow> string" where
  "work_kind_key MailboxAdmission = ''mailbox-admission''"
| "work_kind_key Chunking = ''chunking''"
| "work_kind_key Embedding = ''embedding''"
| "work_kind_key Indexing = ''indexing''"
| "work_kind_key Publication = ''publication''"

definition validate_terminal_outcome :: "terminal_outcome_state \<Rightarrow> workflow_journal_error + unit" where
  "validate_terminal_outcome t = checks
     [require_non_empty ''terminal_outcome.recorded_at'' (to_recorded_at t),
      require_optional_non_empty ''terminal_outcome.detail'' (to_detail t)]"

fun outcome_matches_stage ::
  "workflow_stage \<Rightarrow> terminal_outcome_kind \<Rightarrow> workflow_journal_error + unit" where
  "outcome_matches_stage TerminalSuccess OutcomeSuccess = Ok ()"
| "outcome_matches_stage TerminalFailure NonRecoverableFailure = Ok ()"
| "outcome_matches_stage TerminalSuccess NonRecoverableFailure =
     Err (InconsistentState ''terminal success stage requires a success terminal outcome'')"
| "outcome_matches_stage TerminalFailure OutcomeSuccess =
     Err (InconsistentState
       ''terminal failure stage requires a non-recoverable failure terminal outcome'')"
| "outcome_matches_stage _ _ =
     Err (InconsistentState ''non-terminal stage must not carry a terminal outcome'')"

definition validate_terminal_state ::
  "workflow_stage \<Rightarrow> terminal_outcome_state option \<Rightarrow> rstring option
     \<Rightarrow> workflow_journal_error + unit" where
  "validate_terminal_state stage outcome completed_at' =
     (let stage_is_terminal = stage \<in> {TerminalSuccess, TerminalFailure} in
      checks
        [if stage_is_terminal \<and> outcome = None
         then Err (MissingField ''terminal_outcome'') else Ok (),
         if \<not> stage_is_terminal \<and> outcome \<noteq> None
         then Err (InconsistentState ''non-terminal stage must not carry a terminal outcome'')
         else Ok (),
         if \<not> stage_is_terminal \<and> completed_at' \<noteq> None
         then Err (InconsistentState
           ''non-terminal stage must not carry generation.completed_at'')
         else Ok (),
         if (stage_is_terminal \<or> outcome \<noteq> None) \<and> completed_at' = None
         then Err (MissingField ''generation.completed_at'') else Ok (),
         (case outcome of
            None \<Rightarrow> Ok ()
          | Some t \<Rightarrow> checks
              [validate_terminal_outcome t,
               (case completed_at' of
                  Some at \<Rightarrow> if at \<noteq> to_recorded_at t
                    then Err (InconsistentState
                      ''generation.completed_at must match terminal_outcome.recorded_at'')
                    else Ok ()
                | None \<Rightarrow> Ok ()),
               outcome_matches_stage stage (to_kind t)])])"

definition validate_stage_ordered_state ::
  "workflow_stage \<Rightarrow> work_inventories \<Rightarrow> audit_state \<Rightarrow> workflow_journal_error + unit" where
  "validate_stage_ordered_state stage w a =
     (let publication_barrier_reached =
            stage \<in> {PublishedRootGeneration, RootHistoryPublication, TerminalSuccess} in
      checks
        [if work_kind_pending_after_stage stage MailboxAdmission
            \<and> pending (wi_mailbox_admission w) \<noteq> []
         then Err (InconsistentState
           ''later workflow stages require no pending mailbox admission work'')
         else Ok (),
         if work_kind_pending_after_stage stage Chunking \<and> pending (wi_chunking w) \<noteq> []
         then Err (InconsistentState
           ''later workflow stages require no pending chunking work'')
         else Ok (),
         if publication_barrier_reached \<and> \<not> work_set_frozen a
         then Err (InconsistentState
           ''published-root generation and later success stages require a frozen work set'')
         else Ok (),
         if publication_barrier_reached \<and> pending (wi_embedding w) \<noteq> []
         then Err (InconsistentState
           ''published-root generation and later success stages require no pending embedding work'')
         else Ok (),
         if stage \<in> {RootHistoryPublication, TerminalSuccess} \<and> published_root_id a = None
         then Err (MissingField ''audit.published_root_id'') else Ok (),
         if stage = TerminalSuccess \<and> root_history_entry_id a = None
         then Err (MissingField ''audit.root_history_entry_id'') else Ok ()])"

text \<open>The loop over the subordinate journals, with the set of keys seen so far.\<close>

fun validate_subordinates ::
  "(rstring \<times> rstring) list \<Rightarrow> subordinate_journal_state list \<Rightarrow> workflow_journal_error + unit" where
  "validate_subordinates keys [] = Ok ()"
| "validate_subordinates keys (s # ss) = and_then (checks
     [require_non_empty ''subordinate_journal.implementation'' (sj_implementation s),
      require_non_empty ''subordinate_journal.location'' (sj_location s),
      require_optional_non_empty ''subordinate_journal.last_observed_generation_id''
        (sj_last_observed_generation_id s),
      if sj_authority s \<noteq> Subordinate
      then Err (InvalidSubordinateAuthority (sj_implementation s)) else Ok (),
      if (sj_implementation s, sj_location s) \<in> set keys
      then Err (InconsistentState
        ''subordinate_journals must not contain duplicate implementation/location pairs'')
      else Ok ()])
     (\<lambda>_. validate_subordinates ((sj_implementation s, sj_location s) # keys) ss)"

text \<open>
  The loop over the checkpoints: the keys seen so far and the rank of the most advanced stage.
\<close>

fun validate_checkpoints ::
  "workflow_journal \<Rightarrow> (string \<times> rstring) list \<Rightarrow> nat option \<Rightarrow> checkpoint_record list
     \<Rightarrow> workflow_journal_error + nat option" where
  "validate_checkpoints j keys most [] = Ok most"
| "validate_checkpoints j keys most (c # cs) =
     (let key = (work_kind_key (cp_work_kind c), cp_item_id c);
          wi = inventory j (cp_work_kind c);
          rank = workflow_stage_rank (cp_stage c)
      in and_then (checks
        [validate_checkpoint_record c,
         if key \<in> set keys
         then Err (InconsistentState
           ''checkpoints must not contain duplicate work_kind/item_id pairs'')
         else Ok (),
         if \<not> btree_contains (completed wi) (cp_item_id c)
         then Err (InconsistentState
           ''checkpointed item must appear in the completed work inventory'')
         else Ok (),
         if btree_contains (pending wi) (cp_item_id c)
         then Err (InconsistentState
           ''checkpointed item must not remain pending in the work inventory'')
         else Ok ()])
        (\<lambda>_. validate_checkpoints j (key # keys)
               (Some (case most of Some m \<Rightarrow> max m rank | None \<Rightarrow> rank)) cs))"

definition validate :: "workflow_journal \<Rightarrow> workflow_journal_error + unit" where
  "validate j = checks
     [if schema_version j \<noteq> WORKFLOW_JOURNAL_SCHEMA_VERSION
      then Err (UnsupportedSchemaVersion WORKFLOW_JOURNAL_SCHEMA_VERSION (schema_version j))
      else Ok (),
      if authority j \<noteq> Workflow then Err InvalidWorkflowAuthority else Ok (),
      validate_generation_state (generation j),
      validate_source_snapshot_state (source_snapshot j),
      validate_effective_indexing_configuration (effective_indexing_configuration j),
      validate_work_inventory ''work.mailbox_admission.pending''
        ''work.mailbox_admission.completed'' (wi_mailbox_admission (work j)),
      validate_work_inventory ''work.chunking.pending'' ''work.chunking.completed''
        (wi_chunking (work j)),
      validate_work_inventory ''work.embedding.pending'' ''work.embedding.completed''
        (wi_embedding (work j)),
      validate_work_inventory ''work.indexing.pending'' ''work.indexing.completed''
        (wi_indexing (work j)),
      validate_work_inventory ''work.publication.pending'' ''work.publication.completed''
        (wi_publication (work j)),
      validate_subordinates [] (subordinate_journals j),
      if work_set_frozen (audit j) \<and> work_set_id (audit j) = None
      then Err (MissingField ''audit.work_set_id'') else Ok (),
      require_optional_non_empty ''audit.work_set_id'' (work_set_id (audit j)),
      require_optional_non_empty ''audit.published_root_id'' (published_root_id (audit j)),
      require_optional_non_empty ''audit.published_root_recorded_at''
        (published_root_recorded_at (audit j)),
      require_optional_non_empty ''audit.root_history_entry_id''
        (root_history_entry_id (audit j)),
      require_optional_non_empty ''audit.root_history_recorded_at''
        (root_history_recorded_at (audit j)),
      require_optional_non_empty ''audit.root_change_explanation''
        (root_change_explanation (audit j)),
      require_paired_optional_fields
        ''audit.published_root_id'' (published_root_id (audit j))
        ''audit.published_root_recorded_at'' (published_root_recorded_at (audit j)),
      require_paired_optional_fields
        ''audit.root_history_entry_id'' (root_history_entry_id (audit j))
        ''audit.root_history_recorded_at'' (root_history_recorded_at (audit j)),
      and_then (validate_checkpoints j [] None (checkpoints j))
        (\<lambda>most. case most of
            Some m \<Rightarrow> if workflow_stage_rank (current_stage j) < m
              then Err (InconsistentState
                ''current_stage must not precede recorded checkpoint stages'')
              else Ok ()
          | None \<Rightarrow> Ok ()),
      validate_terminal_state (current_stage j) (terminal_outcome j)
        (completed_at (generation j)),
      validate_stage_ordered_state (current_stage j) (work j) (audit j)]"

section \<open>Operations\<close>

definition journal_new :: "workflow_journal_init \<Rightarrow> workflow_journal_error + workflow_journal" where
  "journal_new i = and_then (checks
     [validate_generation_state (init_generation i),
      validate_source_snapshot_state (init_source_snapshot i),
      validate_effective_indexing_configuration (init_effective_indexing_configuration i)])
     (\<lambda>_. let j =
        \<lparr>schema_version = WORKFLOW_JOURNAL_SCHEMA_VERSION, authority = Workflow,
         current_stage = init_current_stage i, generation = init_generation i,
         source_snapshot = init_source_snapshot i,
         effective_indexing_configuration = init_effective_indexing_configuration i,
         work = default_inventories, audit = default_audit, checkpoints = [],
         subordinate_journals = [], terminal_outcome = None\<rparr>
      in and_then (validate j) (\<lambda>_. Ok j))"

type_synonym 'a journal_call = "workflow_journal \<times> (workflow_journal_error + 'a)"

definition set_stage :: "workflow_journal \<Rightarrow> workflow_stage \<Rightarrow> workflow_journal" where
  "set_stage j stage = j\<lparr>current_stage := stage\<rparr>"

definition queue_work :: "workflow_journal \<Rightarrow> work_kind \<Rightarrow> rstring \<Rightarrow> unit journal_call" where
  "queue_work j k item_id =
     (case require_non_empty_owned ''work.item_id'' item_id of
        Inl e \<Rightarrow> (j, Err e)
      | Inr i \<Rightarrow> (inventory_mut j k (inventory_queue (inventory j k) i), Ok ()))"

definition record_checkpoint ::
  "workflow_journal \<Rightarrow> workflow_stage \<Rightarrow> work_kind \<Rightarrow> rstring \<Rightarrow> rstring \<Rightarrow> bool journal_call" where
  "record_checkpoint j stage k item_id recorded_at =
     (if stage \<in> {TerminalSuccess, TerminalFailure}
      then (j, Err (InconsistentState ''checkpoints must not record terminal stages''))
      else case require_non_empty_owned ''checkpoint.item_id'' item_id of
        Inl e \<Rightarrow> (j, Err e)
      | Inr i \<Rightarrow> (case require_non_empty_owned ''checkpoint.recorded_at'' recorded_at of
          Inl e \<Rightarrow> (j, Err e)
        | Inr at \<Rightarrow>
            (let (wi, inserted) = inventory_checkpoint (inventory j k) i;
                 j1 = inventory_mut j k wi
             in if inserted
                then ((if workflow_stage_rank stage > workflow_stage_rank (current_stage j1)
                       then j1\<lparr>current_stage := stage\<rparr> else j1)
                        \<lparr>checkpoints := checkpoints j1 @
                           [\<lparr>cp_stage = stage, cp_work_kind = k, cp_item_id = i,
                             cp_recorded_at = at\<rparr>]\<rparr>,
                      Ok True)
                else (j1, Ok False))))"

definition freeze_work_set :: "workflow_journal \<Rightarrow> rstring \<Rightarrow> unit journal_call" where
  "freeze_work_set j set_id =
     (case require_non_empty_owned ''audit.work_set_id'' set_id of
        Inl e \<Rightarrow> (j, Err e)
      | Inr i \<Rightarrow> (j\<lparr>audit := (audit j)\<lparr>work_set_id := Some i, work_set_frozen := True\<rparr>\<rparr>, Ok ()))"

definition record_published_root ::
  "workflow_journal \<Rightarrow> rstring \<Rightarrow> rstring \<Rightarrow> unit journal_call" where
  "record_published_root j root_id recorded_at =
     (case require_non_empty_owned ''audit.published_root_id'' root_id of
        Inl e \<Rightarrow> (j, Err e)
      | Inr r \<Rightarrow>
          (let j1 = j\<lparr>audit := (audit j)\<lparr>published_root_id := Some r\<rparr>\<rparr>
           in case require_non_empty_owned ''audit.published_root_recorded_at'' recorded_at of
                Inl e \<Rightarrow> (j1, Err e)
              | Inr at \<Rightarrow>
                  (j1\<lparr>audit := (audit j1)\<lparr>published_root_recorded_at := Some at\<rparr>\<rparr>, Ok ())))"

definition record_root_history_entry ::
  "workflow_journal \<Rightarrow> rstring \<Rightarrow> rstring \<Rightarrow> unit journal_call" where
  "record_root_history_entry j entry_id recorded_at =
     (case require_non_empty_owned ''audit.root_history_entry_id'' entry_id of
        Inl e \<Rightarrow> (j, Err e)
      | Inr r \<Rightarrow>
          (let j1 = j\<lparr>audit := (audit j)\<lparr>root_history_entry_id := Some r\<rparr>\<rparr>
           in case require_non_empty_owned ''audit.root_history_recorded_at'' recorded_at of
                Inl e \<Rightarrow> (j1, Err e)
              | Inr at \<Rightarrow>
                  (j1\<lparr>audit := (audit j1)\<lparr>root_history_recorded_at := Some at\<rparr>\<rparr>, Ok ())))"

definition record_root_change_explanation ::
  "workflow_journal \<Rightarrow> rstring \<Rightarrow> unit journal_call" where
  "record_root_change_explanation j explanation =
     (case require_non_empty_owned ''audit.root_change_explanation'' explanation of
        Inl e \<Rightarrow> (j, Err e)
      | Inr x \<Rightarrow> (j\<lparr>audit := (audit j)\<lparr>root_change_explanation := Some x\<rparr>\<rparr>, Ok ()))"

text \<open>Writing through \<^verbatim>\<open>iter_mut().find(...)\<close>: the first match is updated, if there is one.\<close>

fun upsert_entry ::
  "rstring \<Rightarrow> rstring \<Rightarrow> rstring option \<Rightarrow> bmap \<Rightarrow> subordinate_journal_state list
     \<Rightarrow> subordinate_journal_state list" where
  "upsert_entry impl loc gen meta [] =
     [\<lparr>sj_authority = Subordinate, sj_implementation = impl, sj_location = loc,
       sj_last_observed_generation_id = gen, sj_metadata = meta\<rparr>]"
| "upsert_entry impl loc gen meta (s # ss) =
     (if sj_implementation s = impl \<and> sj_location s = loc
      then s\<lparr>sj_authority := Subordinate, sj_last_observed_generation_id := gen,
             sj_metadata := meta\<rparr> # ss
      else s # upsert_entry impl loc gen meta ss)"

definition upsert_subordinate_journal ::
  "workflow_journal \<Rightarrow> rstring \<Rightarrow> rstring \<Rightarrow> rstring option \<Rightarrow> bmap \<Rightarrow> unit journal_call" where
  "upsert_subordinate_journal j impl loc gen meta =
     (case checks
        [require_non_empty ''subordinate_journal.implementation'' impl,
         require_non_empty ''subordinate_journal.location'' loc,
         require_optional_non_empty ''subordinate_journal.last_observed_generation_id'' gen] of
        Inl e \<Rightarrow> (j, Err e)
      | Inr _ \<Rightarrow>
          (j\<lparr>subordinate_journals := upsert_entry impl loc gen meta (subordinate_journals j)\<rparr>,
           Ok ()))"

definition record_terminal_success :: "workflow_journal \<Rightarrow> rstring \<Rightarrow> unit journal_call" where
  "record_terminal_success j recorded_at =
     (case require_non_empty_owned ''terminal_outcome.recorded_at'' recorded_at of
        Inl e \<Rightarrow> (j, Err e)
      | Inr at \<Rightarrow>
          (j\<lparr>current_stage := TerminalSuccess,
             generation := (generation j)\<lparr>completed_at := Some at\<rparr>,
             terminal_outcome := Some
               \<lparr>to_kind = OutcomeSuccess, to_recorded_at = at, to_detail = None\<rparr>\<rparr>,
           Ok ()))"

definition record_terminal_failure ::
  "workflow_journal \<Rightarrow> rstring \<Rightarrow> rstring \<Rightarrow> unit journal_call" where
  "record_terminal_failure j recorded_at detail =
     (case and_then (require_non_empty_owned ''terminal_outcome.recorded_at'' recorded_at)
             (\<lambda>at. and_then (require_non_empty_owned ''terminal_outcome.detail'' detail)
               (\<lambda>d. Ok (at, d))) of
        Inl e \<Rightarrow> (j, Err e)
      | Inr (at, d) \<Rightarrow>
          (j\<lparr>current_stage := TerminalFailure,
             generation := (generation j)\<lparr>completed_at := Some at\<rparr>,
             terminal_outcome := Some
               \<lparr>to_kind = NonRecoverableFailure, to_recorded_at = at, to_detail = Some d\<rparr>\<rparr>,
           Ok ()))"

end
