(* ===== verification/Workflow_Journal_Laws.thy ===== *)
theory Workflow_Journal_Laws
  imports Workflow_Journal
begin

text \<open>
  What the journal's validation accepts, as a predicate over its fields, and what each operation
  keeps of it. The predicate has two parts: the content of the journal, which every successful
  call keeps, and how the content fits the current stage.
\<close>

section \<open>Well-formed journals\<close>

definition opt_filled :: "rstring option \<Rightarrow> bool" where
  "opt_filled x \<longleftrightarrow> (case x of None \<Rightarrow> True | Some v \<Rightarrow> \<not> is_blank v)"

definition inventory_wf :: "work_inventory \<Rightarrow> bool" where
  "inventory_wf w \<longleftrightarrow>
     (\<forall>x \<in> set (pending w). \<not> is_blank x) \<and> (\<forall>x \<in> set (completed w). \<not> is_blank x) \<and>
     set (pending w) \<inter> set (completed w) = {}"

definition generation_wf :: "generation_state \<Rightarrow> bool" where
  "generation_wf g \<longleftrightarrow>
     \<not> is_blank (generation_id g) \<and> \<not> is_blank (journal_id g) \<and> \<not> is_blank (started_at g) \<and>
     opt_filled (completed_at g)"

definition snapshot_wf :: "source_snapshot_state \<Rightarrow> bool" where
  "snapshot_wf s \<longleftrightarrow>
     \<not> is_blank (source_snapshot_id s) \<and> \<not> is_blank (source_uri s) \<and>
     opt_filled (acquisition_started_at s) \<and> opt_filled (acquisition_completed_at s) \<and>
     opt_filled (corpus_manifest_identity s)"

definition configuration_wf :: "effective_indexing_configuration_state \<Rightarrow> bool" where
  "configuration_wf c \<longleftrightarrow>
     \<not> is_blank (effective_indexing_configuration_id c) \<and> \<not> is_blank (chunking_policy_id c) \<and>
     \<not> is_blank (embedding_provider_or_model_id c) \<and>
     \<not> is_blank (delegated_published_root_generation_id c)"

definition subordinate_wf :: "subordinate_journal_state \<Rightarrow> bool" where
  "subordinate_wf s \<longleftrightarrow>
     \<not> is_blank (sj_implementation s) \<and> \<not> is_blank (sj_location s) \<and>
     opt_filled (sj_last_observed_generation_id s) \<and> sj_authority s = Subordinate"

definition subordinate_key :: "subordinate_journal_state \<Rightarrow> rstring \<times> rstring" where
  "subordinate_key s = (sj_implementation s, sj_location s)"

definition checkpoint_key :: "checkpoint_record \<Rightarrow> work_kind \<times> rstring" where
  "checkpoint_key c = (cp_work_kind c, cp_item_id c)"

definition checkpoint_wf :: "workflow_journal \<Rightarrow> checkpoint_record \<Rightarrow> bool" where
  "checkpoint_wf j c \<longleftrightarrow>
     cp_stage c \<notin> {TerminalSuccess, TerminalFailure} \<and>
     \<not> is_blank (cp_item_id c) \<and> \<not> is_blank (cp_recorded_at c) \<and>
     cp_item_id c \<in> set (completed (inventory j (cp_work_kind c))) \<and>
     cp_item_id c \<notin> set (pending (inventory j (cp_work_kind c)))"

definition audit_wf :: "audit_state \<Rightarrow> bool" where
  "audit_wf a \<longleftrightarrow>
     (work_set_frozen a \<longrightarrow> work_set_id a \<noteq> None) \<and>
     opt_filled (work_set_id a) \<and> opt_filled (published_root_id a) \<and>
     opt_filled (published_root_recorded_at a) \<and> opt_filled (root_history_entry_id a) \<and>
     opt_filled (root_history_recorded_at a) \<and> opt_filled (root_change_explanation a) \<and>
     (published_root_id a = None \<longleftrightarrow> published_root_recorded_at a = None) \<and>
     (root_history_entry_id a = None \<longleftrightarrow> root_history_recorded_at a = None)"

definition terminal_wf ::
  "workflow_stage \<Rightarrow> terminal_outcome_state option \<Rightarrow> rstring option \<Rightarrow> bool" where
  "terminal_wf stage outcome at \<longleftrightarrow>
     (case outcome of
        None \<Rightarrow> stage \<notin> {TerminalSuccess, TerminalFailure} \<and> at = None
      | Some t \<Rightarrow>
          at = Some (to_recorded_at t) \<and> \<not> is_blank (to_recorded_at t) \<and>
          opt_filled (to_detail t) \<and>
          stage = (if to_kind t = OutcomeSuccess then TerminalSuccess else TerminalFailure))"

definition stage_ready :: "workflow_stage \<Rightarrow> work_inventories \<Rightarrow> audit_state \<Rightarrow> bool" where
  "stage_ready stage w a \<longleftrightarrow>
     (stage \<in> {ChunkDerivation, StageEmbedding, PublishedRootGeneration, RootHistoryPublication, TerminalSuccess}
        \<longrightarrow> pending (wi_mailbox_admission w) = []) \<and>
     (stage \<in> {StageEmbedding, PublishedRootGeneration, RootHistoryPublication, TerminalSuccess}
        \<longrightarrow> pending (wi_chunking w) = []) \<and>
     (stage \<in> {PublishedRootGeneration, RootHistoryPublication, TerminalSuccess}
        \<longrightarrow> pending (wi_embedding w) = [] \<and> work_set_frozen a) \<and>
     (stage \<in> {RootHistoryPublication, TerminalSuccess} \<longrightarrow> published_root_id a \<noteq> None) \<and>
     (stage = TerminalSuccess \<longrightarrow> root_history_entry_id a \<noteq> None)"

text \<open>
  The content of a journal on its own, and how it relates to the current stage: the second part
  is all that a call made at the wrong moment can spoil.
\<close>

definition journal_data_wf :: "workflow_journal \<Rightarrow> bool" where
  "journal_data_wf j \<longleftrightarrow>
     schema_version j = 1 \<and> authority j = Workflow \<and>
     generation_wf (generation j) \<and> snapshot_wf (source_snapshot j) \<and>
     configuration_wf (effective_indexing_configuration j) \<and>
     (\<forall>k. inventory_wf (inventory j k)) \<and>
     (\<forall>s \<in> set (subordinate_journals j). subordinate_wf s) \<and>
     distinct (map subordinate_key (subordinate_journals j)) \<and>
     audit_wf (audit j) \<and>
     (\<forall>c \<in> set (checkpoints j). checkpoint_wf j c) \<and>
     distinct (map checkpoint_key (checkpoints j))"

definition stage_wf :: "workflow_journal \<Rightarrow> bool" where
  "stage_wf j \<longleftrightarrow>
     (\<forall>c \<in> set (checkpoints j). workflow_stage_rank (cp_stage c) \<le> workflow_stage_rank (current_stage j)) \<and>
     terminal_wf (current_stage j) (terminal_outcome j) (completed_at (generation j)) \<and>
     stage_ready (current_stage j) (work j) (audit j)"

definition journal_wf :: "workflow_journal \<Rightarrow> bool" where
  "journal_wf j \<longleftrightarrow> journal_data_wf j \<and> stage_wf j"

lemmas journal_wf_defs = journal_wf_def journal_data_wf_def stage_wf_def

section \<open>Validation decides well-formedness\<close>

lemma require_non_empty_iff [simp]: "require_non_empty f v = Ok u \<longleftrightarrow> \<not> is_blank v"
  by (simp add: require_non_empty_def)

lemma require_optional_iff [simp]: "require_optional_non_empty f v = Ok u \<longleftrightarrow> opt_filled v"
  by (cases v) (auto simp: opt_filled_def)

lemma require_owned_simps [simp]:
  "is_blank v \<Longrightarrow> require_non_empty_owned f v = Err (EmptyField f)"
  "\<not> is_blank v \<Longrightarrow> require_non_empty_owned f v = Ok v"
  by (simp_all add: require_non_empty_owned_def require_non_empty_def)

lemma opt_filled_simps [simp]: "opt_filled None" "opt_filled (Some v) \<longleftrightarrow> \<not> is_blank v"
  by (simp_all add: opt_filled_def)

lemma if_Err_Ok [simp]: "(if b then Err e else Ok ()) = Ok u \<longleftrightarrow> \<not> b"
  by simp

lemma paired_iff:
  "require_paired_optional_fields lf l rf r = Ok u \<longleftrightarrow> (l = None \<longleftrightarrow> r = None)"
  by (cases l; cases r) (simp_all add: require_paired_optional_fields_def)

lemma validate_generation_iff: "validate_generation_state g = Ok u \<longleftrightarrow> generation_wf g"
  by (auto simp: validate_generation_state_def generation_wf_def checks_Inr_iff)

lemma validate_snapshot_iff: "validate_source_snapshot_state s = Ok u \<longleftrightarrow> snapshot_wf s"
  by (auto simp: validate_source_snapshot_state_def snapshot_wf_def checks_Inr_iff)

lemma validate_configuration_iff: "validate_effective_indexing_configuration c = Ok u \<longleftrightarrow> configuration_wf c"
  by (auto simp: validate_effective_indexing_configuration_def configuration_wf_def checks_Inr_iff)

lemma validate_work_inventory_iff:
  "validate_work_inventory pf cf w = Ok u \<longleftrightarrow> inventory_wf w"
  unfolding validate_work_inventory_def checks_Inr_iff
  by (auto simp: inventory_wf_def btree_contains_def ball_Un)

lemma all_work_kind: "(\<forall>k. P k) \<longleftrightarrow>
  P MailboxAdmission \<and> P Chunking \<and> P Embedding \<and> P Indexing \<and> P Publication"
  using work_kind.exhaust by metis

lemma work_kind_key_inject [simp]: "work_kind_key a = work_kind_key b \<longleftrightarrow> a = b"
  by (cases a; cases b) simp_all

lemma validate_subordinates_iff:
  "validate_subordinates keys ss = Ok u \<longleftrightarrow>
     (\<forall>s \<in> set ss. subordinate_wf s) \<and> distinct (map subordinate_key ss) \<and>
     subordinate_key ` set ss \<inter> set keys = {}"
proof (induction ss arbitrary: keys)
  case (Cons s ss)
  then show ?case
    by (auto simp: and_then_Inr_iff checks_Inr_iff subordinate_wf_def subordinate_key_def)
qed simp

lemma validate_checkpoint_record_iff:
  "validate_checkpoint_record c = Ok u \<longleftrightarrow>
     cp_stage c \<notin> {TerminalSuccess, TerminalFailure} \<and>
     \<not> is_blank (cp_item_id c) \<and> \<not> is_blank (cp_recorded_at c)"
  by (auto simp: validate_checkpoint_record_def checks_Inr_iff)

definition most_advanced :: "nat option \<Rightarrow> checkpoint_record list \<Rightarrow> nat option" where
  "most_advanced most cs = fold (\<lambda>c m. Some (case m of
     Some n \<Rightarrow> max n (workflow_stage_rank (cp_stage c))
   | None \<Rightarrow> workflow_stage_rank (cp_stage c))) cs most"

lemma validate_checkpoints_iff:
  "validate_checkpoints j keys most cs = Ok m \<longleftrightarrow>
     (\<forall>c \<in> set cs. checkpoint_wf j c) \<and> distinct (map checkpoint_key cs) \<and>
     (\<forall>c \<in> set cs. (work_kind_key (cp_work_kind c), cp_item_id c) \<notin> set keys) \<and>
     m = most_advanced most cs"
proof (induction cs arbitrary: keys most)
  case Nil
  then show ?case by (auto simp: most_advanced_def)
next
  case (Cons c cs)
  have head: "checks
     [validate_checkpoint_record c,
      if (work_kind_key (cp_work_kind c), cp_item_id c) \<in> set keys then Err e1 else Ok (),
      if \<not> btree_contains (completed (inventory j (cp_work_kind c))) (cp_item_id c)
      then Err e2 else Ok (),
      if btree_contains (pending (inventory j (cp_work_kind c))) (cp_item_id c)
      then Err e3 else Ok ()] = Ok u \<longleftrightarrow>
     checkpoint_wf j c \<and> (work_kind_key (cp_work_kind c), cp_item_id c) \<notin> set keys"
    for e1 e2 e3 u
    by (auto simp: checks_Inr_iff validate_checkpoint_record_iff checkpoint_wf_def
        btree_contains_def)
  show ?case
    by (auto simp: Let_def and_then_Inr_iff head Cons.IH most_advanced_def checkpoint_key_def
        image_iff)
qed

lemma most_advanced_bound:
  "(case most_advanced most cs of Some m \<Rightarrow> m \<le> r | None \<Rightarrow> True) \<longleftrightarrow>
     (case most of Some m \<Rightarrow> m \<le> r | None \<Rightarrow> True) \<and>
     (\<forall>c \<in> set cs. workflow_stage_rank (cp_stage c) \<le> r)"
proof (induction cs arbitrary: most)
  case (Cons c cs most)
  show ?case
    using Cons.IH [of "Some (case most of Some n \<Rightarrow> max n (workflow_stage_rank (cp_stage c))
      | None \<Rightarrow> workflow_stage_rank (cp_stage c))"]
    by (auto simp: most_advanced_def split: option.splits)
qed (simp add: most_advanced_def)

lemma validate_checkpoint_loop_iff:
  "and_then (validate_checkpoints j [] None cs)
     (\<lambda>most. case most of Some m \<Rightarrow> if r < m then Err e else Ok () | None \<Rightarrow> Ok ()) = Ok u \<longleftrightarrow>
     (\<forall>c \<in> set cs. checkpoint_wf j c \<and> workflow_stage_rank (cp_stage c) \<le> r) \<and>
     distinct (map checkpoint_key cs)"
proof -
  have "(case most_advanced None cs of Some m \<Rightarrow> if r < m then Err e else Ok () | None \<Rightarrow> Ok ())
          = Ok u \<longleftrightarrow> (\<forall>c \<in> set cs. workflow_stage_rank (cp_stage c) \<le> r)"
    using most_advanced_bound [where most = None and cs = cs and r = r] by (auto split: option.splits)
  then show ?thesis by (auto simp: and_then_Inr_iff validate_checkpoints_iff)
qed

lemma validate_terminal_state_iff:
  "validate_terminal_state stage outcome at = Ok u \<longleftrightarrow> terminal_wf stage outcome at"
proof (cases outcome)
  case None
  then show ?thesis
    by (auto simp: validate_terminal_state_def terminal_wf_def Let_def checks_Inr_iff)
next
  case (Some t)
  then show ?thesis
    by (cases stage; cases "to_kind t"; cases at)
      (auto simp: validate_terminal_state_def terminal_wf_def Let_def checks_Inr_iff
        validate_terminal_outcome_def)
qed

lemma validate_stage_ordered_state_iff:
  "validate_stage_ordered_state stage w a = Ok u \<longleftrightarrow> stage_ready stage w a"
  by (cases stage)
    (auto simp: validate_stage_ordered_state_def stage_ready_def Let_def checks_Inr_iff
      all_work_kind)

lemmas validate_parts =
  validate_generation_iff validate_snapshot_iff validate_configuration_iff
  validate_work_inventory_iff validate_subordinates_iff paired_iff
  validate_checkpoint_loop_iff validate_terminal_state_iff validate_stage_ordered_state_iff

lemma validate_iff_wf_aux: "validate j = Ok u \<longleftrightarrow> journal_wf j"
  unfolding validate_def checks_Inr_iff list.set ball_simps insert_iff
  by (auto simp: validate_parts journal_wf_defs audit_wf_def all_work_kind inventory_def
      WORKFLOW_JOURNAL_SCHEMA_VERSION_def)

section \<open>Inventories\<close>

lemma inventories_get_set [simp]:
  "inventories_get (inventories_set w k v) k' = (if k' = k then v else inventories_get w k')"
  by (cases k; cases k') simp_all

lemma inventory_inventory_mut [simp]:
  "inventory (inventory_mut j k v) k' = (if k' = k then v else inventory j k')"
  by (simp add: inventory_def inventory_mut_def)

lemma inventory_mut_frame [simp]:
  "schema_version (inventory_mut j k v) = schema_version j"
  "authority (inventory_mut j k v) = authority j"
  "current_stage (inventory_mut j k v) = current_stage j"
  "generation (inventory_mut j k v) = generation j"
  "source_snapshot (inventory_mut j k v) = source_snapshot j"
  "effective_indexing_configuration (inventory_mut j k v) = effective_indexing_configuration j"
  "audit (inventory_mut j k v) = audit j"
  "checkpoints (inventory_mut j k v) = checkpoints j"
  "subordinate_journals (inventory_mut j k v) = subordinate_journals j"
  "terminal_outcome (inventory_mut j k v) = terminal_outcome j"
  "work (inventory_mut j k v) = inventories_set (work j) k v"
  by (simp_all add: inventory_mut_def)

lemma inventory_update_other [simp]:
  "inventory (j\<lparr>current_stage := s\<rparr>) = inventory j"
  "inventory (j\<lparr>audit := a\<rparr>) = inventory j"
  "inventory (j\<lparr>checkpoints := c\<rparr>) = inventory j"
  "inventory (j\<lparr>subordinate_journals := ss\<rparr>) = inventory j"
  "inventory (j\<lparr>generation := g\<rparr>) = inventory j"
  "inventory (j\<lparr>source_snapshot := sn\<rparr>) = inventory j"
  "inventory (j\<lparr>terminal_outcome := t\<rparr>) = inventory j"
  by (simp_all add: inventory_def fun_eq_iff)

lemma checkpoint_wf_cong:
  "inventory j = inventory j' \<Longrightarrow> checkpoint_wf j = checkpoint_wf j'"
  by (simp add: checkpoint_wf_def fun_eq_iff)

lemma inventory_queue_simps [simp]:
  "completed (inventory_queue w x) = completed w"
  "set (pending (inventory_queue w x)) =
     (if x \<in> set (completed w) then set (pending w) else insert x (set (pending w)))"
  by (auto simp: inventory_queue_def btree_contains_def)

lemma inventory_queue_wf:
  "inventory_wf w \<Longrightarrow> \<not> is_blank x \<Longrightarrow> inventory_wf (inventory_queue w x)"
  using btree.add_disjoint [of "pending w" "completed w" x]
  by (auto simp: inventory_wf_def)

lemma inventory_checkpoint_simps [simp]:
  "set (pending (fst (inventory_checkpoint w x))) = set (pending w) - {x}"
  "set (completed (fst (inventory_checkpoint w x))) = insert x (set (completed w))"
  "snd (inventory_checkpoint w x) \<longleftrightarrow> x \<notin> set (completed w)"
  by (auto simp: inventory_checkpoint_def btree_contains_def)

lemma inventory_checkpoint_wf:
  "inventory_wf w \<Longrightarrow> \<not> is_blank x \<Longrightarrow> inventory_wf (fst (inventory_checkpoint w x))"
  using btree.move_disjoint [of "pending w" "completed w" x]
  by (auto simp: inventory_wf_def)

lemma btree_insert_twice [simp]: "btree_insert x (btree_insert x ys) = btree_insert x ys"
  by (induction x ys rule: btree_insert.induct) auto

lemma btree_remove_twice [simp]: "btree_remove x (btree_remove x ys) = btree_remove x ys"
  by (simp add: btree_remove_def)

lemma inventory_checkpoint_twice:
  "inventory_checkpoint (fst (inventory_checkpoint w x)) x
     = (fst (inventory_checkpoint w x), False)"
  by (simp add: inventory_checkpoint_def btree_contains_def)

section \<open>What each operation keeps\<close>

lemma queue_work_Ok:
  "queue_work j k i = (j', Ok u) \<longleftrightarrow>
     \<not> is_blank i \<and> j' = inventory_mut j k (inventory_queue (inventory j k) i)"
  by (cases "is_blank i") (auto simp: queue_work_def)

lemma record_checkpoint_Ok:
  "record_checkpoint j st k i at = (j', Ok b) \<longleftrightarrow>
     st \<notin> {TerminalSuccess, TerminalFailure} \<and> \<not> is_blank i \<and> \<not> is_blank at \<and>
     b = (i \<notin> set (completed (inventory j k))) \<and>
     j' = (let j1 = inventory_mut j k (fst (inventory_checkpoint (inventory j k) i)) in
           if i \<in> set (completed (inventory j k)) then j1
           else (if workflow_stage_rank st > workflow_stage_rank (current_stage j)
                 then j1\<lparr>current_stage := st\<rparr> else j1)
                  \<lparr>checkpoints := checkpoints j @
                     [\<lparr>cp_stage = st, cp_work_kind = k, cp_item_id = i, cp_recorded_at = at\<rparr>]\<rparr>)"
  by (cases "is_blank i"; cases "is_blank at")
    (auto simp: record_checkpoint_def inventory_checkpoint_def btree_contains_def Let_def)

lemma queue_work_data:
  assumes wf: "journal_data_wf j" and "queue_work j k i = (j', Ok u)"
  shows "journal_data_wf j'"
proof -
  let ?v = "inventory_queue (inventory j k) i"
  have j': "j' = inventory_mut j k ?v" and i: "\<not> is_blank i"
    using assms(2) by (auto simp: queue_work_Ok)
  have "inventory_wf (inventory j k)" using wf by (simp add: journal_data_wf_def)
  then have inv: "\<forall>k'. inventory_wf (inventory j' k')"
    using wf inventory_queue_wf [OF _ i] by (simp add: j' journal_data_wf_def)
  have cp: "checkpoint_wf j' c" if "checkpoint_wf j c" for c
    using that by (auto simp: checkpoint_wf_def j')
  show ?thesis using wf inv cp by (auto simp: journal_data_wf_def j')
qed

lemma record_checkpoint_data:
  assumes wf: "journal_data_wf j" and call: "record_checkpoint j st k i at = (j', Ok b)"
  shows "journal_data_wf j'"
proof -
  let ?v = "fst (inventory_checkpoint (inventory j k) i)"
  let ?c = "\<lparr>cp_stage = st, cp_work_kind = k, cp_item_id = i, cp_recorded_at = at\<rparr>"
  let ?fresh = "i \<notin> set (completed (inventory j k))"
  have ok: "st \<notin> {TerminalSuccess, TerminalFailure}" "\<not> is_blank i" "\<not> is_blank at"
    and j': "j' = (let j1 = inventory_mut j k ?v in
                   if \<not> ?fresh then j1
                   else (if workflow_stage_rank st > workflow_stage_rank (current_stage j)
                         then j1\<lparr>current_stage := st\<rparr> else j1)\<lparr>checkpoints := checkpoints j @ [?c]\<rparr>)"
    using call by (auto simp: record_checkpoint_Ok Let_def)
  have "inventory_wf (inventory j k)" using wf by (simp add: journal_data_wf_def)
  then have inv: "\<forall>k'. inventory_wf (inventory j' k')"
    using wf inventory_checkpoint_wf [OF _ ok(2)] by (simp add: j' journal_data_wf_def Let_def)
  have old: "checkpoint_wf j' c" if "checkpoint_wf j c" for c
    using that by (auto simp: checkpoint_wf_def j' Let_def)
  have new: "checkpoint_wf j' ?c" using ok by (auto simp: checkpoint_wf_def j' Let_def)
  have "checkpoint_key ?c \<notin> checkpoint_key ` set (checkpoints j)" if ?fresh
    using wf that by (auto simp: journal_data_wf_def checkpoint_wf_def checkpoint_key_def)
  then have cps: "(\<forall>c \<in> set (checkpoints j'). checkpoint_wf j' c) \<and> distinct (map checkpoint_key (checkpoints j'))"
    using wf old new by (auto simp: journal_data_wf_def j' Let_def)
  show ?thesis using wf inv cps by (simp add: journal_data_wf_def j' Let_def)
qed

lemma audit_update_data: "journal_data_wf j \<Longrightarrow> audit_wf a \<Longrightarrow> journal_data_wf (j\<lparr>audit := a\<rparr>)"
  by (auto simp: journal_data_wf_def checkpoint_wf_def)

lemma journal_data_audit: "journal_data_wf j \<Longrightarrow> audit_wf (audit j)"
  by (simp add: journal_data_wf_def)

lemma freeze_work_set_Ok:
  "freeze_work_set j x = (j', Ok u) \<longleftrightarrow> \<not> is_blank x \<and>
     j' = j\<lparr>audit := (audit j)\<lparr>work_set_id := Some x, work_set_frozen := True\<rparr>\<rparr>"
  by (cases "is_blank x") (auto simp: freeze_work_set_def)

lemma record_published_root_Ok:
  "record_published_root j x t = (j', Ok u) \<longleftrightarrow> \<not> is_blank x \<and> \<not> is_blank t \<and>
     j' = j\<lparr>audit := (audit j)\<lparr>published_root_id := Some x,
            published_root_recorded_at := Some t\<rparr>\<rparr>"
  by (cases "is_blank x"; cases "is_blank t") (auto simp: record_published_root_def)

lemma record_root_history_entry_Ok:
  "record_root_history_entry j x t = (j', Ok u) \<longleftrightarrow> \<not> is_blank x \<and> \<not> is_blank t \<and>
     j' = j\<lparr>audit := (audit j)\<lparr>root_history_entry_id := Some x,
            root_history_recorded_at := Some t\<rparr>\<rparr>"
  by (cases "is_blank x"; cases "is_blank t") (auto simp: record_root_history_entry_def)

lemma record_root_change_explanation_Ok:
  "record_root_change_explanation j x = (j', Ok u) \<longleftrightarrow> \<not> is_blank x \<and>
     j' = j\<lparr>audit := (audit j)\<lparr>root_change_explanation := Some x\<rparr>\<rparr>"
  by (cases "is_blank x") (auto simp: record_root_change_explanation_def)

lemmas audit_calls_Ok =
  freeze_work_set_Ok record_published_root_Ok record_root_history_entry_Ok record_root_change_explanation_Ok

lemma audit_calls_data:
  assumes wf: "journal_data_wf j"
  shows "freeze_work_set j x = (j', Ok u) \<Longrightarrow> journal_data_wf j'"
    and "record_published_root j x at = (j', Ok u) \<Longrightarrow> journal_data_wf j'"
    and "record_root_history_entry j x at = (j', Ok u) \<Longrightarrow> journal_data_wf j'"
    and "record_root_change_explanation j x = (j', Ok u) \<Longrightarrow> journal_data_wf j'"
  using journal_data_audit [OF wf]
  by (auto simp: audit_calls_Ok audit_wf_def intro!: audit_update_data [OF wf])

lemma upsert_entry_keys:
  "subordinate_key ` set (upsert_entry impl loc gen meta ss)
     = insert (impl, loc) (subordinate_key ` set ss)"
  by (induction ss) (auto simp: subordinate_key_def)

lemma upsert_entry_distinct:
  "distinct (map subordinate_key ss) \<Longrightarrow>
     distinct (map subordinate_key (upsert_entry impl loc gen meta ss))"
proof (induction ss)
  case (Cons s ss)
  then show ?case
    using upsert_entry_keys [of impl loc gen meta ss]
    by (auto simp: subordinate_key_def)
qed simp

lemma upsert_entry_wf:
  assumes "\<forall>s \<in> set ss. subordinate_wf s"
    and new: "\<not> is_blank impl" "\<not> is_blank loc" "opt_filled gen"
  shows "\<forall>s \<in> set (upsert_entry impl loc gen meta ss). subordinate_wf s"
  using assms(1)
proof (induction ss)
  case Nil
  show ?case using new by (simp add: subordinate_wf_def)
next
  case (Cons s ss)
  then have IH: "\<forall>s \<in> set (upsert_entry impl loc gen meta ss). subordinate_wf s" by simp
  have "subordinate_wf (s\<lparr>sj_authority := Subordinate,
      sj_last_observed_generation_id := gen, sj_metadata := meta\<rparr>)"
    using Cons.prems new(3) by (simp add: subordinate_wf_def)
  with IH Cons.prems show ?case by simp
qed

lemma upsert_subordinate_journal_Ok:
  "upsert_subordinate_journal j impl loc gen meta = (j', Ok u) \<longleftrightarrow>
     \<not> is_blank impl \<and> \<not> is_blank loc \<and> opt_filled gen \<and>
     j' = j\<lparr>subordinate_journals := upsert_entry impl loc gen meta (subordinate_journals j)\<rparr>"
proof -
  have c: "checks [require_non_empty f1 impl, require_non_empty f2 loc,
      require_optional_non_empty f3 gen] = Ok v \<longleftrightarrow>
      \<not> is_blank impl \<and> \<not> is_blank loc \<and> opt_filled gen" for f1 f2 f3 v
    by (auto simp: checks_Inr_iff)
  have n: "checks [require_non_empty f1 impl, require_non_empty f2 loc,
      require_optional_non_empty f3 gen] = Ok ()"
    if "\<not> is_blank impl" "\<not> is_blank loc" "opt_filled gen" for f1 f2 f3
    using that by (simp add: c)
  show ?thesis
    by (auto simp: upsert_subordinate_journal_def c n split: sum.splits)
qed

lemma upsert_subordinate_journal_data:
  assumes "journal_data_wf j" and "upsert_subordinate_journal j impl loc gen meta = (j', Ok u)"
  shows "journal_data_wf j'"
  using assms upsert_entry_distinct [of "subordinate_journals j"] upsert_entry_wf [of "subordinate_journals j"]
  by (auto simp: upsert_subordinate_journal_Ok journal_data_wf_def checkpoint_wf_def)

lemma record_terminal_failure_Ok:
  "record_terminal_failure j at d = (j', Ok u) \<longleftrightarrow>
     \<not> is_blank at \<and> \<not> is_blank d \<and>
     j' = j\<lparr>current_stage := TerminalFailure,
            generation := (generation j)\<lparr>completed_at := Some at\<rparr>,
            terminal_outcome := Some
              \<lparr>to_kind = NonRecoverableFailure, to_recorded_at = at, to_detail = Some d\<rparr>\<rparr>"
  by (cases "is_blank at"; cases "is_blank d") (auto simp: record_terminal_failure_def)

lemma record_terminal_success_Ok:
  "record_terminal_success j at = (j', Ok u) \<longleftrightarrow>
     \<not> is_blank at \<and>
     j' = j\<lparr>current_stage := TerminalSuccess,
            generation := (generation j)\<lparr>completed_at := Some at\<rparr>,
            terminal_outcome := Some
              \<lparr>to_kind = OutcomeSuccess, to_recorded_at = at, to_detail = None\<rparr>\<rparr>"
  by (cases "is_blank at") (auto simp: record_terminal_success_def)

lemma stage_rank_le_6: "workflow_stage_rank s \<le> 6"
  by (cases s) simp_all

lemma terminal_stage_data:
  assumes "journal_data_wf j" and "\<not> is_blank at"
  shows "journal_data_wf (j\<lparr>current_stage := st, generation := (generation j)\<lparr>completed_at := Some at\<rparr>,
           terminal_outcome := t\<rparr>)"
  using assms by (auto simp: journal_data_wf_def generation_wf_def checkpoint_wf_def)

lemma terminal_calls_data:
  assumes wf: "journal_data_wf j"
  shows "record_terminal_success j at = (j', Ok u) \<Longrightarrow> journal_data_wf j'"
    and "record_terminal_failure j at d = (j', Ok u) \<Longrightarrow> journal_data_wf j'"
  using terminal_stage_data [OF wf] by (auto simp: record_terminal_success_Ok record_terminal_failure_Ok)

lemma terminal_stage_wf:
  assumes "journal_wf j" and "\<not> is_blank at" and "opt_filled d"
    and "st = (if kind = OutcomeSuccess then TerminalSuccess else TerminalFailure)"
  shows "journal_wf (j\<lparr>current_stage := st,
           generation := (generation j)\<lparr>completed_at := Some at\<rparr>,
           terminal_outcome := Some \<lparr>to_kind = kind, to_recorded_at = at, to_detail = d\<rparr>\<rparr>)
         \<longleftrightarrow> stage_ready st (work j) (audit j)"
  using assms stage_rank_le_6 terminal_stage_data [of j at]
  by (auto simp: journal_wf_def stage_wf_def terminal_wf_def)

lemma set_stage_data: "journal_data_wf j \<Longrightarrow> journal_data_wf (set_stage j st)"
  by (auto simp: journal_data_wf_def checkpoint_wf_def set_stage_def)

lemma journal_new_wf: "journal_new i = Ok j \<Longrightarrow> journal_wf j"
  by (auto simp: journal_new_def Let_def and_then_Inr_iff validate_iff_wf_aux)

end
