(* ===== verification/Journal_Machine.thy ===== *)
theory Journal_Machine
  imports Workflow_Journal_Laws
begin

text \<open>
  The journal as a state machine whose steps are the public calls that succeed, with any
  arguments and in any order. Also what single calls do to the validity of a journal.
\<close>

section \<open>Steps\<close>

inductive journal_step :: "workflow_journal \<Rightarrow> workflow_journal \<Rightarrow> bool" where
  step_queue: "queue_work j k i = (j', Ok ()) \<Longrightarrow> journal_step j j'"
| step_checkpoint: "record_checkpoint j st k i at = (j', Ok b) \<Longrightarrow> journal_step j j'"
| step_freeze: "freeze_work_set j x = (j', Ok ()) \<Longrightarrow> journal_step j j'"
| step_published_root: "record_published_root j x at = (j', Ok ()) \<Longrightarrow> journal_step j j'"
| step_root_history: "record_root_history_entry j x at = (j', Ok ()) \<Longrightarrow> journal_step j j'"
| step_explanation: "record_root_change_explanation j x = (j', Ok ()) \<Longrightarrow> journal_step j j'"
| step_upsert: "upsert_subordinate_journal j impl loc gen meta = (j', Ok ()) \<Longrightarrow>
     journal_step j j'"
| step_stage: "journal_step j (set_stage j st)"
| step_success: "record_terminal_success j at = (j', Ok ()) \<Longrightarrow> journal_step j j'"
| step_failure: "record_terminal_failure j at d = (j', Ok ()) \<Longrightarrow> journal_step j j'"

definition journal_start :: "workflow_journal \<Rightarrow> bool" where
  "journal_start j \<longleftrightarrow> (\<exists>i. journal_new i = Ok j)"

lemmas journal_call_data =
  queue_work_data record_checkpoint_data audit_calls_data upsert_subordinate_journal_data
  set_stage_data terminal_calls_data

lemma journal_step_data: "journal_data_wf j \<Longrightarrow> journal_step j j' \<Longrightarrow> journal_data_wf j'"
  by (erule journal_step.cases) (auto intro: journal_call_data)

interpretation journal_machine: guarded_machine journal_start journal_step journal_data_wf
  by unfold_locales
    (auto simp: journal_start_def journal_wf_def dest: journal_new_wf intro: journal_step_data)

text \<open>The work a journal knows of a kind, pending or done.\<close>

definition known_work :: "workflow_journal \<Rightarrow> work_kind \<Rightarrow> rstring set" where
  "known_work j k = set (pending (inventory j k)) \<union> set (completed (inventory j k))"

lemma journal_step_progress:
  assumes "journal_step j j'"
  shows "known_work j k \<subseteq> known_work j' k \<and>
         set (completed (inventory j k)) \<subseteq> set (completed (inventory j' k)) \<and>
         (\<exists>cs. checkpoints j' = checkpoints j @ cs)"
  using assms
proof cases
  case (step_queue k i)
  then show ?thesis by (auto simp: queue_work_Ok known_work_def)
next
  case (step_checkpoint st k i at b)
  then show ?thesis by (auto simp: record_checkpoint_Ok known_work_def Let_def)
qed (auto simp: audit_calls_Ok set_stage_def
       upsert_subordinate_journal_Ok record_terminal_success_Ok record_terminal_failure_Ok
       known_work_def)

section \<open>A journal to evaluate on\<close>

definition sample_init :: workflow_journal_init where
  "sample_init =
     \<lparr>init_current_stage = SourceAcquisition,
      init_generation = \<lparr>generation_id = lit ''g'', journal_id = lit ''j'',
        started_at = lit ''t'', completed_at = None\<rparr>,
      init_source_snapshot = \<lparr>source_snapshot_id = lit ''s'', source_uri = lit ''u'',
        acquisition_started_at = None, acquisition_completed_at = None,
        corpus_manifest_identity = None, additional_provenance = []\<rparr>,
      init_effective_indexing_configuration =
        \<lparr>effective_indexing_configuration_id = lit ''e'', chunking_policy_id = lit ''c'',
         embedding_provider_or_model_id = lit ''m'',
         delegated_published_root_generation_id = lit ''d'',
         additional_root_affecting_inputs = []\<rparr>\<rparr>"

definition sample_journal :: workflow_journal where
  "sample_journal =
     \<lparr>schema_version = 1, authority = Workflow, current_stage = SourceAcquisition,
      generation = init_generation sample_init,
      source_snapshot = init_source_snapshot sample_init,
      effective_indexing_configuration = init_effective_indexing_configuration sample_init,
      work = default_inventories, audit = default_audit, checkpoints = [],
      subordinate_journals = [], terminal_outcome = None\<rparr>"

lemma nonblank_letter [simp]: "33 \<le> c \<Longrightarrow> c < 127 \<Longrightarrow> \<not> is_blank (c # s)"
  by (auto simp: is_blank_iff is_whitespace_def)

lemma sample_journal_wf: "journal_wf sample_journal"
  by (simp add: sample_journal_def sample_init_def journal_wf_defs default_audit_def
      default_inventories_def empty_inventory_def inventory_def all_work_kind inventory_wf_def
      audit_wf_def terminal_wf_def stage_ready_def generation_wf_def snapshot_wf_def configuration_wf_def)

lemma sample_journal_new: "journal_new sample_init = Ok sample_journal"
proof -
  have v: "validate sample_journal = Ok ()"
    by (simp add: validate_iff_wf_aux sample_journal_wf)
  have j: "\<lparr>schema_version = WORKFLOW_JOURNAL_SCHEMA_VERSION, authority = Workflow,
      current_stage = init_current_stage sample_init, generation = init_generation sample_init,
      source_snapshot = init_source_snapshot sample_init,
      effective_indexing_configuration = init_effective_indexing_configuration sample_init,
      work = default_inventories, audit = default_audit, checkpoints = [],
      subordinate_journals = [], terminal_outcome = None\<rparr> = sample_journal"
    by (simp add: sample_journal_def sample_init_def WORKFLOW_JOURNAL_SCHEMA_VERSION_def)
  have c: "checks
     [validate_generation_state (init_generation sample_init),
      validate_source_snapshot_state (init_source_snapshot sample_init),
      validate_effective_indexing_configuration
        (init_effective_indexing_configuration sample_init)] = Ok ()"
    using sample_journal_wf by (simp add: journal_wf_defs sample_journal_def checks_Inr_iff validate_parts)
  show ?thesis unfolding journal_new_def j Let_def c by (simp add: v)
qed

section \<open>Properties\<close>

text \<open>
  C1. \<open>validate\<close> returns \<^verbatim>\<open>Ok\<close> exactly for the well-formed journals: the schema and authority
  are the workflow's, every identifier and every time that is set is filled in, no item is both
  pending and completed, subordinate journals and checkpoints are pairwise distinct, every
  checkpointed item is completed and not ahead of the current stage, audit fields come in pairs,
  the terminal outcome fits the stage, and what the stage requires is there: no pending work of
  its predecessors, the frozen work set, the published root and the root history entry.
\<close>

theorem validate_iff_wf: "validate j = Ok () \<longleftrightarrow> journal_wf j"
  by (rule validate_iff_wf_aux)

text \<open>
  C2. After any successful calls on a new journal, with any arguments and in any order, the
  content of the journal is sound: identifiers are filled in, pending and completed items are
  apart, every checkpoint is of a completed item and there is one per item, the audit fields come
  in pairs, subordinate journals have distinct keys. So validation fails only when the stage does
  not fit: a checkpoint is ahead of it, the terminal outcome does not match it, or it needs work
  done or audit fields that are missing.
\<close>

theorem reachable_journal_validates:
  assumes "reach journal_start journal_step j"
  shows "journal_data_wf j \<and>
    (validate j = Ok () \<longleftrightarrow>
       (\<forall>c \<in> set (checkpoints j). workflow_stage_rank (cp_stage c) \<le> workflow_stage_rank (current_stage j)) \<and>
       terminal_wf (current_stage j) (terminal_outcome j) (completed_at (generation j)) \<and>
       stage_ready (current_stage j) (work j) (audit j))"
  using journal_machine.inv_reach [OF assms] by (simp add: validate_iff_wf_aux journal_wf_def stage_wf_def)

text \<open>A journal after two calls: an item was queued and then checkpointed at a later stage.\<close>

definition sample_progress :: workflow_journal where
  "sample_progress =
     fst (record_checkpoint (fst (queue_work sample_journal MailboxAdmission (lit ''a'')))
       StageMailboxAdmission MailboxAdmission (lit ''a'') (lit ''t''))"

theorem reachable_journal_validates_witness:
  "reach journal_start journal_step sample_progress \<and> journal_data_wf sample_progress \<and>
   checkpoints sample_progress \<noteq> [] \<and> validate sample_progress = Ok ()"
proof -
  let ?q = "queue_work sample_journal MailboxAdmission (lit ''a'')"
  let ?c = "record_checkpoint (fst ?q) StageMailboxAdmission MailboxAdmission (lit ''a'') (lit ''t'')"
  have r0: "reach journal_start journal_step sample_journal"
    by (rule reach_start) (use sample_journal_new in \<open>auto simp: journal_start_def\<close>)
  have "?q = (fst ?q, Ok ())" by (simp add: queue_work_def)
  then have r1: "reach journal_start journal_step (fst ?q)"
    by (intro reach_step [OF r0] step_queue)
  have "?c = (fst ?c, Ok True)"
    by (simp add: queue_work_def record_checkpoint_def sample_journal_def default_inventories_def
        empty_inventory_def inventory_def inventory_checkpoint_def inventory_queue_def btree_contains_def
        inventory_mut_def Let_def)
  then have r2: "reach journal_start journal_step sample_progress"
    unfolding sample_progress_def by (intro reach_step [OF r1] step_checkpoint)
  have p: "current_stage sample_progress = StageMailboxAdmission" "terminal_outcome sample_progress = None"
      "completed_at (generation sample_progress) = None"
      "checkpoints sample_progress = [\<lparr>cp_stage = StageMailboxAdmission, cp_work_kind = MailboxAdmission,
         cp_item_id = lit ''a'', cp_recorded_at = lit ''t''\<rparr>]"
    by (simp_all add: sample_progress_def queue_work_def record_checkpoint_def sample_journal_def sample_init_def
        default_inventories_def empty_inventory_def inventory_def inventory_checkpoint_def inventory_queue_def
        btree_contains_def inventory_mut_def Let_def)
  have "stage_ready StageMailboxAdmission w a" for w a by (simp add: stage_ready_def all_work_kind)
  then show ?thesis
    using r2 reachable_journal_validates [OF r2] by (simp add: p terminal_wf_def)
qed

text \<open>
  C15. Recording a checkpoint is idempotent: once an item of a kind is checkpointed, a repeated
  call for it (with any stage that is not terminal and any time that is not blank) returns \<open>False\<close> and leaves
  the journal as it is, so a resumed run adds no second record.
\<close>

theorem record_checkpoint_idempotent:
  assumes "record_checkpoint j st k i at = (j1, Ok b)"
    and "st' \<notin> {TerminalSuccess, TerminalFailure}" and "\<not> is_blank at'"
  shows "record_checkpoint j1 st' k i at' = (j1, Ok False)"
proof -
  let ?v = "fst (inventory_checkpoint (inventory j k) i)"
  have inv: "inventory j1 k = ?v" and i: "\<not> is_blank i"
    using assms(1) by (auto simp: record_checkpoint_Ok Let_def)
  have set_back: "inventory_mut j1 k ?v = j1"
    using inv by (cases k) (simp_all add: inventory_mut_def inventory_def)
  have "i \<in> set (completed (inventory j1 k))" by (simp add: inv)
  then show ?thesis
    using assms(2,3) i inventory_checkpoint_twice [of "inventory j k" i]
    by (simp add: record_checkpoint_Ok inv set_back)
qed

theorem record_checkpoint_idempotent_witness:
  "\<exists>j1. record_checkpoint sample_journal SourceAcquisition MailboxAdmission (lit ''a'') (lit ''t'')
     = (j1, Ok True) \<and>
   record_checkpoint j1 StageEmbedding MailboxAdmission (lit ''a'') (lit ''v'') = (j1, Ok False)"
proof -
  let ?r = "record_checkpoint sample_journal SourceAcquisition MailboxAdmission
              (lit ''a'') (lit ''t'')"
  have h: "?r = (fst ?r, Ok True)"
    by (simp add: record_checkpoint_def sample_journal_def default_inventories_def
        empty_inventory_def inventory_def inventory_checkpoint_def btree_contains_def
        inventory_mut_def Let_def)
  show ?thesis
    using h record_checkpoint_idempotent [OF h, of StageEmbedding "lit ''v''"] by auto
qed

text \<open>
  C23. No successful call loses work, whatever its arguments: the items known for a kind, the
  completed items and the checkpoint records of a journal are still there in every journal reached
  from it.
\<close>

theorem journal_progress_monotone:
  assumes "journal_step\<^sup>*\<^sup>* j j'"
  shows "set (pending (inventory j k)) \<union> set (completed (inventory j k))
           \<subseteq> set (pending (inventory j' k)) \<union> set (completed (inventory j' k)) \<and>
         set (completed (inventory j k)) \<subseteq> set (completed (inventory j' k)) \<and>
         set (checkpoints j) \<subseteq> set (checkpoints j')"
  using assms
proof (induction rule: rtranclp_induct)
  case (step j1 j2)
  from journal_step_progress [OF step.hyps(2), of k] step.IH show ?case
    unfolding known_work_def by auto
qed simp

theorem journal_progress_monotone_witness:
  "\<exists>j'. journal_step\<^sup>*\<^sup>* sample_journal j' \<and>
     j' = fst (queue_work sample_journal Chunking (lit ''a'')) \<and>
     set (pending (inventory sample_journal Chunking)) \<subseteq>
       set (pending (inventory j' Chunking)) \<union> set (completed (inventory j' Chunking))"
proof -
  let ?j' = "fst (queue_work sample_journal Chunking (lit ''a''))"
  have "queue_work sample_journal Chunking (lit ''a'') = (?j', Ok ())"
    by (simp add: queue_work_def)
  then have "journal_step sample_journal ?j'"
    by (rule step_queue)
  then have s: "journal_step\<^sup>*\<^sup>* sample_journal ?j'" by simp
  show ?thesis using s journal_progress_monotone [OF s, of Chunking] by auto
qed

text \<open>
  C24. \<open>record_terminal_success\<close> turns a valid journal into a valid one exactly when the work
  set is frozen, no mailbox, chunking or embedding work is pending and the published root and
  its history entry are recorded; otherwise the journal it leaves does not validate.
\<close>

theorem record_terminal_success_valid_iff:
  assumes "validate j = Ok ()" and "record_terminal_success j at = (j', Ok ())"
  shows "validate j' = Ok () \<longleftrightarrow>
     work_set_frozen (audit j) \<and> pending (inventory j MailboxAdmission) = [] \<and>
     pending (inventory j Chunking) = [] \<and> pending (inventory j Embedding) = [] \<and>
     published_root_id (audit j) \<noteq> None \<and> root_history_entry_id (audit j) \<noteq> None"
proof -
  have "validate j' = Ok () \<longleftrightarrow> stage_ready TerminalSuccess (work j) (audit j)"
    using assms by (simp add: validate_iff_wf_aux record_terminal_success_Ok terminal_stage_wf)
  then show ?thesis
    by (auto simp: stage_ready_def all_work_kind inventory_def)
qed

theorem record_terminal_success_valid_iff_witness:
  "record_terminal_success sample_journal (lit ''t'')
     = (fst (record_terminal_success sample_journal (lit ''t'')), Ok ()) \<and>
   validate (fst (record_terminal_success sample_journal (lit ''t''))) \<noteq> Ok ()"
proof -
  have v: "validate sample_journal = Ok ()"
    by (simp add: validate_iff_wf_aux sample_journal_wf)
  have r: "record_terminal_success sample_journal (lit ''t'')
     = (fst (record_terminal_success sample_journal (lit ''t'')), Ok ())"
    by (simp add: record_terminal_success_def)
  show ?thesis
    using r record_terminal_success_valid_iff [OF v r]
    by (simp add: sample_journal_def default_audit_def)
qed

text \<open>
  C31. \<open>record_published_root\<close> with a root but a blank time fails after it has already stored
  the root: a valid journal without a published root is left with one half of the pair, and
  validation (so also saving) then refuses the journal.
\<close>

theorem record_published_root_partial_failure:
  assumes "validate j = Ok ()" and "published_root_id (audit j) = None"
    and "\<not> is_blank root" and "is_blank at"
  shows "\<exists>j'. record_published_root j root at
           = (j', Err (EmptyField ''audit.published_root_recorded_at'')) \<and>
         published_root_id (audit j') = Some root \<and> validate j' \<noteq> Ok ()"
proof -
  let ?j' = "j\<lparr>audit := (audit j)\<lparr>published_root_id := Some root\<rparr>\<rparr>"
  have "audit_wf (audit j)"
    using assms(1) by (simp add: validate_iff_wf_aux journal_wf_defs)
  then have "published_root_recorded_at (audit j) = None"
    using assms(2) by (simp add: audit_wf_def)
  then have "\<not> audit_wf (audit ?j')" by (simp add: audit_wf_def)
  then have "validate ?j' \<noteq> Ok ()" by (auto simp: validate_iff_wf_aux journal_wf_defs)
  then show ?thesis using assms(3,4) by (auto simp: record_published_root_def)
qed

theorem record_published_root_partial_failure_witness:
  "validate sample_journal = Ok () \<and>
   (\<exists>j'. record_published_root sample_journal (lit ''r'') []
      = (j', Err (EmptyField ''audit.published_root_recorded_at'')) \<and> validate j' \<noteq> Ok ())"
proof -
  have v: "validate sample_journal = Ok ()"
    by (simp add: validate_iff_wf_aux sample_journal_wf)
  have n: "published_root_id (audit sample_journal) = None"
    by (simp add: sample_journal_def default_audit_def)
  show ?thesis
    using v record_published_root_partial_failure [OF v n, of "lit ''r''" "[]"] by auto
qed

text \<open>
  A checkpoint of a stage beyond the current one moves the journal forward to that stage,
  and the journal stays valid exactly when that stage is open: checkpointing is not a way
  around the publication barrier.
\<close>

theorem record_checkpoint_advances_stage:
  assumes "validate j = Ok ()" and "record_checkpoint j st k i at = (j', Ok True)"
    and "workflow_stage_rank (current_stage j) < workflow_stage_rank st"
    and "terminal_outcome j = None"
  shows "current_stage j' = st \<and>
     (validate j' = Ok () \<longleftrightarrow> validate_stage_ordered_state st (work j') (audit j) = Ok ())"
proof -
  have wf: "journal_wf j" using assms(1) by (simp add: validate_iff_wf_aux)
  have "current_stage j' = st" "terminal_outcome j' = None" "audit j' = audit j" "generation j' = generation j"
    "\<exists>c. cp_stage c = st \<and> checkpoints j' = checkpoints j @ [c]" "st \<notin> {TerminalSuccess, TerminalFailure}"
    using assms(2-4) by (auto simp: record_checkpoint_Ok Let_def)
  then have "stage_wf j' \<longleftrightarrow> stage_ready st (work j') (audit j)"
    using wf assms(3,4) by (fastforce simp: journal_wf_def stage_wf_def terminal_wf_def)
  then show ?thesis
    using record_checkpoint_data [OF _ assms(2)] wf assms(2,3)
    by (auto simp: validate_iff_wf_aux validate_stage_ordered_state_iff journal_wf_def record_checkpoint_Ok Let_def)
qed

theorem record_checkpoint_advances_stage_witness:
  "\<exists>j'. record_checkpoint sample_journal PublishedRootGeneration Indexing (lit ''a'') (lit ''t'')
      = (j', Ok True) \<and> current_stage j' = PublishedRootGeneration \<and> validate j' \<noteq> Ok ()"
proof -
  let ?r = "record_checkpoint sample_journal PublishedRootGeneration Indexing
              (lit ''a'') (lit ''t'')"
  have v: "validate sample_journal = Ok ()"
    by (simp add: validate_iff_wf_aux sample_journal_wf)
  have h: "?r = (fst ?r, Ok True)"
    by (simp add: record_checkpoint_def sample_journal_def default_inventories_def
        empty_inventory_def inventory_def inventory_checkpoint_def btree_contains_def
        inventory_mut_def Let_def)
  have "validate_stage_ordered_state PublishedRootGeneration (work (fst ?r))
      (audit sample_journal) \<noteq> Ok ()"
    by (simp add: validate_stage_ordered_state_iff stage_ready_def sample_journal_def
        default_audit_def)
  then show ?thesis
    using h record_checkpoint_advances_stage [OF v h]
    by (auto simp: sample_journal_def)
qed

end
