(* ===== verification/Rust_Path.thy ===== *)
theory Rust_Path
  imports Rust_Text "HOL-Library.Sublist"
begin

text \<open>
  The part of \<^verbatim>\<open>std::path::Path\<close> the sources use, on Unix paths in component form: whether the
  path has a root, and its components after it. \<^verbatim>\<open>Path\<close> compares, joins and strips prefixes
  component by component, so this form loses nothing those operations see.
\<close>

datatype path = Path (is_absolute: bool) (components: "rstring list")

definition display_path :: "path \<Rightarrow> rstring" where
  "display_path p = (if is_absolute p then [47] else []) @ join [47] (components p)"

text \<open>\<^verbatim>\<open>path.as_os_str().is_empty()\<close>.\<close>

definition path_is_empty :: "path \<Rightarrow> bool" where
  "path_is_empty p \<longleftrightarrow> \<not> is_absolute p \<and> components p = []"

definition path_join :: "path \<Rightarrow> path \<Rightarrow> path" where
  "path_join p q = (if is_absolute q then q else Path (is_absolute p) (components p @ components q))"

definition path_push :: "path \<Rightarrow> rstring \<Rightarrow> path" where
  "path_push p c = Path (is_absolute p) (components p @ [c])"

definition path_parent :: "path \<Rightarrow> path option" where
  "path_parent p =
     (if components p = [] then None else Some (Path (is_absolute p) (butlast (components p))))"

definition strip_path_prefix :: "path \<Rightarrow> path \<Rightarrow> path option" where
  "strip_path_prefix root p =
     (if is_absolute root = is_absolute p \<and> starts_with (components p) (components root)
      then Some (Path False (drop (length (components root)) (components p))) else None)"

text \<open>\<^verbatim>\<open>Path::extension\<close>: what follows the last dot of the file name, unless the dot leads it.\<close>

fun rsplit_dot :: "rstring \<Rightarrow> (rstring \<times> rstring) option" where
  "rsplit_dot [] = None"
| "rsplit_dot (c # cs) =
     (case rsplit_dot cs of
        Some (b, e) \<Rightarrow> Some (c # b, e)
      | None \<Rightarrow> if c = 46 then Some ([], cs) else None)"

definition path_extension :: "path \<Rightarrow> rstring option" where
  "path_extension p =
     (if components p = [] then None
      else let name = last (components p) in
        if name = lit ''..'' then None
        else case rsplit_dot name of
          None \<Rightarrow> None
        | Some (b, e) \<Rightarrow> if b = [] then None else Some e)"

lemma strip_path_prefix_join:
  "\<not> is_absolute q \<Longrightarrow> strip_path_prefix p (path_join p q) = Some q"
  by (cases q) (simp add: strip_path_prefix_def path_join_def starts_with_def)

lemma strip_path_prefix_Some:
  "strip_path_prefix p r = Some q \<Longrightarrow> r = path_join p q \<and> \<not> is_absolute q"
  by (cases r; cases p; cases q)
    (auto simp: strip_path_prefix_def path_join_def starts_with_iff split: if_splits)

lemma rsplit_dot_append: "46 \<notin> set e \<Longrightarrow> rsplit_dot (b @ 46 # e) = Some (b, e)"
proof (induction b)
  case Nil
  have "46 \<notin> set e \<Longrightarrow> rsplit_dot e = None" for e
    by (induction e) auto
  with Nil show ?case by simp
qed simp

end
