(* ===== verification/Journal_Store.thy ===== *)
theory Journal_Store
  imports Journal_Machine Rust_Path
begin

text \<open>
  \<^verbatim>\<open>WorkflowJournalStore\<close>: loading and saving the journal file. The file system is the content
  of the journal's path; what each I/O call of one save or load answers is a parameter, so
  that a failure can hit at any point. JSON (\<^verbatim>\<open>serde_json\<close>) is a parameter too: \<open>encode\<close> and
  \<open>decode\<close>.
\<close>

section \<open>The store\<close>

text \<open>What the I/O calls answer during one operation: \<open>None\<close> is success.\<close>

record io_outcomes =
  try_exists_fails :: "io_error option"
  read_fails :: "io_error option"
  create_dir_fails :: "io_error option"
  temp_file_fails :: "io_error option"
  write_all_fails :: "io_error option"
  sync_all_fails :: "io_error option"
  remove_fails :: "io_error option"
  persist_fails :: "io_error option"
  open_parent_fails :: "io_error option"
  sync_parent_fails :: "io_error option"

definition io_fine :: io_outcomes where
  "io_fine = \<lparr>try_exists_fails = None, read_fails = None, create_dir_fails = None,
     temp_file_fails = None, write_all_fails = None, sync_all_fails = None,
     remove_fails = None, persist_fails = None, open_parent_fails = None,
     sync_parent_fails = None\<rparr>"

text \<open>The build's target, for \<^verbatim>\<open>cfg(windows)\<close> and \<^verbatim>\<open>cfg(unix)\<close>.\<close>

datatype target = Windows | Unix | OtherTarget

definition io_call :: "(io_error \<Rightarrow> workflow_journal_error) \<Rightarrow> io_error option
    \<Rightarrow> workflow_journal_error + unit" where
  "io_call f e = (case e of None \<Rightarrow> Ok () | Some x \<Rightarrow> Err (f x))"

definition journal_path_exists ::
  "path \<Rightarrow> io_outcomes \<Rightarrow> bytes option \<Rightarrow> workflow_journal_error + bool" where
  "journal_path_exists p io file =
     (case try_exists_fails io of
        Some e \<Rightarrow> Err (ReadJournal (display_path p) e)
      | None \<Rightarrow> Ok (file \<noteq> None))"

definition journal_parent_directory :: "path \<Rightarrow> path" where
  "journal_parent_directory p =
     (case path_parent p of
        Some q \<Rightarrow> if path_is_empty q then Path False [lit ''.''] else q
      | None \<Rightarrow> Path False [lit ''.''])"

definition journal_load ::
  "(bytes \<Rightarrow> rstring + workflow_journal) \<Rightarrow> path \<Rightarrow> io_outcomes \<Rightarrow> bytes option
     \<Rightarrow> workflow_journal_error + workflow_journal option" where
  "journal_load decode p io file =
     and_then (journal_path_exists p io file) (\<lambda>exists.
       if \<not> exists then Ok None
       else case read_fails io of
         Some e \<Rightarrow> Err (ReadJournal (display_path p) e)
       | None \<Rightarrow> (case file of
           None \<Rightarrow> Err (ReadJournal (display_path p) IoNotFound)
         | Some content \<Rightarrow>
             and_then (map_err (ParseJournal (display_path p)) (decode content)) (\<lambda>j.
               and_then (validate j) (\<lambda>_. Ok (Some j)))))"

text \<open>The destination before the rename: on Windows an existing file is removed first.\<close>

definition remove_existing_destination_file ::
  "path \<Rightarrow> io_outcomes \<Rightarrow> bytes option \<Rightarrow> bytes option \<times> (workflow_journal_error + unit)" where
  "remove_existing_destination_file p io file =
     (case remove_fails io of
        None \<Rightarrow> (None, Ok ())
      | Some IoNotFound \<Rightarrow> (file, Ok ())
      | Some e \<Rightarrow> (file, Err (PersistJournal (display_path p) e)))"

definition persist_overwriting_if_needed ::
  "target \<Rightarrow> path \<Rightarrow> io_outcomes \<Rightarrow> bytes \<Rightarrow> bytes option
     \<Rightarrow> bytes option \<times> (workflow_journal_error + unit)" where
  "persist_overwriting_if_needed tgt p io temp file =
     (let (file1, r1) =
        (if tgt = Windows
         then (case journal_path_exists p io file of
                 Inl e \<Rightarrow> (file, Err e)
               | Inr ex \<Rightarrow> if ex then remove_existing_destination_file p io file
                           else (file, Ok ()))
         else (file, Ok ()))
      in case r1 of
           Inl e \<Rightarrow> (file1, Err e)
         | Inr _ \<Rightarrow> (case persist_fails io of
             Some e \<Rightarrow> (file1, Err (PersistJournal (display_path p) e))
           | None \<Rightarrow> (Some temp, Ok ())))"

definition sync_parent_directory ::
  "target \<Rightarrow> path \<Rightarrow> io_outcomes \<Rightarrow> workflow_journal_error + unit" where
  "sync_parent_directory tgt p io =
     (if tgt = Unix
      then checks [io_call (WriteJournal (display_path p)) (open_parent_fails io),
                   io_call (WriteJournal (display_path p)) (sync_parent_fails io)]
      else Ok ())"

text \<open>The part of \<^verbatim>\<open>save\<close> before the rename: the bytes of the temporary file.\<close>

definition write_temp_journal ::
  "(workflow_journal \<Rightarrow> rstring + bytes) \<Rightarrow> path \<Rightarrow> io_outcomes \<Rightarrow> workflow_journal
     \<Rightarrow> workflow_journal_error + bytes" where
  "write_temp_journal encode p io j =
     and_then (checks
       [validate j,
        io_call (WriteJournal (display_path p)) (create_dir_fails io),
        io_call (WriteJournal (display_path p)) (temp_file_fails io)]) (\<lambda>_.
     and_then (map_err (SerializeJournal (display_path p)) (encode j)) (\<lambda>json.
     and_then (checks
       [io_call (WriteJournal (display_path p)) (write_all_fails io),
        io_call (WriteJournal (display_path p)) (sync_all_fails io)]) (\<lambda>_.
     Ok (json @ [10]))))"

definition journal_save ::
  "target \<Rightarrow> (workflow_journal \<Rightarrow> rstring + bytes) \<Rightarrow> path \<Rightarrow> io_outcomes \<Rightarrow> workflow_journal
     \<Rightarrow> bytes option \<Rightarrow> bytes option \<times> (workflow_journal_error + unit)" where
  "journal_save tgt encode p io j file =
     (case write_temp_journal encode p io j of
        Inl e \<Rightarrow> (file, Err e)
      | Inr temp \<Rightarrow>
          (case persist_overwriting_if_needed tgt p io temp file of
             (file1, Inl e) \<Rightarrow> (file1, Err e)
           | (file1, Inr _) \<Rightarrow> (file1, sync_parent_directory tgt p io)))"

section \<open>Laws\<close>

lemma persist_result:
  "tgt \<noteq> Windows \<Longrightarrow> persist_overwriting_if_needed tgt p io temp file =
     (case persist_fails io of
        Some e \<Rightarrow> (file, Err (PersistJournal (display_path p) e)) | None \<Rightarrow> (Some temp, Ok ()))"
  by (simp add: persist_overwriting_if_needed_def)

lemma save_written:
  "journal_save tgt encode p io j file = (file', Ok ()) \<Longrightarrow>
     \<exists>json. encode j = Ok json \<and> validate j = Ok () \<and> file' = Some (json @ [10])"
  by (auto simp: journal_save_def write_temp_journal_def result_simps
        persist_overwriting_if_needed_def split: sum.splits prod.splits option.splits if_splits)

section \<open>Properties\<close>

text \<open>
  C29. A journal that was saved is loaded back: when \<open>journal_save\<close> returns \<^verbatim>\<open>Ok\<close>, a later load
  whose I/O succeeds returns that journal. JSON's part is the hypothesis that decoding the
  encoded journal followed by a newline gives the journal back.
\<close>

theorem journal_save_load_roundtrip:
  assumes "journal_save tgt encode p io j file = (file', Ok ())"
    and json: "\<And>bs. encode j = Ok bs \<Longrightarrow> decode (bs @ [10]) = Ok j"
    and "try_exists_fails io' = None" and "read_fails io' = None"
  shows "journal_load decode p io' file' = Ok (Some j)"
  using save_written [OF assms(1)] json assms(3,4)
  by (auto simp: journal_load_def journal_path_exists_def)

definition one_journal_encode :: "workflow_journal \<Rightarrow> workflow_journal \<Rightarrow> rstring + bytes" where
  "one_journal_encode j0 j = (if j = j0 then Ok [123, 125] else Err (lit ''unsupported''))"

definition one_journal_decode :: "workflow_journal \<Rightarrow> bytes \<Rightarrow> rstring + workflow_journal" where
  "one_journal_decode j0 bs = (if bs = [123, 125, 10] then Ok j0 else Err (lit ''syntax''))"

lemma sample_validates: "validate sample_journal = Ok ()"
  by (simp add: validate_iff_wf_aux sample_journal_wf)

lemma sample_save:
  "journal_save Unix (one_journal_encode sample_journal) (Path True [lit ''j'']) io_fine
     sample_journal None = (Some [123, 125, 10], Ok ())"
  by (simp add: journal_save_def write_temp_journal_def io_call_def io_fine_def
      persist_overwriting_if_needed_def sync_parent_directory_def one_journal_encode_def
      sample_validates)

theorem journal_save_load_roundtrip_witness:
  "journal_load (one_journal_decode sample_journal) (Path True [lit ''j'']) io_fine
     (Some [123, 125, 10]) = Ok (Some sample_journal)"
  using journal_save_load_roundtrip [OF sample_save,
    of "one_journal_decode sample_journal" io_fine]
  by (simp add: one_journal_encode_def one_journal_decode_def io_fine_def)

text \<open>
  C30. On a target other than Windows the save replaces the file in one step. The old file stays,
  and the save fails, exactly when the journal does not validate or encode, or one of the calls
  before the rename (creating the directory and the temporary file, writing it, syncing it) or the
  rename itself fails. Otherwise the file is the encoded journal with a newline, and the save
  succeeds unless syncing the directory fails.
\<close>

theorem journal_save_atomic:
  assumes "tgt \<noteq> Windows"
    and "journal_save tgt encode p io j file = (file', r)"
  shows "(if (\<exists>json. encode j = Ok json) \<and> validate j = Ok () \<and> create_dir_fails io = None \<and>
             temp_file_fails io = None \<and> write_all_fails io = None \<and> sync_all_fails io = None \<and>
             persist_fails io = None
          then (\<exists>json. encode j = Ok json \<and> file' = Some (json @ [10])) \<and>
               (r = Ok () \<longleftrightarrow> tgt \<noteq> Unix \<or> open_parent_fails io = None \<and> sync_parent_fails io = None)
          else file' = file \<and> r \<noteq> Ok ())"
proof (cases "write_temp_journal encode p io j")
  case (Inl e)
  then show ?thesis using assms(2)
    by (auto simp: journal_save_def write_temp_journal_def io_call_def result_simps split: option.splits)
next
  case (Inr temp)
  then obtain json where json: "encode j = Ok json" "validate j = Ok ()" "temp = json @ [10]"
    and ok: "create_dir_fails io = None" "temp_file_fails io = None" "write_all_fails io = None" "sync_all_fails io = None"
    by (auto simp: write_temp_journal_def io_call_def result_simps split: option.splits)
  show ?thesis
  proof (cases "persist_fails io")
    case None
    then show ?thesis
      using Inr assms json ok
      by (cases tgt; cases "open_parent_fails io"; cases "sync_parent_fails io")
        (auto simp: journal_save_def persist_result sync_parent_directory_def io_call_def)
  next
    case (Some e)
    then show ?thesis using Inr assms by (auto simp: journal_save_def persist_result)
  qed
qed

text \<open>Disk full while the temporary file is synced: the old journal stays.\<close>

theorem journal_save_atomic_witness:
  "Unix \<noteq> Windows \<and>
   fst (journal_save Unix (one_journal_encode sample_journal) (Path True [lit ''j''])
     (io_fine\<lparr>sync_all_fails := Some (IoOther (lit ''full''))\<rparr>) sample_journal (Some [1])) = Some [1]"
proof -
  let ?r = "journal_save Unix (one_journal_encode sample_journal) (Path True [lit ''j''])
     (io_fine\<lparr>sync_all_fails := Some (IoOther (lit ''full''))\<rparr>) sample_journal (Some [1])"
  have r: "?r = (fst ?r, snd ?r)" by simp
  show ?thesis using journal_save_atomic [OF _ r] by (simp add: io_fine_def)
qed

text \<open>
  C32. On Windows it is not: the existing journal is removed before the rename, so a rename
  that fails leaves no journal at all, although a valid one was there.
\<close>

theorem journal_save_windows_loses_file:
  assumes "validate j = Ok ()" and "encode j = Ok json"
  shows "journal_save Windows encode p (io_fine\<lparr>persist_fails := Some (IoOther e)\<rparr>) j (Some old)
           = (None, Err (PersistJournal (display_path p) (IoOther e)))"
  using assms
  by (simp add: journal_save_def write_temp_journal_def io_call_def io_fine_def
      persist_overwriting_if_needed_def journal_path_exists_def
      remove_existing_destination_file_def)

theorem journal_save_windows_loses_file_witness:
  "journal_save Windows (one_journal_encode sample_journal) (Path True [lit ''j''])
     (io_fine\<lparr>persist_fails := Some (IoOther (lit ''x''))\<rparr>) sample_journal (Some [1])
     = (None, Err (PersistJournal (display_path (Path True [lit ''j''])) (IoOther (lit ''x''))))"
  by (rule journal_save_windows_loses_file [OF sample_validates])
    (simp add: one_journal_encode_def)

end
