(* ===== verification/Block_Model.thy ===== *)
theory Block_Model
  imports Rust_Path Ordered_Containers
begin

unbundle bit_operations_syntax

text \<open>
  What the crates share about content-addressed blocks: CBOR values
  (\<^verbatim>\<open>ciborium::Value\<close>), decoded blocks, the payload of a custom block and block ids in
  hexadecimal. The block library itself (encoding, hashing, validation) is not part of the
  repository: its functions are arguments of the definitions that call it.

  The text of a block id is parsed in three places of the sources
  (\<^verbatim>\<open>snapshot.rs\<close>, \<^verbatim>\<open>resolver.rs\<close>, \<^verbatim>\<open>tree_tools.rs\<close>). The contract \<open>hash_parser\<close> states what
  their callers rely on, and all three are interpreted against it.
\<close>

section \<open>Values and blocks\<close>

text \<open>A float is kept as its bit pattern. \<^verbatim>\<open>Value\<close> is a non-exhaustive enum: \<open>VOther\<close> stands for
  the variants the sources do not name.\<close>

datatype cbor =
    VInteger int
  | VBytes bytes
  | VFloat u64
  | VText rstring
  | VBool bool
  | VNull
  | VTag u64 cbor
  | VArray "cbor list"
  | VMap "(cbor \<times> cbor) list"
  | VOther nat

type_synonym block_hash = bytes

definition HASH_LEN :: nat where
  "HASH_LEN = 32"

text \<open>\<^verbatim>\<open>BlockStoreError\<close>: the two variants the sources build or match, and the others.\<close>

datatype block_store_error = BackendFailure rstring | DecodeFailure rstring | OtherStoreError rstring

record leaf_entry =
  entry_metadata :: "(cbor \<times> cbor) list"

record custom_block =
  custom_type_name :: rstring
  custom_content :: cbor

datatype block_v1 = V1Branch "block_hash list" | V1Leaf "leaf_entry list"

datatype typed_block =
    Branch rstring "block_hash list"
  | Leaf rstring "leaf_entry list"
  | Custom custom_block

text \<open>A version 2 block is only known after \<^verbatim>\<open>v2::into_typed_block\<close>; until then it is opaque.\<close>

datatype 'v decoded_block = V1 block_v1 | V2 'v

definition VERSION_1 :: nat where
  "VERSION_1 = 1"

fun typed_block_name :: "typed_block \<Rightarrow> rstring" where
  "typed_block_name (Branch n _) = n"
| "typed_block_name (Leaf n _) = n"
| "typed_block_name (Custom c) = custom_type_name c"

section \<open>Fields of a map\<close>

fun match_text :: "rstring \<Rightarrow> cbor \<times> cbor \<Rightarrow> rstring option" where
  "match_text name (VText k, VText v) = (if k = name then Some v else None)"
| "match_text name _ = None"

fun match_bytes :: "rstring \<Rightarrow> cbor \<times> cbor \<Rightarrow> bytes option" where
  "match_bytes name (VText k, VBytes v) = (if k = name then Some v else None)"
| "match_bytes name _ = None"

definition text_field :: "rstring \<Rightarrow> (cbor \<times> cbor) list \<Rightarrow> rstring option" where
  "text_field name fs = find_map (match_text name) fs"

definition bytes_field :: "rstring \<Rightarrow> (cbor \<times> cbor) list \<Rightarrow> bytes option" where
  "bytes_field name fs = find_map (match_bytes name) fs"

text \<open>The content every artifact block of the repository is built with.\<close>

definition artifact_content :: "rstring \<Rightarrow> bytes \<Rightarrow> cbor" where
  "artifact_content media_type body =
     VMap [(VText (lit ''media_type''), VText media_type), (VText (lit ''body''), VBytes body)]"

datatype payload_error = ContentNotMap | MissingMediaType | MissingBody

fun custom_block_payload :: "cbor \<Rightarrow> payload_error + rstring \<times> bytes" where
  "custom_block_payload (VMap fs) =
     and_then (ok_or MissingMediaType (text_field (lit ''media_type'') fs)) (\<lambda>media_type.
     and_then (ok_or MissingBody (bytes_field (lit ''body'') fs)) (\<lambda>body.
     Ok (media_type, body)))"
| "custom_block_payload _ = Err ContentNotMap"

lemma text_field_artifact:
  "custom_block_payload (artifact_content m b) = Ok (m, b)"
  by (simp add: artifact_content_def text_field_def bytes_field_def)

section \<open>Hexadecimal block ids\<close>

text \<open>One digit, as \<^verbatim>\<open>resolver.rs\<close> and \<^verbatim>\<open>snapshot.rs\<close> decode it (\<open>None\<close> is no digit).\<close>

definition decode_hex_nibble :: "u8 \<Rightarrow> u8 option" where
  "decode_hex_nibble b =
     (if 48 \<le> b \<and> b \<le> 57 then Some (b - 48)
      else if 97 \<le> b \<and> b \<le> 102 then Some (b - 97 + 10)
      else if 65 \<le> b \<and> b \<le> 70 then Some (b - 65 + 10)
      else None)"

text \<open>The same digit in \<^verbatim>\<open>tree_tools.rs\<close>, as a \<^verbatim>\<open>Result<u8, ()>\<close>.\<close>

definition tree_decode_hex_nibble :: "u8 \<Rightarrow> unit + u8" where
  "tree_decode_hex_nibble b =
     (if 48 \<le> b \<and> b \<le> 57 then Ok (b - 48)
      else if 97 \<le> b \<and> b \<le> 102 then Ok (b - 97 + 10)
      else if 65 \<le> b \<and> b \<le> 70 then Ok (b - 65 + 10)
      else Err ())"

text \<open>The loop over \<^verbatim>\<open>chunks_exact(2)\<close>: a trailing odd byte is not visited.\<close>

fun decode_pairs :: "(u8 \<Rightarrow> 'e + u8) \<Rightarrow> bytes \<Rightarrow> 'e + bytes" where
  "decode_pairs nib (h # l # bs) =
     and_then (nib h) (\<lambda>high. and_then (nib l) (\<lambda>low. and_then (decode_pairs nib bs) (\<lambda>rest.
       Ok ((push_bit 4 high OR low) # rest))))"
| "decode_pairs nib _ = Ok []"

definition hex_digit :: "u8 \<Rightarrow> uchar" where
  "hex_digit d = (if d < 10 then 48 + unat d else 87 + unat d)"

definition hex_encode :: "bytes \<Rightarrow> rstring" where
  "hex_encode bs = concat (map (\<lambda>b. [hex_digit (drop_bit 4 b), hex_digit (b AND 15)]) bs)"

datatype parse_block_hash_error = ParseBlockHashError rstring

definition parse_block_hash :: "rstring \<Rightarrow> parse_block_hash_error + block_hash" where
  "parse_block_hash value =
     (if length (utf8 value) \<noteq> HASH_LEN * 2 then Err (ParseBlockHashError value)
      else decode_pairs
        (\<lambda>b. map_err (\<lambda>_. ParseBlockHashError value) (tree_decode_hex_nibble b)) (utf8 value))"

subsection \<open>The contract\<close>

locale hash_parser =
  fixes parse :: "rstring \<Rightarrow> 'e + block_hash"
    and bad :: "rstring \<Rightarrow> 'e"
  assumes parse_accepts:
      "length h = HASH_LEN \<Longrightarrow> to_ascii_lowercase s = hex_encode h \<Longrightarrow> parse s = Ok h"
    and parse_sound:
      "parse s = Ok h \<Longrightarrow> length h = HASH_LEN \<and> to_ascii_lowercase s = hex_encode h"
    and parse_error: "parse s = Err e \<Longrightarrow> e = bad s"
begin

lemma parse_iff: "parse s = Ok h \<longleftrightarrow> length h = HASH_LEN \<and> to_ascii_lowercase s = hex_encode h"
  using parse_accepts parse_sound by blast

lemma parse_case_insensitive:
  assumes "eq_ignore_ascii_case s t"
  shows "parse s = Ok h \<longleftrightarrow> parse t = Ok h"
  using assms by (simp add: parse_iff eq_ignore_ascii_case_def)

lemma parse_total: "(\<exists>h. parse s = Ok h) \<or> parse s = Err (bad s)"
  using parse_error by (cases "parse s") auto

end

subsection \<open>Digits\<close>

lemma all_nibbles: "(\<forall>d :: u8. d < 16 \<longrightarrow> P d) \<longleftrightarrow> (\<forall>n \<in> set [0..<16]. P (of_nat n))"
proof
  assume r: "\<forall>n \<in> set [0..<16]. P (of_nat n)"
  show "\<forall>d :: u8. d < 16 \<longrightarrow> P d"
  proof (intro allI impI)
    fix d :: u8
    assume "d < 16"
    then have "unat d \<in> set [0..<16]" by (simp add: word_less_nat_alt)
    then have "P (of_nat (unat d))" using r by blast
    then show "P d" by simp
  qed
next
  assume l: "\<forall>d :: u8. d < 16 \<longrightarrow> P d"
  show "\<forall>n \<in> set [0..<16]. P (of_nat n)"
  proof
    fix n assume "n \<in> set [0..<16]"
    then have "(of_nat n :: u8) < 16" by (simp add: word_less_nat_alt unat_of_nat)
    then show "P (of_nat n)" using l by blast
  qed
qed

lemma digit_decodes_all:
  "\<forall>d :: u8. d < 16 \<longrightarrow> tree_decode_hex_nibble (of_nat (hex_digit d)) = Inr d \<and> hex_digit d < 128 \<and>
     ascii_lower (hex_digit d) = hex_digit d"
  unfolding all_nibbles by code_simp

lemma high_nibble_small: "drop_bit 4 b < (16 :: u8)"
proof -
  have "unat b < 256" using unsigned_less [of b] by simp
  then have "unat b div 16 < 16" by linarith
  then show ?thesis by (simp add: word_less_nat_alt drop_bit_eq_div unat_div)
qed

lemma low_nibble: "b AND 15 = take_bit 4 (b :: u8)"
proof -
  have "(15 :: u8) = mask 4" by (simp add: mask_eq_exp_minus_1)
  then show ?thesis by (simp add: take_bit_eq_mask)
qed

lemma low_nibble_small: "b AND 15 < (16 :: u8)"
proof -
  have "unat (take_bit 4 b) = unat b mod 16" by (simp add: take_bit_eq_mod unat_mod)
  also have "\<dots> < 16" by simp
  finally show ?thesis by (simp add: low_nibble word_less_nat_alt)
qed

lemma nibbles_join: "(push_bit 4 (drop_bit 4 b) OR (b AND 15)) = (b :: u8)"
  unfolding low_nibble by (rule bit_word_eqI) (auto simp: bit_simps)

lemma small_nibble_bit: "h < (16 :: u8) \<Longrightarrow> bit h n \<Longrightarrow> n < 4"
proof -
  assume h: "h < 16" and b: "bit h n"
  have "unat (take_bit 4 h) = unat h mod 16" by (simp add: take_bit_eq_mod unat_mod)
  also have "\<dots> = unat h" using h by (simp add: word_less_nat_alt)
  finally have "take_bit 4 h = h" by (simp add: word_unat_eq_iff)
  then have "bit (take_bit 4 h) n" using b by simp
  then show "n < 4" by (simp add: bit_simps)
qed

lemma nibble_of_digits_all:
  "\<forall>b :: u8. tree_decode_hex_nibble (of_nat (hex_digit (drop_bit 4 b))) = Inr (drop_bit 4 b) \<and>
     tree_decode_hex_nibble (of_nat (hex_digit (b AND 15))) = Inr (b AND 15) \<and>
     (push_bit 4 (drop_bit 4 b) OR (b AND 15)) = b \<and>
     hex_digit (drop_bit 4 b) < 128 \<and> hex_digit (b AND 15) < 128"
  using digit_decodes_all high_nibble_small low_nibble_small nibbles_join by blast

lemma decode_nibble_value:
  assumes "tree_decode_hex_nibble b = Inr v"
  shows "v < 16 \<and> hex_digit v = ascii_lower (unat b) \<and> b < 128"
proof -
  have u: "unat (b - k + 10) = unat b - unat k + 10"
    if "k \<le> b" and "unat b - unat k < 16" for k :: u8
  proof -
    have "unat (b - k) = unat b - unat k" using that(1) by (simp add: unat_sub word_le_nat_alt)
    then show ?thesis using that(2) by (simp add: unat_word_ariths)
  qed
  consider (digit) "48 \<le> b" "b \<le> 57" "v = b - 48"
    | (lower) "97 \<le> b" "b \<le> 102" "v = b - 97 + 10"
    | (upper) "65 \<le> b" "b \<le> 70" "v = b - 65 + 10"
    using assms by (auto simp: tree_decode_hex_nibble_def split: if_splits)
  then show ?thesis
  proof cases
    case digit
    then have "unat v = unat b - 48" by (simp add: unat_sub word_le_nat_alt)
    then show ?thesis using digit
      by (simp add: hex_digit_def ascii_lower_def word_le_nat_alt word_less_nat_alt)
  next
    case lower
    then have "unat v = unat b - 97 + 10" using u [of 97] by (simp add: word_le_nat_alt)
    then show ?thesis using lower
      by (auto simp: hex_digit_def ascii_lower_def word_le_nat_alt word_less_nat_alt)
  next
    case upper
    then have "unat v = unat b - 65 + 10" using u [of 65] by (simp add: word_le_nat_alt)
    then show ?thesis using upper
      by (auto simp: hex_digit_def ascii_lower_def word_le_nat_alt word_less_nat_alt)
  qed
qed

lemma digit_of_nibble_all:
  "\<forall>b :: u8. case tree_decode_hex_nibble b of Inl _ \<Rightarrow> True
     | Inr v \<Rightarrow> v < 16 \<and> hex_digit v = ascii_lower (unat b) \<and> b < 128"
  using decode_nibble_value by (auto split: sum.splits)

lemma byte_of_nibbles:
  assumes "h < 16" and "l < (16 :: u8)"
  shows "drop_bit 4 (push_bit 4 h OR l) = h \<and> (push_bit 4 h OR l) AND 15 = l"
proof
  show "drop_bit 4 (push_bit 4 h OR l) = h"
    by (rule bit_word_eqI)
      (use small_nibble_bit [OF assms(1)] small_nibble_bit [OF assms(2)] in \<open>auto simp: bit_simps; fastforce\<close>)
  show "(push_bit 4 h OR l) AND 15 = l"
    unfolding low_nibble
    by (rule bit_word_eqI) (use small_nibble_bit [OF assms(2)] in \<open>auto simp: bit_simps\<close>)
qed

lemma nibble_lower_all:
  "\<forall>b :: u8. tree_decode_hex_nibble (of_nat (ascii_lower (unat b))) = tree_decode_hex_nibble b"
proof
  fix b :: u8
  show "tree_decode_hex_nibble (of_nat (ascii_lower (unat b))) = tree_decode_hex_nibble b"
  proof (cases "65 \<le> b \<and> b \<le> 90")
    case True
    define n where "n = unat b"
    have n: "65 \<le> n" "n \<le> 90" using True by (simp_all add: n_def word_le_nat_alt)
    have u: "unat (b + 32) = n + 32" using n by (simp add: n_def unat_word_ariths)
    have "b + 32 - 97 = b - 65" by simp
    moreover have "of_nat (ascii_lower (unat b)) = b + 32"
      using n by (simp add: ascii_lower_def n_def)
    ultimately show ?thesis using n u
      by (simp add: tree_decode_hex_nibble_def word_le_nat_alt n_def)
  next
    case False
    then have "ascii_lower (unat b) = unat b" by (auto simp: ascii_lower_def word_le_nat_alt)
    then show ?thesis by simp
  qed
qed

lemma nibble_lower:
  "c < 128 \<Longrightarrow> tree_decode_hex_nibble (of_nat (ascii_lower c)) = tree_decode_hex_nibble (of_nat c)"
  using nibble_lower_all [rule_format, of "of_nat c"] by (simp add: take_bit_nat_eq_self unat_of_nat)

lemma decode_nibble_copies:
  "decode_hex_nibble b = (case tree_decode_hex_nibble b of Inl _ \<Rightarrow> None | Inr v \<Rightarrow> Some v)"
  by (simp add: decode_hex_nibble_def tree_decode_hex_nibble_def)

lemma hex_encode_ascii: "c \<in> set (hex_encode bs) \<Longrightarrow> c < 128"
  using nibble_of_digits_all by (auto simp: hex_encode_def)

lemma length_hex_encode [simp]: "length (hex_encode bs) = 2 * length bs"
  by (induction bs) (auto simp: hex_encode_def)

lemma hex_encode_simps [simp]:
  "hex_encode [] = []"
  "hex_encode (b # bs) = hex_digit (drop_bit 4 b) # hex_digit (b AND 15) # hex_encode bs"
  by (simp_all add: hex_encode_def)

subsection \<open>All three parsers keep the contract\<close>

lemma decode_pairs_map_err:
  "decode_pairs (\<lambda>b. map_err f (nib b)) bs = map_err f (decode_pairs nib bs)"
proof (induction nib bs rule: decode_pairs.induct)
  case (1 nib h l bs)
  then show ?case
    by (cases "nib h"; cases "nib l"; cases "decode_pairs nib bs") auto
qed auto

lemma decode_pairs_sound:
  "decode_pairs tree_decode_hex_nibble bs = Inr h \<Longrightarrow> even (length bs) \<Longrightarrow>
     hex_encode h = map (\<lambda>b. ascii_lower (unat b)) bs \<and> (\<forall>b \<in> set bs. b < 128)"
proof (induction "tree_decode_hex_nibble" bs arbitrary: h rule: decode_pairs.induct)
  case (1 a b bs)
  from 1(2) obtain hi lo rest where p: "tree_decode_hex_nibble a = Inr hi"
    "tree_decode_hex_nibble b = Inr lo" "decode_pairs tree_decode_hex_nibble bs = Inr rest"
    and h: "h = (push_bit 4 hi OR lo) # rest"
    by (auto simp: result_simps)
  have hi: "hi < 16" "hex_digit hi = ascii_lower (unat a)" "a < 128"
    using digit_of_nibble_all [rule_format, of a] p(1) by auto
  have lo: "lo < 16" "hex_digit lo = ascii_lower (unat b)" "b < 128"
    using digit_of_nibble_all [rule_format, of b] p(2) by auto
  have "hex_encode rest = map (\<lambda>b. ascii_lower (unat b)) bs \<and> (\<forall>b \<in> set bs. b < 128)"
    using 1(1) [OF p(3)] 1(3) by simp
  then show ?case using hi lo h byte_of_nibbles [OF hi(1) lo(1)] by simp
qed auto

lemma decode_pairs_accepts:
  "\<forall>c \<in> set s. c < 128 \<Longrightarrow> to_ascii_lowercase s = hex_encode h \<Longrightarrow>
     decode_pairs tree_decode_hex_nibble (map of_nat s) = Inr h"
proof (induction h arbitrary: s)
  case Nil
  then show ?case by (simp add: to_ascii_lowercase_def)
next
  case (Cons b h)
  from Cons.prems(2) obtain c d t where s: "s = c # d # t"
    and cd: "ascii_lower c = hex_digit (drop_bit 4 b)" "ascii_lower d = hex_digit (b AND 15)"
    and t: "to_ascii_lowercase t = hex_encode h"
    by (auto simp: to_ascii_lowercase_def map_eq_Cons_conv)
  have "decode_pairs tree_decode_hex_nibble (map of_nat t) = Inr h"
    using Cons.IH [of t] Cons.prems(1) s t by simp
  moreover have "tree_decode_hex_nibble (of_nat c) = Inr (drop_bit 4 b)"
    "tree_decode_hex_nibble (of_nat d) = Inr (b AND 15)"
    using nibble_lower [of c] nibble_lower [of d] Cons.prems(1) s cd nibble_of_digits_all by simp_all
  ultimately show ?case using s nibble_of_digits_all by simp
qed

lemma utf8_char_high: "128 \<le> c \<Longrightarrow> \<exists>b \<in> set (utf8_char c). 128 \<le> b"
proof -
  assume c: "128 \<le> c"
  have b: "128 \<le> (of_nat (128 + k mod 64) :: u8)" for k :: nat
    by (simp add: word_le_nat_alt unat_of_nat del: of_nat_add)
  show ?thesis using c b [of c] b [of "c div 64"] by (auto simp: utf8_char_def simp del: of_nat_add)
qed

lemma utf8_low_ascii: "\<forall>b \<in> set (utf8 s). b < 128 \<Longrightarrow> \<forall>c \<in> set s. c < 128"
proof (rule ccontr)
  assume low: "\<forall>b \<in> set (utf8 s). b < 128" and "\<not> (\<forall>c \<in> set s. c < 128)"
  then obtain c where c: "c \<in> set s" "128 \<le> c" by (auto simp: not_less)
  then obtain b where "b \<in> set (utf8_char c)" "128 \<le> b" using utf8_char_high by blast
  then show False using low c(1) by (fastforce simp: utf8_def not_less [symmetric])
qed

lemma ascii_of_lower: "ascii_lower c < 128 \<Longrightarrow> c < 128"
  by (simp add: ascii_lower_def split: if_splits)

lemma parse_with_iff:
  "(length (utf8 s) = HASH_LEN * 2 \<and> decode_pairs tree_decode_hex_nibble (utf8 s) = Inr h) \<longleftrightarrow>
     length h = HASH_LEN \<and> to_ascii_lowercase s = hex_encode h"
proof
  assume l: "length (utf8 s) = HASH_LEN * 2 \<and> decode_pairs tree_decode_hex_nibble (utf8 s) = Inr h"
  then have d: "hex_encode h = map (\<lambda>b. ascii_lower (unat b)) (utf8 s) \<and> (\<forall>b \<in> set (utf8 s). b < 128)"
    using decode_pairs_sound [of "utf8 s" h] by simp
  then have asc: "\<forall>c \<in> set s. c < 128" by (blast dest: utf8_low_ascii)
  then have u: "utf8 s = map of_nat s" by (rule utf8_ascii)
  have "hex_encode h = to_ascii_lowercase s"
    using d asc by (auto simp: u to_ascii_lowercase_def unat_of_nat mod_less)
  moreover have "length h = HASH_LEN" using d l length_hex_encode [of h] by simp
  ultimately show "length h = HASH_LEN \<and> to_ascii_lowercase s = hex_encode h" by simp
next
  assume r: "length h = HASH_LEN \<and> to_ascii_lowercase s = hex_encode h"
  have asc: "\<forall>c \<in> set s. c < 128"
  proof
    fix c assume "c \<in> set s"
    then have "ascii_lower c \<in> set (to_ascii_lowercase s)" by (simp add: to_ascii_lowercase_def)
    then have "ascii_lower c \<in> set (hex_encode h)" using r by simp
    then show "c < 128" using hex_encode_ascii ascii_of_lower by blast
  qed
  have "length s = length (to_ascii_lowercase s)" by (simp add: to_ascii_lowercase_def)
  then have "length s = HASH_LEN * 2" using r by simp
  then show "length (utf8 s) = HASH_LEN * 2 \<and> decode_pairs tree_decode_hex_nibble (utf8 s) = Inr h"
    using decode_pairs_accepts [OF asc, of h] r by (simp add: utf8_ascii [OF asc])
qed

text \<open>The two copies that decode a digit to an option build the error from the whole text.\<close>

lemma decode_pairs_option:
  "decode_pairs (\<lambda>b. ok_or e (decode_hex_nibble b)) bs =
     map_err (\<lambda>_. e) (decode_pairs tree_decode_hex_nibble bs)"
proof -
  have "(\<lambda>b. ok_or e (decode_hex_nibble b)) = (\<lambda>b. map_err (\<lambda>_. e) (tree_decode_hex_nibble b))"
    by (auto simp: decode_nibble_copies split: sum.splits)
  then show ?thesis by (simp add: decode_pairs_map_err)
qed

lemma hash_parserI:
  assumes "\<And>s. parse s =
    (if length (utf8 s) \<noteq> HASH_LEN * 2 then Inl (bad s)
     else map_err (\<lambda>_. bad s) (decode_pairs tree_decode_hex_nibble (utf8 s)))"
  shows "hash_parser parse bad"
proof
  fix s h
  assume "length h = HASH_LEN" "to_ascii_lowercase s = hex_encode h"
  then show "parse s = Inr h" using parse_with_iff [of s h] by (simp add: assms)
next
  fix s h
  assume "parse s = Inr h"
  then show "length h = HASH_LEN \<and> to_ascii_lowercase s = hex_encode h"
    using parse_with_iff [of s h] by (auto simp: assms result_simps split: if_splits)
next
  fix s e
  assume "parse s = Inl e"
  then show "e = bad s"
    by (cases "decode_pairs tree_decode_hex_nibble (utf8 s)") (auto simp: assms split: if_splits)
qed

interpretation tree_hash: hash_parser parse_block_hash ParseBlockHashError
  by (rule hash_parserI) (simp add: parse_block_hash_def decode_pairs_map_err)

lemma lower_hex_encode: "to_ascii_lowercase (hex_encode h) = hex_encode h"
proof (induction h)
  case (Cons b h)
  have "ascii_lower (hex_digit (b AND 15)) = hex_digit (b AND 15)"
      "ascii_lower (hex_digit (drop_bit 4 b)) = hex_digit (drop_bit 4 b)"
    using digit_decodes_all high_nibble_small low_nibble_small by blast+
  then show ?case using Cons by (simp add: to_ascii_lowercase_def)
qed (simp add: to_ascii_lowercase_def)

end
