(* ===== verification/Rust_Order.thy ===== *)
theory Rust_Order
  imports Prelude "HOL-Library.Multiset" "HOL-Library.List_Lexorder"
begin

text \<open>
  \<^verbatim>\<open>std::cmp::Ordering\<close>, comparison functions and the stable \<^verbatim>\<open>slice::sort_by\<close>. The contract
  \<open>total_cmp\<close> is what \<^verbatim>\<open>sort_by\<close> asks of its comparison function; the facts about sorting
  are proved from it once.
\<close>

datatype ordering = Less | Equal | Greater

definition cmp :: "'a :: linorder \<Rightarrow> 'a \<Rightarrow> ordering" where
  "cmp a b = (if a < b then Less else if a = b then Equal else Greater)"

fun then_with :: "ordering \<Rightarrow> ordering \<Rightarrow> ordering" where
  "then_with Equal r = r"
| "then_with Less r = Less"
| "then_with Greater r = Greater"

text \<open>Insertion before the first element that is greater keeps equal elements in order.\<close>

fun insert_by :: "('a \<Rightarrow> 'a \<Rightarrow> ordering) \<Rightarrow> 'a \<Rightarrow> 'a list \<Rightarrow> 'a list" where
  "insert_by c x [] = [x]"
| "insert_by c x (y # ys) = (if c x y = Greater then y # insert_by c x ys else x # y # ys)"

definition sort_by :: "('a \<Rightarrow> 'a \<Rightarrow> ordering) \<Rightarrow> 'a list \<Rightarrow> 'a list" where
  "sort_by c xs = foldr (insert_by c) xs []"

text \<open>The test over \<^verbatim>\<open>windows(2)\<close>: two neighbours that compare equal.\<close>

fun has_equal_neighbours :: "('a \<Rightarrow> 'a \<Rightarrow> ordering) \<Rightarrow> 'a list \<Rightarrow> bool" where
  "has_equal_neighbours c (x # y # ys) = (c x y = Equal \<or> has_equal_neighbours c (y # ys))"
| "has_equal_neighbours c _ = False"

lemma mset_insert_by [simp]: "mset (insert_by c x ys) = add_mset x (mset ys)"
  by (induction ys) auto

lemma mset_sort_by [simp]: "mset (sort_by c xs) = mset xs"
  by (induction xs) (auto simp: sort_by_def)

lemma set_sort_by [simp]: "set (sort_by c xs) = set xs"
  by (metis mset_sort_by set_mset_mset)

lemma set_insert_by: "set (insert_by c x ys) = insert x (set ys)"
  by (metis mset_insert_by set_mset_add_mset_insert set_mset_mset)

lemma length_sort_by [simp]: "length (sort_by c xs) = length xs"
  by (metis mset_sort_by size_mset)

locale total_cmp =
  fixes c :: "'a \<Rightarrow> 'a \<Rightarrow> ordering"
  assumes cmp_swap: "c x y = Greater \<longleftrightarrow> c y x = Less"
    and cmp_trans: "c x y \<noteq> Greater \<Longrightarrow> c y z \<noteq> Greater \<Longrightarrow> c x z \<noteq> Greater"
begin

lemma cmp_total: "c x y = Greater \<Longrightarrow> c y x \<noteq> Greater"
  using cmp_swap [of x y] by simp

lemma sorted_insert_by:
  "sorted_wrt (\<lambda>x y. c x y \<noteq> Greater) ys \<Longrightarrow> sorted_wrt (\<lambda>x y. c x y \<noteq> Greater) (insert_by c x ys)"
proof (induction ys)
  case (Cons y ys)
  show ?case
  proof (cases "c x y = Greater")
    case True
    then have "c y x \<noteq> Greater" by (rule cmp_total)
    then show ?thesis using True Cons by (auto simp: set_insert_by)
  next
    case False
    then show ?thesis using Cons.prems cmp_trans [of x y] by auto
  qed
qed simp

lemma sorted_sort_by: "sorted_wrt (\<lambda>x y. c x y \<noteq> Greater) (sort_by c xs)"
  by (induction xs) (auto simp: sort_by_def sorted_insert_by)

lemma cmp_equal_sandwich:
  assumes "c x y \<noteq> Greater" and "c y z \<noteq> Greater" and "c x z = Equal"
  shows "c x y = Equal"
proof (rule ccontr)
  assume "c x y \<noteq> Equal"
  then have "c x y = Less" using assms(1) by (cases "c x y") auto
  then have "c y x = Greater" by (simp add: cmp_swap)
  moreover have "c z x \<noteq> Greater" using assms(3) cmp_swap by (metis ordering.distinct(1))
  ultimately show False using assms(2) cmp_trans by blast
qed

lemma neighbours_strict:
  "sorted_wrt (\<lambda>x y. c x y \<noteq> Greater) xs \<Longrightarrow>
     \<not> has_equal_neighbours c xs \<longleftrightarrow> sorted_wrt (\<lambda>x y. c x y = Less) xs"
proof (induction xs)
  case (Cons x xs)
  show ?case
  proof (cases xs)
    case (Cons y ys)
    show ?thesis
    proof
      assume "\<not> has_equal_neighbours c (x # xs)"
      then have xy: "c x y \<noteq> Equal" and tail: "sorted_wrt (\<lambda>x y. c x y = Less) xs"
        using Cons.IH Cons.prems \<open>xs = y # ys\<close> by auto
      have "c x z = Less" if z: "z \<in> set xs" for z
      proof -
        have g: "c x z \<noteq> Greater" "c x y \<noteq> Greater" using Cons.prems z \<open>xs = y # ys\<close> by auto
        have "z = y \<or> c y z = Less" using z tail \<open>xs = y # ys\<close> by auto
        then have "c x z \<noteq> Equal" using g xy cmp_equal_sandwich [of x y z] by auto
        then show ?thesis using g by (cases "c x z") auto
      qed
      then show "sorted_wrt (\<lambda>x y. c x y = Less) (x # xs)" using tail by simp
    qed (use Cons.IH Cons.prems \<open>xs = y # ys\<close> in auto)
  qed simp
qed simp

end

lemma cmp_simps: "cmp a b = Less \<longleftrightarrow> a < b" "cmp a b = Equal \<longleftrightarrow> a = b" "cmp a b = Greater \<longleftrightarrow> b < a"
  by (auto simp: cmp_def)

interpretation cmp: total_cmp cmp
  by unfold_locales (auto simp: cmp_simps)

lemma then_with_simps:
  "then_with r s = Less \<longleftrightarrow> r = Less \<or> (r = Equal \<and> s = Less)"
  "then_with r s = Equal \<longleftrightarrow> r = Equal \<and> s = Equal"
  "then_with r s = Greater \<longleftrightarrow> r = Greater \<or> (r = Equal \<and> s = Greater)"
  by (cases r; cases s; simp)+

end
