(* ===== verification/Source_Snapshot.thy ===== *)
theory Source_Snapshot
  imports Journal_Machine Block_Model Rust_Order
begin

text \<open>
  Source acquisition of the archive-sync crate (\<^verbatim>\<open>snapshot.rs\<close>): rsync a mail archive into a
  directory, store every regular file and a manifest as blocks, and record the snapshot and
  its mailboxes in the workflow journal; or resume from a manifest that is already recorded.

  The block library, serde and SHA-256 are the functions of \<open>snapshot_lib\<close>; rsync and the
  file system give the outcome of each call (\<open>snapshot_fs\<close>). The walk over the directory is a
  loop over a stack, so it takes fuel: \<open>None\<close> means that the fuel ran out.
\<close>

section \<open>Data\<close>

definition SNAPSHOT_MANIFEST_SCHEMA_VERSION :: u32 where
  "SNAPSHOT_MANIFEST_SCHEMA_VERSION = 1"

definition SNAPSHOT_ARTIFACT_BLOCK_TYPE :: rstring where
  "SNAPSHOT_ARTIFACT_BLOCK_TYPE = lit ''lexonarchivebuilder/source-snapshot-artifact''"

datatype snapshot_error =
    EmptySourceUri
  | EmptyAcquiredAt
  | SourceUriMismatch rstring rstring
  | MissingCompletedManifestIdentity
  | InvalidManifestBlockId rstring
  | MissingManifestBlock rstring
  | ManifestBlockLegacyVersion rstring nat
  | ManifestBlockWrongType rstring rstring
  | ManifestBlockMissingContent rstring
  | DecodeManifestBlock rstring rstring
  | ManifestBlockWrongMediaType rstring rstring
  | CreateSnapshotRoot path io_error
  | EnumerateSnapshotRoot path io_error
  | ReadSnapshotFile path io_error
  | SnapshotPathOutsideRoot path path
  | StoreSnapshotPayload path block_store_error
  | SerializeManifest rstring
  | ParseManifest rstring rstring
  | UnsupportedManifestSchemaVersion rstring u32 u32
  | ManifestSourceUriMismatch rstring rstring rstring
  | StoreManifest block_store_error
  | BuildSnapshotBlock rstring rstring
  | LoadManifest rstring block_store_error
  | UpdateJournal workflow_journal_error
  | RsyncFailed rstring

record manifest_entry =
  relative_path :: rstring
  me_block_id :: rstring
  byte_length :: nat

record source_snapshot_manifest =
  manifest_schema_version :: u32
  manifest_source_uri :: rstring
  manifest_snapshot_id :: rstring
  acquired_at :: rstring
  entries :: "manifest_entry list"

record acquired_source_snapshot =
  acq_source_snapshot_id :: rstring
  acq_manifest_block_id :: rstring
  acq_manifest :: "source_snapshot_manifest option"
  reused_existing :: bool

datatype file_type = SymlinkType | DirType | FileType | OtherType

record snapshot_fs =
  create_dir_all :: "path \<Rightarrow> io_error + unit"
  symlink_metadata :: "path \<Rightarrow> io_error + file_type"
  read_dir :: "path \<Rightarrow> io_error + (io_error + path) list"
  read_file :: "path \<Rightarrow> io_error + bytes"

record ('s, 'v) snapshot_lib =
  sl_build_custom_block :: "rstring \<Rightarrow> cbor \<Rightarrow> rstring + 'v"
  sl_put_versioned :: "'s \<Rightarrow> 'v \<Rightarrow> 's \<times> (block_store_error + block_hash)"
  sl_get_decoded :: "'s \<Rightarrow> block_hash \<Rightarrow> block_store_error + 'v decoded_block option"
  sl_into_typed_block :: "'v \<Rightarrow> rstring + typed_block"
  sl_show_hash :: "block_hash \<Rightarrow> rstring"
  sl_sha256 :: "bytes \<Rightarrow> bytes"
  identity_to_vec :: "rstring \<Rightarrow> manifest_entry list \<Rightarrow> rstring + bytes"
  manifest_to_vec_pretty :: "source_snapshot_manifest \<Rightarrow> rstring + bytes"
  manifest_from_slice :: "bytes \<Rightarrow> rstring + source_snapshot_manifest"

section \<open>Rsync\<close>

text \<open>The outcome of running the command: it could not start, or it ended with a status.\<close>

datatype command_status = StartFailed rstring | ExitStatus bool rstring

definition build_command :: "rstring \<Rightarrow> rstring \<Rightarrow> path \<Rightarrow> rstring list" where
  "build_command executable uri destination =
     [executable, lit ''-a'', lit ''--delete'', lit ''--partial'', lit ''--'', uri, display_path destination]"

definition command_sync ::
  "(rstring list \<Rightarrow> command_status) \<Rightarrow> rstring \<Rightarrow> rstring \<Rightarrow> path \<Rightarrow> snapshot_error + unit" where
  "command_sync run executable uri destination =
     (case run (build_command executable uri destination) of
        StartFailed e \<Rightarrow> Err (RsyncFailed (lit ''failed to start '' @ executable @ lit '' for '' @ uri @
          lit '' -> '' @ display_path destination @ lit '': '' @ e))
      | ExitStatus ok status \<Rightarrow>
          if ok then Ok ()
          else Err (RsyncFailed (executable @ lit '' exited with status '' @ status @
            lit '' while syncing '' @ uri @ lit '' -> '' @ display_path destination)))"

section \<open>Blocks and ids\<close>

definition snapshot_block :: "('s, 'v) snapshot_lib \<Rightarrow> rstring \<Rightarrow> bytes \<Rightarrow> snapshot_error + 'v" where
  "snapshot_block lib media_type body =
     map_err (BuildSnapshotBlock media_type)
       (sl_build_custom_block lib SNAPSHOT_ARTIFACT_BLOCK_TYPE (artifact_content media_type body))"

fun snapshot_custom_block_payload :: "cbor \<Rightarrow> rstring \<Rightarrow> snapshot_error + rstring \<times> bytes" where
  "snapshot_custom_block_payload (VMap fs) block_id =
     and_then (ok_or (DecodeManifestBlock block_id (lit ''snapshot custom block content is missing media_type''))
                 (text_field (lit ''media_type'') fs)) (\<lambda>m.
     and_then (ok_or (ManifestBlockMissingContent block_id) (bytes_field (lit ''body'') fs)) (\<lambda>b.
       Ok (m, b)))"
| "snapshot_custom_block_payload _ block_id =
     Err (DecodeManifestBlock block_id (lit ''snapshot custom block content must be a CBOR map''))"

definition snapshot_parse_block_hash :: "rstring \<Rightarrow> snapshot_error + block_hash" where
  "snapshot_parse_block_hash value =
     (if length (utf8 value) \<noteq> HASH_LEN * 2 then Err (InvalidManifestBlockId value)
      else decode_pairs (\<lambda>b. ok_or (InvalidManifestBlockId value) (decode_hex_nibble b)) (utf8 value))"

interpretation snapshot_hash: hash_parser snapshot_parse_block_hash InvalidManifestBlockId
  by (rule hash_parserI) (simp add: snapshot_parse_block_hash_def decode_pairs_option)

definition mailbox_work_item_id :: "rstring \<Rightarrow> rstring" where
  "mailbox_work_item_id p = lit ''mailbox:'' @ p"

definition normalize_relative_path :: "path \<Rightarrow> path \<Rightarrow> snapshot_error + rstring" where
  "normalize_relative_path root p =
     (case strip_path_prefix root p of
        None \<Rightarrow> Err (SnapshotPathOutsideRoot root p)
      | Some rel \<Rightarrow> Ok (join [47] (components rel)))"

definition derive_source_snapshot_id ::
  "('s, 'v) snapshot_lib \<Rightarrow> rstring \<Rightarrow> manifest_entry list \<Rightarrow> rstring + rstring" where
  "derive_source_snapshot_id lib uri es =
     and_then (identity_to_vec lib uri es) (\<lambda>bs. Ok (hex_encode (sl_sha256 lib bs)))"

section \<open>The directory walk\<close>

text \<open>\<^verbatim>\<open>PathBuf\<close> compares component by component; the root is less than any name.\<close>

definition path_key :: "path \<Rightarrow> rstring list" where
  "path_key p = (if is_absolute p then [[]] else []) @ components p"

definition path_cmp :: "path \<Rightarrow> path \<Rightarrow> ordering" where
  "path_cmp p q = cmp (path_key p) (path_key q)"

definition read_children :: "snapshot_fs \<Rightarrow> path \<Rightarrow> snapshot_error + path list" where
  "read_children fs p =
     and_then (map_err (EnumerateSnapshotRoot p) (read_dir fs p)) (\<lambda>found.
       try_map (map_err (EnumerateSnapshotRoot p)) found)"

definition snapshot_file ::
  "('s, 'v) snapshot_lib \<Rightarrow> snapshot_fs \<Rightarrow> 's \<Rightarrow> path \<Rightarrow> path
     \<Rightarrow> ('s, snapshot_error, manifest_entry) fallible" where
  "snapshot_file lib fs st root p =
     (case and_then (normalize_relative_path root p) (\<lambda>rel.
           and_then (map_err (ReadSnapshotFile p) (read_file fs p)) (\<lambda>bs.
           and_then (snapshot_block lib (lit ''application/octet-stream'') bs) (\<lambda>block.
             Ok (rel, bs, block)))) of
        Inl e \<Rightarrow> (st, Err e)
      | Inr (rel, bs, block) \<Rightarrow> (case sl_put_versioned lib st block of
          (st', Inl e) \<Rightarrow> (st', Err (StoreSnapshotPayload p e))
        | (st', Inr h) \<Rightarrow> (st', Ok \<lparr>relative_path = rel, me_block_id = sl_show_hash lib h,
                                 byte_length = length bs\<rparr>)))"

text \<open>The stack is a list with its top first: pushing the sorted children in reverse order puts
  the least child on top.\<close>

fun collect_loop ::
  "nat \<Rightarrow> ('s, 'v) snapshot_lib \<Rightarrow> snapshot_fs \<Rightarrow> 's \<Rightarrow> path \<Rightarrow> path list \<Rightarrow> manifest_entry list
     \<Rightarrow> ('s, snapshot_error, manifest_entry list) fallible option" where
  "collect_loop n lib fs st root [] es = Some (st, Ok es)"
| "collect_loop 0 lib fs st root (p # ps) es = None"
| "collect_loop (Suc n) lib fs st root (p # ps) es =
     (case symlink_metadata fs p of
        Inl e \<Rightarrow> Some (st, Err (EnumerateSnapshotRoot p e))
      | Inr SymlinkType \<Rightarrow> collect_loop n lib fs st root ps es
      | Inr DirType \<Rightarrow> (case read_children fs p of
          Inl e \<Rightarrow> Some (st, Err e)
        | Inr children \<Rightarrow> collect_loop n lib fs st root (sort_by path_cmp children @ ps) es)
      | Inr OtherType \<Rightarrow> collect_loop n lib fs st root ps es
      | Inr FileType \<Rightarrow> (case snapshot_file lib fs st root p of
          (st', Inl e) \<Rightarrow> Some (st', Err e)
        | (st', Inr entry) \<Rightarrow> collect_loop n lib fs st' root ps (es @ [entry])))"

definition collect_snapshot_entries ::
  "nat \<Rightarrow> ('s, 'v) snapshot_lib \<Rightarrow> snapshot_fs \<Rightarrow> 's \<Rightarrow> path \<Rightarrow> path
     \<Rightarrow> ('s, snapshot_error, manifest_entry list) fallible option" where
  "collect_snapshot_entries n lib fs st root current = collect_loop n lib fs st root [current] []"

section \<open>The manifest\<close>

definition load_source_snapshot_manifest ::
  "('s, 'v) snapshot_lib \<Rightarrow> 's \<Rightarrow> rstring \<Rightarrow> snapshot_error + source_snapshot_manifest" where
  "load_source_snapshot_manifest lib st block_id =
     and_then (snapshot_parse_block_hash block_id) (\<lambda>h.
     and_then (map_err (LoadManifest block_id) (sl_get_decoded lib st h)) (\<lambda>found.
     and_then (ok_or (MissingManifestBlock block_id) found) (\<lambda>decoded.
       case decoded of
         V1 _ \<Rightarrow> Err (ManifestBlockLegacyVersion block_id VERSION_1)
       | V2 validated \<Rightarrow>
           and_then (map_err (DecodeManifestBlock block_id) (sl_into_typed_block lib validated)) (\<lambda>typed.
             case typed of
               Custom custom \<Rightarrow>
                 if custom_type_name custom \<noteq> SNAPSHOT_ARTIFACT_BLOCK_TYPE
                 then Err (ManifestBlockWrongType block_id (custom_type_name custom))
                 else and_then (snapshot_custom_block_payload (custom_content custom) block_id) (\<lambda>(m, b).
                   if m \<noteq> lit ''application/json'' then Err (ManifestBlockWrongMediaType block_id m)
                   else and_then (map_err (ParseManifest block_id) (manifest_from_slice lib b)) (\<lambda>manifest.
                     if manifest_schema_version manifest \<noteq> SNAPSHOT_MANIFEST_SCHEMA_VERSION
                     then Err (UnsupportedManifestSchemaVersion block_id SNAPSHOT_MANIFEST_SCHEMA_VERSION
                            (manifest_schema_version manifest))
                     else Ok manifest))
             | other \<Rightarrow> Err (ManifestBlockWrongType block_id (typed_block_name other))))))"

section \<open>Acquisition\<close>

fun queue_mailboxes ::
  "workflow_journal \<Rightarrow> manifest_entry list \<Rightarrow> (workflow_journal, snapshot_error, unit) fallible" where
  "queue_mailboxes j [] = (j, Ok ())"
| "queue_mailboxes j (e # es) =
     (case queue_work j MailboxAdmission (mailbox_work_item_id (relative_path e)) of
        (j', Inl err) \<Rightarrow> (j', Err (UpdateJournal err))
      | (j', Inr _) \<Rightarrow> queue_mailboxes j' es)"

type_synonym 's snapshot_state = "'s \<times> workflow_journal"

text \<open>The branch for a journal whose acquisition is recorded as completed.\<close>

definition resume_source_snapshot ::
  "('s, 'v) snapshot_lib \<Rightarrow> 's \<Rightarrow> workflow_journal \<Rightarrow> rstring
     \<Rightarrow> ('s snapshot_state, snapshot_error, acquired_source_snapshot) fallible" where
  "resume_source_snapshot lib st j uri =
     (case and_then (ok_or MissingCompletedManifestIdentity (corpus_manifest_identity (source_snapshot j))) (\<lambda>block_id.
           and_then (load_source_snapshot_manifest lib st block_id) (\<lambda>manifest.
             if manifest_source_uri manifest \<noteq> uri
             then Err (ManifestSourceUriMismatch block_id (manifest_source_uri manifest) uri)
             else Ok (block_id, manifest))) of
        Inl e \<Rightarrow> ((st, j), Err e)
      | Inr (block_id, manifest) \<Rightarrow>
          let j1 = j\<lparr>source_snapshot := (source_snapshot j)\<lparr>source_snapshot_id := manifest_snapshot_id manifest\<rparr>\<rparr>;
              (j2, queued) =
                (if current_stage j1 \<in> {SourceAcquisition, StageMailboxAdmission}
                 then queue_mailboxes j1 (entries manifest) else (j1, Ok ()))
          in case queued of
               Inl e \<Rightarrow> ((st, j2), Err e)
             | Inr _ \<Rightarrow>
                 ((st, if current_stage j2 = SourceAcquisition then set_stage j2 StageMailboxAdmission else j2),
                  Ok \<lparr>acq_source_snapshot_id = manifest_snapshot_id manifest, acq_manifest_block_id = block_id,
                      acq_manifest = Some manifest, reused_existing = True\<rparr>))"

definition begin_acquisition :: "workflow_journal \<Rightarrow> rstring \<Rightarrow> workflow_journal" where
  "begin_acquisition j at =
     (let j1 = set_stage j SourceAcquisition
      in j1\<lparr>source_snapshot := (source_snapshot j1)
             \<lparr>acquisition_started_at := Some at, acquisition_completed_at := None,
              corpus_manifest_identity := None, additional_provenance := []\<rparr>\<rparr>)"

definition complete_acquisition ::
  "workflow_journal \<Rightarrow> rstring \<Rightarrow> rstring \<Rightarrow> rstring \<Rightarrow> nat \<Rightarrow> workflow_journal" where
  "complete_acquisition j snapshot_id at block_id entry_count =
     j\<lparr>source_snapshot := (source_snapshot j)
         \<lparr>source_snapshot_id := snapshot_id, acquisition_completed_at := Some at,
          corpus_manifest_identity := Some block_id,
          additional_provenance :=
            bmap_insert (lit ''entry_count'') (show_nat entry_count)
             (bmap_insert (lit ''manifest_block_id'') block_id
              (bmap_insert (lit ''storage_seam'') (lit ''block-store'')
                (additional_provenance (source_snapshot j))))\<rparr>\<rparr>"

text \<open>Everything after the walk: derive the id, store the manifest, update the journal.\<close>

definition publish_snapshot ::
  "('s, 'v) snapshot_lib \<Rightarrow> 's \<Rightarrow> workflow_journal \<Rightarrow> rstring \<Rightarrow> rstring \<Rightarrow> manifest_entry list
     \<Rightarrow> ('s snapshot_state, snapshot_error, acquired_source_snapshot) fallible" where
  "publish_snapshot lib st j uri at es =
     (case and_then (map_err SerializeManifest (derive_source_snapshot_id lib uri es)) (\<lambda>snapshot_id.
           let manifest = \<lparr>manifest_schema_version = SNAPSHOT_MANIFEST_SCHEMA_VERSION,
                           manifest_source_uri = uri, manifest_snapshot_id = snapshot_id,
                           acquired_at = at, entries = es\<rparr> in
           and_then (map_err SerializeManifest (manifest_to_vec_pretty lib manifest)) (\<lambda>bs.
           and_then (snapshot_block lib (lit ''application/json'') bs) (\<lambda>block.
             Ok (manifest, block)))) of
        Inl e \<Rightarrow> ((st, j), Err e)
      | Inr (manifest, block) \<Rightarrow> (case sl_put_versioned lib st block of
          (st', Inl e) \<Rightarrow> ((st', j), Err (StoreManifest e))
        | (st', Inr h) \<Rightarrow>
            let block_id = sl_show_hash lib h;
                j1 = complete_acquisition j (manifest_snapshot_id manifest) at block_id (length es)
            in case queue_mailboxes j1 es of
                 (j2, Inl e) \<Rightarrow> ((st', j2), Err e)
               | (j2, Inr _) \<Rightarrow>
                   ((st', set_stage j2 StageMailboxAdmission),
                    Ok \<lparr>acq_source_snapshot_id = manifest_snapshot_id manifest,
                        acq_manifest_block_id = block_id, acq_manifest = Some manifest,
                        reused_existing = False\<rparr>)))"

definition acquire_source_snapshot ::
  "nat \<Rightarrow> ('s, 'v) snapshot_lib \<Rightarrow> snapshot_fs \<Rightarrow> (rstring \<Rightarrow> path \<Rightarrow> snapshot_error + unit) \<Rightarrow> 's
     \<Rightarrow> workflow_journal \<Rightarrow> rstring \<Rightarrow> path \<Rightarrow> rstring
     \<Rightarrow> ('s snapshot_state, snapshot_error, acquired_source_snapshot) fallible option" where
  "acquire_source_snapshot n lib fs sync st j uri0 root at0 =
     (let uri = trim uri0; at = trim at0 in
      if uri = [] then Some ((st, j), Err EmptySourceUri)
      else if at = [] then Some ((st, j), Err EmptyAcquiredAt)
      else if trim (source_uri (source_snapshot j)) \<noteq> uri
      then Some ((st, j), Err (SourceUriMismatch (source_uri (source_snapshot j)) uri))
      else if acquisition_completed_at (source_snapshot j) \<noteq> None
      then Some (resume_source_snapshot lib st j uri)
      else case map_err (CreateSnapshotRoot root) (create_dir_all fs root) of
        Inl e \<Rightarrow> Some ((st, j), Err e)
      | Inr _ \<Rightarrow>
          let j1 = begin_acquisition j at in
          case sync uri root of
            Inl e \<Rightarrow> Some ((st, j1), Err e)
          | Inr _ \<Rightarrow> (case collect_snapshot_entries n lib fs st root root of
              None \<Rightarrow> None
            | Some (st', Inl e) \<Rightarrow> Some ((st', j1), Err e)
            | Some (st', Inr es) \<Rightarrow> Some (publish_snapshot lib st' j1 uri at es)))"

end
