(* ===== verification/Source_Snapshot_Laws.thy ===== *)
theory Source_Snapshot_Laws
  imports Source_Snapshot
begin

text \<open>
  Laws of source acquisition. The directory walk terminates on every finite tree and visits
  the regular files in path order; a completed acquisition can be resumed from its manifest
  and then changes nothing; and a fresh acquisition leaves a valid journal however it ends.
\<close>

section \<open>The walk\<close>

datatype fs_node = FileNode bytes | DirNode "(rstring \<times> fs_node) list" | SymlinkNode | OtherNode

text \<open>The file system shows the tree \<open>node\<close> at the path \<open>p\<close>; a directory is read in the order its
  entries happen to have.\<close>

fun shows_tree :: "snapshot_fs \<Rightarrow> path \<Rightarrow> fs_node \<Rightarrow> bool" where
  "shows_tree fs p (FileNode b) = (symlink_metadata fs p = Ok FileType \<and> read_file fs p = Ok b)"
| "shows_tree fs p SymlinkNode = (symlink_metadata fs p = Ok SymlinkType)"
| "shows_tree fs p OtherNode = (symlink_metadata fs p = Ok OtherType)"
| "shows_tree fs p (DirNode cs) =
     (symlink_metadata fs p = Ok DirType \<and>
      read_dir fs p = Ok (map (\<lambda>(name, _). Ok (path_push p name)) cs) \<and>
      (\<forall>(name, nd) \<in> set cs. shows_tree fs (path_push p name) nd))"

text \<open>The regular files below a node, directories in the order of their sorted entries.\<close>

lemma size_in_children: "(name, nd) \<in> set cs \<Longrightarrow> size nd \<le> size_list (size_prod (\<lambda>x. 0) size) cs"
  by (induction cs) auto

function (sequential) walk_files :: "path \<Rightarrow> fs_node \<Rightarrow> path list" where
  "walk_files p (FileNode b) = [p]"
| "walk_files p (DirNode cs) =
     concat (map (\<lambda>(name, nd). walk_files (path_push p name) nd) (sort_key fst cs))"
| "walk_files p _ = []"
  by pat_completeness auto
termination
  by (relation "measure (\<lambda>(p, nd). size nd)")
    (auto simp: less_Suc_eq_le size_in_children)

fun node_count :: "fs_node \<Rightarrow> nat" where
  "node_count (DirNode cs) = Suc (sum_list (map (\<lambda>(name, nd). node_count nd) cs))"
| "node_count _ = 1"

fun distinct_names :: "fs_node \<Rightarrow> bool" where
  "distinct_names (DirNode cs) = (distinct (map fst cs) \<and> (\<forall>(name, nd) \<in> set cs. distinct_names nd))"
| "distinct_names _ = True"

fun snapshot_files ::
  "('s, 'v) snapshot_lib \<Rightarrow> snapshot_fs \<Rightarrow> 's \<Rightarrow> path \<Rightarrow> path list \<Rightarrow> manifest_entry list
     \<Rightarrow> ('s, snapshot_error, manifest_entry list) fallible" where
  "snapshot_files lib fs st root [] es = (st, Ok es)"
| "snapshot_files lib fs st root (p # ps) es =
     (case snapshot_file lib fs st root p of
        (st', Inl e) \<Rightarrow> (st', Err e)
      | (st', Inr entry) \<Rightarrow> snapshot_files lib fs st' root ps (es @ [entry]))"

lemma append_less_cancel: "xs @ a < xs @ (b :: 'a :: linorder list) \<longleftrightarrow> a < b"
  by (induction xs) auto

lemma path_key_push: "path_key (path_push p a) = path_key p @ [a]"
  by (simp add: path_key_def path_push_def)

lemma path_cmp_push: "path_cmp (path_push p a) (path_push p b) = cmp a b"
  by (simp add: path_cmp_def cmp_def path_key_push append_less_cancel)

lemma sort_children:
  "sort_by path_cmp (map (\<lambda>(n, _). path_push p n) cs) = map (\<lambda>(n, _). path_push p n) (sort_key fst cs)"
proof -
  have ins: "insert_by path_cmp (path_push p (fst x)) (map (\<lambda>(n, _). path_push p n) ys) =
      map (\<lambda>(n, _). path_push p n) (insort_key fst x ys)" for x :: "rstring \<times> 'b" and ys
    by (induction ys) (auto simp: path_cmp_push cmp_simps split: prod.splits)
  show ?thesis
    by (induction cs) (use ins in \<open>auto simp: sort_by_def sort_key_def split: prod.splits\<close>)
qed

lemma read_children_tree:
  "shows_tree fs p (DirNode cs) \<Longrightarrow> read_children fs p = Ok (map (\<lambda>(n, _). path_push p n) cs)"
proof -
  assume "shows_tree fs p (DirNode cs)"
  then have r: "read_dir fs p = Ok (map (\<lambda>(name, _). Ok (path_push p name)) cs)" by simp
  have "try_map (map_err (EnumerateSnapshotRoot p)) (map (\<lambda>(name, _). Ok (path_push p name)) cs) =
      Ok (map (\<lambda>(n, _). path_push p n) cs)"
    by (induction cs) auto
  then show ?thesis by (simp add: read_children_def r)
qed

lemma node_count_pos: "0 < node_count nd"
  by (cases nd) auto

abbreviation stack_count :: "(path \<times> fs_node) list \<Rightarrow> nat" where
  "stack_count stack \<equiv> sum_list (map (\<lambda>e. node_count (snd e)) stack)"

abbreviation stack_files :: "(path \<times> fs_node) list \<Rightarrow> path list" where
  "stack_files stack \<equiv> concat (map (\<lambda>e. walk_files (fst e) (snd e)) stack)"

definition stack_kids :: "path \<Rightarrow> (rstring \<times> fs_node) list \<Rightarrow> (path \<times> fs_node) list" where
  "stack_kids p cs = map (\<lambda>e. (path_push p (fst e), snd e)) (sort_key fst cs)"

lemma sum_list_mset_eq: "mset xs = mset ys \<Longrightarrow> sum_list (map f xs) = (sum_list (map f ys) :: nat)"
  by (metis mset_map sum_mset_sum_list)

lemma stack_kids_simps:
  "stack_count (stack_kids p cs) = sum_list (map (\<lambda>e. node_count (snd e)) cs)"
  "map fst (stack_kids p cs) = sort_by path_cmp (map (\<lambda>(n, _). path_push p n) cs)"
  "stack_files (stack_kids p cs) = walk_files p (DirNode cs)"
proof -
  have "mset (sort_key fst cs) = mset cs" by simp
  then have "sum_list (map (\<lambda>e. node_count (snd e)) (sort_key fst cs)) = sum_list (map (\<lambda>e. node_count (snd e)) cs)"
    by (rule sum_list_mset_eq)
  then show "stack_count (stack_kids p cs) = sum_list (map (\<lambda>e. node_count (snd e)) cs)"
    by (simp add: stack_kids_def comp_def)
  show "map fst (stack_kids p cs) = sort_by path_cmp (map (\<lambda>(n, _). path_push p n) cs)"
    using sort_children [of p cs] by (simp add: stack_kids_def comp_def case_prod_unfold)
  show "stack_files (stack_kids p cs) = walk_files p (DirNode cs)"
    by (simp add: stack_kids_def comp_def case_prod_unfold)
qed

lemma collect_loop_dir:
  assumes "shows_tree fs p (DirNode cs)"
  shows "collect_loop (Suc n) lib fs st root (p # ps) es =
    collect_loop n lib fs st root (map fst (stack_kids p cs) @ ps) es"
  using assms read_children_tree [OF assms] by (simp add: stack_kids_simps)

lemma collect_loop_file:
  assumes "symlink_metadata fs p = Ok FileType"
    and "\<And>st es. collect_loop n lib fs st root ps es = Some (snapshot_files lib fs st root qs es)"
  shows "collect_loop (Suc n) lib fs st root (p # ps) es = Some (snapshot_files lib fs st root (p # qs) es)"
proof -
  obtain st' r where "snapshot_file lib fs st root p = (st', r)" by fastforce
  then show ?thesis using assms by (cases r) simp_all
qed

lemma stack_kids_tree:
  assumes "shows_tree fs p (DirNode cs)" and "e \<in> set (stack_kids p cs)"
  shows "shows_tree fs (fst e) (snd e)"
  using assms by (auto simp: stack_kids_def)

lemma collect_loop_tree:
  "stack_count stack \<le> n \<Longrightarrow> (\<And>e. e \<in> set stack \<Longrightarrow> shows_tree fs (fst e) (snd e)) \<Longrightarrow>
     collect_loop n lib fs st root (map fst stack) es =
       Some (snapshot_files lib fs st root (stack_files stack) es)"
proof (induction n arbitrary: stack st es)
  case 0
  then have "stack = []"
  proof (cases stack)
    case (Cons top rest)
    then show ?thesis using 0(1) node_count_pos [of "snd top"] by simp
  qed simp
  then show ?case by simp
next
  case (Suc n)
  show ?case
  proof (cases stack)
    case (Cons top rest)
    obtain p nd where top: "top = (p, nd)" by (cases top) auto
    have fuel: "node_count nd + stack_count rest \<le> Suc n" using Suc.prems(1) Cons top by simp
    have tree: "shows_tree fs p nd" using Suc.prems(2) [of top] Cons top by simp
    have rest: "shows_tree fs (fst e) (snd e)" if "e \<in> set rest" for e
      using Suc.prems(2) [of e] Cons that by simp
    have skip: "stack_count rest \<le> n" using fuel node_count_pos [of nd] by linarith
    note IH = Suc.IH [OF skip rest]
    have split: "map fst stack = p # map fst rest" "stack_files stack = walk_files p nd @ stack_files rest"
      using Cons top by simp_all
    show ?thesis
    proof (cases nd)
      case (FileNode b)
      then have ft: "symlink_metadata fs p = Ok FileType" using tree by simp
      have "collect_loop (Suc n) lib fs st root (p # map fst rest) es =
          Some (snapshot_files lib fs st root (p # stack_files rest) es)"
        by (rule collect_loop_file [OF ft]) (rule IH)
      then show ?thesis unfolding split FileNode walk_files.simps by simp
    next
      case (DirNode cs)
      have f: "stack_count (stack_kids p cs @ rest) \<le> n"
        using fuel unfolding DirNode by (simp add: stack_kids_simps case_prod_unfold)
      have s: "shows_tree fs (fst e) (snd e)" if "e \<in> set (stack_kids p cs @ rest)" for e
        using that rest stack_kids_tree [of fs p cs e] tree DirNode by auto
      have "collect_loop (Suc n) lib fs st root (map fst stack) es =
          collect_loop n lib fs st root (map fst (stack_kids p cs @ rest)) es"
        unfolding split map_append using tree unfolding DirNode by (rule collect_loop_dir)
      also have "\<dots> = Some (snapshot_files lib fs st root (stack_files (stack_kids p cs @ rest)) es)"
        by (rule Suc.IH [OF f s])
      also have "stack_files (stack_kids p cs @ rest) = stack_files stack"
        unfolding split map_append concat_append stack_kids_simps(3) DirNode ..
      finally show ?thesis .
    next
      case SymlinkNode
      then have "symlink_metadata fs p = Ok SymlinkType" "walk_files p nd = []" using tree by simp_all
      then show ?thesis unfolding split using IH [of st es] by simp
    next
      case OtherNode
      then have "symlink_metadata fs p = Ok OtherType" "walk_files p nd = []" using tree by simp_all
      then show ?thesis unfolding split using IH [of st es] by simp
    qed
  qed simp
qed

lemma walk_files_below: "q \<in> set (walk_files p nd) \<Longrightarrow> \<exists>t. path_key q = path_key p @ t"
proof (induction p nd arbitrary: q rule: walk_files.induct)
  case (2 p cs)
  then obtain name nd where m: "(name, nd) \<in> set cs" "q \<in> set (walk_files (path_push p name) nd)" by auto
  then obtain t where "path_key q = path_key (path_push p name) @ t"
    using 2(1) [of "(name, nd)" name nd q] by auto
  then show ?case by (simp add: path_key_push)
qed auto

lemma walk_files_sorted:
  "distinct_names nd \<Longrightarrow> sorted_wrt (\<lambda>p q. path_key p < path_key q) (walk_files p nd)"
proof (induction p nd rule: walk_files.induct)
  case (2 p cs)
  let ?below = "\<lambda>(name, nd). walk_files (path_push p name) nd"
  have step: "sorted_wrt (\<lambda>p q. path_key p < path_key q) (concat (map ?below ks))"
    if "sorted_wrt (\<lambda>a b. fst a < fst b) ks" "set ks \<subseteq> set cs" for ks
    using that
  proof (induction ks)
    case (Cons k ks)
    obtain name nd where k: "k = (name, nd)" by (cases k) auto
    have kin: "(name, nd) \<in> set (sort_key fst cs)" using Cons.prems k by auto
    have "sorted_wrt (\<lambda>p q. path_key p < path_key q) (walk_files (path_push p name) nd)"
      using 2(1) [OF kin] 2(2) Cons.prems k by auto
    moreover have "path_key a < path_key b"
      if a: "a \<in> set (walk_files (path_push p name) nd)" and b: "b \<in> set (concat (map ?below ks))" for a b
    proof -
      obtain name' nd' where b': "(name', nd') \<in> set ks" "b \<in> set (walk_files (path_push p name') nd')"
        using b by auto
      then have "name < name'" using Cons.prems k by auto
      moreover obtain t u where "path_key a = path_key p @ name # t" "path_key b = path_key p @ name' # u"
        using walk_files_below [OF a] walk_files_below [OF b'(2)] by (auto simp: path_key_push)
      ultimately show ?thesis by (simp add: append_less_cancel)
    qed
    ultimately show ?case using Cons k by (auto simp: sorted_wrt_append)
  qed simp
  have "sorted_wrt (<) (map fst (sort_key fst cs))"
    using 2(2) by (simp add: strict_sorted_iff sorted_sort_key) (metis mset_eq_imp_distinct_iff mset_map mset_sort)
  then have "sorted_wrt (\<lambda>a b. fst a < fst b) (sort_key fst cs)" by (simp add: sorted_wrt_map)
  then show ?case using step by simp
qed auto

section \<open>Queueing mailboxes\<close>

lemma mailbox_id_nonblank: "\<not> is_blank (mailbox_work_item_id p)"
  by (simp add: mailbox_work_item_id_def)

definition knows_mailbox :: "workflow_journal \<Rightarrow> rstring \<Rightarrow> bool" where
  "knows_mailbox j i \<longleftrightarrow>
     i \<in> set (pending (inventory j MailboxAdmission)) \<union> set (completed (inventory j MailboxAdmission))"

lemma queue_work_mailbox:
  "queue_work j MailboxAdmission (mailbox_work_item_id p) =
     (inventory_mut j MailboxAdmission (inventory_queue (inventory j MailboxAdmission) (mailbox_work_item_id p)), Ok ())"
  using queue_work_Ok [of j MailboxAdmission "mailbox_work_item_id p"] by (simp add: mailbox_id_nonblank)

lemma queue_mailboxes_Ok:
  "snd (queue_mailboxes j es) = Ok ()"
  by (induction es arbitrary: j)
    (auto simp: queue_work_mailbox)

lemma queue_mailboxes_frame:
  "queue_mailboxes j es = (j', r) \<Longrightarrow>
     source_snapshot j' = source_snapshot j \<and> current_stage j' = current_stage j \<and>
     terminal_outcome j' = terminal_outcome j \<and> checkpoints j' = checkpoints j \<and> audit j' = audit j \<and>
     generation j' = generation j"
  by (induction es arbitrary: j) (auto simp: queue_work_mailbox inventory_mut_def)

lemma queue_mailboxes_known:
  "queue_mailboxes j es = (j', r) \<Longrightarrow>
     (\<forall>i. knows_mailbox j i \<longrightarrow> knows_mailbox j' i) \<and>
     (\<forall>e \<in> set es. knows_mailbox j' (mailbox_work_item_id (relative_path e)))"
proof (induction es arbitrary: j)
  case (Cons e es)
  let ?j = "inventory_mut j MailboxAdmission
     (inventory_queue (inventory j MailboxAdmission) (mailbox_work_item_id (relative_path e)))"
  have q: "queue_mailboxes ?j es = (j', r)" using Cons.prems by (simp add: queue_work_mailbox)
  have "\<forall>i. knows_mailbox j i \<longrightarrow> knows_mailbox ?j i" "knows_mailbox ?j (mailbox_work_item_id (relative_path e))"
    by (auto simp: knows_mailbox_def)
  then show ?case using Cons.IH [OF q] by auto
qed simp

lemma queue_mailboxes_sorted:
  "queue_mailboxes j es = (j', r) \<Longrightarrow> sorted_wrt (<) (pending (inventory j MailboxAdmission)) \<Longrightarrow>
     sorted_wrt (<) (pending (inventory j' MailboxAdmission))"
proof (induction es arbitrary: j)
  case (Cons e es)
  then show ?case
    by (auto simp: queue_work_mailbox inventory_queue_def sorted_btree_insert split: if_splits)
qed simp

lemma inventory_mut_same: "inventory_mut j k (inventory j k) = j"
  by (cases k) (simp_all add: inventory_mut_def inventory_def)

lemma queue_mailboxes_noop:
  "sorted_wrt (<) (pending (inventory j MailboxAdmission)) \<Longrightarrow>
     (\<And>e. e \<in> set es \<Longrightarrow> knows_mailbox j (mailbox_work_item_id (relative_path e))) \<Longrightarrow>
     queue_mailboxes j es = (j, Ok ())"
proof (induction es)
  case (Cons e es)
  have "inventory_queue (inventory j MailboxAdmission) (mailbox_work_item_id (relative_path e)) =
      inventory j MailboxAdmission"
    using Cons.prems(1) Cons.prems(2) [of e]
    by (auto simp: knows_mailbox_def inventory_queue_def btree_contains_def btree_insert_present)
  then show ?case using Cons by (simp add: queue_work_mailbox inventory_mut_same)
qed simp

lemma queue_mailboxes_data:
  "journal_data_wf j \<Longrightarrow> queue_mailboxes j es = (j', r) \<Longrightarrow> journal_data_wf j'"
proof (induction es arbitrary: j)
  case (Cons e es)
  then show ?case using queue_work_data [OF Cons.prems(1) queue_work_mailbox] by (auto simp: queue_work_mailbox)
qed simp

section \<open>The stored manifest\<close>

text \<open>
  What acquisition relies on from the libraries: a stored block is found under its hash, its
  typed view is what it was built from, JSON reads back what it wrote, a hash prints as
  hexadecimal digits, and a SHA-256 digest has 32 bytes.
\<close>

definition snapshot_store_contract :: "('s, 'v) snapshot_lib \<Rightarrow> bool" where
  "snapshot_store_contract lib \<longleftrightarrow>
     (\<forall>st v st' h. sl_put_versioned lib st v = (st', Ok h) \<longrightarrow>
        length h = HASH_LEN \<and> sl_get_decoded lib st' h = Ok (Some (V2 v))) \<and>
     (\<forall>t c v. sl_build_custom_block lib t c = Ok v \<longrightarrow>
        sl_into_typed_block lib v = Ok (Custom \<lparr>custom_type_name = t, custom_content = c\<rparr>)) \<and>
     (\<forall>m bs. manifest_to_vec_pretty lib m = Ok bs \<longrightarrow> manifest_from_slice lib bs = Ok m) \<and>
     (\<forall>h. length h = HASH_LEN \<longrightarrow> to_ascii_lowercase (sl_show_hash lib h) = hex_encode h) \<and>
     (\<forall>bs. length (sl_sha256 lib bs) = 32)"

lemma publish_snapshot_Ok:
  assumes "publish_snapshot lib st j uri at es = ((st', j'), Ok a)"
  shows "\<exists>manifest bs block h j2.
     manifest_source_uri manifest = uri \<and> entries manifest = es \<and>
     manifest_schema_version manifest = SNAPSHOT_MANIFEST_SCHEMA_VERSION \<and>
     derive_source_snapshot_id lib uri es = Ok (manifest_snapshot_id manifest) \<and>
     manifest_to_vec_pretty lib manifest = Ok bs \<and>
     snapshot_block lib (lit ''application/json'') bs = Ok block \<and>
     sl_put_versioned lib st block = (st', Ok h) \<and>
     queue_mailboxes (complete_acquisition j (manifest_snapshot_id manifest) at (sl_show_hash lib h) (length es)) es = (j2, Ok ()) \<and>
     j' = set_stage j2 StageMailboxAdmission \<and>
     a = \<lparr>acq_source_snapshot_id = manifest_snapshot_id manifest, acq_manifest_block_id = sl_show_hash lib h,
          acq_manifest = Some manifest, reused_existing = False\<rparr>"
proof -
  obtain sid where sid: "derive_source_snapshot_id lib uri es = Ok sid"
    using assms by (cases "derive_source_snapshot_id lib uri es") (auto simp: publish_snapshot_def)
  define manifest where "manifest = \<lparr>manifest_schema_version = SNAPSHOT_MANIFEST_SCHEMA_VERSION,
      manifest_source_uri = uri, manifest_snapshot_id = sid, acquired_at = at, entries = es\<rparr>"
  obtain bs where bs: "manifest_to_vec_pretty lib manifest = Ok bs"
    using assms sid by (cases "manifest_to_vec_pretty lib manifest") (auto simp: publish_snapshot_def manifest_def)
  obtain block where bl: "snapshot_block lib (lit ''application/json'') bs = Ok block"
    using assms sid bs
    by (cases "snapshot_block lib (lit ''application/json'') bs") (auto simp: publish_snapshot_def manifest_def)
  have pub: "publish_snapshot lib st j uri at es =
     (case sl_put_versioned lib st block of
          (st', Inl e) \<Rightarrow> ((st', j), Err (StoreManifest e))
        | (st', Inr h) \<Rightarrow>
            let block_id = sl_show_hash lib h;
                j1 = complete_acquisition j (manifest_snapshot_id manifest) at block_id (length es)
            in case queue_mailboxes j1 es of
                 (j2, Inl e) \<Rightarrow> ((st', j2), Err e)
               | (j2, Inr _) \<Rightarrow>
                   ((st', set_stage j2 StageMailboxAdmission),
                    Ok \<lparr>acq_source_snapshot_id = manifest_snapshot_id manifest,
                        acq_manifest_block_id = block_id, acq_manifest = Some manifest,
                        reused_existing = False\<rparr>))"
    using sid bs bl by (simp add: publish_snapshot_def manifest_def Let_def split: prod.splits sum.splits)
  obtain h where put: "sl_put_versioned lib st block = (st', Ok h)"
    using assms unfolding pub
    by (cases "sl_put_versioned lib st block"; cases "snd (sl_put_versioned lib st block)")
      (auto simp: Let_def split: prod.splits sum.splits)
  obtain j2 where q: "queue_mailboxes (complete_acquisition j (manifest_snapshot_id manifest) at (sl_show_hash lib h) (length es)) es = (j2, Ok ())"
    using queue_mailboxes_Ok by (metis prod.collapse)
  have "j' = set_stage j2 StageMailboxAdmission \<and>
     a = \<lparr>acq_source_snapshot_id = manifest_snapshot_id manifest, acq_manifest_block_id = sl_show_hash lib h,
          acq_manifest = Some manifest, reused_existing = False\<rparr>"
    using assms unfolding pub by (simp add: put q Let_def)
  moreover have "manifest_source_uri manifest = uri" "entries manifest = es"
    "manifest_schema_version manifest = SNAPSHOT_MANIFEST_SCHEMA_VERSION" "manifest_snapshot_id manifest = sid"
    by (simp_all add: manifest_def)
  ultimately show ?thesis using sid bs bl put q by metis
qed

lemma load_stored_manifest:
  assumes c: "snapshot_store_contract lib"
    and m: "manifest_to_vec_pretty lib manifest = Ok bs"
    and v: "manifest_schema_version manifest = SNAPSHOT_MANIFEST_SCHEMA_VERSION"
    and b: "snapshot_block lib (lit ''application/json'') bs = Ok block"
    and put: "sl_put_versioned lib st block = (st', Ok h)"
  shows "load_source_snapshot_manifest lib st' (sl_show_hash lib h) = Ok manifest"
proof -
  have h: "length h = HASH_LEN" "sl_get_decoded lib st' h = Ok (Some (V2 block))"
    using c put unfolding snapshot_store_contract_def by blast+
  have "to_ascii_lowercase (sl_show_hash lib h) = hex_encode h"
    using c h(1) unfolding snapshot_store_contract_def by blast
  then have p: "snapshot_parse_block_hash (sl_show_hash lib h) = Ok h"
    using h(1) by (simp add: snapshot_hash.parse_iff)
  have "sl_build_custom_block lib SNAPSHOT_ARTIFACT_BLOCK_TYPE (artifact_content (lit ''application/json'') bs) = Ok block"
    using b unfolding snapshot_block_def map_err_Inr_iff .
  then have t: "sl_into_typed_block lib block = Ok (Custom \<lparr>custom_type_name = SNAPSHOT_ARTIFACT_BLOCK_TYPE,
      custom_content = artifact_content (lit ''application/json'') bs\<rparr>)"
    using c unfolding snapshot_store_contract_def by blast
  have pl: "snapshot_custom_block_payload (artifact_content mt x) ref = Ok (mt, x)" for mt x ref
    by (simp add: artifact_content_def text_field_def bytes_field_def)
  have r: "manifest_from_slice lib bs = Ok manifest"
    using c m unfolding snapshot_store_contract_def by blast
  show ?thesis unfolding load_source_snapshot_manifest_def by (simp add: p h(2) t pl r v)
qed

section \<open>Acquisition\<close>

lemma begin_acquisition_simps:
  "source_uri (source_snapshot (begin_acquisition j at)) = source_uri (source_snapshot j)"
  "current_stage (begin_acquisition j at) = SourceAcquisition"
  "inventory (begin_acquisition j at) k = inventory j k"
  by (cases k; simp add: begin_acquisition_def set_stage_def inventory_def)+

lemma complete_acquisition_simps:
  "source_uri (source_snapshot (complete_acquisition j s at b n)) = source_uri (source_snapshot j)"
  "source_snapshot_id (source_snapshot (complete_acquisition j s at b n)) = s"
  "acquisition_completed_at (source_snapshot (complete_acquisition j s at b n)) = Some at"
  "corpus_manifest_identity (source_snapshot (complete_acquisition j s at b n)) = Some b"
  "current_stage (complete_acquisition j s at b n) = current_stage j"
  "inventory (complete_acquisition j s at b n) k = inventory j k"
  by (cases k; simp add: complete_acquisition_def inventory_def)+

lemma acquire_fresh_Ok:
  assumes "acquire_source_snapshot n lib fs sync st j uri root at = Some (s, Ok a)"
    and "\<not> reused_existing a"
  shows "trim uri \<noteq> [] \<and> trim at \<noteq> [] \<and> trim (source_uri (source_snapshot j)) = trim uri \<and>
    (\<exists>st1 es. collect_snapshot_entries n lib fs st root root = Some (st1, Ok es) \<and>
       publish_snapshot lib st1 (begin_acquisition j (trim at)) (trim uri) (trim at) es = (s, Ok a))"
proof -
  have "acquisition_completed_at (source_snapshot j) = None"
  proof (rule ccontr)
    assume "acquisition_completed_at (source_snapshot j) \<noteq> None"
    then have "resume_source_snapshot lib st j (trim uri) = (s, Ok a)"
      using assms(1) by (auto simp: acquire_source_snapshot_def Let_def split: if_splits)
    then have "reused_existing a"
      by (auto simp: resume_source_snapshot_def Let_def split: sum.splits prod.splits)
    then show False using assms(2) by simp
  qed
  then show ?thesis using assms(1)
    by (auto simp: acquire_source_snapshot_def Let_def split: if_splits sum.splits option.splits prod.splits)
qed

section \<open>Properties\<close>

text \<open>
  C16. The directory walk of \<open>collect_snapshot_entries\<close> ends on every finite tree: as much fuel as
  the tree has nodes is enough. It stores exactly the regular files (symbolic links and
  special files are skipped), in strictly increasing path order whatever order the
  directories are read in.
\<close>

theorem collect_snapshot_entries_total:
  assumes "shows_tree fs root nd" and "distinct_names nd" and "node_count nd \<le> n"
  shows "collect_snapshot_entries n lib fs st root root =
      Some (snapshot_files lib fs st root (walk_files root nd) []) \<and>
    sorted_wrt (\<lambda>p q. path_key p < path_key q) (walk_files root nd)"
proof -
  have "collect_loop n lib fs st root (map fst [(root, nd)]) [] =
      Some (snapshot_files lib fs st root (stack_files [(root, nd)]) [])"
    by (rule collect_loop_tree) (use assms in auto)
  then show ?thesis using walk_files_sorted [OF assms(2)] by (simp add: collect_snapshot_entries_def)
qed

definition demo_tree :: fs_node where
  "demo_tree = DirNode [(lit ''b'', FileNode [2]), (lit ''a'', DirNode [(lit ''x'', FileNode [1])]),
     (lit ''c'', SymlinkNode)]"

definition demo_root :: path where
  "demo_root = Path True [lit ''s'']"

definition demo_snapshot_fs :: snapshot_fs where
  "demo_snapshot_fs =
    \<lparr>create_dir_all = \<lambda>_. Ok (),
     symlink_metadata = \<lambda>p. Ok (case components p of
         [_] \<Rightarrow> DirType
       | [_, n] \<Rightarrow> if n = lit ''a'' then DirType else if n = lit ''b'' then FileType else SymlinkType
       | _ \<Rightarrow> FileType),
     read_dir = \<lambda>p. Ok (case components p of
         [_] \<Rightarrow> [Ok (path_push p (lit ''b'')), Ok (path_push p (lit ''a'')), Ok (path_push p (lit ''c''))]
       | _ \<Rightarrow> [Ok (path_push p (lit ''x''))]),
     read_file = \<lambda>p. Ok (case components p of [_, _] \<Rightarrow> [2] | _ \<Rightarrow> [1])\<rparr>"

lemma demo_shows: "shows_tree demo_snapshot_fs demo_root demo_tree"
  by (simp add: demo_tree_def demo_snapshot_fs_def demo_root_def path_push_def)

lemma demo_walk:
  "walk_files demo_root demo_tree =
     [Path True [lit ''s'', lit ''a'', lit ''x''], Path True [lit ''s'', lit ''b'']]"
  by (simp add: demo_tree_def demo_root_def path_push_def sort_key_def)

text \<open>A concrete library: blocks are kept in a list and numbered, one manifest is known.\<close>

definition snap_hash :: "nat \<Rightarrow> block_hash" where
  "snap_hash n = replicate 31 0 @ [of_nat n]"

definition demo_entries :: "manifest_entry list" where
  "demo_entries =
     [\<lparr>relative_path = lit ''a/x'', me_block_id = hex_encode (snap_hash 0), byte_length = 1\<rparr>,
      \<lparr>relative_path = lit ''b'', me_block_id = hex_encode (snap_hash 1), byte_length = 1\<rparr>]"

definition demo_manifest :: source_snapshot_manifest where
  "demo_manifest = \<lparr>manifest_schema_version = 1, manifest_source_uri = lit ''u'',
     manifest_snapshot_id = hex_encode (replicate 32 7), acquired_at = lit ''t'', entries = demo_entries\<rparr>"

definition demo_snapshot_lib :: "(custom_block list, custom_block) snapshot_lib" where
  "demo_snapshot_lib =
    \<lparr>sl_build_custom_block = \<lambda>t c. Ok \<lparr>custom_type_name = t, custom_content = c\<rparr>,
     sl_put_versioned = \<lambda>st v. if length st < 3 then (st @ [v], Ok (snap_hash (length st)))
                              else (st, Err (BackendFailure [])),
     sl_get_decoded = \<lambda>st h. Ok (if length st > 0 \<and> h = snap_hash 0 then Some (V2 (st ! 0))
         else if length st > 1 \<and> h = snap_hash 1 then Some (V2 (st ! 1))
         else if length st > 2 \<and> h = snap_hash 2 then Some (V2 (st ! 2)) else None),
     sl_into_typed_block = \<lambda>v. Ok (Custom v), sl_show_hash = hex_encode,
     sl_sha256 = \<lambda>_. replicate 32 7, identity_to_vec = \<lambda>_ _. Ok [],
     manifest_to_vec_pretty = \<lambda>m. if m = demo_manifest then Ok [1] else Err [],
     manifest_from_slice = \<lambda>bs. if bs = [1] then Ok demo_manifest else Err []\<rparr>"

theorem collect_snapshot_entries_total_witness:
  "\<exists>st. collect_snapshot_entries 5 demo_snapshot_lib demo_snapshot_fs [] demo_root demo_root =
     Some (st, Ok demo_entries) \<and> length st = 2"
proof -
  have "distinct_names demo_tree" "node_count demo_tree \<le> 5" by (simp_all add: demo_tree_def)
  note collect_snapshot_entries_total [OF demo_shows this, of demo_snapshot_lib "[]"]
  then show ?thesis unfolding demo_walk
    by (simp add: snapshot_file_def normalize_relative_path_def demo_root_def strip_path_prefix_def
        starts_with_def demo_snapshot_fs_def demo_snapshot_lib_def snapshot_block_def demo_entries_def)
qed

lemma demo_snapshot_contract: "snapshot_store_contract demo_snapshot_lib"
proof -
  have d: "snap_hash 0 \<noteq> snap_hash 1" "snap_hash 0 \<noteq> snap_hash 2" "snap_hash 1 \<noteq> snap_hash 2"
    by (simp_all add: snap_hash_def)
  have l: "length (snap_hash n) = HASH_LEN" for n by (simp add: snap_hash_def HASH_LEN_def)
  have found: "sl_get_decoded demo_snapshot_lib (st @ [v]) (snap_hash (length st)) = Ok (Some (V2 v))"
    if lt: "length st < 3" for st :: "custom_block list" and v
  proof -
    consider "length st = 0" | "length st = 1" | "length st = 2"
      using lt by (auto simp: numeral_3_eq_3 numeral_2_eq_2 less_Suc_eq)
    then show ?thesis by cases (use d in \<open>simp_all add: demo_snapshot_lib_def nth_append\<close>)
  qed
  have put: "sl_put_versioned demo_snapshot_lib st v = (st', Ok h) \<Longrightarrow>
      length st < 3 \<and> st' = st @ [v] \<and> h = snap_hash (length st)" for st v st' h
    by (auto simp: demo_snapshot_lib_def split: if_splits)
  show ?thesis
    unfolding snapshot_store_contract_def
  proof (intro conjI allI impI)
    fix st v st' h
    assume "sl_put_versioned demo_snapshot_lib st v = (st', Ok h)"
    then show "length h = HASH_LEN" "sl_get_decoded demo_snapshot_lib st' h = Ok (Some (V2 v))"
      using put found l by blast+
  qed (auto simp: demo_snapshot_lib_def lower_hex_encode split: if_splits)
qed

text \<open>
  C14. A completed acquisition can be resumed: after \<open>acquire_source_snapshot\<close> succeeds, running
  it again on the resulting store and journal, with any file system, any rsync and any
  fuel, returns the same snapshot from the stored manifest, marked as reused, and changes
  neither the store nor the journal.
\<close>

theorem acquire_source_snapshot_resumes:
  assumes contract: "snapshot_store_contract lib"
    and run: "acquire_source_snapshot n lib fs sync st j uri root at = Some ((st', j'), Ok a)"
    and fresh: "\<not> reused_existing a"
    and sorted: "sorted_wrt (<) (pending (inventory j MailboxAdmission))"
    and again: "trim at' \<noteq> []"
  shows "acquire_source_snapshot m lib fs' sync' st' j' uri root' at' =
    Some ((st', j'), Ok (a\<lparr>reused_existing := True\<rparr>))"
proof -
  obtain st1 es where u: "trim uri \<noteq> []" "trim (source_uri (source_snapshot j)) = trim uri"
    and pub: "publish_snapshot lib st1 (begin_acquisition j (trim at)) (trim uri) (trim at) es = ((st', j'), Ok a)"
    using acquire_fresh_Ok [OF run fresh] by blast
  obtain manifest bs block h j2 where
      uri: "manifest_source_uri manifest = trim uri" and es: "entries manifest = es"
    and v: "manifest_schema_version manifest = SNAPSHOT_MANIFEST_SCHEMA_VERSION"
    and bs: "manifest_to_vec_pretty lib manifest = Ok bs"
    and bl: "snapshot_block lib (lit ''application/json'') bs = Ok block"
    and put: "sl_put_versioned lib st1 block = (st', Ok h)"
    and q: "queue_mailboxes (complete_acquisition (begin_acquisition j (trim at)) (manifest_snapshot_id manifest)
        (trim at) (sl_show_hash lib h) (length es)) es = (j2, Ok ())"
    and j': "j' = set_stage j2 StageMailboxAdmission"
    and a: "a = \<lparr>acq_source_snapshot_id = manifest_snapshot_id manifest, acq_manifest_block_id = sl_show_hash lib h,
          acq_manifest = Some manifest, reused_existing = False\<rparr>"
    using publish_snapshot_Ok [OF pub] by blast
  note load = load_stored_manifest [OF contract bs v bl put]
  note frame = queue_mailboxes_frame [OF q]
  have ss: "source_snapshot j' = source_snapshot j2" "current_stage j' = StageMailboxAdmission"
    "inventory j' k = inventory j2 k" for k
    by (cases k; simp add: j' set_stage_def inventory_def)+
  have snap: "source_uri (source_snapshot j') = source_uri (source_snapshot j)"
    "source_snapshot_id (source_snapshot j') = manifest_snapshot_id manifest"
    "acquisition_completed_at (source_snapshot j') = Some (trim at)"
    "corpus_manifest_identity (source_snapshot j') = Some (sl_show_hash lib h)"
    using frame by (simp_all add: ss complete_acquisition_simps begin_acquisition_simps)
  have same: "j'\<lparr>source_snapshot := (source_snapshot j')\<lparr>source_snapshot_id := manifest_snapshot_id manifest\<rparr>\<rparr> = j'"
    using snap(2) by simp
  have "sorted_wrt (<) (pending (inventory j' MailboxAdmission))"
    using queue_mailboxes_sorted [OF q] sorted by (simp add: ss complete_acquisition_simps begin_acquisition_simps)
  moreover have "knows_mailbox j' (mailbox_work_item_id (relative_path e))" if "e \<in> set es" for e
    using queue_mailboxes_known [OF q] that by (simp add: knows_mailbox_def ss)
  ultimately have "queue_mailboxes j' es = (j', Ok ())" by (rule queue_mailboxes_noop)
  then have "resume_source_snapshot lib st' j' (trim uri) = ((st', j'), Ok (a\<lparr>reused_existing := True\<rparr>))"
    unfolding resume_source_snapshot_def snap(4) by (simp add: load uri es same ss(2) a)
  then show ?thesis
    using u again snap by (simp add: acquire_source_snapshot_def Let_def)
qed

lemma demo_acquire:
  "\<exists>st j a. acquire_source_snapshot 5 demo_snapshot_lib demo_snapshot_fs (\<lambda>_ _. Ok ()) [] sample_journal
     (lit ''u'') demo_root (lit ''t'') = Some ((st, j), Ok a) \<and> \<not> reused_existing a"
proof -
  obtain st where st: "collect_snapshot_entries 5 demo_snapshot_lib demo_snapshot_fs [] demo_root demo_root =
     Some (st, Ok demo_entries)" "length st = 2"
    using collect_snapshot_entries_total [OF demo_shows, of 5 demo_snapshot_lib "[]"] unfolding demo_walk
    by (simp add: demo_tree_def snapshot_file_def normalize_relative_path_def demo_root_def strip_path_prefix_def
        starts_with_def demo_snapshot_fs_def demo_snapshot_lib_def snapshot_block_def demo_entries_def)
  have t: "trim (lit ''u'') = lit ''u''" "trim (lit ''t'') = lit ''t''"
    by (rule trim_ends_fixed; simp add: is_whitespace_def)+
  have id: "derive_source_snapshot_id demo_snapshot_lib (lit ''u'') demo_entries = Ok (hex_encode (replicate 32 7))"
    by (simp add: derive_source_snapshot_id_def demo_snapshot_lib_def)
  have m: "manifest_to_vec_pretty demo_snapshot_lib demo_manifest = Ok [1]"
    by (simp add: demo_snapshot_lib_def)
  let ?j = "begin_acquisition sample_journal (lit ''t'')"
  have q: "\<exists>j2. queue_mailboxes j es = (j2, Ok ())" for j es
    using queue_mailboxes_Ok [of j es] by (metis prod.collapse)
  have lib: "sl_build_custom_block demo_snapshot_lib = (\<lambda>t c. Ok \<lparr>custom_type_name = t, custom_content = c\<rparr>)"
    "sl_put_versioned demo_snapshot_lib st v = (st @ [v], Ok (snap_hash 2))"
    "sl_show_hash demo_snapshot_lib = hex_encode" for v
    by (simp_all add: demo_snapshot_lib_def st(2))
  have "\<exists>s a. publish_snapshot demo_snapshot_lib st ?j (lit ''u'') (lit ''t'') demo_entries = (s, Ok a) \<and> \<not> reused_existing a"
    using q [of "complete_acquisition ?j (hex_encode (replicate 32 7)) (lit ''t'') (hex_encode (snap_hash 2)) (length demo_entries)" demo_entries]
      m [unfolded demo_manifest_def]
    by (auto simp: publish_snapshot_def id lib SNAPSHOT_MANIFEST_SCHEMA_VERSION_def
        snapshot_block_def Let_def simp del: lit_simps hex_encode_simps)
  then obtain s a where p: "publish_snapshot demo_snapshot_lib st ?j (lit ''u'') (lit ''t'') demo_entries = (s, Ok a)"
      "\<not> reused_existing a" by blast
  have s: "source_uri (source_snapshot sample_journal) = lit ''u''"
    "acquisition_completed_at (source_snapshot sample_journal) = None"
    by (simp_all add: sample_journal_def sample_init_def)
  have "acquire_source_snapshot 5 demo_snapshot_lib demo_snapshot_fs (\<lambda>_ _. Ok ()) [] sample_journal
     (lit ''u'') demo_root (lit ''t'') = Some (s, Ok a)"
  proof -
    have "create_dir_all demo_snapshot_fs demo_root = Ok ()" by (simp add: demo_snapshot_fs_def)
    moreover have "lit ''u'' \<noteq> []" "lit ''t'' \<noteq> []" by simp_all
    ultimately show ?thesis
      using p(1) unfolding acquire_source_snapshot_def t s by (simp add: st(1) Let_def del: lit_simps)
  qed
  then show ?thesis using p(2) by (cases s) blast
qed

theorem acquire_source_snapshot_resumes_witness:
  "\<exists>st j a. acquire_source_snapshot 5 demo_snapshot_lib demo_snapshot_fs (\<lambda>_ _. Ok ()) [] sample_journal
       (lit ''u'') demo_root (lit ''t'') = Some ((st, j), Ok a) \<and>
     acquire_source_snapshot 0 demo_snapshot_lib demo_snapshot_fs (\<lambda>_ _. Err (RsyncFailed [])) st j
       (lit ''u'') demo_root (lit ''later'') = Some ((st, j), Ok (a\<lparr>reused_existing := True\<rparr>))"
proof -
  obtain st j a where d: "acquire_source_snapshot 5 demo_snapshot_lib demo_snapshot_fs (\<lambda>_ _. Ok ()) [] sample_journal
     (lit ''u'') demo_root (lit ''t'') = Some ((st, j), Ok a)" "\<not> reused_existing a"
    using demo_acquire by blast
  have "sorted_wrt (<) (pending (inventory sample_journal MailboxAdmission))"
    by (simp add: sample_journal_def inventory_def default_inventories_def empty_inventory_def)
  moreover have "trim (lit ''later'') \<noteq> []" by (simp add: trim_Nil_iff is_whitespace_def)
  ultimately show ?thesis
    using acquire_source_snapshot_resumes [OF demo_snapshot_contract d] d(1) by blast
qed

subsection \<open>The journal stays valid\<close>

lemma snapshot_update_data:
  assumes "journal_data_wf j" and "snapshot_wf ss"
  shows "journal_data_wf (j\<lparr>source_snapshot := ss\<rparr>)"
  using assms by (auto simp: journal_data_wf_def checkpoint_wf_def)

lemma begin_acquisition_data:
  assumes "journal_data_wf j" and "\<not> is_blank at"
  shows "journal_data_wf (begin_acquisition j at)"
proof -
  have "snapshot_wf (source_snapshot j)" using assms(1) by (simp add: journal_data_wf_def)
  then show ?thesis unfolding begin_acquisition_def Let_def
    by (intro snapshot_update_data set_stage_data assms(1)) (use assms(2) in \<open>simp add: snapshot_wf_def set_stage_def\<close>)
qed

lemma complete_acquisition_data:
  assumes "journal_data_wf j" and "\<not> is_blank at" and "\<not> is_blank sid" and "\<not> is_blank b"
  shows "journal_data_wf (complete_acquisition j sid at b n)"
proof -
  have "snapshot_wf (source_snapshot j)" using assms(1) by (simp add: journal_data_wf_def)
  then show ?thesis unfolding complete_acquisition_def
    by (intro snapshot_update_data assms(1)) (use assms(2-4) in \<open>simp add: snapshot_wf_def\<close>)
qed

lemma hex_nonblank: "h \<noteq> [] \<Longrightarrow> \<not> is_blank (hex_encode h)"
proof -
  have d: "\<not> is_whitespace (hex_digit b)" if "b < 16" for b
    using that by (auto simp: hex_digit_def is_whitespace_def word_less_nat_alt)
  assume "h \<noteq> []"
  then obtain b t where "h = b # t" by (cases h) auto
  then show ?thesis using d [OF high_nibble_small, of b] by (simp add: is_blank_iff)
qed

lemma lower_nonblank: "\<not> is_blank (to_ascii_lowercase s) \<Longrightarrow> \<not> is_blank s"
proof -
  have "is_whitespace c \<Longrightarrow> ascii_lower c = c" for c by (auto simp: is_whitespace_def ascii_lower_def)
  then show "\<not> is_blank (to_ascii_lowercase s) \<Longrightarrow> \<not> is_blank s"
    by (metis is_blank_iff map_idI to_ascii_lowercase_def)
qed

lemma publish_snapshot_data:
  assumes c: "snapshot_store_contract lib" and wf: "journal_data_wf j" and at: "\<not> is_blank at"
    and r: "publish_snapshot lib st j uri at es = ((st', j'), res)"
  shows "journal_data_wf j' \<and> terminal_outcome j' = terminal_outcome j \<and> checkpoints j' = checkpoints j \<and>
    generation j' = generation j \<and> current_stage j' \<in> {current_stage j, StageMailboxAdmission}"
proof (cases res)
  case (Inl e)
  have "snd (queue_mailboxes x es) = Ok ()" for x by (rule queue_mailboxes_Ok)
  then have "j' = j" using r Inl
    by (auto simp: publish_snapshot_def Let_def split: sum.splits prod.splits) (metis Inl_Inr_False snd_conv)
  then show ?thesis using wf by simp
next
  case (Inr a)
  obtain manifest :: source_snapshot_manifest and block h j2 where
      sid: "derive_source_snapshot_id lib uri es = Ok (manifest_snapshot_id manifest)"
    and put: "sl_put_versioned lib st block = (st', Ok h)"
    and q: "queue_mailboxes (complete_acquisition j (manifest_snapshot_id manifest) at (sl_show_hash lib h) (length es)) es = (j2, Ok ())"
    and j': "j' = set_stage j2 StageMailboxAdmission"
    using publish_snapshot_Ok [OF r [unfolded Inr]] by blast
  have "length h = HASH_LEN" and digest: "\<forall>bs. length (sl_sha256 lib bs) = 32" and
    "\<forall>h. length h = HASH_LEN \<longrightarrow> to_ascii_lowercase (sl_show_hash lib h) = hex_encode h"
    using c put unfolding snapshot_store_contract_def by blast+
  then have b: "\<not> is_blank (sl_show_hash lib h)"
    using lower_nonblank hex_nonblank [of h] by (force simp: HASH_LEN_def)
  obtain x where "manifest_snapshot_id manifest = hex_encode (sl_sha256 lib x)"
    using sid unfolding derive_source_snapshot_id_def and_then_Inr_iff by (metis sum.inject(2))
  moreover have "sl_sha256 lib x \<noteq> []" using digest [rule_format, of x] by auto
  ultimately have "\<not> is_blank (manifest_snapshot_id manifest)" using hex_nonblank by simp
  then have "journal_data_wf j2" by (intro queue_mailboxes_data [OF _ q] complete_acquisition_data wf at b)
  then show ?thesis
    using queue_mailboxes_frame [OF q] set_stage_data by (simp add: j' set_stage_def complete_acquisition_def)
qed

text \<open>With sound content and no terminal outcome, an early stage fits unless a checkpoint is ahead of it.\<close>

lemma early_stage_validates:
  assumes "journal_data_wf j" and "current_stage j \<in> {SourceAcquisition, StageMailboxAdmission}"
    and "terminal_outcome j = None \<Longrightarrow> completed_at (generation j) = None"
  shows "validate j = Ok () \<longleftrightarrow> terminal_outcome j = None \<and>
    (\<forall>c \<in> set (checkpoints j). workflow_stage_rank (cp_stage c) \<le> workflow_stage_rank (current_stage j))"
proof -
  have "stage_ready (current_stage j) w a" for w a using assms(2) by (auto simp: stage_ready_def all_work_kind)
  moreover have "terminal_wf (current_stage j) (terminal_outcome j) (completed_at (generation j)) \<longleftrightarrow> terminal_outcome j = None"
    using assms(2,3) by (cases "terminal_outcome j") (auto simp: terminal_wf_def)
  ultimately show ?thesis using assms(1) by (auto simp: validate_iff_wf_aux journal_wf_def stage_wf_def)
qed

text \<open>
  C21. What a fresh acquisition leaves of a valid journal at any stage, whatever happens (a failed
  directory, rsync, walk or store, or success): either the journal is untouched, or it passes
  validation exactly when it has no terminal outcome and no checkpoint beyond the stage it is left
  at, which is source acquisition or mailbox admission. So a journal at the source acquisition
  stage can always be saved and retried, while acquiring again in a later stage with checkpoints
  makes it invalid.
\<close>

theorem acquire_keeps_journal_valid:
  assumes contract: "snapshot_store_contract lib"
    and wf: "validate j = Ok ()"
    and fresh: "acquisition_completed_at (source_snapshot j) = None"
    and run: "acquire_source_snapshot n lib fs sync st j uri root at = Some ((st', j'), res)"
  shows "(current_stage j = SourceAcquisition \<longrightarrow> validate j' = Ok ()) \<and>
    (j' = j \<or>
       current_stage j' \<in> {SourceAcquisition, StageMailboxAdmission} \<and>
       (validate j' = Ok () \<longleftrightarrow> terminal_outcome j = None \<and>
          (\<forall>c \<in> set (checkpoints j). workflow_stage_rank (cp_stage c) \<le> workflow_stage_rank (current_stage j'))))"
proof -
  let ?b = "begin_acquisition j (trim at)"
  have j: "journal_data_wf j" "stage_wf j" using wf by (simp_all add: validate_iff_wf_aux journal_wf_def)
  have cases: "j' = j \<or> (trim at \<noteq> [] \<and> (j' = ?b \<or>
      (\<exists>st1 es. publish_snapshot lib st1 ?b (trim uri) (trim at) es = ((st', j'), res))))"
    using run fresh
    by (auto simp: acquire_source_snapshot_def Let_def split: if_splits sum.splits option.splits prod.splits)
  have b: "terminal_outcome ?b = terminal_outcome j" "checkpoints ?b = checkpoints j" "generation ?b = generation j"
    by (simp_all add: begin_acquisition_def set_stage_def)
  have moved: "journal_data_wf j' \<and> terminal_outcome j' = terminal_outcome j \<and> checkpoints j' = checkpoints j \<and>
      generation j' = generation j \<and> current_stage j' \<in> {SourceAcquisition, StageMailboxAdmission}" if "j' \<noteq> j"
  proof -
    have at: "\<not> is_blank (trim at)" using cases that by (simp add: is_blank_def trim_idem)
    then have "journal_data_wf ?b" by (rule begin_acquisition_data [OF j(1)])
    then show ?thesis
      using cases that b publish_snapshot_data [OF contract _ at, of ?b] begin_acquisition_simps(2) [of j "trim at"]
      by (metis insert_iff)
  qed
  have early: "validate j' = Ok () \<longleftrightarrow> terminal_outcome j = None \<and>
      (\<forall>c \<in> set (checkpoints j). workflow_stage_rank (cp_stage c) \<le> workflow_stage_rank (current_stage j'))" if "j' \<noteq> j"
  proof -
    have "completed_at (generation j) = None" if "terminal_outcome j = None"
      using j(2) that by (simp add: stage_wf_def terminal_wf_def)
    then show ?thesis using moved [OF that] early_stage_validates [of j'] by simp
  qed
  have "validate j' = Ok ()" if "current_stage j = SourceAcquisition"
  proof (cases "j' = j")
    case False
    have "terminal_outcome j = None" "\<forall>c \<in> set (checkpoints j). workflow_stage_rank (cp_stage c) = 0"
      using j(2) that by (auto simp: stage_wf_def terminal_wf_def split: option.splits if_splits)
    then show ?thesis using early [OF False] by simp
  qed (use wf in simp)
  then show ?thesis using early moved by blast
qed

theorem acquire_keeps_journal_valid_witness:
  "\<exists>st j a. acquire_source_snapshot 5 demo_snapshot_lib demo_snapshot_fs (\<lambda>_ _. Ok ()) [] sample_journal
     (lit ''u'') demo_root (lit ''t'') = Some ((st, j), Ok a) \<and> validate j = Ok ()"
proof -
  obtain st j a where d: "acquire_source_snapshot 5 demo_snapshot_lib demo_snapshot_fs (\<lambda>_ _. Ok ()) [] sample_journal
     (lit ''u'') demo_root (lit ''t'') = Some ((st, j), Ok a)"
    using demo_acquire by blast
  have "validate sample_journal = Ok ()" "current_stage sample_journal = SourceAcquisition"
    "acquisition_completed_at (source_snapshot sample_journal) = None"
    using sample_journal_wf by (simp_all add: validate_iff_wf_aux sample_journal_def sample_init_def)
  then show ?thesis using acquire_keeps_journal_valid [OF demo_snapshot_contract _ _ d] d by blast
qed

end
