(* ===== verification/Batch_Config.thy ===== *)
theory Batch_Config
  imports Block_Model
begin

text \<open>
  The batch request of the indexer (\<^verbatim>\<open>config.rs\<close>, \<^verbatim>\<open>paths.rs\<close>): execution stages, the
  environments and their validation, mutable ref names and where they are stored, metadata of
  an index item, and the published profile version. Deserialisation is serde's; the defaults
  it calls are defined here.

  The two profile versions with a special rule and the detected number of processors come
  from libraries, so they are arguments.
\<close>

section \<open>Data\<close>

definition DEFAULT_BLOCK_SIZE_TARGET :: nat where
  "DEFAULT_BLOCK_SIZE_TARGET = 65536"

definition DEFAULT_REQUEST_TIMEOUT_SECS :: u64 where
  "DEFAULT_REQUEST_TIMEOUT_SECS = 30"

definition DEFAULT_MAX_RETRIES :: u32 where
  "DEFAULT_MAX_RETRIES = 5"

definition DEFAULT_RETRY_DELAY_MS :: u64 where
  "DEFAULT_RETRY_DELAY_MS = 1000"

definition MIN_MAX_CONCURRENCY :: nat where
  "MIN_MAX_CONCURRENCY = 1"

definition MUTABLE_REF_ROOT_DIR :: rstring where
  "MUTABLE_REF_ROOT_DIR = lit ''refs''"

datatype execution_stage = FullPipeline | IngestionAndEmbedding | ClusteringAndBlockAssembly

fun includes_ingestion :: "execution_stage \<Rightarrow> bool" where
  "includes_ingestion FullPipeline = True"
| "includes_ingestion IngestionAndEmbedding = True"
| "includes_ingestion ClusteringAndBlockAssembly = False"

fun includes_clustering :: "execution_stage \<Rightarrow> bool" where
  "includes_clustering FullPipeline = True"
| "includes_clustering IngestionAndEmbedding = False"
| "includes_clustering ClusteringAndBlockAssembly = True"

record profile_version =
  pv_major :: u64
  pv_minor :: u64
  pv_patch :: u64

record local_embedding_config =
  le_base_url :: rstring
  le_model :: rstring
  le_api_key_env :: "rstring option"
  le_request_timeout_secs :: u64
  le_max_retries :: u32
  le_retry_delay_ms :: u64

record production_block_store_config =
  container_sas_url :: rstring
  bs_prefix :: "rstring option"
  filesystem_cache_root :: "path option"
  memory_cache_max_resident_blocks :: "nat option"

record production_embedding_config =
  pe_endpoint :: rstring
  pe_deployment :: rstring
  pe_api_version :: rstring
  pe_api_key_env :: "rstring option"

datatype environment_config =
    Local path local_embedding_config
  | LocalRedb path local_embedding_config
  | LocalOverlay production_block_store_config local_embedding_config
  | Production production_block_store_config production_embedding_config
  | ProductionV2 production_block_store_config production_embedding_config

record embedding_spec_config =
  spec_dims :: u64
  spec_encoding :: rstring

datatype batch_item_config = MailboxItem path bmap | DocumentItem path bmap

record batch_request =
  environment :: environment_config
  embedding_spec :: embedding_spec_config
  block_size_target :: nat
  stage :: execution_stage
  request_profile_version :: profile_version
  max_concurrency :: "nat option"
  replay_batch_size :: "nat option"
  ref_name :: rstring
  items :: "batch_item_config list"

record clustering_config_overrides =
  co_profile_version :: "profile_version option"
  co_local_testing_cluster_count :: "u32 option"

record configured_clustering =
  cc_profile_version :: profile_version
  cc_local_testing_cluster_count :: "u32 option"

datatype mutable_ref_store_location =
    LocalFile path
  | AzureBlob rstring rstring
  | AzureTable rstring rstring rstring rstring

datatype config_error =
    EmptyItems
  | InvalidMaxConcurrency
  | InvalidReplayBatchSize
  | MissingRefName
  | InvalidRefName
  | MissingLocalEmbeddingBaseUrl
  | MissingProductionContainerSasUrl
  | MissingProductionV2ContainerSasUrl
  | UnsupportedProductionBlockStorePrefix
  | UnsupportedProductionV2BlockStorePrefix
  | UnsupportedProductionV2FilesystemCacheRoot
  | UnsupportedProductionV2MemoryCacheMaxResidentBlocks
  | MissingProductionFilesystemCacheRoot
  | MissingProductionMemoryCacheMaxResidentBlocks
  | InvalidProductionMemoryCacheMaxResidentBlocks
  | InvalidLocalTestingClusterCount
  | LocalTestingClusterCountRequiresLocalEnvironment
  | LocalTestingClusterCountUnsupportedForV3Profile

section \<open>Content references and index items\<close>

datatype replay_identity =
    DocumentIdentity rstring
  | EmailChunkIdentity rstring nat

datatype content_ref =
    DocumentRef path
  | InlineRef rstring bytes
  | StoredReplay rstring bytes replay_identity
  | EmailChunkRef rstring nat

type_synonym metadata = "(cbor \<times> cbor) list"

record index_item =
  item_metadata :: metadata
  item_content_ref :: content_ref

section \<open>Paths and metadata\<close>

definition resolve_path :: "path \<Rightarrow> path \<Rightarrow> path" where
  "resolve_path request_dir candidate =
     (if is_absolute candidate then candidate else path_join request_dir candidate)"

definition metadata_to_lexongraph :: "bmap \<Rightarrow> rstring \<Rightarrow> path \<Rightarrow> metadata" where
  "metadata_to_lexongraph m source_kind p =
     [(VText (lit ''source_kind''), VText source_kind),
      (VText (lit ''source_path''), VText (replace_char 92 [47] (display_path p)))] @
     map (\<lambda>(k, v). (VText k, VText v)) m"

fun text_pair :: "cbor \<times> cbor \<Rightarrow> (rstring \<times> rstring) option" where
  "text_pair (VText k, VText v) = Some (k, v)"
| "text_pair _ = None"

text \<open>Collecting into a \<^verbatim>\<open>BTreeMap\<close>: a later pair replaces an earlier one with the same key.\<close>

definition metadata_values_to_text_map :: "metadata \<Rightarrow> bmap" where
  "metadata_values_to_text_map m =
     foldl (\<lambda>acc (k, v). bmap_insert k v acc) [] (List.map_filter text_pair m)"

definition source_name_keys :: "rstring list" where
  "source_name_keys =
     map lit [''source_name'', ''document_name'', ''email_name'', ''thread_name'', ''name'']"

definition source_name_from_metadata :: "bmap \<Rightarrow> rstring option" where
  "source_name_from_metadata m = find_map (map_of m) source_name_keys"

fun to_document_index_item :: "path \<Rightarrow> batch_item_config \<Rightarrow> index_item option" where
  "to_document_index_item request_dir (DocumentItem p m) =
     (let resolved = resolve_path request_dir p in
      Some \<lparr>item_metadata = metadata_to_lexongraph m (lit ''document'') resolved,
            item_content_ref = DocumentRef resolved\<rparr>)"
| "to_document_index_item request_dir (MailboxItem p m) = None"

definition to_document_index_items :: "batch_request \<Rightarrow> path \<Rightarrow> index_item list" where
  "to_document_index_items r request_dir =
     List.map_filter (to_document_index_item request_dir) (items r)"

section \<open>Validation\<close>

fun local_embedding :: "environment_config \<Rightarrow> config_error + local_embedding_config option" where
  "local_embedding (Local _ e) =
     (if is_blank (le_base_url e) then Err MissingLocalEmbeddingBaseUrl else Ok (Some e))"
| "local_embedding (LocalRedb _ e) =
     (if is_blank (le_base_url e) then Err MissingLocalEmbeddingBaseUrl else Ok (Some e))"
| "local_embedding (LocalOverlay _ e) =
     (if is_blank (le_base_url e) then Err MissingLocalEmbeddingBaseUrl else Ok (Some e))"
| "local_embedding (Production _ _) = Ok None"
| "local_embedding (ProductionV2 _ _) = Ok None"

definition validate_for_overlay :: "production_block_store_config \<Rightarrow> config_error + unit" where
  "validate_for_overlay b =
     (if is_blank (container_sas_url b) then Err MissingProductionContainerSasUrl
      else if (case bs_prefix b of None \<Rightarrow> False | Some p \<Rightarrow> \<not> is_blank p)
      then Err UnsupportedProductionBlockStorePrefix
      else if (case filesystem_cache_root b of None \<Rightarrow> True | Some p \<Rightarrow> path_is_empty p)
      then Err MissingProductionFilesystemCacheRoot
      else case memory_cache_max_resident_blocks b of
        None \<Rightarrow> Err MissingProductionMemoryCacheMaxResidentBlocks
      | Some n \<Rightarrow> if n = 0 then Err InvalidProductionMemoryCacheMaxResidentBlocks else Ok ())"

definition validate_for_azure_table :: "production_block_store_config \<Rightarrow> config_error + unit" where
  "validate_for_azure_table b =
     (if is_blank (container_sas_url b) then Err MissingProductionV2ContainerSasUrl
      else if (case bs_prefix b of None \<Rightarrow> False | Some p \<Rightarrow> \<not> is_blank p)
      then Err UnsupportedProductionV2BlockStorePrefix
      else if filesystem_cache_root b \<noteq> None then Err UnsupportedProductionV2FilesystemCacheRoot
      else if memory_cache_max_resident_blocks b \<noteq> None
      then Err UnsupportedProductionV2MemoryCacheMaxResidentBlocks
      else Ok ())"

fun validate_for_stage :: "environment_config \<Rightarrow> execution_stage \<Rightarrow> config_error + unit" where
  "validate_for_stage (Local p e) st =
     (if includes_ingestion st then and_then (local_embedding (Local p e)) (\<lambda>_. Ok ()) else Ok ())"
| "validate_for_stage (LocalRedb p e) st =
     (if includes_ingestion st then and_then (local_embedding (LocalRedb p e)) (\<lambda>_. Ok ()) else Ok ())"
| "validate_for_stage (LocalOverlay b e) st =
     and_then (validate_for_overlay b) (\<lambda>_.
       if includes_ingestion st then and_then (local_embedding (LocalOverlay b e)) (\<lambda>_. Ok ()) else Ok ())"
| "validate_for_stage (Production b e) st = validate_for_overlay b"
| "validate_for_stage (ProductionV2 b e) st = validate_for_azure_table b"

definition validate_environment :: "environment_config \<Rightarrow> config_error + unit" where
  "validate_environment env = validate_for_stage env FullPipeline"

subsection \<open>Ref names\<close>

definition reserved_ref_chars :: rstring where
  "reserved_ref_chars = lit ''<>:'' @ [34] @ lit ''|?*#%''"

text \<open>A segment holds no slash, so \<^verbatim>\<open>Path::components\<close> yields one component, and it is a normal
  one unless the segment is a single or a double dot.\<close>

definition is_valid_ref_name_segment :: "rstring \<Rightarrow> bool" where
  "is_valid_ref_name_segment s \<longleftrightarrow>
     \<not> (s = [] \<or> list_ex (\<lambda>c. is_whitespace c \<or> is_control c \<or> c \<in> set reserved_ref_chars) s) \<and>
     s \<noteq> lit ''.'' \<and> s \<noteq> lit ''..''"

definition normalized_ref_name_segments :: "rstring \<Rightarrow> config_error + rstring list" where
  "normalized_ref_name_segments name =
     (let trimmed = trim name in
      if trimmed = [] then Err MissingRefName
      else
        let normalized = replace_char 92 [47] trimmed in
        if starts_with normalized [47] \<or> ends_with normalized [47] then Err InvalidRefName
        else
          let segments = split_on 47 normalized in
          if list_ex (\<lambda>s. \<not> is_valid_ref_name_segment s) segments then Err InvalidRefName
          else Ok segments)"

definition mutable_ref_relative_path :: "rstring \<Rightarrow> config_error + rstring" where
  "mutable_ref_relative_path name =
     and_then (normalized_ref_name_segments name) (\<lambda>segments.
       Ok (MUTABLE_REF_ROOT_DIR @ [47] @ join [47] segments))"

definition mutable_ref_relative_path_buf :: "rstring \<Rightarrow> config_error + path" where
  "mutable_ref_relative_path_buf name =
     and_then (normalized_ref_name_segments name) (\<lambda>segments.
       Ok (foldl path_push (Path False [MUTABLE_REF_ROOT_DIR]) segments))"

definition validate_request :: "batch_request \<Rightarrow> config_error + unit" where
  "validate_request r =
     (if includes_ingestion (stage r) \<and> items r = [] then Err EmptyItems
      else if max_concurrency r = Some 0 then Err InvalidMaxConcurrency
      else if replay_batch_size r = Some 0 then Err InvalidReplayBatchSize
      else and_then (normalized_ref_name_segments (ref_name r)) (\<lambda>_.
        validate_for_stage (environment r) (stage r)))"

subsection \<open>Where a mutable ref is stored\<close>

definition mutable_ref_store_blob_url :: "rstring \<Rightarrow> rstring \<Rightarrow> rstring" where
  "mutable_ref_store_blob_url url file =
     (case split_once 63 url of
        Some (base, query) \<Rightarrow> trim_end_matches 47 base @ [47] @ file @ [63] @ query
      | None \<Rightarrow> trim_end_matches 47 url @ [47] @ file)"

definition mutable_ref_store_blob_display_path :: "rstring \<Rightarrow> rstring \<Rightarrow> rstring" where
  "mutable_ref_store_blob_display_path url file =
     trim_end_matches 47 (case split_once 63 url of None \<Rightarrow> url | Some (base, _) \<Rightarrow> base) @ [47] @ file"

definition mutable_ref_store_table_display_path :: "rstring \<Rightarrow> rstring \<Rightarrow> rstring" where
  "mutable_ref_store_table_display_path url file =
     trim_end_matches 47 (case split_once 63 url of None \<Rightarrow> url | Some (base, _) \<Rightarrow> base) @ [47] @ file"

definition mutable_ref_store_table_row_key :: "rstring \<Rightarrow> rstring" where
  "mutable_ref_store_table_row_key p = hex_encode (utf8 p)"

text \<open>The caller must have validated the name: an error there is a panic of the two
  \<^verbatim>\<open>expect\<close>s, \<open>Err\<close> here.\<close>

fun ref_store_at :: "environment_config \<Rightarrow> path \<Rightarrow> rstring \<Rightarrow> path \<Rightarrow> mutable_ref_store_location" where
  "ref_store_at (Local root _) dir rel rel_buf =
     (let root' = resolve_path dir root;
          parent = (case path_parent root' of None \<Rightarrow> root' | Some p \<Rightarrow> p)
      in LocalFile (path_join parent rel_buf))"
| "ref_store_at (LocalRedb root _) dir rel rel_buf =
     (let root' = resolve_path dir root;
          parent = (case path_parent root' of None \<Rightarrow> root' | Some p \<Rightarrow> p)
      in LocalFile (path_join parent rel_buf))"
| "ref_store_at (LocalOverlay b _) dir rel rel_buf =
     AzureBlob (mutable_ref_store_blob_url (container_sas_url b) rel)
       (mutable_ref_store_blob_display_path (container_sas_url b) rel)"
| "ref_store_at (Production b _) dir rel rel_buf =
     AzureBlob (mutable_ref_store_blob_url (container_sas_url b) rel)
       (mutable_ref_store_blob_display_path (container_sas_url b) rel)"
| "ref_store_at (ProductionV2 b _) dir rel rel_buf =
     AzureTable (container_sas_url b)
       (mutable_ref_store_table_display_path (container_sas_url b) rel)
       MUTABLE_REF_ROOT_DIR (mutable_ref_store_table_row_key rel)"

definition resolve_mutable_ref_store ::
  "environment_config \<Rightarrow> path \<Rightarrow> rstring \<Rightarrow> config_error + mutable_ref_store_location option" where
  "resolve_mutable_ref_store env dir name =
     and_then (mutable_ref_relative_path name) (\<lambda>rel.
     and_then (mutable_ref_relative_path_buf name) (\<lambda>rel_buf.
       Ok (Some (ref_store_at env dir rel rel_buf))))"

section \<open>Concurrency and clustering\<close>

definition derive_default_max_concurrency :: "nat \<Rightarrow> nat" where
  "derive_default_max_concurrency cpu_count =
     (if cpu_count \<le> 1 then MIN_MAX_CONCURRENCY else max (cpu_count div 2) MIN_MAX_CONCURRENCY)"

definition detected_cpu_count_for_default :: "nat \<Rightarrow> nat option \<Rightarrow> nat" where
  "detected_cpu_count_for_default physical available =
     (if physical > 0 then physical
      else case available of Some n \<Rightarrow> n | None \<Rightarrow> MIN_MAX_CONCURRENCY)"

definition default_max_concurrency :: "nat \<Rightarrow> nat option \<Rightarrow> nat" where
  "default_max_concurrency physical available =
     derive_default_max_concurrency (detected_cpu_count_for_default physical available)"

definition effective_max_concurrency :: "nat \<Rightarrow> nat option \<Rightarrow> batch_request \<Rightarrow> nat" where
  "effective_max_concurrency physical available r =
     (case max_concurrency r of Some n \<Rightarrow> n | None \<Rightarrow> default_max_concurrency physical available)"

definition effective_replay_batch_size :: "nat \<Rightarrow> nat option \<Rightarrow> batch_request \<Rightarrow> nat" where
  "effective_replay_batch_size physical available r =
     (case replay_batch_size r of Some n \<Rightarrow> n
      | None \<Rightarrow> case max_concurrency r of Some n \<Rightarrow> n
        | None \<Rightarrow> default_max_concurrency physical available)"

fun is_production :: "environment_config \<Rightarrow> bool" where
  "is_production (Production _ _) = True"
| "is_production (ProductionV2 _ _) = True"
| "is_production _ = False"

definition validate_overrides :: "clustering_config_overrides \<Rightarrow> config_error + unit" where
  "validate_overrides c =
     (if co_local_testing_cluster_count c = Some 0 then Err InvalidLocalTestingClusterCount else Ok ())"

definition to_configured_clustering ::
  "profile_version \<Rightarrow> profile_version \<Rightarrow> clustering_config_overrides \<Rightarrow> profile_version
     \<Rightarrow> environment_config \<Rightarrow> config_error + configured_clustering" where
  "to_configured_clustering v0_7_0 v0_8_0 c request_version env =
     and_then (validate_overrides c) (\<lambda>_.
       let version = (case co_profile_version c of Some v \<Rightarrow> v | None \<Rightarrow> request_version) in
       if co_local_testing_cluster_count c \<noteq> None \<and> is_production env
       then Err LocalTestingClusterCountRequiresLocalEnvironment
       else if co_local_testing_cluster_count c \<noteq> None \<and> (version = v0_7_0 \<or> version = v0_8_0)
       then Err LocalTestingClusterCountUnsupportedForV3Profile
       else Ok \<lparr>cc_profile_version = version,
                cc_local_testing_cluster_count = co_local_testing_cluster_count c\<rparr>)"

section \<open>Published profile versions\<close>

datatype profile_version_error =
    ExpectedMajorMinorPatch rstring
  | MajorNotUnsigned rstring
  | MinorNotUnsigned rstring
  | PatchNotUnsigned rstring

definition parse_published_profile_version :: "rstring \<Rightarrow> profile_version_error + profile_version" where
  "parse_published_profile_version s =
     (let trimmed = trim s in
      case split_once 46 trimmed of
        None \<Rightarrow> Err (ExpectedMajorMinorPatch trimmed)
      | Some (major, remainder) \<Rightarrow> (case split_once 46 remainder of
          None \<Rightarrow> Err (ExpectedMajorMinorPatch trimmed)
        | Some (minor, patch) \<Rightarrow>
            if major = [] \<or> minor = [] \<or> patch = [] \<or> 46 \<in> set patch
            then Err (ExpectedMajorMinorPatch trimmed)
            else and_then (ok_or (MajorNotUnsigned trimmed) (parse_u64 major)) (\<lambda>ma.
                 and_then (ok_or (MinorNotUnsigned trimmed) (parse_u64 minor)) (\<lambda>mi.
                 and_then (ok_or (PatchNotUnsigned trimmed) (parse_u64 patch)) (\<lambda>pa.
                 Ok \<lparr>pv_major = ma, pv_minor = mi, pv_patch = pa\<rparr>)))))"

end
