(* ===== verification/Utf8.thy ===== *)
theory Utf8
  imports Rust_Text
begin

text \<open>
  \<^verbatim>\<open>String::from_utf8\<close> and \<^verbatim>\<open>String::from_utf8_lossy\<close>. Both read the bytes item by item: a
  well-formed sequence is one scalar value; a malformed one is the longest prefix of a
  sequence that could still have been completed (at least one byte), and the lossy reader
  puts U+FFFD in its place.
\<close>

definition is_scalar :: "uchar \<Rightarrow> bool" where
  "is_scalar c \<longleftrightarrow> c < 55296 \<or> (57344 \<le> c \<and> c < 1114112)"

datatype utf8_item = Scalar uchar | Malformed

definition is_cont :: "nat \<Rightarrow> bool" where
  "is_cont b \<longleftrightarrow> 128 \<le> b \<and> b \<le> 191"

text \<open>The second byte of a longer sequence excludes overlong forms, surrogates and values
  above U+10FFFF.\<close>

definition second_of_three :: "nat \<Rightarrow> nat \<Rightarrow> bool" where
  "second_of_three a b \<longleftrightarrow>
     is_cont b \<and> (a = 224 \<longrightarrow> 160 \<le> b) \<and> (a = 237 \<longrightarrow> b \<le> 159)"

definition second_of_four :: "nat \<Rightarrow> nat \<Rightarrow> bool" where
  "second_of_four a b \<longleftrightarrow>
     is_cont b \<and> (a = 240 \<longrightarrow> 144 \<le> b) \<and> (a = 244 \<longrightarrow> b \<le> 143)"

fun utf8_two :: "nat \<Rightarrow> nat list \<Rightarrow> utf8_item \<times> nat" where
  "utf8_two a (b # r) = (if is_cont b then (Scalar ((a - 192) * 64 + (b - 128)), 2) else (Malformed, 1))"
| "utf8_two a [] = (Malformed, 1)"

fun utf8_three :: "nat \<Rightarrow> nat list \<Rightarrow> utf8_item \<times> nat" where
  "utf8_three a (b # c # r) =
     (if \<not> second_of_three a b then (Malformed, 1)
      else if is_cont c then (Scalar ((a - 224) * 4096 + (b - 128) * 64 + (c - 128)), 3)
      else (Malformed, 2))"
| "utf8_three a [b] = (if second_of_three a b then (Malformed, 2) else (Malformed, 1))"
| "utf8_three a [] = (Malformed, 1)"

fun utf8_four :: "nat \<Rightarrow> nat list \<Rightarrow> utf8_item \<times> nat" where
  "utf8_four a (b # c # d # r) =
     (if \<not> second_of_four a b then (Malformed, 1)
      else if \<not> is_cont c then (Malformed, 2)
      else if is_cont d then
        (Scalar ((a - 240) * 262144 + (b - 128) * 4096 + (c - 128) * 64 + (d - 128)), 4)
      else (Malformed, 3))"
| "utf8_four a [b, c] =
     (if \<not> second_of_four a b then (Malformed, 1)
      else if is_cont c then (Malformed, 3) else (Malformed, 2))"
| "utf8_four a [b] = (if second_of_four a b then (Malformed, 2) else (Malformed, 1))"
| "utf8_four a [] = (Malformed, 1)"

definition utf8_step :: "nat \<Rightarrow> nat list \<Rightarrow> utf8_item \<times> nat" where
  "utf8_step a r =
     (if a < 128 then (Scalar a, 1)
      else if 194 \<le> a \<and> a \<le> 223 then utf8_two a r
      else if 224 \<le> a \<and> a \<le> 239 then utf8_three a r
      else if 240 \<le> a \<and> a \<le> 244 then utf8_four a r
      else (Malformed, 1))"

function utf8_items :: "nat list \<Rightarrow> utf8_item list" where
  "utf8_items [] = []"
| "utf8_items (a # r) =
     (case utf8_step a r of (item, n) \<Rightarrow> item # utf8_items (drop (n - 1) r))"
  by pat_completeness auto
termination
  by (relation "measure length") auto

declare utf8_items.simps(2) [simp del]

fun item_char :: "utf8_item \<Rightarrow> uchar" where
  "item_char (Scalar c) = c"
| "item_char Malformed = 65533"

definition from_utf8_lossy :: "bytes \<Rightarrow> rstring" where
  "from_utf8_lossy bs = map item_char (utf8_items (map unat bs))"

definition from_utf8 :: "bytes \<Rightarrow> rstring option" where
  "from_utf8 bs =
     (let items = utf8_items (map unat bs) in
      if Malformed \<in> set items then None else Some (map item_char items))"

section \<open>Encoding then decoding\<close>

lemma utf8_char_nat:
  "is_scalar c \<Longrightarrow> map unat (utf8_char c) =
     (if c < 128 then [c]
      else if c < 2048 then [192 + c div 64, 128 + c mod 64]
      else if c < 65536 then [224 + c div 4096, 128 + c div 64 mod 64, 128 + c mod 64]
      else [240 + c div 262144, 128 + c div 4096 mod 64, 128 + c div 64 mod 64, 128 + c mod 64])"
proof -
  assume c: "is_scalar c"
  have u: "n < 256 \<Longrightarrow> unat (of_nat n :: u8) = n" for n
    by (simp add: unat_of_nat)
  have "c < 1114112" using c by (auto simp: is_scalar_def)
  then show ?thesis
    by (simp add: utf8_char_def u del: of_nat_add)
qed

lemma base64_three: "c div 4096 * 4096 + c div 64 mod 64 * 64 + c mod 64 = (c :: nat)"
proof -
  have "c div 64 div 64 * 64 + c div 64 mod 64 = c div 64" "c div 64 * 64 + c mod 64 = c" by simp_all
  moreover have "c div 4096 = c div 64 div 64" using div_mult2_eq [of c 64 64] by simp
  ultimately show ?thesis by linarith
qed

lemma base64_four:
  "c div 262144 * 262144 + c div 4096 mod 64 * 4096 + c div 64 mod 64 * 64 + c mod 64 = (c :: nat)"
proof -
  have "c div 4096 div 64 * 64 + c div 4096 mod 64 = c div 4096" by simp
  moreover have "c div 262144 = c div 4096 div 64" using div_mult2_eq [of c 4096 64] by simp
  ultimately show ?thesis using base64_three [of c] by linarith
qed

lemma utf8_step_char:
  assumes "is_scalar c"
  shows "\<exists>a t. map unat (utf8_char c) = a # t \<and> utf8_step a (t @ r) = (Scalar c, Suc (length t))"
proof -
  consider (one) "c < 128" | (two) "128 \<le> c" "c < 2048" | (three) "2048 \<le> c" "c < 65536"
    | (four) "65536 \<le> c" "c < 1114112"
    using assms unfolding is_scalar_def by linarith
  then show ?thesis
  proof cases
    case one
    then show ?thesis using assms by (simp add: utf8_char_nat utf8_step_def)
  next
    case two
    then have "194 \<le> 192 + c div 64" "192 + c div 64 \<le> 223" by arith+
    then show ?thesis using assms two
      by (simp add: utf8_char_nat utf8_step_def is_cont_def)
  next
    case three
    have "c div 4096 = 13 \<Longrightarrow> c div 64 mod 64 \<le> 31"
    proof -
      assume d: "c div 4096 = 13"
      then have "c < 55296" using assms by (auto simp: is_scalar_def)
      moreover have "c div 64 div 64 = 13" using d div_mult2_eq [of c 64 64] by simp
      moreover have "c div 64 div 64 * 64 + c div 64 mod 64 = c div 64" by simp
      ultimately show ?thesis by linarith
    qed
    then have "second_of_three (224 + c div 4096) (128 + c div 64 mod 64)"
      using three unfolding second_of_three_def is_cont_def by auto
    moreover have "c div 4096 * 4096 + c div 64 mod 64 * 64 + c mod 64 = c"
      by (rule base64_three)
    ultimately show ?thesis using assms three
      by (simp add: utf8_char_nat utf8_step_def is_cont_def)
  next
    case four
    have "c div 4096 mod 64 \<le> 15" if "c div 262144 = 4"
    proof -
      have "c div 4096 div 64 = 4" using that div_mult2_eq [of c 4096 64] by simp
      moreover have "c div 4096 div 64 * 64 + c div 4096 mod 64 = c div 4096" by simp
      moreover have "c div 4096 < 272" using four by simp
      ultimately show ?thesis by linarith
    qed
    then have "second_of_four (240 + c div 262144) (128 + c div 4096 mod 64)"
      using four unfolding second_of_four_def is_cont_def by auto
    moreover have "c div 262144 * 262144 + c div 4096 mod 64 * 4096 + c div 64 mod 64 * 64 + c mod 64 = c"
      by (rule base64_four)
    moreover have "c div 262144 \<le> 4" "is_cont (128 + c div 64 mod 64)" "is_cont (128 + c mod 64)"
      using four by (simp_all add: is_cont_def less_Suc_eq_le [symmetric])
    ultimately show ?thesis using assms four
      by (simp add: utf8_char_nat utf8_step_def)
  qed
qed

lemma utf8_items_utf8:
  "\<forall>c \<in> set s. is_scalar c \<Longrightarrow> utf8_items (map unat (utf8 s)) = map Scalar s"
proof (induction s)
  case (Cons c s)
  obtain a t where t: "map unat (utf8_char c) = a # t"
    "utf8_step a (t @ map unat (utf8 s)) = (Scalar c, Suc (length t))"
    using utf8_step_char [of c "map unat (utf8 s)"] Cons.prems by auto
  have "map unat (utf8 (c # s)) = a # t @ map unat (utf8 s)"
    using t(1) by (simp add: utf8_def)
  then show ?case using Cons t(2) by (simp add: utf8_items.simps(2))
qed simp

lemma from_utf8_utf8: "\<forall>c \<in> set s. is_scalar c \<Longrightarrow> from_utf8 (utf8 s) = Some s"
  by (simp add: from_utf8_def utf8_items_utf8 image_iff comp_def)

lemma from_utf8_lossy_utf8: "\<forall>c \<in> set s. is_scalar c \<Longrightarrow> from_utf8_lossy (utf8 s) = s"
  by (simp add: from_utf8_lossy_def utf8_items_utf8 comp_def)

section \<open>Decoding then encoding\<close>

lemma base64_digit: "z < 64 \<Longrightarrow> (k * 64 + z) div 64 = k \<and> (k * 64 + z) mod 64 = (z :: nat)"
  by simp

lemma utf8_step_sound:
  assumes "utf8_step a r = (Scalar c, n)"
  shows "is_scalar c \<and> map unat (utf8_char c) = a # take (n - 1) r"
proof -
  consider (one) "a < 128" | (two) "194 \<le> a" "a \<le> 223" | (three) "224 \<le> a" "a \<le> 239"
    | (four) "240 \<le> a" "a \<le> 244"
    using assms by (auto simp: utf8_step_def split: if_splits)
  then show ?thesis
  proof cases
    case one
    then have "c = a" "n = 1" using assms by (auto simp: utf8_step_def)
    then show ?thesis using one utf8_char_nat [of a] by (simp add: is_scalar_def)
  next
    case two
    then obtain b t where r: "r = b # t" "is_cont b" "c = (a - 192) * 64 + (b - 128)" "n = 2"
      using assms by (cases r) (auto simp: utf8_step_def split: if_splits)
    define x y where "x = a - 192" and "y = b - 128"
    have xy: "a = 192 + x" "b = 128 + y" "2 \<le> x" "x < 32" "y < 64" "c = x * 64 + y"
      using two r by (auto simp: x_def y_def is_cont_def)
    then have "is_scalar c" by (simp add: is_scalar_def)
    then show ?thesis using xy r utf8_char_nat [of c] by simp
  next
    case three
    then obtain b d t where r: "r = b # d # t" "second_of_three a b" "is_cont d"
        "c = (a - 224) * 4096 + (b - 128) * 64 + (d - 128)" "n = 3"
      using assms by (cases "(a, r)" rule: utf8_three.cases) (auto simp: utf8_step_def split: if_splits)
    define x y z where "x = a - 224" and "y = b - 128" and "z = d - 128"
    have xy: "a = 224 + x" "b = 128 + y" "d = 128 + z" "x < 16" "y < 64" "z < 64"
        "c = x * 4096 + y * 64 + z" "x = 0 \<longrightarrow> 32 \<le> y" "x = 13 \<longrightarrow> y < 32"
      using three r by (auto simp: x_def y_def z_def is_cont_def second_of_three_def)
    then have "2048 \<le> c" "c < 65536" by (cases "x = 0"; simp)+
    moreover have "is_scalar c"
      using xy by (cases "x < 13"; cases "x = 13") (auto simp: is_scalar_def)
    moreover have "c = (x * 64 + y) * 64 + z" using xy by simp
    then have "c div 64 = x * 64 + y" "c mod 64 = z" using base64_digit xy by blast+
    then have "c div 4096 = x" "c div 64 mod 64 = y" "c mod 64 = z"
      using base64_digit [of y x] xy div_mult2_eq [of c 64 64] by simp_all
    ultimately show ?thesis using xy r utf8_char_nat [of c] by simp
  next
    case four
    then obtain b d e t where r: "r = b # d # e # t" "second_of_four a b" "is_cont d" "is_cont e"
        "c = (a - 240) * 262144 + (b - 128) * 4096 + (d - 128) * 64 + (e - 128)" "n = 4"
      using assms by (cases "(a, r)" rule: utf8_four.cases) (auto simp: utf8_step_def split: if_splits)
    define x y z w where "x = a - 240" and "y = b - 128" and "z = d - 128" and "w = e - 128"
    have xy: "a = 240 + x" "b = 128 + y" "d = 128 + z" "e = 128 + w" "x \<le> 4" "y < 64" "z < 64" "w < 64"
        "c = x * 262144 + y * 4096 + z * 64 + w" "x = 0 \<longrightarrow> 16 \<le> y" "x = 4 \<longrightarrow> y < 16"
      using four r by (auto simp: x_def y_def z_def w_def is_cont_def second_of_four_def)
    then have "65536 \<le> c" "c < 1114112" by (cases "x = 0"; simp; fail | cases "x = 4"; simp; fail)+
    moreover from this have "is_scalar c" by (simp add: is_scalar_def)
    moreover have "c = ((x * 64 + y) * 64 + z) * 64 + w" using xy by simp
    then have "c div 64 = (x * 64 + y) * 64 + z" "c mod 64 = w" using base64_digit xy by blast+
    then have "c div 262144 = x" "c div 4096 mod 64 = y" "c div 64 mod 64 = z" "c mod 64 = w"
      using base64_digit [of z "x * 64 + y"] base64_digit [of y x] xy
        div_mult2_eq [of c 64 64] div_mult2_eq [of c 4096 64] by simp_all
    ultimately show ?thesis using xy r utf8_char_nat [of c] by simp
  qed
qed

lemma utf8_step_consumed: "utf8_step a r = (item, n) \<Longrightarrow> 1 \<le> n \<and> n \<le> 4"
  by (cases "(a, r)" rule: utf8_four.cases; cases "(a, r)" rule: utf8_three.cases; cases r)
    (auto simp: utf8_step_def split: if_splits)

lemma utf8_items_sound:
  "Malformed \<notin> set (utf8_items bs) \<Longrightarrow>
     (\<forall>c \<in> set (map item_char (utf8_items bs)). is_scalar c) \<and>
     map unat (utf8 (map item_char (utf8_items bs))) = bs"
proof (induction bs rule: utf8_items.induct)
  case (2 a r)
  obtain item n where st: "utf8_step a r = (item, n)" by fastforce
  with 2(2) obtain c where c: "item = Scalar c" by (cases item) (auto simp: utf8_items.simps(2))
  have it: "utf8_items (a # r) = Scalar c # utf8_items (drop (n - 1) r)"
    using st c by (simp add: utf8_items.simps(2))
  have "utf8_step a r = (Scalar c, n)" using st c by simp
  then have sc: "is_scalar c" "map unat (utf8_char c) = a # take (n - 1) r"
    by (auto dest: utf8_step_sound)
  have "(\<forall>c \<in> set (map item_char (utf8_items (drop (n - 1) r))). is_scalar c) \<and>
      map unat (utf8 (map item_char (utf8_items (drop (n - 1) r)))) = drop (n - 1) r"
    using 2(1) [OF st [symmetric]] 2(2) it by simp
  then show ?case using it sc by (simp add: utf8_def)
qed simp

lemma map_unat_inject: "map unat xs = map unat (ys :: bytes) \<longleftrightarrow> xs = ys"
  by (rule inj_map_eq_map) (metis injI word_unat_eq_iff)

lemma from_utf8_sound: "from_utf8 bs = Some s \<Longrightarrow> utf8 s = bs \<and> (\<forall>c \<in> set s. is_scalar c)"
  using utf8_items_sound [of "map unat bs"]
  by (auto simp: from_utf8_def Let_def map_unat_inject split: if_splits)

lemma utf8_items_scalar: "Scalar c \<in> set (utf8_items bs) \<Longrightarrow> is_scalar c"
proof (induction bs rule: utf8_items.induct)
  case (2 a r)
  obtain item n where st: "utf8_step a r = (item, n)" by fastforce
  then show ?case using 2 utf8_step_sound [of a r c n] by (auto simp: utf8_items.simps(2))
qed simp

lemma from_utf8_lossy_scalar: "c \<in> set (from_utf8_lossy bs) \<Longrightarrow> is_scalar c"
proof -
  assume "c \<in> set (from_utf8_lossy bs)"
  then obtain item where "item \<in> set (utf8_items (map unat bs))" "c = item_char item"
    by (auto simp: from_utf8_lossy_def)
  then show ?thesis
  proof (cases item rule: item_char.cases)
    case 2
    then show ?thesis using \<open>c = item_char item\<close> by (simp add: is_scalar_def)
  qed (auto dest: utf8_items_scalar)
qed

end
