(* ===== verification/Batch_Config_Laws.thy ===== *)
theory Batch_Config_Laws
  imports Batch_Config Utf8
begin

text \<open>
  What a validated batch request promises: its mutable ref resolves without a panic, stays
  below the \<^verbatim>\<open>refs\<close> directory and is shared only by names with the same segments; its
  concurrency limits are positive; and a published profile version survives printing and
  parsing.
\<close>

section \<open>Ref names\<close>

lemma segments_ok_iff:
  "normalized_ref_name_segments name = Ok segs \<longleftrightarrow>
     trim name \<noteq> [] \<and>
     \<not> starts_with (replace_char 92 [47] (trim name)) [47] \<and>
     \<not> ends_with (replace_char 92 [47] (trim name)) [47] \<and>
     segs = split_on 47 (replace_char 92 [47] (trim name)) \<and>
     (\<forall>s \<in> set segs. is_valid_ref_name_segment s)"
  by (auto simp: normalized_ref_name_segments_def Let_def list_ex_iff)

lemma valid_segmentD:
  assumes "is_valid_ref_name_segment s"
  shows "s \<noteq> []" and "s \<noteq> lit ''.''" and "s \<noteq> lit ''..''" and "63 \<notin> set s"
    and "\<And>c. c \<in> set s \<Longrightarrow> \<not> is_whitespace c"
proof -
  have "63 \<in> set reserved_ref_chars" by (simp add: reserved_ref_chars_def)
  then show "63 \<notin> set s" using assms by (auto simp: is_valid_ref_name_segment_def list_ex_iff)
qed (use assms in \<open>auto simp: is_valid_ref_name_segment_def list_ex_iff\<close>)

lemma segments_no_slash:
  "normalized_ref_name_segments name = Ok segs \<Longrightarrow>
     segs \<noteq> [] \<and> (\<forall>s \<in> set segs. 47 \<notin> set s \<and> 92 \<notin> set s \<and> is_valid_ref_name_segment s)"
proof -
  assume a: "normalized_ref_name_segments name = Ok segs"
  then have s: "segs = split_on 47 (replace_char 92 [47] (trim name))"
    and v: "\<forall>s \<in> set segs. is_valid_ref_name_segment s" by (auto simp: segments_ok_iff)
  have "92 \<notin> set (replace_char 92 [47] (trim name))" by (rule set_replace_char) simp
  then have "\<forall>w \<in> set segs. 92 \<notin> set w" using s set_split_on_subset by fastforce
  then show ?thesis using s v split_on_no_sep by (metis split_on_nonempty)
qed

lemma join_segments_inject:
  assumes "normalized_ref_name_segments n = Ok segs" "normalized_ref_name_segments m = Ok segs'"
    and "join [47] segs = join [47] segs'"
  shows "segs = segs'"
  using segments_no_slash [OF assms(1)] segments_no_slash [OF assms(2)] assms(3)
    split_on_join [of segs 47] split_on_join [of segs' 47] by metis

lemma foldl_path_push: "foldl path_push p segs = Path (is_absolute p) (components p @ segs)"
  by (induction segs arbitrary: p) (auto simp: path_push_def)

lemma relative_path_eqs:
  "normalized_ref_name_segments name = Ok segs \<Longrightarrow>
     mutable_ref_relative_path name = Ok (MUTABLE_REF_ROOT_DIR @ [47] @ join [47] segs) \<and>
     mutable_ref_relative_path_buf name = Ok (Path False (MUTABLE_REF_ROOT_DIR # segs))"
  by (simp add: mutable_ref_relative_path_def mutable_ref_relative_path_buf_def foldl_path_push)

lemma resolve_ok_iff:
  "resolve_mutable_ref_store env dir name = Ok loc \<longleftrightarrow>
     (\<exists>segs. normalized_ref_name_segments name = Ok segs \<and>
        loc = Some (ref_store_at env dir (MUTABLE_REF_ROOT_DIR @ [47] @ join [47] segs)
                      (Path False (MUTABLE_REF_ROOT_DIR # segs))))"
  by (auto simp: resolve_mutable_ref_store_def mutable_ref_relative_path_def
      mutable_ref_relative_path_buf_def foldl_path_push result_simps)

lemma hex_encode_inject: "hex_encode a = hex_encode b \<Longrightarrow> a = b"
  using decode_pairs_accepts [of "hex_encode a" a] decode_pairs_accepts [of "hex_encode b" b]
    hex_encode_ascii lower_hex_encode by (metis sum.inject(2))

lemma utf8_inject:
  "\<forall>c \<in> set s. is_scalar c \<Longrightarrow> \<forall>c \<in> set t. is_scalar c \<Longrightarrow> utf8 s = utf8 t \<Longrightarrow> s = t"
  by (metis from_utf8_utf8 option.inject)

section \<open>Properties\<close>

text \<open>What a location addresses, without the text that is only shown: a file, a blob, a row of a table.\<close>

datatype ref_target = FileAddress path | BlobAddress rstring | RowAddress rstring rstring rstring

fun ref_address :: "mutable_ref_store_location \<Rightarrow> ref_target" where
  "ref_address (LocalFile p) = FileAddress p"
| "ref_address (AzureBlob url _) = BlobAddress url"
| "ref_address (AzureTable url _ part row) = RowAddress url part row"

lemma ref_address_inject:
  assumes "ref_address (ref_store_at env dir (r @ [47] @ join [47] segs) (Path False (r # segs))) =
           ref_address (ref_store_at env dir (r @ [47] @ join [47] segs') (Path False (r # segs')))"
    and "\<forall>c \<in> set (r @ [47] @ join [47] segs). is_scalar c" and "\<forall>c \<in> set (r @ [47] @ join [47] segs'). is_scalar c"
  shows "segs = segs' \<or> join [47] segs = join [47] segs'"
  using assms hex_encode_inject utf8_inject [OF assms(2,3)]
  by (cases env) (auto simp: Let_def path_join_def mutable_ref_store_blob_url_def
      mutable_ref_store_table_row_key_def split: option.splits)

lemma segments_scalar:
  assumes "\<forall>c \<in> set name. is_scalar c" and "normalized_ref_name_segments name = Ok segs"
  shows "\<forall>c \<in> set (MUTABLE_REF_ROOT_DIR @ [47] @ join [47] segs). is_scalar c"
proof -
  let ?n = "replace_char 92 [47] (trim name)"
  have n: "join [47] segs = ?n" using assms(2) by (simp add: segments_ok_iff join_split_on)
  have "set ?n \<subseteq> insert 47 (set name)"
    using set_trim_subset [of name] by (auto simp: replace_char_def split: if_splits)
  moreover have "is_scalar 47" "\<forall>c \<in> set MUTABLE_REF_ROOT_DIR. is_scalar c"
    by (simp_all add: is_scalar_def MUTABLE_REF_ROOT_DIR_def)
  ultimately show ?thesis using assms(1) unfolding n by auto
qed

text \<open>
  C36. Two ref names address the same file, blob or table row of an environment exactly when
  their normalised segments are the same: the path, the URL and the row key are each injective
  on refs.
\<close>

theorem mutable_ref_store_distinct:
  assumes "resolve_mutable_ref_store env dir name = Ok (Some loc)"
    and "resolve_mutable_ref_store env dir name' = Ok (Some loc')"
    and "\<forall>c \<in> set name. is_scalar c" and "\<forall>c \<in> set name'. is_scalar c"
  shows "ref_address loc = ref_address loc' \<longleftrightarrow>
    normalized_ref_name_segments name = normalized_ref_name_segments name'"
proof -
  obtain segs segs' where s: "normalized_ref_name_segments name = Ok segs" "normalized_ref_name_segments name' = Ok segs'"
    and loc: "loc = ref_store_at env dir (MUTABLE_REF_ROOT_DIR @ [47] @ join [47] segs) (Path False (MUTABLE_REF_ROOT_DIR # segs))"
      "loc' = ref_store_at env dir (MUTABLE_REF_ROOT_DIR @ [47] @ join [47] segs') (Path False (MUTABLE_REF_ROOT_DIR # segs'))"
    using assms(1,2) by (auto simp: resolve_ok_iff)
  have "segs = segs'" if "ref_address loc = ref_address loc'"
    using ref_address_inject [OF that [unfolded loc]] segments_scalar assms(3,4) s join_segments_inject [OF s] by blast
  then show ?thesis using s loc by auto
qed

definition sample_embedding :: local_embedding_config where
  "sample_embedding = \<lparr>le_base_url = lit ''http://localhost:8080'', le_model = lit ''m'',
     le_api_key_env = None, le_request_timeout_secs = DEFAULT_REQUEST_TIMEOUT_SECS,
     le_max_retries = DEFAULT_MAX_RETRIES, le_retry_delay_ms = DEFAULT_RETRY_DELAY_MS\<rparr>"

definition sample_environment :: environment_config where
  "sample_environment = Local (Path True [lit ''data'', lit ''blocks'']) sample_embedding"

lemma sample_resolves:
  "resolve_mutable_ref_store sample_environment (Path True []) (lit ''main/head'') =
     Ok (Some (LocalFile (Path True (map lit [''data'', ''refs'', ''main'', ''head'']))))"
  "resolve_mutable_ref_store sample_environment (Path True []) (lit '' main'' @ [92] @ lit ''head'') =
     Ok (Some (LocalFile (Path True (map lit [''data'', ''refs'', ''main'', ''head'']))))"
  by (simp_all add: resolve_mutable_ref_store_def mutable_ref_relative_path_def
      mutable_ref_relative_path_buf_def normalized_ref_name_segments_def sample_environment_def
      trim_def trim_start_def trim_end_def replace_char_def starts_with_def ends_with_def
      is_valid_ref_name_segment_def reserved_ref_chars_def MUTABLE_REF_ROOT_DIR_def
      is_whitespace_def is_control_def resolve_path_def path_parent_def path_join_def path_push_def)

theorem mutable_ref_store_distinct_witness:
  "normalized_ref_name_segments (lit ''main/head'') =
     normalized_ref_name_segments (lit '' main'' @ [92] @ lit ''head'')"
  using mutable_ref_store_distinct [OF sample_resolves] by (simp add: is_scalar_def)

text \<open>
  A ref of a local environment is stored below the \<^verbatim>\<open>refs\<close> directory beside the block
  store: the path is the parent of the store root, then \<^verbatim>\<open>refs\<close>, then at least one segment,
  and no segment is empty, a single dot or a double dot, or holds a slash or a backslash.
\<close>

theorem local_ref_stays_under_refs:
  assumes "resolve_mutable_ref_store (Local root e) dir name = Ok (Some (LocalFile p))"
  shows "\<exists>segs. segs \<noteq> [] \<and>
     p = path_join (case path_parent (resolve_path dir root) of None \<Rightarrow> resolve_path dir root | Some q \<Rightarrow> q)
           (Path False (MUTABLE_REF_ROOT_DIR # segs)) \<and>
     (\<forall>s \<in> set segs. s \<noteq> [] \<and> s \<noteq> lit ''.'' \<and> s \<noteq> lit ''..'' \<and> 47 \<notin> set s \<and> 92 \<notin> set s)"
proof -
  obtain segs where segs: "normalized_ref_name_segments name = Ok segs"
    and p: "p = path_join (case path_parent (resolve_path dir root) of None \<Rightarrow> resolve_path dir root | Some q \<Rightarrow> q)
           (Path False (MUTABLE_REF_ROOT_DIR # segs))"
    using assms unfolding resolve_ok_iff ref_store_at.simps Let_def by blast
  have "segs \<noteq> []" "\<forall>s \<in> set segs. s \<noteq> [] \<and> s \<noteq> lit ''.'' \<and> s \<noteq> lit ''..'' \<and> 47 \<notin> set s \<and> 92 \<notin> set s"
    using segments_no_slash [OF segs] valid_segmentD(1-3) by simp_all
  with p show ?thesis by (intro exI [of _ segs] conjI)
qed

theorem local_ref_stays_under_refs_witness:
  "\<exists>segs. segs \<noteq> [] \<and>
     Path True (map lit [''data'', ''refs'', ''main'', ''head'']) =
       path_join (Path True [lit ''data'']) (Path False (MUTABLE_REF_ROOT_DIR # segs)) \<and>
     list_all (\<lambda>s. s \<noteq> [] \<and> s \<noteq> lit ''.'' \<and> s \<noteq> lit ''..'' \<and> 47 \<notin> set s \<and> 92 \<notin> set s) segs"
  using local_ref_stays_under_refs [OF sample_resolves(1) [unfolded sample_environment_def]]
  by (simp add: resolve_path_def path_parent_def list_all_iff)

text \<open>
  After \<open>validate_request\<close> accepts a request, its ref resolves without a panic in every
  directory, and the effective concurrency and replay batch size are positive, provided the
  system reports no parallelism of zero.
\<close>

theorem validated_request_usable:
  assumes "validate_request r = Ok ()" and "available \<noteq> Some 0"
  shows "(\<exists>loc. resolve_mutable_ref_store (environment r) dir (ref_name r) = Ok (Some loc)) \<and>
     1 \<le> effective_max_concurrency physical available r \<and>
     1 \<le> effective_replay_batch_size physical available r"
proof -
  obtain segs where "normalized_ref_name_segments (ref_name r) = Ok segs"
    and m: "max_concurrency r \<noteq> Some 0" and b: "replay_batch_size r \<noteq> Some 0"
    using assms(1) by (auto simp: validate_request_def result_simps split: if_splits)
  then have res: "\<exists>loc. resolve_mutable_ref_store (environment r) dir (ref_name r) = Ok (Some loc)"
    by (auto simp: resolve_ok_iff)
  have d: "1 \<le> default_max_concurrency physical available"
    by (auto simp: default_max_concurrency_def derive_default_max_concurrency_def MIN_MAX_CONCURRENCY_def)
  have "1 \<le> effective_max_concurrency physical available r"
    using m d by (auto simp: effective_max_concurrency_def Suc_le_eq split: option.splits)
  moreover have "1 \<le> effective_replay_batch_size physical available r"
    using m b d by (auto simp: effective_replay_batch_size_def Suc_le_eq split: option.splits)
  ultimately show ?thesis using res by blast
qed

definition sample_request :: batch_request where
  "sample_request = \<lparr>environment = sample_environment,
     embedding_spec = \<lparr>spec_dims = 384, spec_encoding = lit ''f32le''\<rparr>,
     block_size_target = DEFAULT_BLOCK_SIZE_TARGET, stage = FullPipeline,
     request_profile_version = \<lparr>pv_major = 0, pv_minor = 8, pv_patch = 0\<rparr>,
     max_concurrency = None, replay_batch_size = None, ref_name = lit ''main/head'',
     items = [MailboxItem (Path False [lit ''a.mbox'']) []]\<rparr>"

lemma sample_request_valid: "validate_request sample_request = Ok ()"
  by (simp add: sample_request_def sample_environment_def sample_embedding_def validate_request_def
      normalized_ref_name_segments_def is_blank_def
      trim_def trim_start_def trim_end_def replace_char_def starts_with_def ends_with_def
      is_valid_ref_name_segment_def reserved_ref_chars_def is_whitespace_def is_control_def)

theorem validated_request_usable_witness:
  "validate_request sample_request = Ok () \<and>
   (\<exists>loc. resolve_mutable_ref_store (environment sample_request) (Path True []) (ref_name sample_request)
       = Ok (Some loc)) \<and>
   1 \<le> effective_max_concurrency 8 None sample_request \<and>
   1 \<le> effective_replay_batch_size 8 None sample_request"
  using validated_request_usable [OF sample_request_valid, of None "Path True []" 8] sample_request_valid
  by simp

definition show_version :: "nat \<Rightarrow> nat \<Rightarrow> nat \<Rightarrow> rstring" where
  "show_version a b c = show_nat a @ [46] @ show_nat b @ [46] @ show_nat c"

lemma trim_show_version: "trim (show_version a b c) = show_version a b c"
proof (rule trim_ends_fixed)
  have ws: "c \<in> set (show_nat n) \<Longrightarrow> \<not> is_whitespace c" for c n
    using show_nat_digits [of c n] by (auto simp: is_whitespace_def)
  have "hd (show_version a b c) \<in> set (show_nat a)" "last (show_version a b c) \<in> set (show_nat c)"
    by (simp_all add: show_version_def)
  then show "show_version a b c = [] \<or>
      (\<not> is_whitespace (hd (show_version a b c)) \<and> \<not> is_whitespace (last (show_version a b c)))"
    using ws by blast
qed

text \<open>
  \<open>parse_published_profile_version\<close> reads back every version that is printed as three
  decimal numbers of 64 bits separated by dots.
\<close>

theorem profile_version_roundtrip:
  assumes "a < 2 ^ 64" and "b < 2 ^ 64" and "c < 2 ^ 64"
  shows "parse_published_profile_version (show_version a b c) =
    Ok \<lparr>pv_major = of_nat a, pv_minor = of_nat b, pv_patch = of_nat c\<rparr>"
proof -
  have nd: "46 \<notin> set (show_nat n)" for n using show_nat_digits [of 46 n] by auto
  have "split_once 46 (show_version a b c) = Some (show_nat a, show_nat b @ 46 # show_nat c)"
    "split_once 46 (show_nat b @ 46 # show_nat c) = Some (show_nat b, show_nat c)"
    using nd by (simp_all add: show_version_def split_once_append)
  then show ?thesis using assms nd
    by (simp add: parse_published_profile_version_def trim_show_version parse_u64_show_nat)
qed

theorem profile_version_roundtrip_witness:
  "parse_published_profile_version (show_version 0 8 0) =
     Ok \<lparr>pv_major = of_nat 0, pv_minor = of_nat 8, pv_patch = of_nat 0\<rparr>"
  by (rule profile_version_roundtrip) simp_all

end
