(* ===== verification/Mailbox.thy ===== *)
theory Mailbox
  imports Batch_Config Rust_Order Utf8
begin

text \<open>
  Mailbox expansion (\<^verbatim>\<open>mailbox.rs\<close>): splitting an mbox file into messages, choosing and
  normalising the body of each message, cutting it into chunks, storing the mailbox and the
  normalised messages as artifact blocks, and producing one index item per chunk.

  The mail parser, the CBOR encoder and the block library are not part of the repository. They
  are the functions of \<open>mail_lib\<close>; the file system gives the outcome of the calls on it.
\<close>

section \<open>Constants and data\<close>

definition ARTIFACT_MEDIA_TYPE_MAILBOX :: rstring where
  "ARTIFACT_MEDIA_TYPE_MAILBOX = lit ''application/mbox''"

definition NORMALIZED_EMAIL_MEDIA_TYPE :: rstring where
  "NORMALIZED_EMAIL_MEDIA_TYPE = lit ''application/vnd.lexonarchivebuilder.normalized-email+cbor''"

definition MAILBOX_ARTIFACT_BLOCK_TYPE :: rstring where
  "MAILBOX_ARTIFACT_BLOCK_TYPE = lit ''lexonarchivebuilder/mailbox-artifact''"

definition NORMALIZED_EMAIL_ARTIFACT_BLOCK_TYPE :: rstring where
  "NORMALIZED_EMAIL_ARTIFACT_BLOCK_TYPE = lit ''lexonarchivebuilder/normalized-email-artifact''"

definition CHUNK_MEDIA_TYPE :: rstring where
  "CHUNK_MEDIA_TYPE = lit ''text/plain''"

definition NORMALIZED_EMAIL_SCHEMA_VERSION :: nat where
  "NORMALIZED_EMAIL_SCHEMA_VERSION = 1"

definition MAX_CHUNK_CHARS :: nat where
  "MAX_CHUNK_CHARS = 1000"

datatype canonicalize_error = DuplicateKeys | UnsupportedValue cbor

datatype encode_message = CanonicalizeMessage canonicalize_error | WriterMessage rstring

datatype mailbox_expansion_error =
    MailboxMissing path
  | MailboxNotAFile path
  | MailboxWrongExtension path
  | ReadMailbox path io_error
  | EmptyMailbox path
  | ParseMessage path nat rstring
  | EncodeArtifact path encode_message
  | BuildArtifact path rstring
  | UnsupportedArtifactMediaType path rstring
  | StoreArtifact path block_store_error

record normalized_header =
  header_name :: rstring
  header_value :: rstring

record normalized_email_artifact =
  art_schema_version :: nat
  art_mailbox_artifact_ref :: rstring
  art_mailbox_message_index :: nat
  art_headers :: "normalized_header list"
  art_subject :: "rstring option"
  art_from :: "rstring option"
  art_recipient_context :: "rstring option"
  art_date :: "rstring option"
  art_message_id :: "rstring option"
  art_body :: rstring

record mailbox_expansion =
  exp_items :: "index_item list"
  exp_message_count :: nat

text \<open>A parsed message, as far as the code looks at it: headers in order (key and value), MIME
  type, the results of \<^verbatim>\<open>get_body\<close> and \<^verbatim>\<open>get_body_raw\<close>, and the parts.\<close>

datatype parsed_mail = ParsedMail
  (mail_headers: "(rstring \<times> rstring) list")
  (mimetype: rstring)
  (get_body: "rstring option")
  (get_body_raw: "bytes option")
  (subparts: "parsed_mail list")

record ('s, 'v) mail_lib =
  parse_mail :: "bytes \<Rightarrow> rstring + parsed_mail"
  get_first_value :: "(rstring \<times> rstring) list \<Rightarrow> rstring \<Rightarrow> rstring option"
  encode_value :: "cbor \<Rightarrow> bytes"
  into_writer :: "cbor \<Rightarrow> rstring + bytes"
  build_custom_block :: "rstring \<Rightarrow> cbor \<Rightarrow> rstring + 'v"
  put_versioned :: "'s \<Rightarrow> 'v \<Rightarrow> 's \<times> (block_store_error + block_hash)"
  show_hash :: "block_hash \<Rightarrow> rstring"

record file_system =
  fs_exists :: "path \<Rightarrow> bool"
  fs_is_file :: "path \<Rightarrow> bool"
  fs_read :: "path \<Rightarrow> io_error + bytes"

section \<open>Text\<close>

definition normalize_line_endings :: "rstring \<Rightarrow> rstring" where
  "normalize_line_endings s = replace_char 13 [10] (replace_str [13, 10] [10] s)"

definition normalize_inline_text :: "rstring \<Rightarrow> rstring" where
  "normalize_inline_text s = join [32] (split_whitespace s)"

fun drop_tags :: "bool \<Rightarrow> rstring \<Rightarrow> rstring" where
  "drop_tags inside [] = []"
| "drop_tags inside (c # cs) =
     (if c = 60 then drop_tags True cs
      else if c = 62 then drop_tags False cs
      else if \<not> inside then c # drop_tags inside cs
      else drop_tags inside cs)"

definition strip_html_tags :: "rstring \<Rightarrow> rstring" where
  "strip_html_tags s =
     replace_str (lit ''&gt;'') (lit ''>'')
      (replace_str (lit ''&lt;'') (lit ''<'')
       (replace_str (lit ''&amp;'') (lit ''&'')
        (replace_str (lit ''&nbsp;'') (lit '' '') (drop_tags False s))))"

section \<open>Splitting a mailbox\<close>

definition mbox_separator :: "bytes \<Rightarrow> bool" where
  "mbox_separator line \<longleftrightarrow> starts_with line [70, 114, 111, 109, 32]"

fun split_mbox_loop :: "bytes list \<Rightarrow> bytes list \<Rightarrow> bytes \<Rightarrow> bool \<Rightarrow> bytes list \<times> bool" where
  "split_mbox_loop [] messages current saw =
     (if current \<noteq> [] then messages @ [current] else messages, saw)"
| "split_mbox_loop (line # ls) messages current saw =
     (if mbox_separator line
      then split_mbox_loop ls (if current \<noteq> [] then messages @ [current] else messages) [] True
      else split_mbox_loop ls messages (current @ line) saw)"

definition split_mbox_messages :: "bytes \<Rightarrow> bytes list" where
  "split_mbox_messages raw =
     (case split_mbox_loop (split_inclusive (\<lambda>b. b = 10) raw) [] [] False of
        (messages, saw) \<Rightarrow> if saw then messages else if raw = [] then [] else [raw])"

section \<open>The body of a message\<close>

definition decoded_body_lossy :: "parsed_mail \<Rightarrow> rstring option" where
  "decoded_body_lossy m =
     (case get_body m of
        Some b \<Rightarrow> Some b
      | None \<Rightarrow> map_option from_utf8_lossy (get_body_raw m))"

fun preferred_leaf_body :: "parsed_mail \<Rightarrow> rstring option \<Rightarrow> rstring option \<times> rstring option"
and preferred_part_body :: "parsed_mail list \<Rightarrow> rstring option \<Rightarrow> rstring option \<times> rstring option" where
  "preferred_leaf_body (ParsedMail hs mt b br parts) html =
     (if parts = [] then
        (let m = ParsedMail hs mt b br parts; t = to_ascii_lowercase mt in
         if t = lit ''text/plain'' then (map_option normalize_line_endings (decoded_body_lossy m), html)
         else if t = lit ''text/html'' \<and> html = None
         then (None, map_option (\<lambda>x. strip_html_tags (normalize_line_endings x)) (decoded_body_lossy m))
         else (None, html))
      else preferred_part_body parts html)"
| "preferred_part_body [] html = (None, html)"
| "preferred_part_body (p # ps) html =
     (case preferred_leaf_body p html of
        (Some body, html') \<Rightarrow> (Some body, html')
      | (None, html') \<Rightarrow> preferred_part_body ps html')"

definition first_preferred_body :: "parsed_mail \<Rightarrow> rstring option" where
  "first_preferred_body m =
     (if subparts m = [] then map_option normalize_line_endings (decoded_body_lossy m)
      else case preferred_part_body (subparts m) None of
        (Some body, _) \<Rightarrow> Some body
      | (None, html) \<Rightarrow> html)"

definition looks_like_reply_intro :: "rstring \<Rightarrow> bool" where
  "looks_like_reply_intro line \<longleftrightarrow>
     (let lower = to_ascii_lowercase line in
      starts_with lower (lit ''on '') \<and> ends_with lower (lit '' wrote:''))"

definition ends_email_body :: "rstring \<Rightarrow> bool" where
  "ends_email_body t \<longleftrightarrow>
     looks_like_reply_intro t \<or> t = lit ''--'' \<or> starts_with t (lit ''-- '')"

fun normalize_lines :: "rstring list \<Rightarrow> rstring list \<Rightarrow> bool \<Rightarrow> rstring list" where
  "normalize_lines [] out previous_blank = out"
| "normalize_lines (line # ls) out previous_blank =
     (let trimmed = trim line in
      if trimmed = []
      then normalize_lines ls (if \<not> previous_blank \<and> out \<noteq> [] then out @ [[]] else out) True
      else if ends_email_body trimmed then out
      else if starts_with trimmed (lit ''>'') then normalize_lines ls out previous_blank
      else normalize_lines ls (out @ [trimmed]) False)"

definition normalize_email_body :: "rstring \<Rightarrow> rstring" where
  "normalize_email_body body = trim (join [10] (normalize_lines (str_lines body) [] False))"

definition derive_email_core :: "parsed_mail \<Rightarrow> rstring option" where
  "derive_email_core m =
     (case first_preferred_body m of
        None \<Rightarrow> None
      | Some raw \<Rightarrow>
          let normalized = normalize_email_body raw in
          if normalized = [] then None else Some normalized)"

section \<open>Chunks\<close>

definition sentence_end :: "uchar \<Rightarrow> bool" where
  "sentence_end c \<longleftrightarrow> c = 46 \<or> c = 33 \<or> c = 63"

definition push_non_empty :: "rstring \<Rightarrow> rstring list \<Rightarrow> rstring list" where
  "push_non_empty s ss = (if s \<noteq> [] then s # ss else ss)"

fun sentence_loop :: "rstring \<Rightarrow> rstring \<Rightarrow> nat \<Rightarrow> rstring list" where
  "sentence_loop [] current blank_run = push_non_empty (normalize_inline_text current) []"
| "sentence_loop (c # cs) current blank_run =
     (let run = (if c = 10 then blank_run + 1 else if \<not> is_whitespace c then 0 else blank_run);
          current' = current @ [c]
      in if sentence_end c \<or> 2 \<le> run
         then push_non_empty (normalize_inline_text current') (sentence_loop cs [] 0)
         else sentence_loop cs current' run)"

definition sentence_units :: "rstring \<Rightarrow> rstring list" where
  "sentence_units body = sentence_loop body [] 0"

fun chunk_loop :: "rstring list \<Rightarrow> rstring \<Rightarrow> rstring list" where
  "chunk_loop [] current = (if current \<noteq> [] then [current] else [])"
| "chunk_loop (u # us) current =
     (let candidate_len = (if current = [] then length u else length current + 1 + length u) in
      if current \<noteq> [] \<and> candidate_len > MAX_CHUNK_CHARS
      then current # chunk_loop us u
      else chunk_loop us (if current \<noteq> [] then current @ [32] @ u else u))"

definition chunk_email_core :: "rstring \<Rightarrow> rstring list" where
  "chunk_email_core body =
     (let units = sentence_units body in
      if units = [] then [trim body] else chunk_loop units [])"

section \<open>Normalised messages\<close>

definition first_text :: "('s, 'v) mail_lib \<Rightarrow> parsed_mail \<Rightarrow> rstring \<Rightarrow> rstring option" where
  "first_text lib m key =
     (case map_option normalize_inline_text (get_first_value lib (mail_headers m) key) of
        None \<Rightarrow> None | Some v \<Rightarrow> if v = [] then None else Some v)"

definition first_recipient :: "('s, 'v) mail_lib \<Rightarrow> parsed_mail \<Rightarrow> rstring option" where
  "first_recipient lib m =
     (case map_option normalize_inline_text
        (find_map (get_first_value lib (mail_headers m)) (map lit [''To'', ''Cc'', ''List-Id''])) of
        None \<Rightarrow> None | Some v \<Rightarrow> if v = [] then None else Some v)"

definition normalize_email ::
  "('s, 'v) mail_lib \<Rightarrow> parsed_mail \<Rightarrow> rstring \<Rightarrow> nat \<Rightarrow> normalized_email_artifact" where
  "normalize_email lib m mailbox_ref index =
     (let subject = first_text lib m (lit ''Subject'') in
      \<lparr>art_schema_version = NORMALIZED_EMAIL_SCHEMA_VERSION,
       art_mailbox_artifact_ref = mailbox_ref,
       art_mailbox_message_index = index,
       art_headers = map (\<lambda>(k, v). \<lparr>header_name = k, header_value = normalize_inline_text v\<rparr>) (mail_headers m),
       art_subject = subject,
       art_from = first_text lib m (lit ''From''),
       art_recipient_context = first_recipient lib m,
       art_date = first_text lib m (lit ''Date''),
       art_message_id = first_text lib m (lit ''Message-ID''),
       art_body = (case derive_email_core m of
                     Some b \<Rightarrow> b
                   | None \<Rightarrow> case subject of Some s \<Rightarrow> s | None \<Rightarrow> lit ''(empty email body)'')\<rparr>)"

section \<open>Canonical CBOR\<close>

definition canonical_value_cmp :: "(cbor \<Rightarrow> bytes) \<Rightarrow> cbor \<Rightarrow> cbor \<Rightarrow> ordering" where
  "canonical_value_cmp enc l r =
     then_with (cmp (length (enc l)) (length (enc r))) (cmp (enc l) (enc r))"

definition canonical_entry_cmp :: "(cbor \<Rightarrow> bytes) \<Rightarrow> cbor \<times> cbor \<Rightarrow> cbor \<times> cbor \<Rightarrow> ordering" where
  "canonical_entry_cmp enc l r = canonical_value_cmp enc (fst l) (fst r)"

function (sequential) canonicalize_value :: "(cbor \<Rightarrow> bytes) \<Rightarrow> cbor \<Rightarrow> canonicalize_error + cbor"
and canonicalize_values :: "(cbor \<Rightarrow> bytes) \<Rightarrow> cbor list \<Rightarrow> canonicalize_error + cbor list"
and canonicalize_entries ::
  "(cbor \<Rightarrow> bytes) \<Rightarrow> (cbor \<times> cbor) list \<Rightarrow> canonicalize_error + (cbor \<times> cbor) list" where
  "canonicalize_value enc (VTag t v) = and_then (canonicalize_value enc v) (\<lambda>v'. Ok (VTag t v'))"
| "canonicalize_value enc (VArray vs) = and_then (canonicalize_values enc vs) (\<lambda>vs'. Ok (VArray vs'))"
| "canonicalize_value enc (VMap es) =
     and_then (canonicalize_entries enc es) (\<lambda>es'.
       let normalized = sort_by (canonical_entry_cmp enc) es' in
       if has_equal_neighbours (canonical_entry_cmp enc) normalized then Err DuplicateKeys
       else Ok (VMap normalized))"
| "canonicalize_value enc (VOther k) = Err (UnsupportedValue (VOther k))"
| "canonicalize_value enc v = Ok v"
| "canonicalize_values enc [] = Ok []"
| "canonicalize_values enc (v # vs) =
     and_then (canonicalize_value enc v) (\<lambda>v'.
     and_then (canonicalize_values enc vs) (\<lambda>vs'. Ok (v' # vs')))"
| "canonicalize_entries enc [] = Ok []"
| "canonicalize_entries enc ((k, v) # es) =
     and_then (canonicalize_value enc k) (\<lambda>k'.
     and_then (canonicalize_value enc v) (\<lambda>v'.
     and_then (canonicalize_entries enc es) (\<lambda>es'. Ok ((k', v') # es'))))"
  by pat_completeness auto
termination
  by (relation "measure (case_sum (\<lambda>(enc, v). size v)
        (case_sum (\<lambda>(enc, vs). size_list size vs)
          (\<lambda>(enc, es). size_list (size_prod size size) es)))") auto

definition option_text_field :: "rstring \<Rightarrow> rstring option \<Rightarrow> cbor \<times> cbor" where
  "option_text_field key v = (VText key, case v of Some t \<Rightarrow> VText t | None \<Rightarrow> VNull)"

definition header_value_map :: "normalized_header \<Rightarrow> cbor" where
  "header_value_map h =
     VMap [(VText (lit ''name''), VText (header_name h)), (VText (lit ''value''), VText (header_value h))]"

definition normalized_email_fields :: "normalized_email_artifact \<Rightarrow> (cbor \<times> cbor) list" where
  "normalized_email_fields a =
     [(VText (lit ''schema_version''), VInteger (int (art_schema_version a))),
      (VText (lit ''mailbox_artifact_ref''), VText (art_mailbox_artifact_ref a)),
      (VText (lit ''mailbox_message_index''), VInteger (int (art_mailbox_message_index a))),
      (VText (lit ''headers''), VArray (map header_value_map (art_headers a))),
      option_text_field (lit ''subject'') (art_subject a),
      option_text_field (lit ''from'') (art_from a),
      option_text_field (lit ''recipient_context'') (art_recipient_context a),
      option_text_field (lit ''date'') (art_date a),
      option_text_field (lit ''message_id'') (art_message_id a),
      (VText (lit ''body''), VText (art_body a))]"

definition render_normalized_email ::
  "('s, 'v) mail_lib \<Rightarrow> path \<Rightarrow> normalized_email_artifact \<Rightarrow> mailbox_expansion_error + bytes" where
  "render_normalized_email lib p a =
     and_then (map_err (\<lambda>e. EncodeArtifact p (CanonicalizeMessage e))
                 (canonicalize_value (encode_value lib) (VMap (normalized_email_fields a)))) (\<lambda>value.
       map_err (\<lambda>e. EncodeArtifact p (WriterMessage e)) (into_writer lib value))"

section \<open>Storing artifacts\<close>

definition artifact_block_type :: "path \<Rightarrow> rstring \<Rightarrow> mailbox_expansion_error + rstring" where
  "artifact_block_type p media_type =
     (if media_type = ARTIFACT_MEDIA_TYPE_MAILBOX then Ok MAILBOX_ARTIFACT_BLOCK_TYPE
      else if media_type = NORMALIZED_EMAIL_MEDIA_TYPE then Ok NORMALIZED_EMAIL_ARTIFACT_BLOCK_TYPE
      else Err (UnsupportedArtifactMediaType p media_type))"

definition store_artifact_block ::
  "('s, 'v) mail_lib \<Rightarrow> 's \<Rightarrow> path \<Rightarrow> rstring \<Rightarrow> bytes
     \<Rightarrow> ('s, mailbox_expansion_error, block_hash) fallible" where
  "store_artifact_block lib st p media_type body =
     (case and_then (artifact_block_type p media_type) (\<lambda>type_name.
             map_err (BuildArtifact p)
               (build_custom_block lib type_name (artifact_content media_type body))) of
        Inl e \<Rightarrow> (st, Err e)
      | Inr block \<Rightarrow> (case put_versioned lib st block of
          (st', r) \<Rightarrow> (st', map_err (StoreArtifact p) r)))"

definition opt_insert :: "rstring \<Rightarrow> rstring option \<Rightarrow> bmap \<Rightarrow> bmap" where
  "opt_insert k v m = (case v of Some t \<Rightarrow> bmap_insert k t m | None \<Rightarrow> m)"

definition build_chunk_metadata ::
  "bmap \<Rightarrow> path \<Rightarrow> rstring \<Rightarrow> rstring \<Rightarrow> normalized_email_artifact \<Rightarrow> nat \<Rightarrow> rstring \<Rightarrow> metadata" where
  "build_chunk_metadata base p mailbox_ref email_ref a chunk_index locator =
     (let m1 = bmap_insert (lit ''mailbox_artifact_ref'') mailbox_ref base;
          m2 = bmap_insert (lit ''email_artifact_ref'') email_ref m1;
          m3 = bmap_insert (lit ''mailbox_message_index'') (show_nat (art_mailbox_message_index a)) m2;
          m4 = bmap_insert (lit ''chunk_index'') (show_nat chunk_index) m3;
          m5 = bmap_insert (lit ''chunk_locator'') locator m4;
          m6 = opt_insert (lit ''email_name'') (art_subject a)
                 (opt_insert (lit ''email_subject'') (art_subject a) m5);
          m7 = opt_insert (lit ''email_from'') (art_from a) m6;
          m8 = opt_insert (lit ''email_recipient_context'') (art_recipient_context a) m7;
          m9 = opt_insert (lit ''email_date'') (art_date a) m8;
          m10 = opt_insert (lit ''email_message_id'') (art_message_id a) m9
      in metadata_to_lexongraph m10 (lit ''email'') p)"

section \<open>Expansion\<close>

definition is_supported_mailbox_extension :: "rstring \<Rightarrow> bool" where
  "is_supported_mailbox_extension e \<longleftrightarrow>
     eq_ignore_ascii_case e (lit ''mail'') \<or> eq_ignore_ascii_case e (lit ''mbox'')"

definition validate_mailbox_path :: "file_system \<Rightarrow> path \<Rightarrow> mailbox_expansion_error + unit" where
  "validate_mailbox_path fs p =
     (if \<not> fs_exists fs p then Err (MailboxMissing p)
      else if \<not> fs_is_file fs p then Err (MailboxNotAFile p)
      else if \<not> is_supported_mailbox_extension (case path_extension p of Some e \<Rightarrow> e | None \<Rightarrow> [])
      then Err (MailboxWrongExtension p)
      else Ok ())"

definition chunk_item ::
  "bmap \<Rightarrow> path \<Rightarrow> rstring \<Rightarrow> rstring \<Rightarrow> normalized_email_artifact \<Rightarrow> nat \<Rightarrow> index_item" where
  "chunk_item base p mailbox_ref email_ref a chunk_index =
     \<lparr>item_metadata = build_chunk_metadata base p mailbox_ref email_ref a chunk_index
                        (email_ref @ [58] @ show_nat chunk_index),
      item_content_ref = EmailChunkRef email_ref chunk_index\<rparr>"

definition expand_message ::
  "('s, 'v) mail_lib \<Rightarrow> 's \<Rightarrow> path \<Rightarrow> bmap \<Rightarrow> rstring \<Rightarrow> nat \<Rightarrow> bytes
     \<Rightarrow> ('s, mailbox_expansion_error, index_item list) fallible" where
  "expand_message lib st p base mailbox_ref index message =
     (case map_err (ParseMessage p index) (parse_mail lib message) of
        Inl e \<Rightarrow> (st, Err e)
      | Inr parsed \<Rightarrow>
          let normalized = normalize_email lib parsed mailbox_ref index in
          case render_normalized_email lib p normalized of
            Inl e \<Rightarrow> (st, Err e)
          | Inr bytes \<Rightarrow>
              then_do (store_artifact_block lib st p NORMALIZED_EMAIL_MEDIA_TYPE bytes) (\<lambda>st' email_id.
                (st', Ok (map (chunk_item base p mailbox_ref (show_hash lib email_id) normalized)
                            [0..<length (chunk_email_core (art_body normalized))]))))"

fun expand_messages ::
  "('s, 'v) mail_lib \<Rightarrow> 's \<Rightarrow> path \<Rightarrow> bmap \<Rightarrow> rstring \<Rightarrow> nat \<Rightarrow> bytes list
     \<Rightarrow> ('s, mailbox_expansion_error, index_item list) fallible" where
  "expand_messages lib st p base mailbox_ref index [] = (st, Ok [])"
| "expand_messages lib st p base mailbox_ref index (m # ms) =
     then_do (expand_message lib st p base mailbox_ref index m) (\<lambda>st' first.
     then_do (expand_messages lib st' p base mailbox_ref (Suc index) ms) (\<lambda>st'' rest.
       (st'', Ok (first @ rest))))"

definition expand_mailbox_item_with_stats ::
  "('s, 'v) mail_lib \<Rightarrow> file_system \<Rightarrow> 's \<Rightarrow> path \<Rightarrow> bmap
     \<Rightarrow> ('s, mailbox_expansion_error, mailbox_expansion) fallible" where
  "expand_mailbox_item_with_stats lib fs st p base =
     (case and_then (validate_mailbox_path fs p) (\<lambda>_. map_err (ReadMailbox p) (fs_read fs p)) of
        Inl e \<Rightarrow> (st, Err e)
      | Inr raw \<Rightarrow>
          let messages = split_mbox_messages raw in
          if messages = [] then (st, Err (EmptyMailbox p))
          else then_do (store_artifact_block lib st p ARTIFACT_MEDIA_TYPE_MAILBOX raw) (\<lambda>st' mailbox_id.
               then_do (expand_messages lib st' p base (show_hash lib mailbox_id) 0 messages) (\<lambda>st'' found.
                 (st'', Ok \<lparr>exp_items = found, exp_message_count = length messages\<rparr>))))"

definition expand_mailbox_item ::
  "('s, 'v) mail_lib \<Rightarrow> file_system \<Rightarrow> 's \<Rightarrow> path \<Rightarrow> bmap
     \<Rightarrow> ('s, mailbox_expansion_error, index_item list) fallible" where
  "expand_mailbox_item lib fs st p base =
     then_do (expand_mailbox_item_with_stats lib fs st p base) (\<lambda>st' e. (st', Ok (exp_items e)))"

fun expand_request_items ::
  "('s, 'v) mail_lib \<Rightarrow> file_system \<Rightarrow> 's \<Rightarrow> path \<Rightarrow> index_item list \<Rightarrow> batch_item_config list
     \<Rightarrow> ('s, mailbox_expansion_error, index_item list) fallible" where
  "expand_request_items lib fs st dir acc [] = (st, Ok acc)"
| "expand_request_items lib fs st dir acc (DocumentItem p m # is) =
     expand_request_items lib fs st dir acc is"
| "expand_request_items lib fs st dir acc (MailboxItem p m # is) =
     (case expand_mailbox_item lib fs st (resolve_path dir p) m of
        (st', Inr found) \<Rightarrow> expand_request_items lib fs st' dir (acc @ found) is
      | (st', Inl (EmptyMailbox q)) \<Rightarrow> expand_request_items lib fs st' dir acc is
      | (st', Inl e) \<Rightarrow> (st', Err e))"

definition expand_batch_items ::
  "('s, 'v) mail_lib \<Rightarrow> file_system \<Rightarrow> 's \<Rightarrow> path \<Rightarrow> batch_request
     \<Rightarrow> ('s, mailbox_expansion_error, index_item list) fallible" where
  "expand_batch_items lib fs st dir r =
     expand_request_items lib fs st dir (to_document_index_items r dir) (items r)"

end
