(* ===== verification/Mailbox_Laws.thy ===== *)
theory Mailbox_Laws
  imports Mailbox
begin

text \<open>
  Laws of mailbox expansion: splitting loses nothing but the separator lines, the body chosen
  from a multipart message is the first plain text (else the first HTML) in document order,
  the normalised body holds no quoted or signature lines, chunking keeps every visible
  character and bounds the chunks, and canonical CBOR has strictly sorted keys.
\<close>

section \<open>Splitting\<close>

lemma split_mbox_loop_concat:
  "split_mbox_loop ls ms cur saw = (out, saw') \<Longrightarrow>
     concat out = concat ms @ cur @ concat (filter (\<lambda>l. \<not> mbox_separator l) ls) \<and>
     saw' = (saw \<or> (\<exists>l \<in> set ls. mbox_separator l))"
  by (induction ls ms cur saw arbitrary: out saw' rule: split_mbox_loop.induct) (auto split: if_splits)

lemma split_mbox_loop_nonempty:
  "split_mbox_loop ls ms cur saw = (out, saw') \<Longrightarrow> [] \<notin> set ms \<Longrightarrow> [] \<notin> set out"
  by (induction ls ms cur saw arbitrary: out saw' rule: split_mbox_loop.induct) (auto split: if_splits)

text \<open>A line is complete when its only newline is its last byte.\<close>

definition full_line :: "bytes \<Rightarrow> bool" where
  "full_line l \<longleftrightarrow> l \<noteq> [] \<and> last l = 10 \<and> 10 \<notin> set (butlast l)"

lemma split_inclusive_full_line:
  "full_line l \<Longrightarrow> split_inclusive (\<lambda>b. b = 10) (l @ s) = l # split_inclusive (\<lambda>b. b = 10) s"
  by (induction l) (auto simp: full_line_def split: if_splits)

lemma split_inclusive_last:
  "l \<noteq> [] \<Longrightarrow> 10 \<notin> set (butlast l) \<Longrightarrow> split_inclusive (\<lambda>b :: u8. b = 10) l = [l]"
  by (induction l) (auto split: if_splits)

fun lines_ok :: "bytes list \<Rightarrow> bool" where
  "lines_ok [] = True"
| "lines_ok [l] = (l \<noteq> [] \<and> 10 \<notin> set (butlast l))"
| "lines_ok (l # ls) = (full_line l \<and> lines_ok ls)"

lemma lines_ok_Cons: "lines_ok (l # ls) \<longleftrightarrow> l \<noteq> [] \<and> 10 \<notin> set (butlast l) \<and> (ls \<noteq> [] \<longrightarrow> full_line l) \<and> lines_ok ls"
  by (cases ls) (auto simp: full_line_def)

lemma lines_ok_split: "lines_ok (split_inclusive (\<lambda>b. b = 10) raw)"
  by (induction raw) (auto simp: lines_ok_Cons full_line_def split: list.splits if_splits)

lemma split_inclusive_concat_lines:
  "lines_ok ls \<Longrightarrow> split_inclusive (\<lambda>b. b = 10) (concat ls) = ls"
  by (induction ls rule: lines_ok.induct) (auto simp: split_inclusive_full_line split_inclusive_last)

lemma lines_ok_append:
  "lines_ok (as @ bs) \<Longrightarrow> lines_ok as \<and> lines_ok bs"
  by (induction as) (auto simp: lines_ok_Cons)

lemma lines_ok_snoc_middle: "lines_ok (as @ l # bs) \<Longrightarrow> lines_ok (as @ [l])"
  by (induction as) (auto simp: lines_ok_Cons)

text \<open>Every message is the concatenation of consecutive lines, none of them a separator.\<close>

lemma split_mbox_loop_groups:
  assumes "split_mbox_loop ls ms cur saw = (out, saw')"
    and "cur = concat cs" and "lines_ok (cs @ ls)" and "\<forall>l \<in> set cs. \<not> mbox_separator l"
    and "\<forall>m \<in> set ms. \<exists>gs. m = concat gs \<and> lines_ok gs \<and> (\<forall>l \<in> set gs. \<not> mbox_separator l)"
  shows "\<forall>m \<in> set out. \<exists>gs. m = concat gs \<and> lines_ok gs \<and> (\<forall>l \<in> set gs. \<not> mbox_separator l)"
  using assms
proof (induction ls ms cur saw arbitrary: out saw' cs rule: split_mbox_loop.induct)
  case (1 ms cur saw)
  then show ?case by (auto split: if_splits)
next
  case (2 line ls ms cur saw)
  show ?case
  proof (cases "mbox_separator line")
    case True
    have "lines_ok ls" "lines_ok cs" using 2(5) lines_ok_append [of cs "line # ls"] by (auto simp: lines_ok_Cons)
    moreover have "\<forall>m \<in> set (if cur \<noteq> [] then ms @ [cur] else ms).
        \<exists>gs. m = concat gs \<and> lines_ok gs \<and> (\<forall>l \<in> set gs. \<not> mbox_separator l)"
      using 2(4,6,7) \<open>lines_ok cs\<close> by auto
    ultimately show ?thesis using 2(1) [OF True, of out saw' "[]"] 2(3) True by simp
  next
    case False
    then show ?thesis using 2(2) [OF False, of out saw' "cs @ [line]"] 2(3-7) by simp
  qed
qed

section \<open>Chunks\<close>

abbreviation visible :: "rstring \<Rightarrow> rstring" where
  "visible s \<equiv> filter (\<lambda>c. \<not> is_whitespace c) s"

lemma visible_join: "visible (join [32] ws) = concat (map visible ws)"
  by (induction "[32] :: rstring" ws rule: join.induct) auto

lemma visible_word: "\<forall>c \<in> set w. \<not> is_whitespace c \<Longrightarrow> visible w = w"
  by (simp add: filter_id_conv)

lemma visible_normalize [simp]: "visible (normalize_inline_text s) = visible s"
proof -
  have "map visible (split_whitespace s) = split_whitespace s"
    using split_whitespace_words visible_word by (metis map_idI)
  then show ?thesis
    by (simp add: normalize_inline_text_def visible_join concat_split_whitespace)
qed

lemma normalize_inline_text_Nil_iff: "normalize_inline_text s = [] \<longleftrightarrow> (\<forall>c \<in> set s. is_whitespace c)"
proof -
  have "join [32] ws = [] \<longleftrightarrow> ws = []" if "[] \<notin> set ws" for ws :: "rstring list"
    using that by (cases ws; cases "tl ws") auto
  then have "normalize_inline_text s = [] \<longleftrightarrow> split_whitespace s = []"
    using split_whitespace_words [of "[]" s] by (auto simp: normalize_inline_text_def)
  then show ?thesis by (simp add: split_whitespace_Nil_iff)
qed

lemma visible_push: "concat (map visible (push_non_empty s ss)) = visible s @ concat (map visible ss)"
  by (simp add: push_non_empty_def)

lemma visible_sentence_loop:
  "concat (map visible (sentence_loop cs cur run)) = visible cur @ visible cs"
  by (induction cs cur run rule: sentence_loop.induct) (auto simp: Let_def visible_push)

lemma sentence_loop_nonempty: "u \<in> set (sentence_loop cs cur run) \<Longrightarrow> u \<noteq> []"
  by (induction cs cur run rule: sentence_loop.induct)
    (auto simp: Let_def push_non_empty_def split: if_splits)

lemma sentence_units_Nil_iff: "sentence_units body = [] \<longleftrightarrow> (\<forall>c \<in> set body. is_whitespace c)"
proof
  assume "sentence_units body = []"
  then have "visible body = []"
    using visible_sentence_loop [of body "[]" 0] by (simp add: sentence_units_def)
  then show "\<forall>c \<in> set body. is_whitespace c" by (simp add: filter_empty_conv)
next
  assume ws: "\<forall>c \<in> set body. is_whitespace c"
  have "\<forall>c \<in> set cs. is_whitespace c \<Longrightarrow> \<forall>c \<in> set cur. is_whitespace c \<Longrightarrow> sentence_loop cs cur run = []"
    for cs cur run
  proof (induction cs cur run rule: sentence_loop.induct)
    case (2 c cs cur run)
    have "normalize_inline_text (cur @ [c]) = []"
      using 2(3,4) by (auto simp: normalize_inline_text_Nil_iff)
    then show ?case using 2 by (auto simp: Let_def push_non_empty_def)
  qed (auto simp: push_non_empty_def normalize_inline_text_Nil_iff)
  then show "sentence_units body = []" using ws by (simp add: sentence_units_def)
qed

lemma visible_chunk_loop:
  "concat (map visible (chunk_loop us cur)) = visible cur @ concat (map visible us)"
  by (induction us cur rule: chunk_loop.induct) (auto simp: Let_def)

lemma chunk_loop_nonempty:
  "[] \<notin> set us \<Longrightarrow> c \<in> set (chunk_loop us cur) \<Longrightarrow> c \<noteq> []"
  by (induction us cur rule: chunk_loop.induct) (auto simp: Let_def split: if_splits)

lemma chunk_loop_bound:
  "cur = [] \<or> length cur \<le> MAX_CHUNK_CHARS \<or> cur \<in> units \<Longrightarrow> set us \<subseteq> units \<Longrightarrow>
     c \<in> set (chunk_loop us cur) \<Longrightarrow> length c \<le> MAX_CHUNK_CHARS \<or> c \<in> units"
proof (induction us cur rule: chunk_loop.induct)
  case (1 cur)
  then show ?case by (auto split: if_splits)
next
  case (2 u us cur)
  show ?case
  proof (cases "cur \<noteq> [] \<and> length cur + 1 + length u > MAX_CHUNK_CHARS")
    case True
    then show ?thesis using 2 by (auto simp: Let_def)
  next
    case False
    then have "c \<in> set (chunk_loop us (if cur \<noteq> [] then cur @ [32] @ u else u))"
      using 2(5) by (auto simp: Let_def split: if_splits)
    moreover have "(if cur \<noteq> [] then cur @ [32] @ u else u) = [] \<or>
        length (if cur \<noteq> [] then cur @ [32] @ u else u) \<le> MAX_CHUNK_CHARS \<or>
        (if cur \<noteq> [] then cur @ [32] @ u else u) \<in> units"
      using False 2(4) by auto
    ultimately show ?thesis using 2(2) False 2(4) by (auto simp: Let_def)
  qed
qed

section \<open>The preferred body\<close>

text \<open>The leaves of a message in document order, and what each could contribute.\<close>

fun mail_leaves :: "parsed_mail \<Rightarrow> parsed_mail list"
and part_leaves :: "parsed_mail list \<Rightarrow> parsed_mail list" where
  "mail_leaves (ParsedMail hs mt b br parts) =
     (if parts = [] then [ParsedMail hs mt b br parts] else part_leaves parts)"
| "part_leaves [] = []"
| "part_leaves (p # ps) = mail_leaves p @ part_leaves ps"

definition plain_body :: "parsed_mail \<Rightarrow> rstring option" where
  "plain_body m =
     (if to_ascii_lowercase (mimetype m) = lit ''text/plain''
      then map_option normalize_line_endings (decoded_body_lossy m) else None)"

definition html_body :: "parsed_mail \<Rightarrow> rstring option" where
  "html_body m =
     (if to_ascii_lowercase (mimetype m) = lit ''text/html''
      then map_option (\<lambda>x. strip_html_tags (normalize_line_endings x)) (decoded_body_lossy m)
      else None)"

lemma find_map_append:
  "find_map f (xs @ ys) = (case find_map f xs of None \<Rightarrow> find_map f ys | Some y \<Rightarrow> Some y)"
  by (induction xs) (auto split: option.splits)

definition or_else :: "'a option \<Rightarrow> 'a option \<Rightarrow> 'a option" where
  "or_else x y = (case x of None \<Rightarrow> y | Some v \<Rightarrow> Some v)"

lemma or_else_simps [simp]: "or_else None y = y" "or_else (Some v) y = Some v" "or_else x None = x"
  by (auto simp: or_else_def split: option.splits)

lemma preferred_spec:
  "fst (preferred_leaf_body m html) = find_map plain_body (mail_leaves m) \<and>
     (fst (preferred_leaf_body m html) = None \<longrightarrow>
        snd (preferred_leaf_body m html) = or_else html (find_map html_body (mail_leaves m)))"
  "fst (preferred_part_body ps html) = find_map plain_body (part_leaves ps) \<and>
     (fst (preferred_part_body ps html) = None \<longrightarrow>
        snd (preferred_part_body ps html) = or_else html (find_map html_body (part_leaves ps)))"
proof (induction m html and ps html rule: preferred_leaf_body_preferred_part_body.induct)
  case (1 hs mt b br parts html)
  show ?case
  proof (cases "parts = []")
    case True
    then show ?thesis
      by (cases html) (auto simp: plain_body_def html_body_def Let_def split: option.splits)
  next
    case False
    then show ?thesis using 1 by simp
  qed
next
  case (2 html)
  then show ?case by simp
next
  case (3 p ps html)
  obtain r h where rh: "preferred_leaf_body p html = (r, h)" by fastforce
  show ?case
  proof (cases r)
    case (Some body)
    then have "find_map plain_body (mail_leaves p) = Some body" using 3(1) rh by simp
    then show ?thesis using rh Some by (simp add: find_map_append)
  next
    case None
    then have h: "find_map plain_body (mail_leaves p) = None"
      "h = or_else html (find_map html_body (mail_leaves p))" using 3(1) rh by auto
    have ps: "fst (preferred_part_body ps h) = find_map plain_body (part_leaves ps) \<and>
      (fst (preferred_part_body ps h) = None \<longrightarrow>
        snd (preferred_part_body ps h) = or_else h (find_map html_body (part_leaves ps)))"
      using 3(2) [OF rh [symmetric] None] .
    have "or_else h (find_map html_body (part_leaves ps)) =
        or_else html (find_map html_body (part_leaves (p # ps)))"
      by (cases html; cases "find_map html_body (mail_leaves p)") (auto simp: h(2) find_map_append)
    then show ?thesis using ps rh None h(1) by (simp add: find_map_append)
  qed
qed

section \<open>The normalised body\<close>

definition body_line_ok :: "rstring \<Rightarrow> bool" where
  "body_line_ok l \<longleftrightarrow> trim l = l \<and> 10 \<notin> set l \<and> \<not> ends_email_body l \<and> \<not> starts_with l (lit ''>'')"

lemma body_line_ok_Nil: "body_line_ok []"
  by (simp add: body_line_ok_def ends_email_body_def looks_like_reply_intro_def starts_with_def
      to_ascii_lowercase_def trim_def trim_start_def trim_end_def)

lemma normalize_lines_ok:
  "\<forall>l \<in> set ls. 10 \<notin> set l \<Longrightarrow> \<forall>l \<in> set out. body_line_ok l \<Longrightarrow>
     l \<in> set (normalize_lines ls out pb) \<Longrightarrow> body_line_ok l"
proof (induction ls out pb rule: normalize_lines.induct)
  case (2 line ls out pb)
  have "10 \<notin> set (trim line)" using 2(4) set_trim_subset [of line] by auto
  then show ?case using 2 body_line_ok_Nil
    by (auto simp: Let_def body_line_ok_def split: if_splits)
qed simp

lemma str_lines_no_newline: "l \<in> set (str_lines s) \<Longrightarrow> 10 \<notin> set l"
proof -
  have nl: "w \<in> set (split_inclusive (\<lambda>c. c = 10) s) \<Longrightarrow> 10 \<notin> set (butlast w)" for w :: rstring and s
    by (induction s arbitrary: w) (auto split: list.splits if_splits)
  assume "l \<in> set (str_lines s)"
  then obtain w where w: "w \<in> set (split_inclusive (\<lambda>c. c = 10) s)" "l = strip_line_end w"
    by (auto simp: str_lines_def)
  have "w \<noteq> [] \<Longrightarrow> last w \<noteq> 10 \<Longrightarrow> 10 \<notin> set w"
    using nl [OF w(1)] by (metis append_butlast_last_id in_set_conv_decomp_last insert_iff list.simps(15) rotate1.simps(2) set_rotate1)
  moreover have "ends_with w [10] \<longleftrightarrow> w \<noteq> [] \<and> last w = 10"
    by (cases w rule: rev_cases) (auto simp: ends_with_def)
  moreover have "10 \<notin> set (butlast (butlast w))" using nl [OF w(1)] in_set_butlastD by metis
  ultimately show ?thesis using nl [OF w(1)] split_inclusive_nonempty [OF w(1)]
    by (auto simp: w(2) strip_line_end_def)
qed

section \<open>Canonical CBOR\<close>

interpretation canonical: total_cmp "canonical_entry_cmp enc" for enc
  by unfold_locales
    (auto simp: canonical_entry_cmp_def canonical_value_cmp_def then_with_simps cmp_simps)

text \<open>All maps of a value, at every depth, have strictly increasing keys.\<close>

fun is_canonical :: "(cbor \<Rightarrow> bytes) \<Rightarrow> cbor \<Rightarrow> bool" where
  "is_canonical enc (VTag t v) = is_canonical enc v"
| "is_canonical enc (VArray vs) = (\<forall>v \<in> set vs. is_canonical enc v)"
| "is_canonical enc (VMap es) =
     ((\<forall>e \<in> set es. is_canonical enc (fst e) \<and> is_canonical enc (snd e)) \<and>
      sorted_wrt (\<lambda>l r. canonical_entry_cmp enc l r = Less) es)"
| "is_canonical enc (VOther k) = False"
| "is_canonical enc v = True"

lemma canonicalize_is_canonical:
  "canonicalize_value enc v = Ok v' \<Longrightarrow> is_canonical enc v'"
  "canonicalize_values enc vs = Ok vs' \<Longrightarrow> \<forall>v \<in> set vs'. is_canonical enc v"
  "canonicalize_entries enc es = Ok es' \<Longrightarrow> \<forall>e \<in> set es'. is_canonical enc (fst e) \<and> is_canonical enc (snd e)"
proof (induction enc v and enc vs and enc es arbitrary: v' and vs' and es'
    rule: canonicalize_value_canonicalize_values_canonicalize_entries.induct)
  case (3 enc es)
  then obtain es' where es': "canonicalize_entries enc es = Ok es'"
    and ne: "\<not> has_equal_neighbours (canonical_entry_cmp enc) (sort_by (canonical_entry_cmp enc) es')"
    and v': "v' = VMap (sort_by (canonical_entry_cmp enc) es')"
    by (auto simp: result_simps Let_def split: if_splits)
  show ?case
    using 3(1) [OF es'] canonical.neighbours_strict [OF canonical.sorted_sort_by, of enc es'] ne v' by simp
next
  case (9 enc k v es)
  then show ?case by (fastforce simp: result_simps)
qed (auto simp: result_simps)

lemma insert_by_least: "\<forall>y \<in> set ys. c x y \<noteq> Greater \<Longrightarrow> insert_by c x ys = x # ys"
  by (cases ys) auto

lemma sort_by_sorted: "sorted_wrt (\<lambda>x y. c x y \<noteq> Greater) xs \<Longrightarrow> sort_by c xs = xs"
  by (induction xs) (auto simp: sort_by_def insert_by_least)

lemma sorted_strict_weak:
  "sorted_wrt (\<lambda>x y. c x y = Less) xs \<Longrightarrow> sorted_wrt (\<lambda>x y. c x y \<noteq> Greater) xs"
  by (rule sorted_wrt_mono_rel) auto

lemma canonicalize_canonical:
  "is_canonical enc v \<Longrightarrow> canonicalize_value enc v = Ok v"
  "\<forall>v \<in> set vs. is_canonical enc v \<Longrightarrow> canonicalize_values enc vs = Ok vs"
  "\<forall>e \<in> set es. is_canonical enc (fst e) \<and> is_canonical enc (snd e) \<Longrightarrow> canonicalize_entries enc es = Ok es"
proof (induction enc v and enc vs and enc es
    rule: canonicalize_value_canonicalize_values_canonicalize_entries.induct)
  case (3 enc es)
  then have "sort_by (canonical_entry_cmp enc) es = es"
    using sort_by_sorted sorted_strict_weak by (metis is_canonical.simps(3))
  moreover have "\<not> has_equal_neighbours (canonical_entry_cmp enc) es"
    using 3(2) canonical.neighbours_strict [OF sorted_strict_weak] by simp
  ultimately show ?case using 3 by simp
qed auto

section \<open>Properties\<close>

text \<open>
  C25. \<open>split_mbox_messages\<close> loses nothing but the separator lines: the messages together are
  the lines of the file that do not start with \<^verbatim>\<open>From \<close>, in order; no message is empty; and
  no line of a message is a separator.
\<close>

theorem mbox_split_lossless:
  "concat (split_mbox_messages raw) =
     concat (filter (\<lambda>l. \<not> mbox_separator l) (split_inclusive (\<lambda>b. b = 10) raw)) \<and>
   [] \<notin> set (split_mbox_messages raw) \<and>
   (\<forall>m. m \<in> set (split_mbox_messages raw) \<longrightarrow>
      (\<forall>l. l \<in> set (split_inclusive (\<lambda>b. b = 10) m) \<longrightarrow> \<not> mbox_separator l))"
proof -
  let ?ls = "split_inclusive (\<lambda>b. b = 10) raw"
  obtain out saw where r: "split_mbox_loop ?ls [] [] False = (out, saw)" by fastforce
  note c = split_mbox_loop_concat [OF r]
  have g: "\<forall>m \<in> set out. \<exists>gs. m = concat gs \<and> lines_ok gs \<and> (\<forall>l \<in> set gs. \<not> mbox_separator l)"
    using split_mbox_loop_groups [OF r, of "[]"] lines_ok_split [of raw] by simp
  have inner: "\<forall>m. m \<in> set out \<longrightarrow> (\<forall>l. l \<in> set (split_inclusive (\<lambda>b. b = 10) m) \<longrightarrow> \<not> mbox_separator l)"
    using g split_inclusive_concat_lines by metis
  show ?thesis
  proof (cases saw)
    case True
    then show ?thesis using r c split_mbox_loop_nonempty [OF r] inner
      by (simp add: split_mbox_messages_def)
  next
    case False
    then have "\<forall>l \<in> set ?ls. \<not> mbox_separator l" using c by simp
    moreover from this have "filter (\<lambda>l. \<not> mbox_separator l) ?ls = ?ls" by (simp add: filter_id_conv)
    ultimately show ?thesis using r False
      by (simp add: split_mbox_messages_def concat_split_inclusive)
  qed
qed

theorem mbox_split_lossless_witness:
  "split_mbox_messages (map of_nat (lit ''From a'' @ [10] @ lit ''hi'' @ [10] @ lit ''From b'' @ [10] @ lit ''yo'')) =
     [map of_nat (lit ''hi'' @ [10]), map of_nat (lit ''yo'')] \<and>
   list_all (\<lambda>l. \<not> mbox_separator l) (split_inclusive (\<lambda>b. b = 10) (map of_nat (lit ''hi'' @ [10]) :: bytes))"
proof -
  have eq: "split_mbox_messages (map of_nat (lit ''From a'' @ [10] @ lit ''hi'' @ [10] @ lit ''From b'' @ [10] @ lit ''yo'')) =
     [map of_nat (lit ''hi'' @ [10]), map of_nat (lit ''yo'')]"
    by (simp add: split_mbox_messages_def mbox_separator_def starts_with_def)
  show ?thesis
    using mbox_split_lossless [of "map of_nat (lit ''From a'' @ [10] @ lit ''hi'' @ [10] @ lit ''From b'' @ [10] @ lit ''yo'')"]
    unfolding eq by (auto simp: list_all_iff)
qed

text \<open>
  C22. Chunking keeps the text: the characters of the chunks of \<open>chunk_email_core\<close> that are not
  white space are those of the body, in order. A body that is not blank has no empty chunk,
  and a chunk longer than the limit of 1000 characters is a single sentence.
\<close>

theorem chunk_email_core_lossless:
  "concat (map (filter (\<lambda>c. \<not> is_whitespace c)) (chunk_email_core body)) =
     filter (\<lambda>c. \<not> is_whitespace c) body \<and>
   (is_blank body \<or> [] \<notin> set (chunk_email_core body)) \<and>
   (\<forall>c. c \<in> set (chunk_email_core body) \<longrightarrow>
      length c \<le> MAX_CHUNK_CHARS \<or> c \<in> set (sentence_units body))"
proof (cases "sentence_units body = []")
  case True
  then have b: "\<forall>c \<in> set body. is_whitespace c" by (simp add: sentence_units_Nil_iff)
  then have "trim body = []" by (simp add: trim_Nil_iff)
  then show ?thesis using True b by (simp add: chunk_email_core_def is_blank_iff)
next
  case False
  then have ch: "chunk_email_core body = chunk_loop (sentence_units body) []"
    by (simp add: chunk_email_core_def)
  have "[] \<notin> set (sentence_units body)"
    using sentence_loop_nonempty by (auto simp: sentence_units_def)
  then have "[] \<notin> set (chunk_email_core body)" using chunk_loop_nonempty ch by metis
  moreover have "concat (map visible (chunk_email_core body)) = visible body"
    using visible_chunk_loop [of "sentence_units body" "[]"] visible_sentence_loop [of body "[]" 0]
    by (simp add: ch sentence_units_def)
  ultimately show ?thesis
    using chunk_loop_bound [of "[]" "set (sentence_units body)" "sentence_units body"] by (auto simp: ch)
qed

theorem chunk_email_core_lossless_witness:
  "chunk_email_core (lit ''One. Two!'') = [lit ''One. Two!''] \<and> [] \<notin> set (chunk_email_core (lit ''One. Two!''))"
proof -
  have eq: "chunk_email_core (lit ''One. Two!'') = [lit ''One. Two!'']"
    by (simp add: chunk_email_core_def sentence_units_def sentence_end_def push_non_empty_def
        normalize_inline_text_def split_whitespace_def is_whitespace_def MAX_CHUNK_CHARS_def)
  have "\<not> is_blank (lit ''One. Two!'')" by (simp add: is_blank_iff is_whitespace_def)
  then show ?thesis using chunk_email_core_lossless [of "lit ''One. Two!''"] eq by blast
qed

text \<open>
  The body taken from a multipart message (\<open>first_preferred_body\<close>, which walks the parts
  and threads the HTML fallback through the recursion) is the first decodable plain text
  leaf in document order; only if there is none it is the first decodable HTML leaf.
\<close>

theorem first_preferred_body_spec:
  assumes "subparts m \<noteq> []"
  shows "first_preferred_body m =
    (case find_map plain_body (mail_leaves m) of
       Some b \<Rightarrow> Some b
     | None \<Rightarrow> find_map html_body (mail_leaves m))"
proof -
  have "mail_leaves m = part_leaves (subparts m)" using assms by (cases m) simp
  then show ?thesis
    using assms preferred_spec(2) [of "subparts m" None]
    by (cases "preferred_part_body (subparts m) None"; cases "find_map plain_body (part_leaves (subparts m))")
      (auto simp: first_preferred_body_def)
qed

definition sample_leaf :: "string \<Rightarrow> string \<Rightarrow> parsed_mail" where
  "sample_leaf mt b = ParsedMail [] (lit mt) (Some (lit b)) None []"

definition sample_multipart :: parsed_mail where
  "sample_multipart = ParsedMail [] (lit ''multipart/mixed'') None None
     [sample_leaf ''text/html'' ''<b>x</b>'',
      ParsedMail [] (lit ''multipart/alternative'') None None [sample_leaf ''Text/Plain'' ''y'']]"

theorem first_preferred_body_spec_witness:
  "subparts sample_multipart \<noteq> [] \<and> first_preferred_body sample_multipart = Some (lit ''y'')"
  using first_preferred_body_spec [of sample_multipart]
  by (simp add: sample_multipart_def sample_leaf_def plain_body_def to_ascii_lowercase_def
      ascii_lower_def decoded_body_lossy_def normalize_line_endings_def replace_char_def
      replace_str.simps starts_with_def)

text \<open>No line before the first text line, and no two blank lines in a row.\<close>

definition tidy :: "rstring list \<Rightarrow> bool" where
  "tidy ls \<longleftrightarrow> (ls \<noteq> [] \<longrightarrow> hd ls \<noteq> []) \<and> (\<forall>i. Suc i < length ls \<longrightarrow> ls ! i \<noteq> [] \<or> ls ! Suc i \<noteq> [])"

lemma tidy_snoc:
  "tidy (out @ [x]) \<longleftrightarrow> tidy out \<and> (out = [] \<longrightarrow> x \<noteq> []) \<and> (out \<noteq> [] \<longrightarrow> last out \<noteq> [] \<or> x \<noteq> [])"
proof (cases out rule: rev_cases)
  case (snoc ys y)
  have "(\<forall>i. Suc i < length (out @ [x]) \<longrightarrow> (out @ [x]) ! i \<noteq> [] \<or> (out @ [x]) ! Suc i \<noteq> []) \<longleftrightarrow>
      (\<forall>i. Suc i < length out \<longrightarrow> out ! i \<noteq> [] \<or> out ! Suc i \<noteq> []) \<and> (y \<noteq> [] \<or> x \<noteq> [])"
    unfolding snoc by (auto simp: nth_append less_Suc_eq)
  then show ?thesis using snoc by (auto simp: tidy_def hd_append)
qed (simp add: tidy_def)

lemma normalize_lines_tidy:
  "tidy out \<Longrightarrow> (\<not> pb \<longrightarrow> out = [] \<or> last out \<noteq> []) \<Longrightarrow> tidy (normalize_lines ls out pb)"
proof (induction ls out pb rule: normalize_lines.induct)
  case (2 line ls out pb)
  then show ?case by (auto simp: Let_def tidy_snoc)
qed simp

lemma join_snoc: "ls \<noteq> [] \<Longrightarrow> join sep (ls @ [x]) = join sep ls @ sep @ x"
  by (induction sep ls rule: join.induct) auto

lemma hd_join: "hd ls \<noteq> [] \<Longrightarrow> ls \<noteq> [] \<Longrightarrow> join sep ls \<noteq> [] \<and> hd (join sep ls) = hd (hd ls)"
  by (cases ls; cases "tl ls") auto

lemma last_join: "last ls \<noteq> [] \<Longrightarrow> ls \<noteq> [] \<Longrightarrow> last (join sep ls) = last (last ls)"
  by (cases ls rule: rev_cases; cases "butlast ls = []") (auto simp: join_snoc)

lemma body_line_ends: "body_line_ok l \<Longrightarrow> l \<noteq> [] \<Longrightarrow> \<not> is_whitespace (hd l) \<and> \<not> is_whitespace (last l)"
  using trim_hd_last [of l] by (simp add: body_line_ok_def)

lemma trim_join_tidy:
  assumes "tidy ls" and "\<forall>l \<in> set ls. body_line_ok l" and "ls \<noteq> []" and "last ls \<noteq> []"
  shows "trim (join [10] ls) = join [10] ls"
proof (rule trim_ends_fixed)
  have h: "hd ls \<noteq> []" using assms(1,3) by (simp add: tidy_def)
  show "join [10] ls = [] \<or>
      (\<not> is_whitespace (hd (join [10] ls)) \<and> \<not> is_whitespace (last (join [10] ls)))"
    using hd_join [OF h assms(3)] last_join [OF assms(4,3)] body_line_ends assms h
    by (metis hd_in_set last_in_set)
qed

lemma trim_snoc_space: "is_whitespace c \<Longrightarrow> trim (s @ [c]) = trim s"
proof -
  assume c: "is_whitespace c"
  show ?thesis
  proof (cases "\<forall>x \<in> set s. is_whitespace x")
    case True
    then have "trim s = []" "trim (s @ [c]) = []" using c by (auto simp: trim_Nil_iff)
    then show ?thesis by simp
  next
    case False
    then have "dropWhile is_whitespace (s @ [c]) = dropWhile is_whitespace s @ [c]"
      by (auto simp: dropWhile_append)
    then show ?thesis using c by (simp add: trim_def trim_start_def trim_end_def)
  qed
qed

lemma normalized_body_lines:
  assumes "tidy out" and "\<forall>l \<in> set out. body_line_ok l"
  shows "\<exists>ls. trim (join [10] out) = join [10] ls \<and> tidy ls \<and> (\<forall>l \<in> set ls. body_line_ok l) \<and>
    (ls \<noteq> [] \<longrightarrow> last ls \<noteq> [])"
proof (cases out rule: rev_cases)
  case Nil
  then show ?thesis using assms by (intro exI [of _ "[]"]) (simp add: trim_def trim_start_def trim_end_def)
next
  case (snoc init l)
  show ?thesis
  proof (cases "l = []")
    case True
    have i: "tidy init" "init \<noteq> []" "last init \<noteq> []" using assms(1) snoc True by (auto simp: tidy_snoc)
    have "trim (join [10] out) = join [10] init"
      using trim_join_tidy [OF i(1) _ i(2,3)] assms(2) i(2) snoc True
      by (simp add: join_snoc trim_snoc_space)
    then show ?thesis using i assms(2) snoc by (intro exI [of _ init]) auto
  next
    case False
    then show ?thesis using trim_join_tidy [OF assms] assms snoc by (intro exI [of _ out]) auto
  qed
qed

text \<open>
  \<open>normalize_email_body\<close> yields trimmed lines joined by newlines: no quoted line, no reply
  introduction, no signature mark, no blank line at either end and no two blank lines in a
  row.
\<close>

theorem normalize_email_body_clean:
  "\<exists>ls. normalize_email_body body = join [10] ls \<and> tidy ls \<and> (ls = [] \<or> last ls \<noteq> []) \<and>
     list_all (\<lambda>l. trim l = l \<and> 10 \<notin> set l \<and> \<not> ends_email_body l \<and> \<not> starts_with l (lit ''>'')) ls"
proof -
  let ?out = "normalize_lines (str_lines body) [] False"
  have "tidy ?out" by (rule normalize_lines_tidy) (simp_all add: tidy_def)
  moreover have "\<forall>l \<in> set ?out. body_line_ok l"
    using normalize_lines_ok [of "str_lines body" "[]"] str_lines_no_newline by auto
  ultimately obtain ls where "trim (join [10] ?out) = join [10] ls" "tidy ls"
      "\<forall>l \<in> set ls. body_line_ok l" "ls \<noteq> [] \<longrightarrow> last ls \<noteq> []"
    using normalized_body_lines by blast
  then show ?thesis
    by (intro exI [of _ ls]) (auto simp: normalize_email_body_def body_line_ok_def list_all_iff)
qed

theorem normalize_email_body_clean_witness:
  "\<exists>ls. normalize_email_body (lit ''> q'' @ [10] @ lit ''Hi'' @ [10] @ lit ''--'') = join [10] ls \<and> tidy ls \<and>
     list_all (\<lambda>l. \<not> starts_with l (lit ''>'') \<and> \<not> ends_email_body l) ls"
  using normalize_email_body_clean [of "lit ''> q'' @ [10] @ lit ''Hi'' @ [10] @ lit ''--''"]
  unfolding list_all_iff by blast

text \<open>
  \<open>canonicalize_value\<close> either fails or gives a value whose maps, at every depth, have keys
  that strictly increase in the canonical order (length of the encoding first, then its
  bytes); canonicalising that value again changes nothing.
\<close>

theorem canonicalize_value_canonical:
  assumes "canonicalize_value enc v = Ok v'"
  shows "is_canonical enc v' \<and> canonicalize_value enc v' = Ok v'"
  using canonicalize_is_canonical(1) [OF assms] canonicalize_canonical(1) by blast

definition sample_encode :: "cbor \<Rightarrow> bytes" where
  "sample_encode v = (case v of VText s \<Rightarrow> utf8 s | _ \<Rightarrow> [])"

definition sample_map :: cbor where
  "sample_map = VMap [(VText (lit ''bb''), VMap []), (VText (lit ''c''), VNull)]"

lemma sample_canonicalize:
  "canonicalize_value sample_encode sample_map =
     Ok (VMap [(VText (lit ''c''), VNull), (VText (lit ''bb''), VMap [])])"
  by (simp add: sample_map_def sample_encode_def sort_by_def canonical_entry_cmp_def
      canonical_value_cmp_def cmp_def utf8_def utf8_char_def)

theorem canonicalize_value_canonical_witness:
  "canonicalize_value sample_encode (VMap [(VText (lit ''c''), VNull), (VText (lit ''bb''), VMap [])]) =
     Ok (VMap [(VText (lit ''c''), VNull), (VText (lit ''bb''), VMap [])])"
  using canonicalize_value_canonical [OF sample_canonicalize] by blast

end
