(* ===== verification/Content_Resolver.thy ===== *)
theory Content_Resolver
  imports Mailbox_Laws
begin

text \<open>
  The content resolver of the indexer (\<^verbatim>\<open>resolver.rs\<close>): from a content reference to the
  media type and bytes to embed, and to the fingerprint that identifies it. E-mail chunks are
  cut again from the stored artifact and kept in a cache shared by threads.

  The block store, the block decoder, the CBOR reader and SHA-256 are arguments
  (\<open>resolver_lib\<close>). The cache lock is released while an artifact is loaded, so a resolution
  sees two caches: \<open>seen\<close> at the lookup and \<open>now\<close> at the insertion.
\<close>

section \<open>Data\<close>

datatype resolver_error =
    ContentMissing path
  | ContentNotAFile path
  | ContentWrongExtension path rstring
  | ContentIo path io_error
  | InvalidBlockHash rstring
  | ResolverBlockStore block_store_error
  | MissingArtifact rstring
  | ArtifactLegacyVersion rstring nat
  | ArtifactWrongType rstring rstring
  | ArtifactMissingContent rstring
  | ArtifactWrongMediaType rstring rstring
  | ArtifactDecode rstring rstring
  | ArtifactMissingBody rstring
  | MissingChunk rstring nat

record content =
  media_type :: rstring
  content_body :: bytes

record ('s, 'v) resolver_lib =
  get_decoded :: "'s \<Rightarrow> block_hash \<Rightarrow> block_store_error + 'v decoded_block option"
  into_typed_block :: "'v \<Rightarrow> rstring + typed_block"
  from_reader :: "bytes \<Rightarrow> rstring + cbor"
  sha256 :: "bytes \<Rightarrow> block_hash"

type_synonym chunk_cache = "rstring \<Rightarrow> rstring list option"

section \<open>Block ids and payloads\<close>

definition resolver_parse_block_hash :: "rstring \<Rightarrow> resolver_error + block_hash" where
  "resolver_parse_block_hash value =
     (if length (utf8 value) \<noteq> HASH_LEN * 2 then Err (InvalidBlockHash value)
      else decode_pairs (\<lambda>b. ok_or (InvalidBlockHash value) (decode_hex_nibble b)) (utf8 value))"

interpretation resolver_hash: hash_parser resolver_parse_block_hash InvalidBlockHash
  by (rule hash_parserI) (simp add: resolver_parse_block_hash_def decode_pairs_option)

fun resolver_custom_block_payload :: "cbor \<Rightarrow> rstring \<Rightarrow> resolver_error + rstring \<times> bytes" where
  "resolver_custom_block_payload (VMap fs) block_id =
     and_then (ok_or (ArtifactDecode block_id (lit ''artifact custom block content is missing media_type''))
                 (text_field (lit ''media_type'') fs)) (\<lambda>m.
     and_then (ok_or (ArtifactMissingContent block_id) (bytes_field (lit ''body'') fs)) (\<lambda>b.
       Ok (m, b)))"
| "resolver_custom_block_payload _ block_id =
     Err (ArtifactDecode block_id (lit ''artifact custom block content must be a CBOR map''))"

fun match_version :: "cbor \<times> cbor \<Rightarrow> nat option" where
  "match_version (VText k, VInteger n) =
     (if k = lit ''schema_version'' \<and> 0 \<le> n \<and> n < 2 ^ 64 then Some (nat n) else None)"
| "match_version _ = None"

definition normalized_email_body ::
  "('s, 'v) resolver_lib \<Rightarrow> bytes \<Rightarrow> rstring \<Rightarrow> resolver_error + rstring" where
  "normalized_email_body lib bs block_id =
     and_then (map_err (ArtifactDecode block_id) (from_reader lib bs)) (\<lambda>value.
       case value of
         VMap fs \<Rightarrow>
           and_then (ok_or (ArtifactMissingBody block_id) (text_field (lit ''body'') fs)) (\<lambda>body.
             if find_map match_version fs = Some NORMALIZED_EMAIL_SCHEMA_VERSION then Ok body
             else Err (ArtifactDecode block_id
                    (lit ''normalized email artifact must use schema_version '' @
                     show_nat NORMALIZED_EMAIL_SCHEMA_VERSION)))
       | _ \<Rightarrow> Err (ArtifactDecode block_id
                 (lit ''normalized email artifact must decode to a CBOR map'')))"

section \<open>Loading the chunks of an artifact\<close>

definition load_email_chunks ::
  "('s, 'v) resolver_lib \<Rightarrow> 's \<Rightarrow> rstring \<Rightarrow> resolver_error + rstring list" where
  "load_email_chunks lib st ref =
     and_then (resolver_parse_block_hash ref) (\<lambda>block_id.
     and_then (map_err ResolverBlockStore (get_decoded lib st block_id)) (\<lambda>found.
     and_then (ok_or (MissingArtifact ref) found) (\<lambda>decoded.
       case decoded of
         V1 _ \<Rightarrow> Err (ArtifactLegacyVersion ref VERSION_1)
       | V2 validated \<Rightarrow>
           and_then (map_err (ArtifactDecode ref) (into_typed_block lib validated)) (\<lambda>typed.
             case typed of
               Custom custom \<Rightarrow>
                 if custom_type_name custom \<noteq> NORMALIZED_EMAIL_ARTIFACT_BLOCK_TYPE
                 then Err (ArtifactWrongType ref (custom_type_name custom))
                 else and_then (resolver_custom_block_payload (custom_content custom) ref) (\<lambda>(m, b).
                   if m \<noteq> NORMALIZED_EMAIL_MEDIA_TYPE then Err (ArtifactWrongMediaType ref m)
                   else and_then (normalized_email_body lib b ref) (\<lambda>body.
                     Ok (chunk_email_core body)))
             | other \<Rightarrow> Err (ArtifactWrongType ref (typed_block_name other))))))"

section \<open>Resolution\<close>

definition cached_email_chunks ::
  "('s, 'v) resolver_lib \<Rightarrow> 's \<Rightarrow> chunk_cache \<Rightarrow> chunk_cache \<Rightarrow> rstring
     \<Rightarrow> (chunk_cache, resolver_error, rstring list) fallible" where
  "cached_email_chunks lib st seen now ref =
     (case seen ref of
        Some chunks \<Rightarrow> (now, Ok chunks)
      | None \<Rightarrow> (case load_email_chunks lib st ref of
          Inl e \<Rightarrow> (now, Err e)
        | Inr chunks \<Rightarrow> (case now ref of
            Some others \<Rightarrow> (now, Ok others)
          | None \<Rightarrow> (now(ref \<mapsto> chunks), Ok chunks))))"

definition resolve_email_chunk ::
  "('s, 'v) resolver_lib \<Rightarrow> 's \<Rightarrow> chunk_cache \<Rightarrow> chunk_cache \<Rightarrow> rstring \<Rightarrow> nat
     \<Rightarrow> (chunk_cache, resolver_error, content) fallible" where
  "resolve_email_chunk lib st seen now ref i =
     then_do (cached_email_chunks lib st seen now ref) (\<lambda>cache chunks.
       if i < length chunks
       then (cache, Ok \<lparr>media_type = CHUNK_MEDIA_TYPE, content_body = utf8 (chunks ! i)\<rparr>)
       else (cache, Err (MissingChunk ref i)))"

definition resolve_file :: "file_system \<Rightarrow> path \<Rightarrow> rstring \<Rightarrow> rstring \<Rightarrow> resolver_error + content" where
  "resolve_file fs p expected mt =
     (if \<not> fs_exists fs p then Err (ContentMissing p)
      else if \<not> fs_is_file fs p then Err (ContentNotAFile p)
      else if \<not> eq_ignore_ascii_case (case path_extension p of Some e \<Rightarrow> e | None \<Rightarrow> []) expected
      then Err (ContentWrongExtension p expected)
      else and_then (map_err (ContentIo p) (fs_read fs p)) (\<lambda>raw.
        Ok \<lparr>media_type = mt,
            content_body = (case from_utf8 raw of
                              Some text \<Rightarrow> utf8 text
                            | None \<Rightarrow> utf8 (from_utf8_lossy raw))\<rparr>))"

fun resolve ::
  "('s, 'v) resolver_lib \<Rightarrow> file_system \<Rightarrow> 's \<Rightarrow> chunk_cache \<Rightarrow> chunk_cache \<Rightarrow> content_ref
     \<Rightarrow> (chunk_cache, resolver_error, content) fallible" where
  "resolve lib fs st seen now (DocumentRef p) = (now, resolve_file fs p (lit ''txt'') (lit ''text/plain''))"
| "resolve lib fs st seen now (InlineRef m b) = (now, Ok \<lparr>media_type = m, content_body = b\<rparr>)"
| "resolve lib fs st seen now (StoredReplay m b _) = (now, Ok \<lparr>media_type = m, content_body = b\<rparr>)"
| "resolve lib fs st seen now (EmailChunkRef ref i) = resolve_email_chunk lib st seen now ref i"

section \<open>Fingerprints\<close>

definition normalize_document_identity_path :: "rstring \<Rightarrow> rstring" where
  "normalize_document_identity_path p = replace_char 92 [47] p"

definition document_fingerprint_text :: "rstring \<Rightarrow> rstring" where
  "document_fingerprint_text p = lit ''document:'' @ normalize_document_identity_path p"

definition chunk_fingerprint_text :: "rstring \<Rightarrow> nat \<Rightarrow> rstring" where
  "chunk_fingerprint_text ref i = lit ''email-chunk:'' @ ref @ [58] @ show_nat i"

fun fingerprint_bytes :: "content_ref \<Rightarrow> bytes" where
  "fingerprint_bytes (DocumentRef p) = utf8 (document_fingerprint_text (display_path p))"
| "fingerprint_bytes (InlineRef m b) = utf8 m @ [0] @ b"
| "fingerprint_bytes (StoredReplay m b (DocumentIdentity p)) = utf8 (document_fingerprint_text p)"
| "fingerprint_bytes (StoredReplay m b (EmailChunkIdentity ref i)) = utf8 (chunk_fingerprint_text ref i)"
| "fingerprint_bytes (EmailChunkRef ref i) = utf8 (chunk_fingerprint_text ref i)"

definition fingerprint :: "('s, 'v) resolver_lib \<Rightarrow> content_ref \<Rightarrow> resolver_error + block_hash" where
  "fingerprint lib r = Ok (sha256 lib (fingerprint_bytes r))"

section \<open>A cache in front of a loader\<close>

text \<open>
  The contract of a cache that is only filled by its loader. A cache is coherent when every
  entry is what the loader would return; then a lookup through it returns what the loader
  returns, and the cache stays coherent, whatever other threads inserted in between.
\<close>

locale coherent_cache =
  fixes load :: "'k \<Rightarrow> 'e + 'v"
    and through :: "('k \<Rightarrow> 'v option) \<Rightarrow> ('k \<Rightarrow> 'v option) \<Rightarrow> 'k \<Rightarrow> ('k \<Rightarrow> 'v option, 'e, 'v) fallible"
  assumes through_hit: "seen k = Some v \<Longrightarrow> through seen now k = (now, Inr v)"
    and through_fail: "seen k = None \<Longrightarrow> load k = Inl e \<Longrightarrow> through seen now k = (now, Inl e)"
    and through_race: "seen k = None \<Longrightarrow> load k = Inr v \<Longrightarrow> now k = Some w \<Longrightarrow> through seen now k = (now, Inr w)"
    and through_fill: "seen k = None \<Longrightarrow> load k = Inr v \<Longrightarrow> now k = None \<Longrightarrow>
          through seen now k = (now(k \<mapsto> v), Inr v)"
begin

lemma through_load:
  assumes "\<And>k v. seen k = Some v \<Longrightarrow> load k = Inr v" and "\<And>k v. now k = Some v \<Longrightarrow> load k = Inr v"
  shows "snd (through seen now k) = load k"
proof (cases "seen k")
  case None
  then show ?thesis
    using assms(2) by (cases "load k"; cases "now k") (auto simp: through_fail through_race through_fill)
qed (use assms(1) in \<open>simp add: through_hit\<close>)

lemma through_coherent:
  assumes "\<And>k v. now k = Some v \<Longrightarrow> load k = Inr v" and "fst (through seen now k) j = Some v"
  shows "load j = Inr v"
  using assms
  by (cases "seen k"; cases "load k"; cases "now k")
    (auto simp: through_hit through_fail through_race through_fill split: if_splits)

end

interpretation email_cache: coherent_cache "load_email_chunks lib st" "cached_email_chunks lib st" for lib st
  by unfold_locales (auto simp: cached_email_chunks_def)

end
