(* ===== verification/Resolver_Laws.thy ===== *)
theory Resolver_Laws
  imports Content_Resolver
begin

text \<open>
  Laws of the content resolver, and of mailbox expansion followed by resolution: the cache is
  transparent, resolved text is valid UTF-8, chunk fingerprints are distinct, and every index
  item a mailbox expands to can be resolved from the store it was written to.
\<close>

section \<open>The cache\<close>

definition cache_coherent :: "('s, 'v) resolver_lib \<Rightarrow> 's \<Rightarrow> chunk_cache \<Rightarrow> bool" where
  "cache_coherent lib st c \<longleftrightarrow> (\<forall>k v. c k = Some v \<longrightarrow> load_email_chunks lib st k = Ok v)"

lemma cached_load:
  assumes "cache_coherent lib st seen" and "cache_coherent lib st now"
  shows "snd (cached_email_chunks lib st seen now k) = load_email_chunks lib st k"
  using assms by (intro email_cache.through_load) (auto simp: cache_coherent_def)

lemma cached_coherent:
  assumes "cache_coherent lib st now"
  shows "cache_coherent lib st (fst (cached_email_chunks lib st seen now k))"
  unfolding cache_coherent_def
proof (intro allI impI)
  fix j v
  assume "fst (cached_email_chunks lib st seen now k) j = Some v"
  then show "load_email_chunks lib st j = Ok v"
    by (rule email_cache.through_coherent [rotated]) (use assms in \<open>simp add: cache_coherent_def\<close>)
qed

lemma snd_resolve_email_chunk:
  "snd (resolve_email_chunk lib st seen now ref i) =
     and_then (snd (cached_email_chunks lib st seen now ref)) (\<lambda>chunks.
       if i < length chunks then Ok \<lparr>media_type = CHUNK_MEDIA_TYPE, content_body = utf8 (chunks ! i)\<rparr>
       else Err (MissingChunk ref i))"
  unfolding resolve_email_chunk_def
  by (cases "cached_email_chunks lib st seen now ref"; cases "snd (cached_email_chunks lib st seen now ref)") auto

lemma fst_resolve_email_chunk:
  "fst (resolve_email_chunk lib st seen now ref i) = fst (cached_email_chunks lib st seen now ref)"
  unfolding resolve_email_chunk_def
  by (cases "cached_email_chunks lib st seen now ref"; cases "snd (cached_email_chunks lib st seen now ref)") auto

lemma coherent_empty [simp]: "cache_coherent lib st Map.empty"
  by (simp add: cache_coherent_def)

section \<open>The stored artifact\<close>

lemma find_map_unique:
  assumes "x \<in> set xs" and "f x = Some y" and "\<And>z w. z \<in> set xs \<Longrightarrow> f z = Some w \<Longrightarrow> w = y"
  shows "find_map f xs = Some y"
proof (cases "find_map f xs")
  case None
  then show ?thesis using assms(1,2) unfolding find_map_None_iff by auto
next
  case (Some w)
  then obtain z where "z \<in> set xs" "f z = Some w" using find_map_Some_mem by metis
  then show ?thesis using assms(3) Some by simp
qed

lemma canonicalize_option_text:
  "canonicalize_value enc (snd (option_text_field k v)) = Ok (snd (option_text_field k v))"
  by (cases v) (auto simp: option_text_field_def)

lemma canonical_fields:
  assumes "canonicalize_entries enc (normalized_email_fields a) = Ok es"
  shows "\<exists>hs. es =
     [(VText (lit ''schema_version''), VInteger (int (art_schema_version a))),
      (VText (lit ''mailbox_artifact_ref''), VText (art_mailbox_artifact_ref a)),
      (VText (lit ''mailbox_message_index''), VInteger (int (art_mailbox_message_index a))),
      (VText (lit ''headers''), VArray hs),
      option_text_field (lit ''subject'') (art_subject a),
      option_text_field (lit ''from'') (art_from a),
      option_text_field (lit ''recipient_context'') (art_recipient_context a),
      option_text_field (lit ''date'') (art_date a),
      option_text_field (lit ''message_id'') (art_message_id a),
      (VText (lit ''body''), VText (art_body a))]"
proof -
  have o: "canonicalize_value enc (case v of None \<Rightarrow> VNull | Some t \<Rightarrow> VText t) =
      Ok (case v of None \<Rightarrow> VNull | Some t \<Rightarrow> VText t)" for v
    by (cases v) auto
  show ?thesis using assms
    by (auto simp: normalized_email_fields_def option_text_field_def o result_simps)
qed

lemma match_text_option: "match_text name (option_text_field k v) = (if k = name then v else None)"
  by (cases v) (auto simp: option_text_field_def)

lemma match_version_option: "match_version (option_text_field k v) = None"
  by (cases v) (auto simp: option_text_field_def)

lemma canonical_email_fields:
  assumes "canonicalize_value enc (VMap (normalized_email_fields a)) = Ok v"
    and "art_schema_version a < 2 ^ 64"
  shows "\<exists>fs. v = VMap fs \<and> text_field (lit ''body'') fs = Some (art_body a) \<and>
    text_field (lit ''mailbox_artifact_ref'') fs = Some (art_mailbox_artifact_ref a) \<and>
    find_map match_version fs = Some (art_schema_version a)"
proof -
  obtain es where es: "canonicalize_entries enc (normalized_email_fields a) = Ok es"
    and v: "v = VMap (sort_by (canonical_entry_cmp enc) es)"
    using assms(1) by (auto simp: result_simps Let_def split: if_splits)
  obtain hs where hs: "es =
     [(VText (lit ''schema_version''), VInteger (int (art_schema_version a))),
      (VText (lit ''mailbox_artifact_ref''), VText (art_mailbox_artifact_ref a)),
      (VText (lit ''mailbox_message_index''), VInteger (int (art_mailbox_message_index a))),
      (VText (lit ''headers''), VArray hs),
      option_text_field (lit ''subject'') (art_subject a),
      option_text_field (lit ''from'') (art_from a),
      option_text_field (lit ''recipient_context'') (art_recipient_context a),
      option_text_field (lit ''date'') (art_date a),
      option_text_field (lit ''message_id'') (art_message_id a),
      (VText (lit ''body''), VText (art_body a))]"
    using canonical_fields [OF es] by blast
  let ?fs = "sort_by (canonical_entry_cmp enc) es"
  have "text_field (lit ''body'') ?fs = Some (art_body a)"
    unfolding text_field_def
    by (rule find_map_unique [where x = "(VText (lit ''body''), VText (art_body a))"])
      (auto simp: hs match_text_option split: if_splits)
  moreover have "text_field (lit ''mailbox_artifact_ref'') ?fs = Some (art_mailbox_artifact_ref a)"
    unfolding text_field_def
    by (rule find_map_unique [where x = "(VText (lit ''mailbox_artifact_ref''), VText (art_mailbox_artifact_ref a))"])
      (auto simp: hs match_text_option split: if_splits)
  moreover have "find_map match_version ?fs = Some (art_schema_version a)"
    by (rule find_map_unique [where x = "(VText (lit ''schema_version''), VInteger (int (art_schema_version a)))"])
      (use assms(2) in \<open>auto simp: hs match_version_option split: if_splits\<close>)
  ultimately show ?thesis using v by blast
qed

text \<open>
  What the expansion and the resolver rely on from the libraries: a block that was put is
  found under its hash and stays there, the typed view of a built block is the block, the
  CBOR reader inverts the writer, and a hash prints as hexadecimal digits.
\<close>

definition artifact_store_contract :: "('s, 'v) mail_lib \<Rightarrow> ('s, 'v) resolver_lib \<Rightarrow> bool" where
  "artifact_store_contract m r \<longleftrightarrow>
     (\<forall>st v st' h. put_versioned m st v = (st', Ok h) \<longrightarrow>
        length h = HASH_LEN \<and> get_decoded r st' h = Ok (Some (V2 v))) \<and>
     (\<forall>st v st' res h d. put_versioned m st v = (st', res) \<longrightarrow> get_decoded r st h = Ok (Some d) \<longrightarrow>
        get_decoded r st' h = Ok (Some d)) \<and>
     (\<forall>t c v. build_custom_block m t c = Ok v \<longrightarrow>
        into_typed_block r v = Ok (Custom \<lparr>custom_type_name = t, custom_content = c\<rparr>)) \<and>
     (\<forall>v bs. into_writer m v = Ok bs \<longrightarrow> from_reader r bs = Ok v) \<and>
     (\<forall>h. length h = HASH_LEN \<longrightarrow> to_ascii_lowercase (show_hash m h) = hex_encode h)"

lemma contractD:
  assumes "artifact_store_contract m r"
  shows contract_found: "put_versioned m st v = (st', Ok h) \<Longrightarrow> get_decoded r st' h = Ok (Some (V2 v))"
    and contract_len: "put_versioned m st v = (st', Ok h) \<Longrightarrow> length h = HASH_LEN"
    and contract_keeps: "put_versioned m st v = (st', res) \<Longrightarrow> get_decoded r st k = Ok (Some d) \<Longrightarrow>
          get_decoded r st' k = Ok (Some d)"
    and contract_typed: "build_custom_block m t c = Ok v \<Longrightarrow>
          into_typed_block r v = Ok (Custom \<lparr>custom_type_name = t, custom_content = c\<rparr>)"
    and contract_reads: "into_writer m val = Ok bs \<Longrightarrow> from_reader r bs = Ok val"
    and contract_shows: "length h = HASH_LEN \<Longrightarrow> resolver_parse_block_hash (show_hash m h) = Ok h"
  using assms unfolding artifact_store_contract_def resolver_hash.parse_iff by blast+

lemma load_stored_email:
  assumes c: "artifact_store_contract m r"
    and v: "art_schema_version a = NORMALIZED_EMAIL_SCHEMA_VERSION"
    and bs: "render_normalized_email m p a = Ok bs"
    and put: "store_artifact_block m st q NORMALIZED_EMAIL_MEDIA_TYPE bs = (st', Ok h)"
  shows "load_email_chunks r st' (show_hash m h) = Ok (chunk_email_core (art_body a))"
proof -
  have ne: "NORMALIZED_EMAIL_MEDIA_TYPE \<noteq> ARTIFACT_MEDIA_TYPE_MAILBOX"
    by (simp add: NORMALIZED_EMAIL_MEDIA_TYPE_def ARTIFACT_MEDIA_TYPE_MAILBOX_def)
  obtain val where val: "canonicalize_value (encode_value m) (VMap (normalized_email_fields a)) = Ok val"
    and w: "into_writer m val = Ok bs"
    using bs by (auto simp: render_normalized_email_def result_simps)
  obtain block where b: "build_custom_block m NORMALIZED_EMAIL_ARTIFACT_BLOCK_TYPE
        (artifact_content NORMALIZED_EMAIL_MEDIA_TYPE bs) = Ok block"
    and pv: "put_versioned m st block = (st', Ok h)"
    using put ne
    by (auto simp: store_artifact_block_def artifact_block_type_def result_simps split: sum.splits prod.splits)
  obtain fs where fs: "val = VMap fs" "text_field (lit ''body'') fs = Some (art_body a)"
      "find_map match_version fs = Some NORMALIZED_EMAIL_SCHEMA_VERSION"
    using canonical_email_fields [OF val] v by (auto simp: NORMALIZED_EMAIL_SCHEMA_VERSION_def)
  have body: "normalized_email_body r bs ref = Ok (art_body a)" for ref
    using contract_reads [OF c w] fs by (simp add: normalized_email_body_def)
  have pl: "resolver_custom_block_payload (artifact_content mt x) ref = Ok (mt, x)" for mt x ref
    by (simp add: artifact_content_def text_field_def bytes_field_def)
  show ?thesis
    unfolding load_email_chunks_def
    by (simp add: contract_shows [OF c contract_len [OF c pv]] contract_found [OF c pv]
        contract_typed [OF c b] pl body)
qed

lemma load_keeps:
  assumes "artifact_store_contract m r" and "store_artifact_block m st q mt bs = (st', res)"
    and "load_email_chunks r st ref = Ok chunks"
  shows "load_email_chunks r st' ref = Ok chunks"
proof -
  obtain h d where h: "resolver_parse_block_hash ref = Ok h" "get_decoded r st h = Ok (Some d)"
    using assms(3) by (auto simp: load_email_chunks_def result_simps)
  have "get_decoded r st' h = Ok (Some d)"
    using assms(2) h(2) contract_keeps [OF assms(1)]
    by (auto simp: store_artifact_block_def split: sum.splits prod.splits)
  then show ?thesis using assms(3) h by (simp add: load_email_chunks_def)
qed

section \<open>Expansion then resolution\<close>

definition resolvable :: "('s, 'v) resolver_lib \<Rightarrow> 's \<Rightarrow> index_item \<Rightarrow> bool" where
  "resolvable r st item \<longleftrightarrow>
     (\<exists>ref i chunks. item_content_ref item = EmailChunkRef ref i \<and>
        load_email_chunks r st ref = Ok chunks \<and> i < length chunks)"

lemma chunk_email_core_nonempty: "chunk_email_core body \<noteq> []"
proof -
  have ne: "us \<noteq> [] \<and> [] \<notin> set us \<or> cur \<noteq> [] \<Longrightarrow> chunk_loop us cur \<noteq> []" for us cur
    by (induction us cur rule: chunk_loop.induct) (auto simp: Let_def)
  have "[] \<notin> set (sentence_units body)" using sentence_loop_nonempty by (auto simp: sentence_units_def)
  then show ?thesis using ne by (auto simp: chunk_email_core_def Let_def)
qed

lemma expand_message_resolvable:
  assumes c: "artifact_store_contract m r"
    and e: "expand_message m st p base mref i msg = (st', Ok found)"
  shows "found \<noteq> [] \<and> (\<forall>item \<in> set found. resolvable r st' item) \<and>
    (\<forall>ref chunks. load_email_chunks r st ref = Ok chunks \<longrightarrow> load_email_chunks r st' ref = Ok chunks)"
proof -
  obtain parsed where p: "parse_mail m msg = Ok parsed"
    using e by (cases "parse_mail m msg") (auto simp: expand_message_def)
  let ?a = "normalize_email m parsed mref i"
  obtain bs where bs: "render_normalized_email m p ?a = Ok bs"
    using e p by (cases "render_normalized_email m p ?a") (auto simp: expand_message_def Let_def)
  obtain h where h: "store_artifact_block m st p NORMALIZED_EMAIL_MEDIA_TYPE bs = (st', Ok h)"
    and found: "found = map (chunk_item base p mref (show_hash m h) ?a) [0..<length (chunk_email_core (art_body ?a))]"
    using e p bs by (auto simp: expand_message_def Let_def result_simps)
  have "art_schema_version ?a = NORMALIZED_EMAIL_SCHEMA_VERSION" by (simp add: normalize_email_def Let_def)
  from load_stored_email [OF c this bs h]
  have "\<forall>item \<in> set found. resolvable r st' item"
    by (auto simp: found resolvable_def chunk_item_def)
  then show ?thesis using load_keeps [OF c h] chunk_email_core_nonempty found by auto
qed

lemma resolvable_mono:
  assumes "\<forall>ref chunks. load_email_chunks r st ref = Ok chunks \<longrightarrow> load_email_chunks r st' ref = Ok chunks"
    and "resolvable r st item"
  shows "resolvable r st' item"
  using assms unfolding resolvable_def by blast

lemma expand_messages_resolvable:
  assumes c: "artifact_store_contract m r"
  shows "expand_messages m st p base mref i msgs = (st', Ok found) \<Longrightarrow>
    length msgs \<le> length found \<and> (\<forall>item \<in> set found. resolvable r st' item) \<and>
    (\<forall>ref chunks. load_email_chunks r st ref = Ok chunks \<longrightarrow> load_email_chunks r st' ref = Ok chunks)"
proof (induction msgs arbitrary: st i found)
  case (Cons msg msgs)
  obtain st1 first rest where f: "expand_message m st p base mref i msg = (st1, Ok first)"
    and rest: "expand_messages m st1 p base mref (Suc i) msgs = (st', Ok rest)" "found = first @ rest"
    using Cons.prems by (auto simp: result_simps)
  note a = expand_message_resolvable [OF c f] and b = Cons.IH [OF rest(1)]
  have keep: "\<forall>ref chunks. load_email_chunks r st1 ref = Ok chunks \<longrightarrow> load_email_chunks r st' ref = Ok chunks"
    using b by (elim conjE)
  have keep0: "\<forall>ref chunks. load_email_chunks r st ref = Ok chunks \<longrightarrow> load_email_chunks r st1 ref = Ok chunks"
    using a by (elim conjE)
  have "\<forall>item \<in> set found. resolvable r st' item"
  proof
    fix item assume "item \<in> set found"
    then consider "item \<in> set first" | "item \<in> set rest" using rest(2) by auto
    then show "resolvable r st' item"
      by cases (use a b resolvable_mono [OF keep, of item] in \<open>simp_all\<close>)
  qed
  moreover have "length first > 0" "length msgs \<le> length rest" using a b by (simp_all (no_asm_simp))
  then have "length (msg # msgs) \<le> length found" unfolding rest(2) length_append list.size by linarith
  moreover have "\<forall>ref chunks. load_email_chunks r st ref = Ok chunks \<longrightarrow> load_email_chunks r st' ref = Ok chunks"
    using keep keep0 by (metis (no_types))
  ultimately show ?case by (intro conjI)
qed simp

lemma resolvable_resolves:
  assumes "resolvable r st item" "cache_coherent r st seen" "cache_coherent r st now"
  shows "\<exists>ref i chunks. item_content_ref item = EmailChunkRef ref i \<and> load_email_chunks r st ref = Ok chunks \<and>
     snd (resolve r fs st seen now (item_content_ref item)) =
       Ok \<lparr>media_type = CHUNK_MEDIA_TYPE, content_body = utf8 (chunks ! i)\<rparr>"
proof -
  obtain ref i chunks where "item_content_ref item = EmailChunkRef ref i"
      "load_email_chunks r st ref = Ok chunks" "i < length chunks"
    using assms(1) by (auto simp: resolvable_def)
  moreover from this have "snd (resolve r fs st seen now (item_content_ref item)) =
      Ok \<lparr>media_type = CHUNK_MEDIA_TYPE, content_body = utf8 (chunks ! i)\<rparr>"
    by (simp add: snd_resolve_email_chunk cached_load [OF assms(2,3)])
  ultimately show ?thesis by blast
qed

section \<open>Properties\<close>

text \<open>
  C3. Every index item a mailbox expands to can be resolved: after \<open>expand_mailbox_item\<close>
  succeeds, \<open>resolve\<close> on the resulting store returns, for each item and with any coherent
  caches, the text of the chunk it refers to. No message is dropped: there are at least as
  many items as messages in the file.
\<close>

theorem expanded_items_resolve:
  assumes "artifact_store_contract m r"
    and "expand_mailbox_item_with_stats m fs st p base = (st', Ok e)"
    and "cache_coherent r st' seen" and "cache_coherent r st' now"
  shows "exp_message_count e \<le> length (exp_items e) \<and>
    (\<forall>item \<in> set (exp_items e). \<exists>ref i chunks.
       item_content_ref item = EmailChunkRef ref i \<and> load_email_chunks r st' ref = Ok chunks \<and>
       snd (resolve r fs st' seen now (item_content_ref item)) =
         Ok \<lparr>media_type = CHUNK_MEDIA_TYPE, content_body = utf8 (chunks ! i)\<rparr>)"
proof -
  obtain raw st1 h found where x: "split_mbox_messages raw \<noteq> []"
      "expand_messages m st1 p base (show_hash m h) 0 (split_mbox_messages raw) = (st', Ok found)"
      "e = \<lparr>exp_items = found, exp_message_count = length (split_mbox_messages raw)\<rparr>"
    using assms(2)
    by (auto simp: expand_mailbox_item_with_stats_def Let_def result_simps split: sum.splits if_splits)
  note all = expand_messages_resolvable [OF assms(1) x(2)]
  have "length (split_mbox_messages raw) \<le> length found" using all by (rule conjunct1)
  moreover have "\<forall>item \<in> set found. resolvable r st' item" using all by (elim conjE)
  moreover have "resolvable r st' item \<Longrightarrow> \<exists>ref i chunks.
       item_content_ref item = EmailChunkRef ref i \<and> load_email_chunks r st' ref = Ok chunks \<and>
       snd (resolve r fs st' seen now (item_content_ref item)) =
         Ok \<lparr>media_type = CHUNK_MEDIA_TYPE, content_body = utf8 (chunks ! i)\<rparr>" for item
    by (rule resolvable_resolves [OF _ assms(3,4)])
  ultimately show ?thesis unfolding x(3) by simp
qed

text \<open>A concrete library: blocks are kept in a list and numbered, one message is known.\<close>

definition demo_hash :: "nat \<Rightarrow> block_hash" where
  "demo_hash n = map (\<lambda>i. of_nat (n div 2 ^ (8 * i))) [0..<32]"

definition demo_mail :: parsed_mail where
  "demo_mail = ParsedMail [] (lit ''text/plain'') (Some (lit ''Hi.'')) None []"

definition demo_artifact :: normalized_email_artifact where
  "demo_artifact = \<lparr>art_schema_version = NORMALIZED_EMAIL_SCHEMA_VERSION,
     art_mailbox_artifact_ref = hex_encode (demo_hash 0), art_mailbox_message_index = 0,
     art_headers = [], art_subject = None, art_from = None, art_recipient_context = None,
     art_date = None, art_message_id = None, art_body = lit ''Hi.''\<rparr>"

definition demo_value :: cbor where
  "demo_value =
     (case canonicalize_value sample_encode (VMap (normalized_email_fields demo_artifact)) of
        Inr v \<Rightarrow> v | Inl _ \<Rightarrow> VNull)"

definition demo_put :: "custom_block list \<Rightarrow> custom_block \<Rightarrow> custom_block list \<times> (block_store_error + block_hash)" where
  "demo_put st v =
     (if length st < 2 then (st @ [v], Ok (demo_hash (length st))) else (st, Err (BackendFailure [])))"

definition demo_mail_lib :: "(custom_block list, custom_block) mail_lib" where
  "demo_mail_lib = \<lparr>parse_mail = \<lambda>_. Ok demo_mail, get_first_value = \<lambda>_ _. None,
     encode_value = sample_encode,
     into_writer = \<lambda>v. if v = demo_value then Ok [1] else Err [],
     build_custom_block = \<lambda>t c. Ok \<lparr>custom_type_name = t, custom_content = c\<rparr>,
     put_versioned = demo_put, show_hash = hex_encode\<rparr>"

definition demo_get :: "custom_block list \<Rightarrow> block_hash \<Rightarrow> block_store_error + custom_block decoded_block option" where
  "demo_get st h =
     Ok (if length st > 0 \<and> h = demo_hash 0 then Some (V2 (st ! 0))
         else if length st > 1 \<and> h = demo_hash 1 then Some (V2 (st ! 1)) else None)"

definition demo_resolver_lib :: "(custom_block list, custom_block) resolver_lib" where
  "demo_resolver_lib = \<lparr>get_decoded = demo_get, into_typed_block = \<lambda>v. Ok (Custom v),
     from_reader = \<lambda>bs. if bs = [1] then Ok demo_value else Err [], sha256 = \<lambda>_. demo_hash 0\<rparr>"

definition demo_fs :: file_system where
  "demo_fs = \<lparr>fs_exists = \<lambda>_. True, fs_is_file = \<lambda>_. True, fs_read = \<lambda>_. Ok [72]\<rparr>"

definition demo_path :: path where
  "demo_path = Path True [lit ''a.mbox'']"

lemma demo_hash_distinct: "demo_hash 0 \<noteq> demo_hash 1"
  by (simp add: demo_hash_def upt_rec)

lemma demo_contract: "artifact_store_contract demo_mail_lib demo_resolver_lib"
proof -
  have "length (demo_hash n) = HASH_LEN" for n by (simp add: demo_hash_def HASH_LEN_def)
  then show ?thesis
    unfolding artifact_store_contract_def using demo_hash_distinct
    by (auto simp: demo_mail_lib_def demo_resolver_lib_def demo_put_def demo_get_def nth_append
        lower_hex_encode less_Suc_eq numeral_2_eq_2 split: if_splits)
qed

lemma demo_normalized:
  "normalize_email demo_mail_lib demo_mail (hex_encode (demo_hash 0)) 0 = demo_artifact"
  by (simp add: normalize_email_def first_text_def first_recipient_def demo_mail_lib_def demo_mail_def
      demo_artifact_def derive_email_core_def first_preferred_body_def decoded_body_lossy_def
      normalize_line_endings_def replace_char_def replace_str.simps starts_with_def
      normalize_email_body_def str_lines_def strip_line_end_def ends_with_def trim_def trim_start_def
      trim_end_def is_whitespace_def ends_email_body_def looks_like_reply_intro_def
      to_ascii_lowercase_def ascii_lower_def)

lemma demo_canonical:
  "canonicalize_value sample_encode (VMap (normalized_email_fields demo_artifact)) = Ok demo_value"
proof -
  have "\<exists>v. canonicalize_value sample_encode (VMap (normalized_email_fields demo_artifact)) = Inr v"
    by (simp add: normalized_email_fields_def demo_artifact_def option_text_field_def sample_encode_def
        sort_by_def canonical_entry_cmp_def canonical_value_cmp_def cmp_def utf8_def utf8_char_def)
  then show ?thesis by (auto simp: demo_value_def)
qed

lemma demo_chunks: "chunk_email_core (lit ''Hi.'') = [lit ''Hi.'']"
  by (simp add: chunk_email_core_def sentence_units_def sentence_end_def push_non_empty_def
      normalize_inline_text_def split_whitespace_def is_whitespace_def MAX_CHUNK_CHARS_def)

lemma demo_split: "split_mbox_messages [72] = [[72]]"
  by (simp add: split_mbox_messages_def mbox_separator_def starts_with_def)

lemma demo_expand_message:
  "\<exists>st found. expand_message demo_mail_lib [b] demo_path [] (hex_encode (demo_hash 0)) 0 [72] = (st, Ok found) \<and>
     found \<noteq> []"
proof -
  have lib: "parse_mail demo_mail_lib = (\<lambda>_. Ok demo_mail)" "encode_value demo_mail_lib = sample_encode"
    "put_versioned demo_mail_lib = demo_put"
    "build_custom_block demo_mail_lib = (\<lambda>t c. Ok \<lparr>custom_type_name = t, custom_content = c\<rparr>)"
    "into_writer demo_mail_lib demo_value = Ok [1]"
    by (simp_all add: demo_mail_lib_def)
  have "render_normalized_email demo_mail_lib demo_path demo_artifact = Ok [1]"
    by (simp add: render_normalized_email_def lib demo_canonical del: canonicalize_value.simps)
  moreover have "NORMALIZED_EMAIL_MEDIA_TYPE \<noteq> ARTIFACT_MEDIA_TYPE_MAILBOX"
    by (simp add: NORMALIZED_EMAIL_MEDIA_TYPE_def ARTIFACT_MEDIA_TYPE_MAILBOX_def)
  moreover have "art_body demo_artifact = lit ''Hi.''" by (simp add: demo_artifact_def)
  ultimately show ?thesis
    by (simp add: expand_message_def lib demo_normalized store_artifact_block_def artifact_block_type_def
        demo_put_def demo_chunks del: lit_simps)
qed

lemma demo_expand:
  "\<exists>st e. expand_mailbox_item_with_stats demo_mail_lib demo_fs [] demo_path [] = (st, Ok e)"
proof -
  have v: "validate_mailbox_path demo_fs demo_path = Ok ()"
    by (simp add: validate_mailbox_path_def demo_fs_def demo_path_def path_extension_def
        is_supported_mailbox_extension_def eq_ignore_ascii_case_def to_ascii_lowercase_def ascii_lower_def)
  have f: "fs_read demo_fs demo_path = Ok [72]" by (simp add: demo_fs_def)
  have s: "store_artifact_block demo_mail_lib [] demo_path ARTIFACT_MEDIA_TYPE_MAILBOX [72] =
      ([\<lparr>custom_type_name = MAILBOX_ARTIFACT_BLOCK_TYPE,
         custom_content = artifact_content ARTIFACT_MEDIA_TYPE_MAILBOX [72]\<rparr>], Ok (demo_hash 0))"
    by (simp add: store_artifact_block_def artifact_block_type_def demo_mail_lib_def demo_put_def)
  have sh: "show_hash demo_mail_lib = hex_encode" by (simp add: demo_mail_lib_def)
  obtain st found where e: "expand_message demo_mail_lib
      [\<lparr>custom_type_name = MAILBOX_ARTIFACT_BLOCK_TYPE,
        custom_content = artifact_content ARTIFACT_MEDIA_TYPE_MAILBOX [72]\<rparr>]
      demo_path [] (hex_encode (demo_hash 0)) 0 [72] = (st, Ok found)"
    using demo_expand_message by blast
  show ?thesis
    by (simp add: expand_mailbox_item_with_stats_def v f demo_split s sh e)
qed

theorem expanded_items_resolve_witness:
  "\<exists>st e. expand_mailbox_item_with_stats demo_mail_lib demo_fs [] demo_path [] = (st, Ok e) \<and>
     exp_message_count e \<le> length (exp_items e) \<and>
     list_all (\<lambda>item. \<exists>ref i chunks.
       item_content_ref item = EmailChunkRef ref i \<and> load_email_chunks demo_resolver_lib st ref = Ok chunks \<and>
       snd (resolve demo_resolver_lib demo_fs st Map.empty Map.empty (item_content_ref item)) =
         Ok \<lparr>media_type = CHUNK_MEDIA_TYPE, content_body = utf8 (chunks ! i)\<rparr>) (exp_items e)"
proof -
  obtain st e where d: "expand_mailbox_item_with_stats demo_mail_lib demo_fs [] demo_path [] = (st, Ok e)"
    using demo_expand by blast
  show ?thesis
    unfolding list_all_iff
    using conjI [OF d expanded_items_resolve [OF demo_contract d coherent_empty coherent_empty]]
    by (intro exI [of _ st] exI [of _ e])
qed

text \<open>
  C28. The chunk cache is transparent: with coherent caches \<open>resolve\<close> returns what it returns
  with empty ones, even if other threads filled the cache between lookup and insertion, and
  the cache it leaves is coherent.
\<close>

theorem resolve_cache_transparent:
  assumes "cache_coherent lib st seen" and "cache_coherent lib st now"
  shows "snd (resolve lib fs st seen now r) = snd (resolve lib fs st Map.empty Map.empty r) \<and>
    cache_coherent lib st (fst (resolve lib fs st seen now r))"
proof (cases r)
  case (EmailChunkRef ref i)
  then show ?thesis
    using cached_load [OF assms] cached_load [of lib st Map.empty Map.empty] cached_coherent [OF assms(2)]
    by (simp add: snd_resolve_email_chunk fst_resolve_email_chunk)
qed (use assms in simp_all)

text \<open>A cache that holds the chunks of the stored e-mail answers as the store does.\<close>

theorem resolve_cache_transparent_witness:
  "\<exists>st ref i chunks. i < length chunks \<and> cache_coherent demo_resolver_lib st [ref \<mapsto> chunks] \<and>
     snd (resolve demo_resolver_lib demo_fs st Map.empty Map.empty (EmailChunkRef ref i)) =
       Ok \<lparr>media_type = CHUNK_MEDIA_TYPE, content_body = utf8 (chunks ! i)\<rparr> \<and>
     snd (resolve demo_resolver_lib demo_fs st [ref \<mapsto> chunks] [ref \<mapsto> chunks] (EmailChunkRef ref i)) =
       snd (resolve demo_resolver_lib demo_fs st Map.empty Map.empty (EmailChunkRef ref i))"
proof -
  obtain st found where e: "expand_message demo_mail_lib [\<lparr>custom_type_name = [], custom_content = VNull\<rparr>] demo_path []
      (hex_encode (demo_hash 0)) 0 [72] = (st, Ok found)" "found \<noteq> []"
    using demo_expand_message by blast
  from expand_message_resolvable [OF demo_contract e(1)] e(2)
  have "resolvable demo_resolver_lib st (hd found)" by simp
  then obtain ref i chunks where item: "i < length chunks" "load_email_chunks demo_resolver_lib st ref = Ok chunks"
    by (auto simp: resolvable_def)
  have c: "cache_coherent demo_resolver_lib st [ref \<mapsto> chunks]" using item(2) by (simp add: cache_coherent_def)
  have "snd (resolve demo_resolver_lib demo_fs st Map.empty Map.empty (EmailChunkRef ref i)) =
      Ok \<lparr>media_type = CHUNK_MEDIA_TYPE, content_body = utf8 (chunks ! i)\<rparr>"
    using cached_load [of demo_resolver_lib st Map.empty Map.empty ref] item by (simp add: snd_resolve_email_chunk coherent_empty)
  then show ?thesis using item(1) c resolve_cache_transparent [OF c c, of demo_fs "EmailChunkRef ref i"] by blast
qed

text \<open>
  The bytes \<open>resolve_file\<close> returns are always valid UTF-8, and they are the bytes of the
  file whenever the file is valid UTF-8.
\<close>

theorem resolve_file_utf8:
  assumes "resolve_file fs p ext mt = Ok c"
  shows "from_utf8 (content_body c) \<noteq> None \<and> media_type c = mt \<and>
    (\<exists>raw. fs_read fs p = Ok raw \<and> (from_utf8 raw \<noteq> None \<longrightarrow> content_body c = raw))"
proof -
  obtain raw where raw: "fs_read fs p = Ok raw"
    and c: "c = \<lparr>media_type = mt, content_body =
        (case from_utf8 raw of Some text \<Rightarrow> utf8 text | None \<Rightarrow> utf8 (from_utf8_lossy raw))\<rparr>"
    using assms by (auto simp: resolve_file_def result_simps split: if_splits)
  show ?thesis
  proof (cases "from_utf8 raw")
    case None
    have "from_utf8 (utf8 (from_utf8_lossy raw)) = Some (from_utf8_lossy raw)"
      using from_utf8_lossy_scalar by (intro from_utf8_utf8) blast
    then show ?thesis using None raw c by simp
  next
    case (Some t)
    then have "utf8 t = raw" using from_utf8_sound by blast
    then show ?thesis using Some raw c by simp
  qed
qed

theorem resolve_file_utf8_witness:
  "\<exists>c. resolve_file demo_fs demo_path (lit ''mbox'') (lit ''text/plain'') = Ok c \<and>
     from_utf8 (content_body c) \<noteq> None"
proof -
  have "resolve_file demo_fs demo_path (lit ''mbox'') (lit ''text/plain'') =
      Ok \<lparr>media_type = lit ''text/plain'', content_body =
        (case from_utf8 [72] of Some text \<Rightarrow> utf8 text | None \<Rightarrow> utf8 (from_utf8_lossy [72]))\<rparr>"
    by (simp add: resolve_file_def demo_fs_def demo_path_def path_extension_def
        eq_ignore_ascii_case_def to_ascii_lowercase_def ascii_lower_def)
  from resolve_file_utf8 [OF this] this show ?thesis by blast
qed

lemma chunk_text_scalar:
  assumes "\<forall>c \<in> set r. is_scalar c"
  shows "\<forall>c \<in> set (chunk_fingerprint_text r k). is_scalar c"
proof -
  have "is_scalar c" if "c \<in> set (show_nat k)" for c
    using show_nat_digits [OF that] by (simp add: is_scalar_def)
  moreover have "\<forall>c \<in> set (lit ''email-chunk:''). is_scalar c" by (simp add: is_scalar_def)
  ultimately show ?thesis
    using assms unfolding chunk_fingerprint_text_def set_append ball_Un by (simp add: is_scalar_def)
qed

lemma chunk_text_inject:
  assumes "chunk_fingerprint_text ref i = chunk_fingerprint_text ref' j"
  shows "ref = ref' \<and> i = j"
proof -
  have nc: "58 \<notin> set (show_nat n)" for n using show_nat_digits [of 58 n] by auto
  have "rev (show_nat i) @ 58 # rev ref = rev (show_nat j) @ 58 # rev ref'"
    using arg_cong [OF assms, of rev] by (simp add: chunk_fingerprint_text_def)
  then have "split_once 58 (rev (show_nat i) @ 58 # rev ref) = split_once 58 (rev (show_nat j) @ 58 # rev ref')"
    by simp
  then show ?thesis using nc by (simp add: split_once_append)
qed

text \<open>
  Fingerprints identify e-mail chunks: what \<open>fingerprint\<close> hashes for two chunk references
  is equal only for the same artifact and the same chunk index, and it never equals what is
  hashed for a document. A stored replay of a chunk has the fingerprint of the chunk.
\<close>

theorem chunk_fingerprint_distinct:
  assumes "\<forall>c \<in> set ref. is_scalar c" and "\<forall>c \<in> set ref'. is_scalar c"
  shows "(fingerprint_bytes (EmailChunkRef ref i) = fingerprint_bytes (EmailChunkRef ref' j) \<longleftrightarrow>
      ref = ref' \<and> i = j) \<and>
    fingerprint_bytes (EmailChunkRef ref i) \<noteq> fingerprint_bytes (DocumentRef p) \<and>
    fingerprint lib (StoredReplay m b (EmailChunkIdentity ref i)) = fingerprint lib (EmailChunkRef ref i)"
proof -
  have inj: "fingerprint_bytes (EmailChunkRef ref i) = fingerprint_bytes (EmailChunkRef ref' j) \<longleftrightarrow>
      ref = ref' \<and> i = j"
  proof
    assume "fingerprint_bytes (EmailChunkRef ref i) = fingerprint_bytes (EmailChunkRef ref' j)"
    then have "from_utf8 (utf8 (chunk_fingerprint_text ref i)) = from_utf8 (utf8 (chunk_fingerprint_text ref' j))"
      by simp
    then have "chunk_fingerprint_text ref i = chunk_fingerprint_text ref' j"
      unfolding from_utf8_utf8 [OF chunk_text_scalar [OF assms(1)]]
        from_utf8_utf8 [OF chunk_text_scalar [OF assms(2)]] by simp
    then show "ref = ref' \<and> i = j" by (rule chunk_text_inject)
  qed simp
  have one: "utf8 (c # s) = of_nat c # utf8 s" if "c < 128" for c s
    using that by (simp add: utf8_def utf8_char_def)
  have ne: "utf8 s \<noteq> utf8 t" if "s = 101 # s'" "t = 100 # t'" for s s' t t'
    using that by (simp add: one)
  have "chunk_fingerprint_text ref i = 101 # tl (chunk_fingerprint_text ref i)"
    by (simp add: chunk_fingerprint_text_def)
  moreover have "document_fingerprint_text (display_path p) = 100 # tl (document_fingerprint_text (display_path p))"
    by (simp add: document_fingerprint_text_def)
  ultimately have "fingerprint_bytes (EmailChunkRef ref i) \<noteq> fingerprint_bytes (DocumentRef p)"
    unfolding fingerprint_bytes.simps by (rule ne)
  then show ?thesis using inj by (simp add: fingerprint_def)
qed

theorem chunk_fingerprint_distinct_witness:
  "fingerprint_bytes (EmailChunkRef (lit ''ab'') 1) \<noteq> fingerprint_bytes (EmailChunkRef (lit ''ab'') 2)"
  using chunk_fingerprint_distinct [of "lit ''ab''" "lit ''ab''" 1 2 demo_path demo_resolver_lib "[]" "[]"]
  by (simp add: is_scalar_def)

end
