(* ===== verification/Copy_Failures.thy ===== *)
theory Copy_Failures
  imports Block_Model "HOL-Library.Multiset"
begin

text \<open>
  The books a rooted block copy keeps (\<^verbatim>\<open>block_copy.rs\<close>): progress counters, metrics and the
  failure tracker that attributes every failure to all the requested roots that reach the
  failing block, whenever the two become known.

  \<^verbatim>\<open>CopyMetrics\<close> and \<^verbatim>\<open>CopyFailureTracker\<close> hold clones of one \<^verbatim>\<open>Arc\<close> to the progress
  counters; the record \<open>copy_books\<close> therefore has the fields of both beside one \<open>progress\<close>.
  A \<^verbatim>\<open>HashMap\<close> is an association list with one pair per key and a \<^verbatim>\<open>HashSet\<close> a list without
  repetition. The order in which a hash set is iterated is not specified: it is the argument
  \<open>iter\<close>.
\<close>

section \<open>Hash maps and hash sets\<close>

type_synonym ('k, 'v) hash_map = "('k \<times> 'v) list"

definition hm_insert :: "'k \<Rightarrow> 'v \<Rightarrow> ('k, 'v) hash_map \<Rightarrow> ('k, 'v) hash_map" where
  "hm_insert k v m = (k, v) # filter (\<lambda>p. fst p \<noteq> k) m"

definition hs_insert :: "'a \<Rightarrow> 'a list \<Rightarrow> 'a list" where
  "hs_insert x s = (if x \<in> set s then s else s @ [x])"

definition entries_of :: "('k, 'v list) hash_map \<Rightarrow> 'k \<Rightarrow> 'v list" where
  "entries_of m k = (case map_of m k of None \<Rightarrow> [] | Some vs \<Rightarrow> vs)"

lemma map_of_filter_key: "map_of (filter (\<lambda>p. fst p \<noteq> k) m) k' = (if k' = k then None else map_of m k')"
  by (induction m) auto

lemma map_of_hm_insert: "map_of (hm_insert k v m) = (map_of m)(k \<mapsto> v)"
  by (auto simp: hm_insert_def fun_eq_iff map_of_filter_key)

interpretation hash_map: map_ops hm_insert map_of
  by unfold_locales (rule map_of_hm_insert)

lemma entries_of_hm_insert [simp]:
  "entries_of (hm_insert k vs m) k' = (if k' = k then vs else entries_of m k')"
  by (simp add: entries_of_def map_of_hm_insert)

lemma entries_of_Nil [simp]: "entries_of [] k = []"
  by (simp add: entries_of_def)

lemma keys_hm_insert [simp]: "fst ` set (hm_insert k v m) = insert k (fst ` set m)"
  by (auto simp: hm_insert_def image_iff)

lemma distinct_hm_insert: "distinct (map fst m) \<Longrightarrow> distinct (map fst (hm_insert k v m))"
  by (auto simp: hm_insert_def distinct_map inj_on_def)

lemma entries_of_absent: "k \<notin> fst ` set m \<Longrightarrow> entries_of m k = []"
  by (simp add: entries_of_def map_of_eq_None_iff [THEN iffD2])

lemma set_hs_insert [simp]: "set (hs_insert x s) = insert x (set s)"
  by (auto simp: hs_insert_def)

lemma distinct_hs_insert: "distinct s \<Longrightarrow> distinct (hs_insert x s)"
  by (auto simp: hs_insert_def)

section \<open>Progress and metrics\<close>

datatype copy_destination_mode = ReadBeforeWrite | BlindWrite

datatype copy_failure_operation =
    ReadSourceBlock
  | DecodeSourceBlock
  | CheckDestinationBlock
  | WriteDestinationBlock
  | CompactDestinationStore

record copy_failure =
  failure_root_id :: rstring
  failure_block_id :: rstring
  failure_operation :: copy_failure_operation
  failure_message :: rstring

record copy_progress =
  progress_mode :: copy_destination_mode
  progress_read :: nat
  progress_copied :: nat
  progress_skipped :: nat
  progress_attempted :: nat
  progress_failed :: nat

record progress_snapshot =
  snapshot_mode :: copy_destination_mode
  snapshot_read :: nat
  snapshot_copied :: "nat option"
  snapshot_skipped :: "nat option"
  snapshot_attempted :: "nat option"
  snapshot_failed :: nat

definition progress_new :: "copy_destination_mode \<Rightarrow> copy_progress" where
  "progress_new mode = \<lparr>progress_mode = mode, progress_read = 0, progress_copied = 0,
     progress_skipped = 0, progress_attempted = 0, progress_failed = 0\<rparr>"

definition then_some :: "bool \<Rightarrow> 'a \<Rightarrow> 'a option" where
  "then_some b x = (if b then Some x else None)"

definition progress_snapshot_of :: "copy_progress \<Rightarrow> progress_snapshot" where
  "progress_snapshot_of p =
     \<lparr>snapshot_mode = progress_mode p, snapshot_read = progress_read p,
      snapshot_copied = then_some (progress_mode p = ReadBeforeWrite) (progress_copied p),
      snapshot_skipped = then_some (progress_mode p = ReadBeforeWrite) (progress_skipped p),
      snapshot_attempted = then_some (progress_mode p = BlindWrite) (progress_attempted p),
      snapshot_failed = progress_failed p\<rparr>"

record failure_template =
  template_operation :: copy_failure_operation
  template_message :: rstring

record copy_books =
  block_roots :: "(block_hash, block_hash list) hash_map"
  discovered_children :: "(block_hash, block_hash list) hash_map"
  failure_templates :: "(block_hash, failure_template list) hash_map"
  failed_failure_ids :: "rstring list"
  failures :: "copy_failure list"
  copied_block_count :: nat
  skipped_already_present_block_count :: nat
  attempted_write_block_count :: nat
  progress :: "copy_progress option"

definition books_new :: "copy_progress option \<Rightarrow> copy_books" where
  "books_new p = \<lparr>block_roots = [], discovered_children = [], failure_templates = [],
     failed_failure_ids = [], failures = [], copied_block_count = 0,
     skipped_already_present_block_count = 0, attempted_write_block_count = 0, progress = p\<rparr>"

definition note_read_source_block :: "copy_books \<Rightarrow> copy_books" where
  "note_read_source_block t =
     t\<lparr>progress := map_option (\<lambda>p. p\<lparr>progress_read := progress_read p + 1\<rparr>) (progress t)\<rparr>"

definition note_copied_block :: "copy_books \<Rightarrow> copy_books" where
  "note_copied_block t = t\<lparr>copied_block_count := copied_block_count t + 1,
     progress := map_option (\<lambda>p. p\<lparr>progress_copied := progress_copied p + 1\<rparr>) (progress t)\<rparr>"

definition note_skipped_already_present_block :: "copy_books \<Rightarrow> copy_books" where
  "note_skipped_already_present_block t =
     t\<lparr>skipped_already_present_block_count := skipped_already_present_block_count t + 1,
       progress := map_option (\<lambda>p. p\<lparr>progress_skipped := progress_skipped p + 1\<rparr>) (progress t)\<rparr>"

definition note_attempted_write_block :: "copy_books \<Rightarrow> copy_books" where
  "note_attempted_write_block t = t\<lparr>attempted_write_block_count := attempted_write_block_count t + 1,
     progress := map_option (\<lambda>p. p\<lparr>progress_attempted := progress_attempted p + 1\<rparr>) (progress t)\<rparr>"

definition note_failed_block :: "copy_progress \<Rightarrow> copy_progress" where
  "note_failed_block p = p\<lparr>progress_failed := progress_failed p + 1\<rparr>"

section \<open>The failure tracker\<close>

text \<open>\<open>disp\<close> is the \<^verbatim>\<open>Display\<close> of a block id, which the block library defines.\<close>

definition DESTINATION_STORE_FAILURE_ID :: rstring where
  "DESTINATION_STORE_FAILURE_ID = lit ''destination-store''"

definition templated_failure ::
  "(block_hash \<Rightarrow> rstring) \<Rightarrow> block_hash \<Rightarrow> block_hash \<Rightarrow> failure_template \<Rightarrow> copy_failure" where
  "templated_failure disp root block tpl =
     \<lparr>failure_root_id = disp root, failure_block_id = disp block,
      failure_operation = template_operation tpl, failure_message = template_message tpl\<rparr>"

definition note_failed_id :: "rstring \<Rightarrow> copy_books \<Rightarrow> copy_books" where
  "note_failed_id failed_id t =
     (if failed_id \<in> set (failed_failure_ids t) then t
      else t\<lparr>failed_failure_ids := failed_failure_ids t @ [failed_id],
             progress := map_option note_failed_block (progress t)\<rparr>)"

text \<open>
  The loop of \<^verbatim>\<open>associate_root_with_known_subgraph\<close> over its queue. A block that already has
  the root is skipped (its entry exists, so \<^verbatim>\<open>or_default\<close> adds nothing).
\<close>

definition associate_block ::
  "(block_hash \<Rightarrow> rstring) \<Rightarrow> block_hash \<Rightarrow> block_hash \<Rightarrow> copy_books \<Rightarrow> copy_books" where
  "associate_block disp root block t =
     t\<lparr>block_roots := hm_insert block (hs_insert root (entries_of (block_roots t) block)) (block_roots t),
       failures := failures t @
         map (templated_failure disp root block) (entries_of (failure_templates t) block)\<rparr>"

lemma associate_block_frame [simp]:
  "discovered_children (associate_block disp root block t) = discovered_children t"
  "failure_templates (associate_block disp root block t) = failure_templates t"
  "failed_failure_ids (associate_block disp root block t) = failed_failure_ids t"
  "progress (associate_block disp root block t) = progress t"
  by (simp_all add: associate_block_def)

lemma associate_block_roots:
  "entries_of (block_roots (associate_block disp root block t)) b =
     (if b = block then hs_insert root (entries_of (block_roots t) block)
      else entries_of (block_roots t) b)"
  by (simp add: associate_block_def)

lemma set_associate_block_roots [simp]:
  "set (entries_of (block_roots (associate_block disp root block t)) b) =
     (if b = block then insert root (set (entries_of (block_roots t) block))
      else set (entries_of (block_roots t) b))"
  by (simp add: associate_block_roots)

definition unassociated :: "block_hash \<Rightarrow> copy_books \<Rightarrow> block_hash set" where
  "unassociated root t =
     {b \<in> fst ` set (discovered_children t). root \<notin> set (entries_of (block_roots t) b)}"

lemma finite_unassociated [simp]: "finite (unassociated root t)"
  by (simp add: unassociated_def)

lemma unassociated_associate_block:
  "unassociated root (associate_block disp root block t) = unassociated root t - {block}"
  by (auto simp: unassociated_def)

function associate_loop ::
  "(block_hash \<Rightarrow> rstring) \<Rightarrow> block_hash \<Rightarrow> block_hash list \<Rightarrow> copy_books \<Rightarrow> copy_books" where
  "associate_loop disp root [] t = t"
| "associate_loop disp root (block # queue) t =
     (if root \<in> set (entries_of (block_roots t) block) then associate_loop disp root queue t
      else associate_loop disp root (queue @ entries_of (discovered_children t) block)
             (associate_block disp root block t))"
  by pat_completeness auto

lemma associate_measure:
  assumes "root \<notin> set (entries_of (block_roots t) block)"
  shows "card (unassociated root (associate_block disp root block t)) < card (unassociated root t) \<or>
    card (unassociated root (associate_block disp root block t)) = card (unassociated root t) \<and>
    entries_of (discovered_children t) block = []"
proof (cases "block \<in> fst ` set (discovered_children t)")
  case True
  then have "block \<in> unassociated root t" using assms by (simp add: unassociated_def)
  then have "card (unassociated root t - {block}) < card (unassociated root t)"
    by (intro card_Diff1_less finite_unassociated)
  then show ?thesis by (simp only: unassociated_associate_block simp_thms)
next
  case False
  then have "block \<notin> unassociated root t" by (simp add: unassociated_def)
  then show ?thesis using entries_of_absent [OF False]
    by (simp add: unassociated_associate_block)
qed

termination associate_loop
proof (relation "measures [\<lambda>(disp, root, queue, t). card (unassociated root t),
    \<lambda>(disp, root, queue, t). length queue]")
  fix disp :: "block_hash \<Rightarrow> rstring" and root block queue and t :: copy_books
  assume "root \<notin> set (entries_of (block_roots t) block)"
  from associate_measure [OF this, of disp]
  show "((disp, root, queue @ entries_of (discovered_children t) block,
           associate_block disp root block t), disp, root, block # queue, t)
    \<in> measures [\<lambda>(disp, root, queue, t). card (unassociated root t),
         \<lambda>(disp, root, queue, t). length queue]"
    by auto
qed auto

definition associate_root_with_known_subgraph ::
  "(block_hash \<Rightarrow> rstring) \<Rightarrow> block_hash \<Rightarrow> block_hash \<Rightarrow> copy_books \<Rightarrow> copy_books" where
  "associate_root_with_known_subgraph disp root block t = associate_loop disp root [block] t"

definition note_block_root ::
  "(block_hash \<Rightarrow> rstring) \<Rightarrow> block_hash \<Rightarrow> block_hash \<Rightarrow> copy_books \<Rightarrow> copy_books" where
  "note_block_root disp root block t = associate_root_with_known_subgraph disp root block t"

definition remember_children ::
  "(block_hash \<Rightarrow> rstring) \<Rightarrow> (block_hash list \<Rightarrow> block_hash list) \<Rightarrow> block_hash \<Rightarrow> block_hash list
     \<Rightarrow> copy_books \<Rightarrow> copy_books" where
  "remember_children disp iter block child_ids t =
     (let t1 = t\<lparr>discovered_children := hm_insert block child_ids (discovered_children t)\<rparr>
      in fold (\<lambda>root. fold (\<lambda>child. associate_root_with_known_subgraph disp root child) child_ids)
           (iter (entries_of (block_roots t1) block)) t1)"

definition record_failure ::
  "(block_hash \<Rightarrow> rstring) \<Rightarrow> (block_hash list \<Rightarrow> block_hash list) \<Rightarrow> block_hash
     \<Rightarrow> copy_failure_operation \<Rightarrow> rstring \<Rightarrow> copy_books \<Rightarrow> copy_books" where
  "record_failure disp iter block operation message t =
     (let t1 = note_failed_id (disp block) t;
          tpl = \<lparr>template_operation = operation, template_message = message\<rparr>;
          t2 = t1\<lparr>failure_templates := hm_insert block
                    (entries_of (failure_templates t1) block @ [tpl]) (failure_templates t1)\<rparr>
      in t2\<lparr>failures := failures t2 @
           map (\<lambda>root. templated_failure disp root block tpl)
             (iter (entries_of (block_roots t2) block))\<rparr>)"

definition record_store_failure ::
  "(block_hash \<Rightarrow> rstring) \<Rightarrow> block_hash list \<Rightarrow> copy_failure_operation \<Rightarrow> rstring
     \<Rightarrow> copy_books \<Rightarrow> copy_books" where
  "record_store_failure disp roots operation message t =
     (let t1 = note_failed_id DESTINATION_STORE_FAILURE_ID t
      in t1\<lparr>failures := failures t1 @
           map (\<lambda>root. \<lparr>failure_root_id = disp root, failure_block_id = DESTINATION_STORE_FAILURE_ID,
                         failure_operation = operation, failure_message = message\<rparr>) roots\<rparr>)"

section \<open>The report\<close>

record copy_report =
  destination_mode :: copy_destination_mode
  requested_root_ids :: "rstring list"
  report_copied :: "nat option"
  report_skipped :: "nat option"
  report_attempted :: "nat option"
  failed_block_count :: nat
  report_failures :: "copy_failure list"

definition count_failed_blocks :: "copy_failure list \<Rightarrow> nat" where
  "count_failed_blocks fs = length (remdups (map failure_block_id fs))"

text \<open>Both traversals end by building the report from their books.\<close>

definition copy_report_of ::
  "(block_hash \<Rightarrow> rstring) \<Rightarrow> copy_destination_mode \<Rightarrow> block_hash list \<Rightarrow> copy_books \<Rightarrow> copy_report" where
  "copy_report_of disp mode root_ids t =
     \<lparr>destination_mode = mode, requested_root_ids = map disp root_ids,
      report_copied = then_some (mode = ReadBeforeWrite) (copied_block_count t),
      report_skipped = then_some (mode = ReadBeforeWrite) (skipped_already_present_block_count t),
      report_attempted = then_some (mode = BlindWrite) (attempted_write_block_count t),
      failed_block_count = count_failed_blocks (failures t), report_failures = failures t\<rparr>"

fun failure_operation_label :: "copy_failure_operation \<Rightarrow> rstring" where
  "failure_operation_label ReadSourceBlock = lit ''read-source-block''"
| "failure_operation_label DecodeSourceBlock = lit ''decode-source-block''"
| "failure_operation_label CheckDestinationBlock = lit ''check-destination-block''"
| "failure_operation_label WriteDestinationBlock = lit ''write-destination-block''"
| "failure_operation_label CompactDestinationStore = lit ''compact-destination-store''"

definition optional_line :: "rstring \<Rightarrow> nat option \<Rightarrow> rstring list" where
  "optional_line label n = (case n of None \<Rightarrow> [] | Some k \<Rightarrow> [label @ show_nat k])"

definition render_report_summary :: "copy_report \<Rightarrow> rstring" where
  "render_report_summary report =
     join [10]
       ([lit ''Rooted block copy results for '' @ show_nat (length (requested_root_ids report)) @
           lit '' requested root(s)'',
         lit ''Destination mode: '' @
           (case destination_mode report of
              ReadBeforeWrite \<Rightarrow> lit ''read-before-write''
            | BlindWrite \<Rightarrow> lit ''blind-write''),
         lit ''Failed blocks: '' @ show_nat (failed_block_count report)] @
        optional_line (lit ''Copied blocks: '') (report_copied report) @
        optional_line (lit ''Skipped already present: '') (report_skipped report) @
        optional_line (lit ''Attempted writes: '') (report_attempted report) @
        (if requested_root_ids report = [] then []
         else [lit ''Roots: '' @ join (lit '', '') (requested_root_ids report)]) @
        map (\<lambda>f. lit ''FAIL ['' @ failure_operation_label (failure_operation f) @ lit ''] root '' @
               failure_root_id f @ lit '' block '' @ failure_block_id f @ lit '': '' @ failure_message f)
          (report_failures report))"

text \<open>
  The default path of the report artifact. \<open>None\<close> is the panic of slicing a displayed id
  shorter than eight bytes or a digest shorter than four.
\<close>

definition default_report_path ::
  "(block_hash \<Rightarrow> rstring) \<Rightarrow> (bytes \<Rightarrow> bytes) \<Rightarrow> block_hash list \<Rightarrow> rstring option" where
  "default_report_path disp sha256 root_ids =
     (case root_ids of
        [] \<Rightarrow> Some (lit ''rooted-copy-empty.json'')
      | first # _ \<Rightarrow>
          let digest = sha256 (utf8 (join [10] (map disp root_ids))) in
          if length (disp first) < 8 \<or> length digest < 4 then None
          else Some (lit ''rooted-copy-'' @ take 8 (disp first) @ lit ''-'' @
                 hex_encode (take 4 digest) @ lit ''.json''))"

text \<open>
  Writing the report. The JSON printer and the file system are arguments; the path is in the
  error as it is displayed.
\<close>

datatype rooted_block_copy_error = Render rstring | WriteArtifact rstring io_error

definition write_report ::
  "(copy_report \<Rightarrow> rstring + bytes) \<Rightarrow> ('fs \<Rightarrow> path \<Rightarrow> 'fs \<times> (io_error + unit)) \<Rightarrow>
   ('fs \<Rightarrow> path \<Rightarrow> bytes \<Rightarrow> 'fs \<times> (io_error + unit)) \<Rightarrow> 'fs \<Rightarrow> path \<Rightarrow> copy_report
     \<Rightarrow> ('fs, rooted_block_copy_error, unit) fallible" where
  "write_report to_vec_pretty create_dir_all fs_write fs path report =
     (case to_vec_pretty report of
        Inl message \<Rightarrow> (fs, Err (Render message))
      | Inr rendered \<Rightarrow>
          then_do
            (case path_parent path of
               Some parent \<Rightarrow>
                 if path_is_empty parent then (fs, Ok ())
                 else (case create_dir_all fs parent of
                         (fs', Inl e) \<Rightarrow> (fs', Err (WriteArtifact (display_path path) e))
                       | (fs', Inr u) \<Rightarrow> (fs', Ok ()))
             | None \<Rightarrow> (fs, Ok ()))
            (\<lambda>fs _. case fs_write fs path rendered of
               (fs', Inl e) \<Rightarrow> (fs', Err (WriteArtifact (display_path path) e))
             | (fs', Inr u) \<Rightarrow> (fs', Ok ())))"

end
