(* ===== verification/Copy_Queues.thy ===== *)
theory Copy_Queues
  imports Copy_Failures
begin

text \<open>
  The two queues of the multi-threaded copy (\<^verbatim>\<open>block_copy.rs\<close>, \<^verbatim>\<open>ThreadedWorkQueue\<close> and
  \<^verbatim>\<open>ThreadedWriteQueue\<close>), the batch-write capability that the writers share and the
  publication of a batch of writes.

  Each operation is what one thread does between taking and releasing the queue's lock. Where
  the source waits on the condition variable the result is \<open>Wait\<close>: the thread releases the
  lock, and its loop starts again when it is notified. Counters are natural numbers; the
  saturating additions of the source saturate at the largest \<^verbatim>\<open>usize\<close>.
\<close>

section \<open>Machine words\<close>

definition USIZE_MAX :: nat where
  "USIZE_MAX = 2 ^ 64 - 1"

definition saturating_add :: "nat \<Rightarrow> nat \<Rightarrow> nat" where
  "saturating_add a b = min (a + b) USIZE_MAX"

datatype 'a attempt = Return 'a | Wait

section \<open>Batch-write capability\<close>

datatype batch_write_capability = Unknown | Probing | Supported | Unsupported

definition try_begin_batch_write_probe ::
  "batch_write_capability \<Rightarrow> batch_write_capability \<times> bool" where
  "try_begin_batch_write_probe cap = (if cap = Unknown then (Probing, True) else (cap, False))"

definition complete_batch_write_probe :: "bool \<Rightarrow> batch_write_capability" where
  "complete_batch_write_probe supported = (if supported then Supported else Unsupported)"

definition UNSUPPORTED_BATCH_WRITE_MESSAGE :: rstring where
  "UNSUPPORTED_BATCH_WRITE_MESSAGE = lit ''batch writes are not supported by this block store backend''"

fun is_unsupported_batch_write_error :: "block_store_error \<Rightarrow> bool" where
  "is_unsupported_batch_write_error (BackendFailure message) =
     (let m = to_ascii_lowercase message in
      contains_str m UNSUPPORTED_BATCH_WRITE_MESSAGE \<or>
      contains_str m (lit ''batch write'') \<and> contains_str m (lit ''not supported''))"
| "is_unsupported_batch_write_error _ = False"

section \<open>Work queue\<close>

record work_queue =
  work_items :: "(block_hash \<times> block_hash) list"
  active_workers :: nat
  work_shutdown :: bool

definition work_queue_new :: "block_hash list \<Rightarrow> work_queue" where
  "work_queue_new root_ids =
     \<lparr>work_items = map (\<lambda>r. (r, r)) root_ids, active_workers = 0, work_shutdown = False\<rparr>"

definition work_pop ::
  "bool \<Rightarrow> work_queue \<Rightarrow> work_queue \<times> (block_hash \<times> block_hash) option attempt" where
  "work_pop stop_requested q =
     (if work_shutdown q \<or> stop_requested then (q\<lparr>work_shutdown := True\<rparr>, Return None)
      else case work_items q of
        item # rest \<Rightarrow> (q\<lparr>work_items := rest, active_workers := active_workers q + 1\<rparr>, Return (Some item))
      | [] \<Rightarrow> if active_workers q = 0 then (q\<lparr>work_shutdown := True\<rparr>, Return None) else (q, Wait))"

definition enqueue_children ::
  "block_hash \<Rightarrow> block_hash list \<Rightarrow> (block_hash \<times> block_hash) list \<Rightarrow> (block_hash \<times> block_hash) list" where
  "enqueue_children request_root_id child_ids queue =
     queue @ map (\<lambda>child_id. (request_root_id, child_id)) child_ids"

definition work_enqueue_children ::
  "bool \<Rightarrow> block_hash \<Rightarrow> block_hash list \<Rightarrow> work_queue \<Rightarrow> work_queue" where
  "work_enqueue_children stop_requested request_root_id child_ids q =
     (if child_ids = [] \<or> stop_requested \<or> work_shutdown q then q
      else q\<lparr>work_items := enqueue_children request_root_id child_ids (work_items q)\<rparr>)"

definition work_finish_item :: "bool \<Rightarrow> work_queue \<Rightarrow> work_queue" where
  "work_finish_item stop_requested q =
     (let q1 = q\<lparr>active_workers := active_workers q - 1\<rparr> in
      if stop_requested \<or> active_workers q1 = 0 \<and> work_items q1 = [] then q1\<lparr>work_shutdown := True\<rparr>
      else q1)"

definition work_request_shutdown :: "work_queue \<Rightarrow> work_queue" where
  "work_request_shutdown q = q\<lparr>work_shutdown := True\<rparr>"

section \<open>Write queue\<close>

record write_job =
  job_block_id :: block_hash
  job_block_bytes :: bytes
  count_as_copied :: bool

abbreviation job_len :: "write_job \<Rightarrow> nat" where
  "job_len j \<equiv> length (job_block_bytes j)"

definition jobs_len :: "write_job list \<Rightarrow> nat" where
  "jobs_len jobs = sum_list (map job_len jobs)"

record write_limits =
  max_in_flight_writes :: nat
  max_in_flight_write_bytes :: nat
  checkpoint_interval :: "nat option"

text \<open>The limits of \<^verbatim>\<open>ThreadedWriteQueue::new\<close>, as the copy calls it.\<close>

definition queue_limits :: "nat \<Rightarrow> nat \<Rightarrow> nat option \<Rightarrow> write_limits" where
  "queue_limits max_writes max_bytes interval =
     \<lparr>max_in_flight_writes = max max_writes 1, max_in_flight_write_bytes = max_bytes,
      checkpoint_interval = interval\<rparr>"

record write_queue =
  write_items :: "write_job list"
  queued_write_bytes :: nat
  active_writes :: nat
  active_write_bytes :: nat
  attempted_write_count :: nat
  producers_finished :: bool
  write_shutdown :: bool
  checkpoint_pending :: bool
  checkpoint_running :: bool

datatype write_action = WriteBatch "write_job list" nat | RunCheckpoint | Shutdown

definition write_queue_new :: write_queue where
  "write_queue_new =
     \<lparr>write_items = [], queued_write_bytes = 0, active_writes = 0, active_write_bytes = 0,
      attempted_write_count = 0, producers_finished = False, write_shutdown = False,
      checkpoint_pending = False, checkpoint_running = False\<rparr>"

definition writer_thread_count :: "write_limits \<Rightarrow> nat" where
  "writer_thread_count lim = max (max_in_flight_writes lim) 1"

definition is_multiple_of :: "nat \<Rightarrow> nat \<Rightarrow> bool" where
  "is_multiple_of n k \<longleftrightarrow> k dvd n"

definition in_flight_writes :: "write_queue \<Rightarrow> nat" where
  "in_flight_writes q = saturating_add (length (write_items q)) (active_writes q)"

definition enqueue_blocked :: "write_limits \<Rightarrow> write_job \<Rightarrow> write_queue \<Rightarrow> bool" where
  "enqueue_blocked lim job q \<longleftrightarrow>
     checkpoint_pending q \<or> checkpoint_running q \<or>
     in_flight_writes q \<ge> max_in_flight_writes lim \<or>
     in_flight_writes q > 0 \<and> max_in_flight_write_bytes lim > 0 \<and>
     saturating_add (saturating_add (queued_write_bytes q) (active_write_bytes q)) (job_len job)
       > max_in_flight_write_bytes lim"

definition count_attempt ::
  "write_limits \<Rightarrow> copy_destination_mode \<Rightarrow> write_queue \<Rightarrow> write_queue" where
  "count_attempt lim mode q =
     (case checkpoint_interval lim of
        Some interval \<Rightarrow>
          if mode = BlindWrite \<and> interval > 0 then
            let n = attempted_write_count q + 1 in
            q\<lparr>attempted_write_count := n,
              checkpoint_pending := checkpoint_pending q \<or> is_multiple_of n interval\<rparr>
          else q
      | None \<Rightarrow> q)"

definition write_enqueue ::
  "write_limits \<Rightarrow> write_job \<Rightarrow> copy_destination_mode \<Rightarrow> bool \<Rightarrow> write_queue
     \<Rightarrow> write_queue \<times> bool attempt" where
  "write_enqueue lim job mode stop_requested q =
     (if write_shutdown q \<or> stop_requested then (q, Return False)
      else if enqueue_blocked lim job q then (q, Wait)
      else
        let q1 = count_attempt lim mode (q\<lparr>queued_write_bytes := queued_write_bytes q + job_len job\<rparr>)
        in (q1\<lparr>write_items := write_items q1 @ [job]\<rparr>, Return True))"

text \<open>The inner loop of \<^verbatim>\<open>next_action\<close>: jobs are moved from the queue to the batch.\<close>

fun fill_batch ::
  "nat \<Rightarrow> nat \<Rightarrow> write_job list \<Rightarrow> nat \<Rightarrow> nat \<Rightarrow> write_job list
     \<Rightarrow> write_job list \<times> nat \<times> nat \<times> write_job list" where
  "fill_batch max_bytes target jobs total_len queued [] = (jobs, total_len, queued, [])"
| "fill_batch max_bytes target jobs total_len queued (next_job # queue) =
     (if \<not> length jobs < target then (jobs, total_len, queued, next_job # queue)
      else if max_bytes > 0 \<and> jobs \<noteq> [] \<and> saturating_add total_len (job_len next_job) > max_bytes
      then (jobs, total_len, queued, next_job # queue)
      else fill_batch max_bytes target (jobs @ [next_job]) (total_len + job_len next_job)
             (queued - job_len next_job) queue)"

definition target_batch_len ::
  "write_limits \<Rightarrow> batch_write_capability \<Rightarrow> nat \<Rightarrow> batch_write_capability \<times> nat" where
  "target_batch_len lim cap queue_len =
     (case cap of
        Supported \<Rightarrow> (cap, max (max_in_flight_writes lim) 1)
      | Unknown \<Rightarrow>
          if queue_len \<ge> 2 then
            (case try_begin_batch_write_probe cap of (cap', begun) \<Rightarrow> (cap', if begun then 2 else 1))
          else (cap, 1)
      | Probing \<Rightarrow> (cap, 1)
      | Unsupported \<Rightarrow> (cap, 1))"

definition write_next_action ::
  "write_limits \<Rightarrow> bool \<Rightarrow> batch_write_capability \<Rightarrow> write_queue
     \<Rightarrow> write_queue \<times> batch_write_capability \<times> write_action attempt" where
  "write_next_action lim stop_requested cap q =
     (if cap \<noteq> Unsupported \<and> active_writes q > 0 then (q, cap, Wait)
      else case target_batch_len lim cap (length (write_items q)) of (cap', target) \<Rightarrow>
        case write_items q of
          first_job # rest \<Rightarrow>
            (case fill_batch (max_in_flight_write_bytes lim) target [first_job] (job_len first_job)
                    (queued_write_bytes q - job_len first_job) rest of
               (jobs, total_len, queued, rest') \<Rightarrow>
                 (q\<lparr>write_items := rest', queued_write_bytes := queued,
                    active_writes := active_writes q + length jobs,
                    active_write_bytes := active_write_bytes q + total_len\<rparr>,
                  cap', Return (WriteBatch jobs total_len)))
        | [] \<Rightarrow>
            if checkpoint_pending q \<and> \<not> checkpoint_running q \<and> active_writes q = 0
            then (q\<lparr>checkpoint_pending := False, checkpoint_running := True\<rparr>, cap', Return RunCheckpoint)
            else if (producers_finished q \<or> write_shutdown q \<or> stop_requested) \<and>
                    active_writes q = 0 \<and> \<not> checkpoint_running q
            then (q\<lparr>write_shutdown := True\<rparr>, cap', Return Shutdown)
            else (q, cap', Wait))"

definition complete_write_batch :: "nat \<Rightarrow> nat \<Rightarrow> write_queue \<Rightarrow> write_queue" where
  "complete_write_batch completed_jobs block_bytes_len q =
     q\<lparr>active_writes := active_writes q - completed_jobs,
       active_write_bytes := active_write_bytes q - block_bytes_len\<rparr>"

definition finish_checkpoint :: "write_queue \<Rightarrow> write_queue" where
  "finish_checkpoint q = q\<lparr>checkpoint_running := False\<rparr>"

definition fail_checkpoint :: "write_queue \<Rightarrow> write_queue" where
  "fail_checkpoint q =
     q\<lparr>checkpoint_running := False, write_shutdown := True, producers_finished := True,
       write_items := [], queued_write_bytes := 0\<rparr>"

definition finish_producing :: "bool \<Rightarrow> write_queue \<Rightarrow> write_queue" where
  "finish_producing stop_requested q =
     (let q1 = q\<lparr>producers_finished := True\<rparr> in
      if stop_requested then q1\<lparr>write_shutdown := True, write_items := [], queued_write_bytes := 0\<rparr>
      else q1)"

definition write_request_shutdown :: "write_queue \<Rightarrow> write_queue" where
  "write_request_shutdown q =
     q\<lparr>write_shutdown := True, producers_finished := True, write_items := [], queued_write_bytes := 0\<rparr>"

section \<open>Publication\<close>

text \<open>
  The destination store is an argument: a single put, a batch put and the display of its
  errors. A publication returns one completion per job, in the order of the jobs.
\<close>

record 'd block_destination =
  dest_get :: "'d \<Rightarrow> block_hash \<Rightarrow> block_store_error + bytes option"
  dest_put :: "'d \<Rightarrow> block_hash \<Rightarrow> bytes \<Rightarrow> 'd \<times> (block_store_error + unit)"
  dest_put_batch :: "'d \<Rightarrow> (block_hash \<times> bytes) list \<Rightarrow> 'd \<times> (block_store_error + unit)"
  show_store_error :: "block_store_error \<Rightarrow> rstring"

record write_completion =
  completion_block_id :: block_hash
  completion_block_bytes_len :: nat
  completion_count_as_copied :: bool
  completion_result :: "rstring + unit"

definition completion_of :: "write_job \<Rightarrow> rstring + unit \<Rightarrow> write_completion" where
  "completion_of job r =
     \<lparr>completion_block_id = job_block_id job, completion_block_bytes_len = job_len job,
      completion_count_as_copied = count_as_copied job, completion_result = r\<rparr>"

fun publish_destination_write_jobs_one_by_one ::
  "'d block_destination \<Rightarrow> 'd \<Rightarrow> write_job list \<Rightarrow> 'd \<times> write_completion list" where
  "publish_destination_write_jobs_one_by_one ops d [] = (d, [])"
| "publish_destination_write_jobs_one_by_one ops d (job # jobs) =
     (case dest_put ops d (job_block_id job) (job_block_bytes job) of (d1, r) \<Rightarrow>
      case publish_destination_write_jobs_one_by_one ops d1 jobs of (d2, cs) \<Rightarrow>
        (d2, completion_of job (map_err (show_store_error ops) r) # cs))"

definition publish_destination_write_batch ::
  "'d block_destination \<Rightarrow> 'd \<Rightarrow> batch_write_capability \<Rightarrow> write_job list
     \<Rightarrow> 'd \<times> batch_write_capability \<times> write_completion list" where
  "publish_destination_write_batch ops d cap jobs =
     (let probing_single_write = (length jobs = 1 \<and> (cap = Unknown \<or> cap = Probing)) in
      if length jobs \<le> 1 \<and> \<not> probing_single_write then
        (case publish_destination_write_jobs_one_by_one ops d jobs of (d', cs) \<Rightarrow> (d', cap, cs))
      else
        case dest_put_batch ops d (map (\<lambda>job. (job_block_id job, job_block_bytes job)) jobs) of
          (d', Inr u) \<Rightarrow>
            (d', complete_batch_write_probe True, map (\<lambda>job. completion_of job (Ok ())) jobs)
        | (d', Inl e) \<Rightarrow>
            if is_unsupported_batch_write_error e then
              (case publish_destination_write_jobs_one_by_one ops d' jobs of
                 (d'', cs) \<Rightarrow> (d'', complete_batch_write_probe False, cs))
            else (d', complete_batch_write_probe True,
                  map (\<lambda>job. completion_of job (Err (show_store_error ops e))) jobs))"

end
