(* ===== verification/Copy_Failures_Laws.thy ===== *)
theory Copy_Failures_Laws
  imports Copy_Failures
begin

text \<open>
  Laws of the failure tracker. The calls it receives are a list of events; the offline reading
  of that list says which roots reach which block. The tracker, which sees the events one by
  one, reports exactly the failures of the offline reading, whatever the order in which roots,
  children and failures became known.
\<close>

section \<open>Events and their offline reading\<close>

datatype tracker_event =
    NoteRoot block_hash block_hash
  | Children block_hash "block_hash list"
  | Fail block_hash copy_failure_operation rstring
  | StoreFail "block_hash list" copy_failure_operation rstring

fun apply_event ::
  "(block_hash \<Rightarrow> rstring) \<Rightarrow> (block_hash list \<Rightarrow> block_hash list) \<Rightarrow> tracker_event
     \<Rightarrow> copy_books \<Rightarrow> copy_books" where
  "apply_event disp iter (NoteRoot r b) = note_block_root disp r b"
| "apply_event disp iter (Children b cs) = remember_children disp iter b cs"
| "apply_event disp iter (Fail b oper m) = record_failure disp iter b oper m"
| "apply_event disp iter (StoreFail rs oper m) = record_store_failure disp rs oper m"

definition run_events ::
  "(block_hash \<Rightarrow> rstring) \<Rightarrow> (block_hash list \<Rightarrow> block_hash list) \<Rightarrow> tracker_event list
     \<Rightarrow> copy_books \<Rightarrow> copy_books" where
  "run_events disp iter es = fold (apply_event disp iter) es"

text \<open>The roots whose requests reach a block along the children made known so far.\<close>

definition known_edges :: "tracker_event list \<Rightarrow> (block_hash \<times> block_hash) set" where
  "known_edges es = {(b, c). \<exists>cs. Children b cs \<in> set es \<and> c \<in> set cs}"

definition roots_reaching :: "tracker_event list \<Rightarrow> block_hash \<Rightarrow> block_hash set" where
  "roots_reaching es b = {r. \<exists>b0. NoteRoot r b0 \<in> set es \<and> (b0, b) \<in> (known_edges es)\<^sup>*}"

fun recorded :: "tracker_event list \<Rightarrow> (block_hash \<times> failure_template) list" where
  "recorded [] = []"
| "recorded (Fail b oper m # es) =
     (b, \<lparr>template_operation = oper, template_message = m\<rparr>) # recorded es"
| "recorded (_ # es) = recorded es"

fun store_failures :: "(block_hash \<Rightarrow> rstring) \<Rightarrow> tracker_event list \<Rightarrow> copy_failure list" where
  "store_failures disp [] = []"
| "store_failures disp (StoreFail rs oper m # es) =
     map (\<lambda>r. \<lparr>failure_root_id = disp r, failure_block_id = DESTINATION_STORE_FAILURE_ID,
                failure_operation = oper, failure_message = m\<rparr>) rs @ store_failures disp es"
| "store_failures disp (_ # es) = store_failures disp es"

fun remembered_block :: "tracker_event \<Rightarrow> block_hash option" where
  "remembered_block (Children b cs) = Some b"
| "remembered_block _ = None"

definition remembered_blocks :: "tracker_event list \<Rightarrow> block_hash list" where
  "remembered_blocks es = List.map_filter remembered_block es"

lemma recorded_append: "recorded (es @ fs) = recorded es @ recorded fs"
  by (induction es rule: recorded.induct) auto

lemma store_failures_append: "store_failures d (es @ fs) = store_failures d es @ store_failures d fs"
  by (induction d es rule: store_failures.induct) auto

lemma remembered_blocks_append:
  "remembered_blocks (es @ fs) = remembered_blocks es @ remembered_blocks fs"
  by (simp add: remembered_blocks_def map_filter_def)

lemma remembered_blocks_iff: "b \<in> set (remembered_blocks es) \<longleftrightarrow> (\<exists>cs. Children b cs \<in> set es)"
proof (induction es)
  case (Cons e es)
  then show ?case by (cases e) (auto simp: remembered_blocks_def map_filter_simps)
qed (simp add: remembered_blocks_def map_filter_simps)

section \<open>The ledger\<close>

text \<open>Every recorded failure once for each root of its block.\<close>

definition ledger ::
  "(block_hash \<Rightarrow> rstring) \<Rightarrow> (block_hash \<Rightarrow> block_hash set) \<Rightarrow> (block_hash \<times> failure_template) list
     \<Rightarrow> copy_failure multiset" where
  "ledger disp roots rec =
     (\<Sum>(b, tpl) \<leftarrow> rec. image_mset (\<lambda>r. templated_failure disp r b tpl) (mset_set (roots b)))"

lemma ledger_Nil [simp]: "ledger disp roots [] = {#}"
  by (simp add: ledger_def)

lemma ledger_Cons [simp]:
  "ledger disp roots ((b, tpl) # rec) =
     image_mset (\<lambda>r. templated_failure disp r b tpl) (mset_set (roots b)) + ledger disp roots rec"
  by (simp add: ledger_def)

lemma ledger_append: "ledger disp roots (rec @ rec') = ledger disp roots rec + ledger disp roots rec'"
  by (simp add: ledger_def)

lemma ledger_insert:
  assumes "r \<notin> roots b" and "finite (roots b)"
  shows "ledger disp (roots(b := insert r (roots b))) rec =
    ledger disp roots rec + mset (map (templated_failure disp r b) (map snd (filter (\<lambda>p. fst p = b) rec)))"
  using assms by (induction rec) auto

section \<open>One association\<close>

abbreviation known_roots :: "copy_books \<Rightarrow> block_hash \<Rightarrow> block_hash set" where
  "known_roots t b \<equiv> set (entries_of (block_roots t) b)"

definition books_ledger :: "(block_hash \<Rightarrow> rstring) \<Rightarrow> (block_hash \<times> failure_template) list
    \<Rightarrow> copy_failure multiset \<Rightarrow> copy_books \<Rightarrow> bool" where
  "books_ledger disp rec extra t \<longleftrightarrow>
     (\<forall>b. entries_of (failure_templates t) b = map snd (filter (\<lambda>p. fst p = b) rec)) \<and>
     mset (failures t) = ledger disp (known_roots t) rec + extra"

definition closed_upto :: "block_hash \<Rightarrow> block_hash set \<Rightarrow> copy_books \<Rightarrow> bool" where
  "closed_upto r P t \<longleftrightarrow>
     (\<forall>b c. r \<in> known_roots t b \<longrightarrow> c \<in> set (entries_of (discovered_children t) b) \<longrightarrow>
        r \<in> known_roots t c \<or> c \<in> P)"

lemma associate_block_ledger:
  assumes "books_ledger disp rec extra t" and "r \<notin> known_roots t b"
  shows "books_ledger disp rec extra (associate_block disp r b t)"
proof -
  have f: "known_roots (associate_block disp r b t) = (known_roots t)(b := insert r (known_roots t b))"
    by (rule ext) simp
  have l: "ledger disp (known_roots (associate_block disp r b t)) rec =
      ledger disp (known_roots t) rec +
      mset (map (templated_failure disp r b) (entries_of (failure_templates t) b))"
    unfolding f using assms ledger_insert [of r "known_roots t" b disp rec]
    by (simp add: books_ledger_def)
  have "mset (failures (associate_block disp r b t)) =
      mset (failures t) + mset (map (templated_failure disp r b) (entries_of (failure_templates t) b))"
    by (simp add: associate_block_def)
  then show ?thesis using assms(1) unfolding books_ledger_def l by (simp add: ac_simps)
qed

lemma associate_block_closed:
  assumes "closed_upto r (insert b (set q) \<union> P) t"
  shows "closed_upto r (set (q @ entries_of (discovered_children t) b) \<union> P) (associate_block disp r b t)"
  using assms by (auto simp: closed_upto_def)

lemma closed_upto_skip:
  "r \<in> known_roots t b \<Longrightarrow> closed_upto r (insert b (set q) \<union> P) t \<Longrightarrow> closed_upto r (set q \<union> P) t"
  by (auto simp: closed_upto_def)

lemma associate_loop_frame:
  "discovered_children (associate_loop disp r q t) = discovered_children t \<and>
   failure_templates (associate_loop disp r q t) = failure_templates t \<and>
   failed_failure_ids (associate_loop disp r q t) = failed_failure_ids t \<and>
   progress (associate_loop disp r q t) = progress t"
  by (induction disp r q t rule: associate_loop.induct) auto

lemma associate_loop_other_roots:
  "r' \<noteq> r \<Longrightarrow> r' \<in> known_roots (associate_loop disp r q t) b \<longleftrightarrow> r' \<in> known_roots t b"
  by (induction disp r q t rule: associate_loop.induct) (auto split: if_splits)

lemma associate_loop_mono:
  "x \<in> known_roots t b \<Longrightarrow> x \<in> known_roots (associate_loop disp r q t) b"
proof (induction disp r q t rule: associate_loop.induct)
  case (2 disp r block q t)
  then show ?case by (cases "b = block") auto
qed simp

lemma associate_loop_covers: "b \<in> set q \<Longrightarrow> r \<in> known_roots (associate_loop disp r q t) b"
proof (induction disp r q t rule: associate_loop.induct)
  case (2 disp r block q t)
  then show ?case
    by (cases "r \<in> known_roots t block"; cases "b = block") (auto intro: associate_loop_mono)
qed simp

lemma associate_loop_closed:
  "closed_upto r (set q \<union> P) t \<Longrightarrow> closed_upto r P (associate_loop disp r q t)"
proof (induction disp r q t rule: associate_loop.induct)
  case (2 disp r b q t)
  show ?case
  proof (cases "r \<in> known_roots t b")
    case True
    then have "closed_upto r (set q \<union> P) t" using closed_upto_skip 2(3) by simp
    then show ?thesis using 2(1) True by simp
  next
    case False
    have "closed_upto r (set (q @ entries_of (discovered_children t) b) \<union> P) (associate_block disp r b t)"
      using associate_block_closed 2(3) by simp
    then show ?thesis using 2(2) False by simp
  qed
qed simp

lemma associate_loop_sound:
  assumes "\<And>b c. S b \<Longrightarrow> c \<in> set (entries_of (discovered_children t) b) \<Longrightarrow> S c"
    and "\<And>b. b \<in> set q \<Longrightarrow> S b"
    and "\<And>b. r \<in> known_roots t b \<Longrightarrow> S b"
    and "r \<in> known_roots (associate_loop disp r q t) b"
  shows "S b"
  using assms
proof (induction disp r q t rule: associate_loop.induct)
  case (2 disp r block q t)
  show ?case
  proof (cases "r \<in> known_roots t block")
    case True
    show ?thesis by (rule 2(1) [OF True]) (use 2(3-) True in auto)
  next
    case False
    show ?thesis
    proof (rule 2(2) [OF False])
      show "\<And>b c. S b \<Longrightarrow> c \<in> set (entries_of (discovered_children (associate_block disp r block t)) b) \<Longrightarrow> S c"
        using 2(3) by simp
      show "\<And>b. b \<in> set (q @ entries_of (discovered_children t) block) \<Longrightarrow> S b"
        using 2(3,4) by auto
      show "\<And>b. r \<in> known_roots (associate_block disp r block t) b \<Longrightarrow> S b"
        using 2(4,5) by (auto split: if_splits)
      show "r \<in> known_roots (associate_loop disp r (q @ entries_of (discovered_children t) block)
          (associate_block disp r block t)) b"
        using 2(6) False by simp
    qed
  qed
qed simp

lemma associate_loop_ledger:
  "books_ledger disp rec extra t \<Longrightarrow> books_ledger disp rec extra (associate_loop disp r q t)"
proof (induction disp r q t rule: associate_loop.induct)
  case (2 disp r b q t)
  then show ?case
    by (cases "r \<in> known_roots t b") (auto simp: associate_block_ledger)
qed simp

lemma associate_block_distinct:
  "\<forall>b. distinct (entries_of (block_roots t) b) \<Longrightarrow>
     \<forall>b. distinct (entries_of (block_roots (associate_block disp r block t)) b)"
  by (simp add: associate_block_roots distinct_hs_insert)

lemma associate_loop_distinct:
  "\<forall>b. distinct (entries_of (block_roots t) b) \<Longrightarrow>
     distinct (entries_of (block_roots (associate_loop disp r q t)) b)"
proof (induction disp r q t rule: associate_loop.induct)
  case (2 disp r block q t)
  then show ?case
    using associate_block_distinct by (cases "r \<in> known_roots t block") auto
qed simp

declare associate_loop.simps [simp del]

section \<open>The invariant of the tracker\<close>

definition tracker_ok ::
  "(block_hash \<Rightarrow> rstring) \<Rightarrow> tracker_event list \<Rightarrow> copy_books \<Rightarrow> bool" where
  "tracker_ok disp es t \<longleftrightarrow>
     (\<forall>b. distinct (entries_of (block_roots t) b)) \<and>
     (\<forall>r b. NoteRoot r b \<in> set es \<longrightarrow> r \<in> known_roots t b) \<and>
     (\<forall>r. closed_upto r {} t) \<and>
     (\<forall>r b. r \<in> known_roots t b \<longrightarrow> r \<in> roots_reaching es b) \<and>
     (\<forall>b c. c \<in> set (entries_of (discovered_children t) b) \<longleftrightarrow> (b, c) \<in> known_edges es) \<and>
     books_ledger disp (recorded es) (mset (store_failures disp es)) t"

lemma tracker_okD:
  assumes "tracker_ok disp es t"
  shows ok_distinct: "\<forall>b. distinct (entries_of (block_roots t) b)"
    and ok_noted: "NoteRoot r b \<in> set es \<Longrightarrow> r \<in> known_roots t b"
    and ok_closed: "closed_upto r {} t"
    and ok_sound: "r \<in> known_roots t b \<Longrightarrow> r \<in> roots_reaching es b"
    and ok_edges: "c \<in> set (entries_of (discovered_children t) b) \<longleftrightarrow> (b, c) \<in> known_edges es"
    and ok_ledger: "books_ledger disp (recorded es) (mset (store_failures disp es)) t"
  using assms unfolding tracker_ok_def by blast+

lemma tracker_okI:
  assumes "\<And>b. distinct (entries_of (block_roots t) b)"
    and "\<And>r b. NoteRoot r b \<in> set es \<Longrightarrow> r \<in> known_roots t b"
    and "\<And>r. closed_upto r {} t"
    and "\<And>r b. r \<in> known_roots t b \<Longrightarrow> r \<in> roots_reaching es b"
    and "\<And>b c. c \<in> set (entries_of (discovered_children t) b) \<longleftrightarrow> (b, c) \<in> known_edges es"
    and "books_ledger disp (recorded es) (mset (store_failures disp es)) t"
  shows "tracker_ok disp es t"
  using assms unfolding tracker_ok_def by blast

lemma closed_upto_mono: "closed_upto r P t \<Longrightarrow> P \<subseteq> Q \<Longrightarrow> closed_upto r Q t"
  unfolding closed_upto_def by blast

lemma known_edges_append: "known_edges (es @ fs) = known_edges es \<union> known_edges fs"
  by (auto simp: known_edges_def)

lemma roots_reaching_mono: "r \<in> roots_reaching es b \<Longrightarrow> r \<in> roots_reaching (es @ fs) b"
  unfolding roots_reaching_def known_edges_append
  using rtrancl_mono [of "known_edges es" "known_edges es \<union> known_edges fs"] by auto

lemma roots_reaching_step:
  "r \<in> roots_reaching es b \<Longrightarrow> (b, c) \<in> known_edges es \<Longrightarrow> r \<in> roots_reaching es c"
  unfolding roots_reaching_def by (auto intro: rtrancl_into_rtrancl)

lemma roots_reaching_noted: "NoteRoot r b \<in> set es \<Longrightarrow> r \<in> roots_reaching es b"
  unfolding roots_reaching_def by auto

lemma tracker_ok_roots:
  assumes ok: "tracker_ok disp es t"
  shows "known_roots t b = roots_reaching es b"
proof
  show "known_roots t b \<subseteq> roots_reaching es b" using ok_sound [OF ok] by blast
  have "r \<in> known_roots t b" if "(b0, b) \<in> (known_edges es)\<^sup>*" and "r \<in> known_roots t b0" for r b0
    using that
  proof (induction rule: rtrancl_induct)
    case (step y z)
    then have "z \<in> set (entries_of (discovered_children t) y)" using ok_edges [OF ok] by blast
    then show ?case using step ok_closed [OF ok, of r] unfolding closed_upto_def by blast
  qed
  then show "roots_reaching es b \<subseteq> known_roots t b"
    using ok_noted [OF ok] unfolding roots_reaching_def by blast
qed

lemma tracker_ok_failures:
  assumes ok: "tracker_ok disp es t"
  shows "mset (failures t) = ledger disp (roots_reaching es) (recorded es) + mset (store_failures disp es)"
proof -
  have "known_roots t = roots_reaching es" using tracker_ok_roots [OF ok] by (rule ext)
  then show ?thesis using ok_ledger [OF ok] by (simp add: books_ledger_def)
qed

lemma finite_roots_reaching: "tracker_ok disp es t \<Longrightarrow> finite (roots_reaching es b)"
  using tracker_ok_roots [of disp es t b, symmetric] by simp

subsection \<open>Noting a root\<close>

text \<open>
  One association keeps the invariant while some children \<open>P\<close> of the root are still to be
  associated.
\<close>

lemma associate_loop_sound_reaching:
  assumes edges: "\<And>b c. c \<in> set (entries_of (discovered_children t) b) \<Longrightarrow> (b, c) \<in> known_edges es"
    and sound: "\<And>r b. r \<in> known_roots t b \<Longrightarrow> r \<in> roots_reaching es b"
    and queue: "\<And>b. b \<in> set q \<Longrightarrow> r \<in> roots_reaching es b"
    and k: "r' \<in> known_roots (associate_loop disp r q t) b"
  shows "r' \<in> roots_reaching es b"
proof (cases "r' = r")
  case True
  have "r \<in> known_roots (associate_loop disp r q t) b" using k True by simp
  then have "r \<in> roots_reaching es b"
  proof (rule associate_loop_sound [where S = "\<lambda>x. r \<in> roots_reaching es x", rotated 3])
    show "\<And>x c. r \<in> roots_reaching es x \<Longrightarrow> c \<in> set (entries_of (discovered_children t) x)
        \<Longrightarrow> r \<in> roots_reaching es c"
      using edges roots_reaching_step by blast
  qed (use sound queue in blast)+
  then show ?thesis using True by simp
next
  case False
  then show ?thesis using k sound associate_loop_other_roots by blast
qed

lemma associate_loop_closed_other:
  "r' \<noteq> r \<Longrightarrow> closed_upto r' P t \<Longrightarrow> closed_upto r' P (associate_loop disp r q t)"
  by (simp add: closed_upto_def associate_loop_other_roots associate_loop_frame)

lemma tracker_ok_note:
  assumes ok: "tracker_ok disp es t"
  shows "tracker_ok disp (es @ [NoteRoot r b]) (associate_loop disp r [b] t)"
proof (rule tracker_okI)
  let ?t = "associate_loop disp r [b] t" and ?es = "es @ [NoteRoot r b]"
  have edges: "known_edges ?es = known_edges es" by (simp add: known_edges_def)
  show "distinct (entries_of (block_roots ?t) x)" for x
    by (rule associate_loop_distinct [OF ok_distinct [OF ok]])
  show "r' \<in> known_roots ?t b'" if "NoteRoot r' b' \<in> set ?es" for r' b'
  proof (cases "NoteRoot r' b' \<in> set es")
    case True
    then show ?thesis by (intro associate_loop_mono ok_noted [OF ok])
  next
    case False
    then have "r' = r" "b' = b" using that by simp_all
    then show ?thesis using associate_loop_covers [of b "[b]"] by simp
  qed
  show "closed_upto r' {} ?t" for r'
  proof (cases "r' = r")
    case True
    have "closed_upto r (set [b] \<union> {}) t" by (rule closed_upto_mono [OF ok_closed [OF ok]]) simp
    from associate_loop_closed [OF this] show ?thesis using True by simp
  next
    case False
    then show ?thesis by (intro associate_loop_closed_other ok_closed [OF ok])
  qed
  show "r' \<in> roots_reaching ?es b'" if "r' \<in> known_roots ?t b'" for r' b'
    using that
  proof (rule associate_loop_sound_reaching [rotated 3])
    show "\<And>x. x \<in> set [b] \<Longrightarrow> r \<in> roots_reaching ?es x" by (simp add: roots_reaching_noted)
  qed (use edges ok_edges [OF ok] ok_sound [OF ok] roots_reaching_mono in blast)+
  show "c \<in> set (entries_of (discovered_children ?t) x) \<longleftrightarrow> (x, c) \<in> known_edges ?es" for x c
    using ok_edges [OF ok] by (simp add: associate_loop_frame edges)
  show "books_ledger disp (recorded ?es) (mset (store_failures disp ?es)) ?t"
    using associate_loop_ledger [OF ok_ledger [OF ok]] by (simp add: recorded_append store_failures_append)
qed

subsection \<open>Remembering children\<close>

text \<open>
  The state inside the two loops of \<open>remember_children\<close>: as \<open>tracker_ok\<close>, but for a root \<open>r\<close>
  the blocks \<open>todo r\<close> may still lack it.
\<close>

definition remembering ::
  "(block_hash \<Rightarrow> rstring) \<Rightarrow> tracker_event list \<Rightarrow> (block_hash \<Rightarrow> block_hash set)
     \<Rightarrow> copy_books \<Rightarrow> bool" where
  "remembering disp es todo t \<longleftrightarrow>
     (\<forall>b. distinct (entries_of (block_roots t) b)) \<and>
     (\<forall>r b. NoteRoot r b \<in> set es \<longrightarrow> r \<in> known_roots t b) \<and>
     (\<forall>r. closed_upto r (todo r) t) \<and>
     (\<forall>r b. r \<in> known_roots t b \<longrightarrow> r \<in> roots_reaching es b) \<and>
     (\<forall>b c. c \<in> set (entries_of (discovered_children t) b) \<longleftrightarrow> (b, c) \<in> known_edges es) \<and>
     books_ledger disp (recorded es) (mset (store_failures disp es)) t"

lemma remembering_closed:
  "remembering disp es (\<lambda>_. {}) t \<Longrightarrow> tracker_ok disp es t"
  unfolding remembering_def tracker_ok_def by blast

lemma remembering_associate:
  assumes rem: "remembering disp es todo t" and c: "r \<in> roots_reaching es c"
  shows "remembering disp es (todo(r := todo r - {c})) (associate_loop disp r [c] t)"
proof -
  let ?t = "associate_loop disp r [c] t"
  note R = rem [unfolded remembering_def]
  have "closed_upto r' ((todo(r := todo r - {c})) r') ?t" for r'
  proof (cases "r' = r")
    case True
    have "closed_upto r (set [c] \<union> (todo r - {c})) t"
      by (rule closed_upto_mono [of r "todo r"]) (use R in auto)
    from associate_loop_closed [OF this] show ?thesis using True by simp
  next
    case False
    then show ?thesis using R by (simp add: associate_loop_closed_other)
  qed
  moreover have "r' \<in> roots_reaching es b" if "r' \<in> known_roots ?t b" for r' b
    using that by (rule associate_loop_sound_reaching [rotated 3]) (use R c in auto)
  moreover have "\<forall>b. distinct (entries_of (block_roots ?t) b)"
    using R by (simp add: associate_loop_distinct)
  moreover have "\<forall>r' b. NoteRoot r' b \<in> set es \<longrightarrow> r' \<in> known_roots ?t b"
    using R by (simp add: associate_loop_mono)
  moreover have "books_ledger disp (recorded es) (mset (store_failures disp es)) ?t"
    using R by (simp add: associate_loop_ledger)
  moreover have "\<forall>b c. c \<in> set (entries_of (discovered_children ?t) b) \<longleftrightarrow> (b, c) \<in> known_edges es"
    using R by (simp add: associate_loop_frame)
  ultimately show ?thesis unfolding remembering_def by blast
qed

lemma remembering_children:
  assumes "remembering disp es todo t" and "\<And>c. c \<in> set cs \<Longrightarrow> r \<in> roots_reaching es c"
  shows "remembering disp es (todo(r := todo r - set cs)) (fold (\<lambda>c. associate_loop disp r [c]) cs t)"
  using assms
proof (induction cs arbitrary: todo t)
  case (Cons c cs)
  have "remembering disp es (todo(r := todo r - {c})) (associate_loop disp r [c] t)"
    by (rule remembering_associate) (use Cons.prems in auto)
  then have "remembering disp es ((todo(r := todo r - {c}))(r := (todo(r := todo r - {c})) r - set cs))
      (fold (\<lambda>c. associate_loop disp r [c]) cs (associate_loop disp r [c] t))"
    by (rule Cons.IH) (use Cons.prems in auto)
  moreover have "(todo(r := todo r - {c}))(r := (todo(r := todo r - {c})) r - set cs) =
      todo(r := todo r - set (c # cs))"
    by (rule ext) auto
  ultimately show ?case by (simp only: fold_simps)
qed simp

lemma remembering_roots:
  assumes "remembering disp es todo t"
    and "\<And>r c. r \<in> set rs \<Longrightarrow> c \<in> set cs \<Longrightarrow> r \<in> roots_reaching es c"
    and "\<And>r. r \<in> set rs \<Longrightarrow> todo r \<subseteq> set cs" and "\<And>r. r \<notin> set rs \<Longrightarrow> todo r = {}"
  shows "remembering disp es (\<lambda>_. {}) (fold (\<lambda>r. fold (\<lambda>c. associate_loop disp r [c]) cs) rs t)"
  using assms
proof (induction rs arbitrary: todo t)
  case Nil
  then have "todo = (\<lambda>_. {})" by auto
  then show ?case using Nil by simp
next
  case (Cons r rs)
  have "remembering disp es (todo(r := todo r - set cs)) (fold (\<lambda>c. associate_loop disp r [c]) cs t)"
    by (rule remembering_children) (use Cons.prems in auto)
  moreover have "todo r - set cs = {}" using Cons.prems(3) [of r] by auto
  ultimately have "remembering disp es (todo(r := {})) (fold (\<lambda>c. associate_loop disp r [c]) cs t)"
    by simp
  then have "remembering disp es (\<lambda>_. {})
      (fold (\<lambda>r. fold (\<lambda>c. associate_loop disp r [c]) cs) rs
        (fold (\<lambda>c. associate_loop disp r [c]) cs t))"
    by (rule Cons.IH) (use Cons.prems in auto)
  then show ?case by simp
qed

lemma tracker_ok_remember:
  assumes ok: "tracker_ok disp es t" and fresh: "b \<notin> set (remembered_blocks es)"
    and iter: "\<And>xs. set (iter xs) = set xs"
  shows "tracker_ok disp (es @ [Children b cs]) (remember_children disp iter b cs t)"
proof -
  let ?es = "es @ [Children b cs]"
  let ?t = "t\<lparr>discovered_children := hm_insert b cs (discovered_children t)\<rparr>"
  let ?todo = "\<lambda>r. if r \<in> known_roots t b then set cs else {}"
  have edges: "known_edges ?es = known_edges es \<union> {b} \<times> set cs" by (auto simp: known_edges_def)
  have "(b, c) \<notin> known_edges es" for c
    using fresh by (auto simp: known_edges_def remembered_blocks_iff)
  then have e: "c \<in> set (entries_of (discovered_children ?t) x) \<longleftrightarrow> (x, c) \<in> known_edges ?es" for x c
    using ok_edges [OF ok] by (auto simp: edges)
  have closed: "closed_upto r (?todo r) ?t" for r
    using ok_closed [OF ok, of r] by (auto simp: closed_upto_def)
  have sound: "r \<in> roots_reaching ?es x" if "r \<in> known_roots t x" for r x
    using roots_reaching_mono [OF ok_sound [OF ok that]] .
  have "books_ledger disp (recorded ?es) (mset (store_failures disp ?es)) ?t"
    using ok_ledger [OF ok] by (simp add: books_ledger_def recorded_append store_failures_append)
  then have "remembering disp ?es ?todo ?t"
    unfolding remembering_def using ok_distinct [OF ok] ok_noted [OF ok] closed sound e by simp
  then have "remembering disp ?es (\<lambda>_. {})
      (fold (\<lambda>r. fold (\<lambda>c. associate_loop disp r [c]) cs) (iter (entries_of (block_roots t) b)) ?t)"
  proof (rule remembering_roots)
    show "r \<in> roots_reaching ?es c"
      if "r \<in> set (iter (entries_of (block_roots t) b))" and "c \<in> set cs" for r c
      using roots_reaching_step [OF sound, of r b c] that by (simp add: iter edges)
  qed (auto simp: iter)
  moreover have "associate_root_with_known_subgraph disp = (\<lambda>r c. associate_loop disp r [c])"
    by (intro ext) (simp add: associate_root_with_known_subgraph_def)
  ultimately show ?thesis by (simp add: remembering_closed remember_children_def)
qed

subsection \<open>Recording failures\<close>

lemma note_failed_id_frame [simp]:
  "block_roots (note_failed_id i t) = block_roots t"
  "discovered_children (note_failed_id i t) = discovered_children t"
  "failure_templates (note_failed_id i t) = failure_templates t"
  "failures (note_failed_id i t) = failures t"
  by (simp_all add: note_failed_id_def)

lemma record_failure_frame [simp]:
  "block_roots (record_failure disp iter b oper m t) = block_roots t"
  "discovered_children (record_failure disp iter b oper m t) = discovered_children t"
  by (simp_all add: record_failure_def Let_def)

lemma record_store_failure_frame [simp]:
  "block_roots (record_store_failure disp rs oper m t) = block_roots t"
  "discovered_children (record_store_failure disp rs oper m t) = discovered_children t"
  "failure_templates (record_store_failure disp rs oper m t) = failure_templates t"
  by (simp_all add: record_store_failure_def Let_def)

lemma closed_upto_cong:
  "block_roots t' = block_roots t \<Longrightarrow> discovered_children t' = discovered_children t \<Longrightarrow>
     closed_upto r P t' \<longleftrightarrow> closed_upto r P t"
  by (simp add: closed_upto_def)

lemma tracker_ok_quiet:
  assumes ok: "tracker_ok disp es t"
    and frame: "block_roots t' = block_roots t" "discovered_children t' = discovered_children t"
    and quiet: "\<And>r b. NoteRoot r b \<in> set es' \<longleftrightarrow> NoteRoot r b \<in> set es"
      "known_edges es' = known_edges es"
    and led: "books_ledger disp (recorded es') (mset (store_failures disp es')) t'"
  shows "tracker_ok disp es' t'"
proof -
  have "roots_reaching es' = roots_reaching es" by (simp add: roots_reaching_def fun_eq_iff quiet)
  then show ?thesis
    using ok led unfolding tracker_ok_def closed_upto_def by (simp add: frame quiet)
qed

lemma tracker_ok_record:
  assumes ok: "tracker_ok disp es t" and iter: "\<And>xs. mset (iter xs) = mset xs"
  shows "tracker_ok disp (es @ [Fail b oper m]) (record_failure disp iter b oper m t)"
proof (rule tracker_ok_quiet [OF ok])
  let ?tpl = "\<lparr>template_operation = oper, template_message = m\<rparr>"
  let ?t = "record_failure disp iter b oper m t"
  have d: "mset (iter (entries_of (block_roots t) b)) = mset_set (known_roots t b)"
    using ok_distinct [OF ok] by (simp add: iter mset_set_set)
  have f: "mset (failures ?t) = mset (failures t) +
      image_mset (\<lambda>r. templated_failure disp r b ?tpl) (mset_set (known_roots t b))"
    by (simp add: record_failure_def Let_def d)
  have "entries_of (failure_templates ?t) x = map snd (filter (\<lambda>p. fst p = x) (recorded es @ [(b, ?tpl)]))" for x
    using ok_ledger [OF ok] by (simp add: books_ledger_def record_failure_def Let_def)
  then show "books_ledger disp (recorded (es @ [Fail b oper m]))
      (mset (store_failures disp (es @ [Fail b oper m]))) ?t"
    using ok_ledger [OF ok] f
    by (simp add: books_ledger_def recorded_append store_failures_append ledger_append ac_simps)
qed (simp_all add: known_edges_append known_edges_def)

lemma tracker_ok_store:
  assumes ok: "tracker_ok disp es t"
  shows "tracker_ok disp (es @ [StoreFail rs oper m]) (record_store_failure disp rs oper m t)"
proof (rule tracker_ok_quiet [OF ok])
  show "books_ledger disp (recorded (es @ [StoreFail rs oper m]))
      (mset (store_failures disp (es @ [StoreFail rs oper m]))) (record_store_failure disp rs oper m t)"
    using ok_ledger [OF ok]
    by (simp add: books_ledger_def recorded_append store_failures_append record_store_failure_def Let_def
        ac_simps)
qed (simp_all add: known_edges_append known_edges_def)

lemma tracker_ok_new: "tracker_ok disp [] (books_new p)"
  by (simp add: tracker_ok_def books_new_def closed_upto_def known_edges_def books_ledger_def)

lemma tracker_ok_run:
  assumes "distinct (remembered_blocks es)" and "\<And>xs. mset (iter xs) = mset xs"
  shows "tracker_ok disp es (run_events disp iter es (books_new p))"
  using assms
proof (induction es rule: rev_induct)
  case Nil
  then show ?case by (simp add: run_events_def tracker_ok_new)
next
  case (snoc e es)
  let ?t = "run_events disp iter es (books_new p)"
  have ok: "tracker_ok disp es ?t" using snoc by (simp add: remembered_blocks_append)
  have "set (iter xs) = set xs" for xs using snoc.prems(2) [of xs] by (metis set_mset_mset)
  then have "tracker_ok disp (es @ [e]) (apply_event disp iter e ?t)"
  proof (cases e)
    case (NoteRoot r b)
    then show ?thesis using tracker_ok_note [OF ok]
      by (simp add: note_block_root_def associate_root_with_known_subgraph_def)
  next
    case (Children b cs)
    then have "remembered_blocks [e] = [b]" by (simp add: remembered_blocks_def map_filter_simps)
    then have "b \<notin> set (remembered_blocks es)"
      using snoc.prems(1) by (simp add: remembered_blocks_append)
    from tracker_ok_remember [OF ok this \<open>\<And>xs. set (iter xs) = set xs\<close>] show ?thesis
      using Children by simp
  next
    case (Fail b oper m)
    then show ?thesis using tracker_ok_record [OF ok snoc.prems(2)] by simp
  next
    case (StoreFail rs oper m)
    then show ?thesis using tracker_ok_store [OF ok] by simp
  qed
  then show ?case by (simp add: run_events_def)
qed

section \<open>Counting failed blocks\<close>

fun failed_id :: "(block_hash \<Rightarrow> rstring) \<Rightarrow> tracker_event \<Rightarrow> rstring option" where
  "failed_id disp (Fail b oper m) = Some (disp b)"
| "failed_id disp (StoreFail rs oper m) = Some DESTINATION_STORE_FAILURE_ID"
| "failed_id disp _ = None"

definition failed_ids :: "(block_hash \<Rightarrow> rstring) \<Rightarrow> tracker_event list \<Rightarrow> rstring set" where
  "failed_ids disp es = {i. \<exists>e \<in> set es. failed_id disp e = Some i}"

definition failed_ok ::
  "(block_hash \<Rightarrow> rstring) \<Rightarrow> copy_progress option \<Rightarrow> tracker_event list \<Rightarrow> copy_books \<Rightarrow> bool" where
  "failed_ok disp p es t \<longleftrightarrow>
     distinct (failed_failure_ids t) \<and> set (failed_failure_ids t) = failed_ids disp es \<and>
     map_option progress_failed (progress t) =
       map_option (\<lambda>q. progress_failed q + card (failed_ids disp es)) p"

lemma failed_ids_snoc:
  "failed_ids disp (es @ [e]) =
     (case failed_id disp e of None \<Rightarrow> failed_ids disp es | Some i \<Rightarrow> insert i (failed_ids disp es))"
  by (auto simp: failed_ids_def split: option.splits)

lemma failed_ok_note:
  assumes "failed_ok disp p es t" and "failed_id disp e = Some i"
    and "failed_failure_ids t' = failed_failure_ids (note_failed_id i t)"
    and "progress t' = progress (note_failed_id i t)"
  shows "failed_ok disp p (es @ [e]) t'"
proof (cases "i \<in> failed_ids disp es")
  case True
  then show ?thesis using assms
    by (simp add: failed_ok_def failed_ids_snoc note_failed_id_def insert_absorb)
next
  case False
  have "finite (failed_ids disp es)" using assms(1) unfolding failed_ok_def by (metis finite_set)
  then have c: "card (failed_ids disp (es @ [e])) = card (failed_ids disp es) + 1"
    using False assms(2) by (simp add: failed_ids_snoc)
  have ids: "failed_failure_ids t' = failed_failure_ids t @ [i]"
    and pr: "progress t' = map_option note_failed_block (progress t)"
    using assms False by (simp_all add: failed_ok_def note_failed_id_def)
  have "map_option progress_failed (progress t') = map_option (\<lambda>n. n + 1) (map_option progress_failed (progress t))"
    by (simp add: pr note_failed_block_def option.map_comp comp_def)
  also have "\<dots> = map_option (\<lambda>q. progress_failed q + card (failed_ids disp (es @ [e]))) p"
    using assms(1) by (simp add: failed_ok_def option.map_comp comp_def c)
  finally show ?thesis using assms(1,2) False
    by (simp add: failed_ok_def ids failed_ids_snoc)
qed

lemma fold_associate_frame:
  "failed_failure_ids (fold (\<lambda>r. fold (\<lambda>c. associate_loop disp r [c]) cs) rs t) = failed_failure_ids t \<and>
   progress (fold (\<lambda>r. fold (\<lambda>c. associate_loop disp r [c]) cs) rs t) = progress t"
proof (induction rs arbitrary: t)
  case (Cons r rs)
  have "failed_failure_ids (fold (\<lambda>c. associate_loop disp r [c]) cs t) = failed_failure_ids t \<and>
      progress (fold (\<lambda>c. associate_loop disp r [c]) cs t) = progress t"
    by (induction cs arbitrary: t) (simp_all add: associate_loop_frame)
  then show ?case using Cons.IH by simp
qed simp

lemma failed_ok_quiet:
  assumes "failed_ok disp p es t" and "failed_id disp e = None"
    and "failed_failure_ids t' = failed_failure_ids t" and "progress t' = progress t"
  shows "failed_ok disp p (es @ [e]) t'"
  using assms by (simp add: failed_ok_def failed_ids_snoc)

lemma failed_ok_run: "failed_ok disp p es (run_events disp iter es (books_new p))"
proof (induction es rule: rev_induct)
  case Nil
  then show ?case by (simp add: failed_ok_def run_events_def books_new_def failed_ids_def)
next
  case (snoc e es)
  let ?t = "run_events disp iter es (books_new p)"
  have "failed_ok disp p (es @ [e]) (apply_event disp iter e ?t)"
  proof (cases e)
    case (NoteRoot r b)
    then show ?thesis using failed_ok_quiet [OF snoc.IH, of e]
      by (simp add: note_block_root_def associate_root_with_known_subgraph_def associate_loop_frame)
  next
    case (Children b cs)
    have "associate_root_with_known_subgraph disp = (\<lambda>r c. associate_loop disp r [c])"
      by (intro ext) (simp add: associate_root_with_known_subgraph_def)
    then show ?thesis using failed_ok_quiet [OF snoc.IH, of e] Children
      by (simp add: remember_children_def fold_associate_frame)
  next
    case (Fail b oper m)
    then show ?thesis using failed_ok_note [OF snoc.IH, of e]
      by (simp add: record_failure_def Let_def)
  next
    case (StoreFail rs oper m)
    then show ?thesis using failed_ok_note [OF snoc.IH, of e]
      by (simp add: record_store_failure_def Let_def)
  qed
  then show ?case by (simp add: run_events_def)
qed

lemma ledger_block_ids:
  assumes "\<And>b tpl. (b, tpl) \<in> set rec \<Longrightarrow> finite (roots b) \<and> roots b \<noteq> {}"
  shows "failure_block_id ` set_mset (ledger disp roots rec) = disp ` fst ` set rec"
  using assms
proof (induction rec)
  case (Cons p rec)
  obtain b tpl where p: "p = (b, tpl)" by fastforce
  have f: "finite (roots b)" and n: "roots b \<noteq> {}" using Cons.prems [of b tpl] p by auto
  then obtain r where "r \<in> roots b" by blast
  then have "failure_block_id ` (\<lambda>r. templated_failure disp r b tpl) ` roots b = {disp b}"
    by (auto simp: templated_failure_def image_iff)
  then show ?case using Cons f by (auto simp: p image_Un)
qed simp

fun has_store_failure :: "tracker_event list \<Rightarrow> bool" where
  "has_store_failure [] = False"
| "has_store_failure (StoreFail rs oper m # es) = True"
| "has_store_failure (_ # es) = has_store_failure es"

lemma store_failures_Nil: "\<not> has_store_failure es \<Longrightarrow> store_failures disp es = []"
  by (induction es rule: has_store_failure.induct) auto

lemma store_failures_ids:
  assumes "\<And>rs oper m. StoreFail rs oper m \<in> set es \<Longrightarrow> rs \<noteq> []"
  shows "failure_block_id ` set (store_failures disp es) =
    (if has_store_failure es then {DESTINATION_STORE_FAILURE_ID} else {})"
  using assms
proof (induction disp es rule: store_failures.induct)
  case (2 disp rs oper m es)
  have "rs \<noteq> []" using 2(2) [of rs oper m] by simp
  then have "failure_block_id ` (\<lambda>r. \<lparr>failure_root_id = disp r, failure_block_id = DESTINATION_STORE_FAILURE_ID,
      failure_operation = oper, failure_message = m\<rparr>) ` set rs = {DESTINATION_STORE_FAILURE_ID}"
    by (simp add: image_image image_constant_conv)
  moreover have "failure_block_id ` set (store_failures disp es) \<subseteq> {DESTINATION_STORE_FAILURE_ID}"
  proof -
    have "failure_block_id ` set (store_failures disp es) =
        (if has_store_failure es then {DESTINATION_STORE_FAILURE_ID} else {})"
      by (rule 2(1)) (rule 2(2), erule list.set_intros(2))
    then show ?thesis by simp
  qed
  ultimately show ?case by (simp add: image_Un Un_absorb2)
qed auto

lemma recorded_iff:
  "(b, tpl) \<in> set (recorded es) \<longleftrightarrow>
     Fail b (template_operation tpl) (template_message tpl) \<in> set es"
  by (induction es rule: recorded.induct) auto

lemma failed_ids_Cons:
  "failed_ids disp (e # es) =
     (case failed_id disp e of None \<Rightarrow> failed_ids disp es | Some i \<Rightarrow> insert i (failed_ids disp es))"
  by (auto simp: failed_ids_def split: option.splits)

lemma failed_ids_split:
  "failed_ids disp es = disp ` fst ` set (recorded es) \<union>
     (if has_store_failure es then {DESTINATION_STORE_FAILURE_ID} else {})"
proof (induction es)
  case (Cons e es)
  then show ?case by (cases e) (auto simp: failed_ids_Cons)
qed (simp add: failed_ids_def)

section \<open>Properties\<close>

text \<open>
  C37. The failure tracker of a rooted copy refines its offline reading. Whatever the order in
  which roots, children and failures become known, and in whatever order the hash sets are
  iterated, the failures it holds are, as a multiset, each recorded failure once for every
  requested root that reaches the failing block along the remembered children, and each store
  failure once for every root of the request. Every block's children are remembered at most
  once, as the traversals do.
\<close>

theorem failure_tracker_refines_offline:
  assumes "distinct (remembered_blocks es)" and "\<And>xs. mset (iter xs) = mset xs"
  shows "mset (failures (run_events disp iter es (books_new p))) =
    ledger disp (roots_reaching es) (recorded es) + mset (store_failures disp es)"
  using tracker_ok_failures [OF tracker_ok_run [OF assms]] .

definition demo_events :: "tracker_event list" where
  "demo_events =
     [NoteRoot [1] [1], Fail [3] ReadSourceBlock (lit ''gone''), Children [1] [[3]],
      NoteRoot [2] [2], Children [2] [[3]]]"

lemma demo_events_roots: "roots_reaching demo_events [3] = {[1], [2]}"
proof -
  have e: "known_edges demo_events = {([1], [3]), ([2], [3])}"
    by (auto simp: demo_events_def known_edges_def)
  have "(b0, [3]) \<in> (known_edges demo_events)\<^sup>* \<longleftrightarrow> b0 = [1] \<or> b0 = [2] \<or> b0 = [3]" for b0
    unfolding e by (auto elim: converse_rtranclE)
  then show ?thesis by (auto simp: roots_reaching_def demo_events_def)
qed

theorem failure_tracker_refines_offline_witness:
  "mset (failures (run_events hex_encode (\<lambda>xs. xs) demo_events (books_new None))) =
     {#templated_failure hex_encode [1] [3]
         \<lparr>template_operation = ReadSourceBlock, template_message = lit ''gone''\<rparr>,
       templated_failure hex_encode [2] [3]
         \<lparr>template_operation = ReadSourceBlock, template_message = lit ''gone''\<rparr>#}"
proof -
  have d: "distinct (remembered_blocks demo_events)"
    by (simp add: demo_events_def remembered_blocks_def map_filter_simps)
  have r: "recorded demo_events =
      [([3], \<lparr>template_operation = ReadSourceBlock, template_message = lit ''gone''\<rparr>)]"
    and s: "store_failures hex_encode demo_events = []"
    by (simp_all add: demo_events_def del: lit_simps)
  have "mset_set {[1 :: u8], [2]} = {#[1], [2]#}" by simp
  then show ?thesis
    using failure_tracker_refines_offline [OF d, of "\<lambda>xs. xs" hex_encode None]
    by (simp add: r s demo_events_roots add_mset_commute del: lit_simps)
qed

text \<open>
  The two counts of failed blocks agree. If every block whose failure is recorded is
  reached by some requested root and a store failure names at least one root, then the number
  of failed blocks in the report (distinct block ids among the failures) equals the number the
  progress counter shows while the copy runs.
\<close>

theorem failed_block_counts_agree:
  assumes once: "distinct (remembered_blocks es)" and iter: "\<And>xs. mset (iter xs) = mset xs"
    and reached: "\<And>b oper m. Fail b oper m \<in> set es \<Longrightarrow> roots_reaching es b \<noteq> {}"
    and named: "\<And>rs oper m. StoreFail rs oper m \<in> set es \<Longrightarrow> rs \<noteq> []"
    and t: "t = run_events disp iter es (books_new (Some (progress_new mode)))"
  shows "map_option (snapshot_failed \<circ> progress_snapshot_of) (progress t) =
    Some (failed_block_count (copy_report_of disp mode rs t))"
proof -
  have ok: "tracker_ok disp es t" unfolding t using once iter by (rule tracker_ok_run)
  have "failure_block_id ` set (failures t) =
      failure_block_id ` set_mset (ledger disp (roots_reaching es) (recorded es) + mset (store_failures disp es))"
    using tracker_ok_failures [OF ok] by (metis set_mset_mset)
  also have "\<dots> = disp ` fst ` set (recorded es) \<union> failure_block_id ` set (store_failures disp es)"
    using ledger_block_ids [of "recorded es" "roots_reaching es" disp] reached
      finite_roots_reaching [OF ok] by (simp add: recorded_iff image_Un)
  also have "failure_block_id ` set (store_failures disp es) =
      (if has_store_failure es then {DESTINATION_STORE_FAILURE_ID} else {})"
    by (rule store_failures_ids) (rule named)
  also have "disp ` fst ` set (recorded es) \<union> \<dots> = failed_ids disp es"
    by (rule failed_ids_split [symmetric])
  finally have "failed_block_count (copy_report_of disp mode rs t) = card (failed_ids disp es)"
    by (simp add: copy_report_of_def count_failed_blocks_def length_remdups_card_conv)
  moreover have "map_option progress_failed (progress t) = Some (card (failed_ids disp es))"
    using failed_ok_run [of disp "Some (progress_new mode)" es iter] t
    by (simp add: failed_ok_def progress_new_def)
  ultimately show ?thesis by (simp add: progress_snapshot_of_def comp_def)
qed

theorem failed_block_counts_agree_witness:
  "map_option (snapshot_failed \<circ> progress_snapshot_of)
     (progress (run_events hex_encode (\<lambda>xs. xs) demo_events (books_new (Some (progress_new BlindWrite))))) =
   Some (failed_block_count (copy_report_of hex_encode BlindWrite [[1], [2]]
     (run_events hex_encode (\<lambda>xs. xs) demo_events (books_new (Some (progress_new BlindWrite))))))"
proof (rule failed_block_counts_agree [where es = demo_events and iter = "\<lambda>xs. xs"])
  show "distinct (remembered_blocks demo_events)"
    by (simp add: demo_events_def remembered_blocks_def map_filter_simps)
  show "roots_reaching demo_events b \<noteq> {}" if "Fail b oper m \<in> set demo_events" for b oper m
    using that demo_events_roots by (auto simp: demo_events_def)
  show "rs \<noteq> []" if "StoreFail rs oper m \<in> set demo_events" for rs oper m
    using that by (simp add: demo_events_def)
qed simp_all

end
