(* ===== verification/Block_Children.thy ===== *)
theory Block_Children
  imports Copy_Failures_Laws Resolver_Laws
begin

text \<open>
  Which blocks a block refers to (\<^verbatim>\<open>block_copy.rs\<close>, \<^verbatim>\<open>decode_source_block\<close> and below): the
  children of branches, the artifacts named in the metadata of leaves, the links of replay
  journals and the mailbox of a normalized e-mail. A block whose references cannot be read is
  recorded as a failure and has no children.

  The block decoder, the CBOR reader and the derived reader of replay journals are arguments
  (\<open>copy_codec\<close>), with their errors already rendered.
\<close>

section \<open>Data\<close>

definition REPLAY_JOURNAL_BLOCK_TYPE :: rstring where
  "REPLAY_JOURNAL_BLOCK_TYPE = lit ''lexonarchivebuilder.replay-journal''"

definition REPLAY_JOURNAL_MEDIA_TYPE :: rstring where
  "REPLAY_JOURNAL_MEDIA_TYPE = lit ''application/vnd.lexonarchivebuilder.replay-journal+cbor''"

datatype replay_content_ref =
    ReplayDocument rstring
  | ReplayInline rstring bytes
  | ReplayEmailChunk rstring nat

datatype replay_record =
    ReplayInput rstring replay_content_ref
  | IndexingOutcome "rstring list" "rstring list" rstring

record replay_journal_body =
  previous_block_id :: "rstring option"
  journal_entries :: "replay_record list"

record 'v copy_codec =
  deserialize_versioned_block :: "bytes \<Rightarrow> block_hash \<Rightarrow> rstring + 'v decoded_block"
  codec_typed_block :: "'v \<Rightarrow> rstring + typed_block"
  codec_from_reader :: "bytes \<Rightarrow> rstring + cbor"
  read_replay_journal :: "bytes \<Rightarrow> rstring + replay_journal_body"

section \<open>References\<close>

fun parse_error_text :: "parse_block_hash_error \<Rightarrow> rstring" where
  "parse_error_text (ParseBlockHashError value) = lit ''failed to parse root_id '' @ value"

definition parse_block_hash_text :: "rstring \<Rightarrow> rstring + block_hash" where
  "parse_block_hash_text block_id = map_err parse_error_text (parse_block_hash block_id)"

fun payload_error_text :: "payload_error \<Rightarrow> rstring" where
  "payload_error_text ContentNotMap = lit ''custom block content must be a CBOR map''"
| "payload_error_text MissingMediaType = lit ''custom block content is missing media_type''"
| "payload_error_text MissingBody = lit ''custom block content is missing body''"

fun artifact_reference :: "cbor \<times> cbor \<Rightarrow> rstring option" where
  "artifact_reference (VText name, VText block_id) =
     (if name = lit ''email_artifact_ref'' \<or> name = lit ''mailbox_artifact_ref'' then Some block_id
      else None)"
| "artifact_reference _ = None"

definition leaf_entry_child_ids :: "leaf_entry list \<Rightarrow> rstring + block_hash list" where
  "leaf_entry_child_ids entries =
     try_map parse_block_hash_text
       (List.map_filter artifact_reference (concat (map entry_metadata entries)))"

fun record_references :: "replay_record \<Rightarrow> rstring list" where
  "record_references (ReplayInput block_id content_ref) =
     block_id # (case content_ref of ReplayEmailChunk email_artifact_ref _ \<Rightarrow> [email_artifact_ref] | _ \<Rightarrow> [])"
| "record_references (IndexingOutcome input_ids generated_ids root_id) =
     input_ids @ generated_ids @ [root_id]"

definition replay_journal_child_ids :: "'v copy_codec \<Rightarrow> custom_block \<Rightarrow> rstring + block_hash list" where
  "replay_journal_child_ids codec custom =
     and_then (map_err payload_error_text (custom_block_payload (custom_content custom))) (\<lambda>(media_type, body).
       if media_type \<noteq> REPLAY_JOURNAL_MEDIA_TYPE
       then Err (lit ''unexpected replay journal media_type '' @ media_type)
       else and_then (read_replay_journal codec body) (\<lambda>journal.
         try_map parse_block_hash_text
           ((case previous_block_id journal of None \<Rightarrow> [] | Some p \<Rightarrow> [p]) @
            concat (map record_references (journal_entries journal)))))"

definition normalized_email_artifact_child_ids ::
  "'v copy_codec \<Rightarrow> custom_block \<Rightarrow> rstring + block_hash list" where
  "normalized_email_artifact_child_ids codec custom =
     and_then (map_err payload_error_text (custom_block_payload (custom_content custom))) (\<lambda>(media_type, body).
       if media_type \<noteq> NORMALIZED_EMAIL_MEDIA_TYPE
       then Err (lit ''unexpected normalized email media_type '' @ media_type)
       else and_then (codec_from_reader codec body) (\<lambda>value.
         case value of
           VMap fs \<Rightarrow>
             and_then (ok_or (lit ''normalized email artifact body is missing mailbox_artifact_ref'')
                         (text_field (lit ''mailbox_artifact_ref'') fs)) (\<lambda>ref.
             and_then (parse_block_hash_text ref) (\<lambda>h. Ok [h]))
         | _ \<Rightarrow> Err (lit ''normalized email artifact body must decode to a CBOR map'')))"

definition custom_block_child_ids :: "'v copy_codec \<Rightarrow> custom_block \<Rightarrow> rstring + block_hash list" where
  "custom_block_child_ids codec custom =
     (if custom_type_name custom = REPLAY_JOURNAL_BLOCK_TYPE then replay_journal_child_ids codec custom
      else if custom_type_name custom = NORMALIZED_EMAIL_ARTIFACT_BLOCK_TYPE
      then normalized_email_artifact_child_ids codec custom
      else Ok [])"

section \<open>Decoding a source block\<close>

definition typed_child_ids :: "'v copy_codec \<Rightarrow> typed_block \<Rightarrow> rstring + block_hash list" where
  "typed_child_ids codec block =
     (case block of
        Branch _ children \<Rightarrow> Ok children
      | Leaf _ entries \<Rightarrow> leaf_entry_child_ids entries
      | Custom custom \<Rightarrow> custom_block_child_ids codec custom)"

definition block_child_ids :: "'v copy_codec \<Rightarrow> block_hash \<Rightarrow> bytes \<Rightarrow> rstring + block_hash list" where
  "block_child_ids codec block_id block_bytes =
     and_then (deserialize_versioned_block codec block_bytes block_id) (\<lambda>decoded.
       case decoded of
         V1 (V1Branch children) \<Rightarrow> Ok children
       | V1 (V1Leaf entries) \<Rightarrow> leaf_entry_child_ids entries
       | V2 validated \<Rightarrow> and_then (codec_typed_block codec validated) (typed_child_ids codec))"

definition decode_source_block ::
  "'v copy_codec \<Rightarrow> (block_hash \<Rightarrow> rstring) \<Rightarrow> (block_hash list \<Rightarrow> block_hash list) \<Rightarrow> block_hash
     \<Rightarrow> bytes \<Rightarrow> copy_books \<Rightarrow> copy_books \<times> block_hash list" where
  "decode_source_block codec disp iter block_id block_bytes t =
     (case block_child_ids codec block_id block_bytes of
        Inl message \<Rightarrow> (record_failure disp iter block_id DecodeSourceBlock message t, [])
      | Inr child_ids \<Rightarrow> (t, child_ids))"

section \<open>References are followed\<close>

lemma try_map_Inr_iff:
  "try_map f xs = Inr ys \<longleftrightarrow> list_all2 (\<lambda>x y. f x = Inr y) xs ys"
  by (induction xs arbitrary: ys) (auto simp: result_simps list_all2_Cons1)

lemma parse_text_iff:
  "parse_block_hash_text s = Ok h \<longleftrightarrow> length h = HASH_LEN \<and> to_ascii_lowercase s = hex_encode h"
  unfolding parse_block_hash_text_def map_err_Inr_iff by (rule tree_hash.parse_iff)

lemma try_map_parse_iff:
  "try_map parse_block_hash_text refs = Ok hs \<longleftrightarrow>
     map to_ascii_lowercase refs = map hex_encode hs \<and> (\<forall>h \<in> set hs. length h = HASH_LEN)"
  unfolding try_map_Inr_iff parse_text_iff
proof (induction refs arbitrary: hs)
  case (Cons r refs)
  then show ?case by (cases hs) auto
qed auto

lemma map_filter_append: "List.map_filter f (xs @ ys) = List.map_filter f xs @ List.map_filter f ys"
  by (simp add: map_filter_def)

lemma set_map_filter: "set (List.map_filter f xs) = {y. \<exists>x \<in> set xs. f x = Some y}"
  by (force simp: map_filter_def)

lemma metadata_references:
  assumes "distinct (map fst m)"
  shows "set (List.map_filter artifact_reference (metadata_to_lexongraph m kind p)) =
    {v. map_of m (lit ''email_artifact_ref'') = Some v \<or> map_of m (lit ''mailbox_artifact_ref'') = Some v}"
proof -
  let ?refs = "{lit ''email_artifact_ref'', lit ''mailbox_artifact_ref''}"
  have "set (List.map_filter artifact_reference (metadata_to_lexongraph m kind p)) =
      {v. \<exists>k \<in> ?refs. (k, v) \<in> set m}"
    unfolding set_map_filter metadata_to_lexongraph_def by (force split: if_splits)
  then show ?thesis using map_of_eq_Some_iff [OF assms] by (simp del: lit_simps)
qed

lemma sorted_opt_insert:
  "sorted_wrt (<) (map fst m) \<Longrightarrow> sorted_wrt (<) (map fst (opt_insert k v m))"
  by (auto simp: opt_insert_def sorted_bmap_insert split: option.splits)

lemma map_of_opt_insert:
  "map_of (opt_insert k v m) k' = (if k' = k \<and> v \<noteq> None then v else map_of m k')"
  by (auto simp: opt_insert_def map_of_bmap_insert split: option.splits)

lemma chunk_metadata_references:
  assumes "sorted_wrt (<) (map fst base)"
  shows "set (List.map_filter artifact_reference
      (item_metadata (chunk_item base p mailbox_ref email_ref a i))) = {email_ref, mailbox_ref}"
proof -
  define m1 where "m1 = bmap_insert (lit ''mailbox_artifact_ref'') mailbox_ref base"
  define m2 where "m2 = bmap_insert (lit ''email_artifact_ref'') email_ref m1"
  define m3 where "m3 = bmap_insert (lit ''mailbox_message_index'') (show_nat (art_mailbox_message_index a)) m2"
  define m4 where "m4 = bmap_insert (lit ''chunk_index'') (show_nat i) m3"
  define m5 where "m5 = bmap_insert (lit ''chunk_locator'') (email_ref @ [58] @ show_nat i) m4"
  define m6 where "m6 = opt_insert (lit ''email_name'') (art_subject a)
      (opt_insert (lit ''email_subject'') (art_subject a) m5)"
  define m7 where "m7 = opt_insert (lit ''email_from'') (art_from a) m6"
  define m8 where "m8 = opt_insert (lit ''email_recipient_context'') (art_recipient_context a) m7"
  define m9 where "m9 = opt_insert (lit ''email_date'') (art_date a) m8"
  define m10 where "m10 = opt_insert (lit ''email_message_id'') (art_message_id a) m9"
  have "sorted_wrt (<) (map fst m10)"
    unfolding m10_def m9_def m8_def m7_def m6_def m5_def m4_def m3_def m2_def m1_def
    by (intro sorted_opt_insert sorted_bmap_insert assms)
  then have d: "distinct (map fst m10)" by (rule strict_sorted_iff [THEN iffD1, THEN conjunct2])
  have "map_of m10 (lit ''email_artifact_ref'') = Some email_ref"
    by (simp add: m10_def m9_def m8_def m7_def m6_def m5_def m4_def m3_def m2_def
        map_of_opt_insert map_of_bmap_insert)
  moreover have "map_of m10 (lit ''mailbox_artifact_ref'') = Some mailbox_ref"
    by (simp add: m10_def m9_def m8_def m7_def m6_def m5_def m4_def m3_def m2_def m1_def
        map_of_opt_insert map_of_bmap_insert)
  moreover have "item_metadata (chunk_item base p mailbox_ref email_ref a i) =
      metadata_to_lexongraph m10 (lit ''email'') p"
    by (simp add: chunk_item_def build_chunk_metadata_def Let_def m10_def m9_def m8_def m7_def m6_def
        m5_def m4_def m3_def m2_def m1_def del: lit_simps)
  ultimately show ?thesis using metadata_references [OF d] by (auto simp del: lit_simps)
qed

lemma email_block_children:
  assumes c: "artifact_store_contract m r" and codec: "codec_from_reader codec = from_reader r"
    and len: "length mailbox_id = HASH_LEN"
    and ref: "art_mailbox_artifact_ref a = show_hash m mailbox_id"
    and v: "art_schema_version a = NORMALIZED_EMAIL_SCHEMA_VERSION"
    and bs: "render_normalized_email m p a = Ok bs"
  shows "custom_block_child_ids codec \<lparr>custom_type_name = NORMALIZED_EMAIL_ARTIFACT_BLOCK_TYPE,
      custom_content = artifact_content NORMALIZED_EMAIL_MEDIA_TYPE bs\<rparr> = Ok [mailbox_id]"
proof -
  obtain val where val: "canonicalize_value (encode_value m) (VMap (normalized_email_fields a)) = Ok val"
    and w: "into_writer m val = Ok bs"
    using bs by (auto simp: render_normalized_email_def result_simps)
  obtain fs where fs: "val = VMap fs"
      "text_field (lit ''mailbox_artifact_ref'') fs = Some (show_hash m mailbox_id)"
    using canonical_email_fields [OF val] v ref by (auto simp: NORMALIZED_EMAIL_SCHEMA_VERSION_def)
  have "parse_block_hash_text (show_hash m mailbox_id) = Ok mailbox_id"
    using c len by (simp add: parse_text_iff artifact_store_contract_def)
  moreover have "NORMALIZED_EMAIL_ARTIFACT_BLOCK_TYPE \<noteq> REPLAY_JOURNAL_BLOCK_TYPE"
    by (simp add: NORMALIZED_EMAIL_ARTIFACT_BLOCK_TYPE_def REPLAY_JOURNAL_BLOCK_TYPE_def)
  ultimately show ?thesis
    using contract_reads [OF c w] fs
    by (simp add: custom_block_child_ids_def normalized_email_artifact_child_ids_def text_field_artifact codec
        del: lit_simps)
qed

lemma parsed_refs_children:
  assumes "set refs = {s, t}" and "parse_block_hash_text s = Ok a" and "parse_block_hash_text t = Ok b"
  shows "\<exists>hs. try_map parse_block_hash_text refs = Ok hs \<and> set hs = {a, b}"
proof -
  let ?f = "\<lambda>x. if x = s then a else b"
  have "parse_block_hash_text x = Ok (?f x)" if "x \<in> set refs" for x
  proof (cases "x = s")
    case False
    then have "x = t" using that assms(1) by blast
    then show ?thesis using False assms(3) by simp
  qed (use assms(2) in simp)
  then have "try_map parse_block_hash_text refs = Ok (map ?f refs)" by (rule try_map_all_Inr)
  moreover have "set (map ?f refs) = {a, b}"
  proof (cases "t = s")
    case True
    then have "b = a" using assms(2,3) by simp
    then show ?thesis using True unfolding set_map assms(1) by simp
  next
    case False
    then show ?thesis unfolding set_map assms(1) by (simp add: insert_commute)
  qed
  ultimately show ?thesis by blast
qed

section \<open>Properties\<close>

text \<open>
  A rooted copy follows the references the mailbox expansion writes. A leaf entry with
  the metadata of an expanded chunk has exactly two children, the normalized e-mail and the
  mailbox, and the stored normalized e-mail has the mailbox as its only child. So no artifact
  a chunk rests on is left behind.
\<close>

theorem copy_follows_mailbox_references:
  assumes c: "artifact_store_contract m r" and codec: "codec_from_reader codec = from_reader r"
    and base: "sorted_wrt (<) (map fst base)"
    and ids: "length mailbox_id = HASH_LEN" "length email_id = HASH_LEN"
    and a: "a = normalize_email m parsed (show_hash m mailbox_id) i"
    and bs: "render_normalized_email m p a = Ok bs"
  shows "(\<exists>hs. leaf_entry_child_ids [\<lparr>entry_metadata =
            item_metadata (chunk_item base p (show_hash m mailbox_id) (show_hash m email_id) a k)\<rparr>] = Ok hs \<and>
            set hs = {email_id, mailbox_id}) \<and>
    custom_block_child_ids codec \<lparr>custom_type_name = NORMALIZED_EMAIL_ARTIFACT_BLOCK_TYPE,
      custom_content = artifact_content NORMALIZED_EMAIL_MEDIA_TYPE bs\<rparr> = Ok [mailbox_id]"
proof
  have p: "parse_block_hash_text (show_hash m h) = Ok h" if "length h = HASH_LEN" for h
    using c that by (simp add: parse_text_iff artifact_store_contract_def)
  show "\<exists>hs. leaf_entry_child_ids [\<lparr>entry_metadata =
            item_metadata (chunk_item base p (show_hash m mailbox_id) (show_hash m email_id) a k)\<rparr>] = Ok hs \<and>
            set hs = {email_id, mailbox_id}"
    unfolding leaf_entry_child_ids_def
    by (rule parsed_refs_children [OF _ p [OF ids(2)] p [OF ids(1)]])
      (simp add: chunk_metadata_references [OF base])
  show "custom_block_child_ids codec \<lparr>custom_type_name = NORMALIZED_EMAIL_ARTIFACT_BLOCK_TYPE,
      custom_content = artifact_content NORMALIZED_EMAIL_MEDIA_TYPE bs\<rparr> = Ok [mailbox_id]"
    by (rule email_block_children [OF c codec ids(1) _ _ bs]) (simp_all add: a normalize_email_def Let_def)
qed

theorem copy_follows_mailbox_references_witness:
  "(\<exists>hs. leaf_entry_child_ids [\<lparr>entry_metadata = item_metadata (chunk_item [] demo_path
            (show_hash demo_mail_lib (demo_hash 0)) (show_hash demo_mail_lib (demo_hash 1)) demo_artifact 0)\<rparr>] = Ok hs \<and>
            set hs = {demo_hash 1, demo_hash 0}) \<and>
    custom_block_child_ids \<lparr>deserialize_versioned_block = \<lambda>_ _. Err [], codec_typed_block = \<lambda>v. Ok (Custom v),
        codec_from_reader = from_reader demo_resolver_lib, read_replay_journal = \<lambda>_. Err []\<rparr>
      \<lparr>custom_type_name = NORMALIZED_EMAIL_ARTIFACT_BLOCK_TYPE,
       custom_content = artifact_content NORMALIZED_EMAIL_MEDIA_TYPE [1]\<rparr> = Ok [demo_hash 0]"
proof (rule copy_follows_mailbox_references [OF demo_contract])
  show "demo_artifact = normalize_email demo_mail_lib demo_mail (show_hash demo_mail_lib (demo_hash 0)) 0"
    using demo_normalized by (simp add: demo_mail_lib_def)
  show "render_normalized_email demo_mail_lib demo_path demo_artifact = Ok [1]"
    using demo_canonical
    by (simp add: render_normalized_email_def demo_mail_lib_def del: canonicalize_value.simps)
qed (simp_all add: demo_hash_def HASH_LEN_def)

end
