(* ===== verification/Copy_Threads.thy ===== *)
theory Copy_Threads
  imports Copy_Queues Block_Children
begin

text \<open>
  The multi-threaded rooted copy (\<^verbatim>\<open>block_copy.rs\<close>,
  \<^verbatim>\<open>copy_rooted_blocks_multi_worker_with_mode_and_limits_and_checkpoint\<close>): traversal workers,
  write workers, the interrupt poller and the thread that joins them, as a transition system.

  A thread is a program counter. One step is what it does while it holds one lock, or one call
  of a store; the steps of different threads interleave freely. A thread that waits on a
  condition variable moves again only after a \<^verbatim>\<open>notify_all\<close> on it: the second component of a
  step's result says which of the two queues notifies. Panics of a worker are not modelled.
\<close>

section \<open>Shared state\<close>

record ('d, 'v) copy_env =
  env_source :: "block_hash \<Rightarrow> block_store_error + bytes option"
  env_dest :: "'d block_destination"
  env_checkpoint_action :: "'d \<Rightarrow> 'd \<times> (block_store_error + unit)"
  env_codec :: "'v copy_codec"
  env_disp :: "block_hash \<Rightarrow> rstring"
  env_iter :: "block_hash list \<Rightarrow> block_hash list"
  env_mode :: copy_destination_mode
  env_roots :: "block_hash list"
  env_limits :: write_limits

record 'd shared =
  sh_work :: work_queue
  sh_write :: write_queue
  sh_visited :: "block_hash list"
  sh_books :: copy_books
  sh_cap :: batch_write_capability
  sh_stop :: bool
  sh_dest :: 'd

datatype notification = NoNotify | NotifyWork | NotifyWrite

section \<open>Traversal workers\<close>

datatype traversal =
    TPop
  | TPopWait
  | TNote block_hash block_hash
  | TVisit block_hash block_hash
  | TRead block_hash block_hash
  | TDecode block_hash block_hash bytes
  | TChildren block_hash block_hash bytes "block_hash list"
  | TDestination block_hash bytes
  | TEnqueue write_job
  | TEnqueueWait write_job
  | TAttempted
  | TFinish
  | TDone

definition env_record ::
  "('d, 'v) copy_env \<Rightarrow> block_hash \<Rightarrow> copy_failure_operation \<Rightarrow> rstring \<Rightarrow> 'd shared \<Rightarrow> 'd shared" where
  "env_record env block oper message sh =
     sh\<lparr>sh_books := record_failure (env_disp env) (env_iter env) block oper message (sh_books sh)\<rparr>"

definition store_error_text :: "('d, 'v) copy_env \<Rightarrow> block_store_error \<Rightarrow> rstring" where
  "store_error_text env e = show_store_error (env_dest env) e"

definition read_source_block_threaded ::
  "('d, 'v) copy_env \<Rightarrow> block_hash \<Rightarrow> 'd shared \<Rightarrow> 'd shared \<times> bytes option" where
  "read_source_block_threaded env block sh =
     (let sh1 = sh\<lparr>sh_books := note_read_source_block (sh_books sh)\<rparr> in
      case env_source env block of
        Inr (Some bs) \<Rightarrow> (sh1, Some bs)
      | Inr None \<Rightarrow> (env_record env block ReadSourceBlock (lit ''source block was not found'') sh1, None)
      | Inl e \<Rightarrow> (env_record env block ReadSourceBlock (store_error_text env e) sh1, None))"

definition decode_and_remember ::
  "('d, 'v) copy_env \<Rightarrow> block_hash \<Rightarrow> bytes \<Rightarrow> 'd shared \<Rightarrow> 'd shared \<times> block_hash list" where
  "decode_and_remember env block bs sh =
     (case decode_source_block (env_codec env) (env_disp env) (env_iter env) block bs (sh_books sh) of
        (t, child_ids) \<Rightarrow>
          (sh\<lparr>sh_books := remember_children (env_disp env) (env_iter env) block child_ids t\<rparr>, child_ids))"

definition destination_step ::
  "('d, 'v) copy_env \<Rightarrow> block_hash \<Rightarrow> bytes \<Rightarrow> 'd shared \<Rightarrow> traversal \<times> 'd shared" where
  "destination_step env block bs sh =
     (case env_mode env of
        BlindWrite \<Rightarrow>
          (TEnqueue \<lparr>job_block_id = block, job_block_bytes = bs, count_as_copied = False\<rparr>, sh)
      | ReadBeforeWrite \<Rightarrow>
          if sh_stop sh then (TFinish, sh)
          else case dest_get (env_dest env) (sh_dest sh) block of
            Inr (Some _) \<Rightarrow>
              (TFinish, sh\<lparr>sh_books := note_skipped_already_present_block (sh_books sh)\<rparr>)
          | Inr None \<Rightarrow>
              (TEnqueue \<lparr>job_block_id = block, job_block_bytes = bs, count_as_copied = True\<rparr>, sh)
          | Inl e \<Rightarrow> (TFinish, env_record env block CheckDestinationBlock (store_error_text env e) sh))"

fun traversal_step ::
  "('d, 'v) copy_env \<Rightarrow> traversal \<Rightarrow> 'd shared \<Rightarrow> (traversal \<times> notification \<times> 'd shared) option" where
  "traversal_step env TPop sh =
     (case work_pop (sh_stop sh) (sh_work sh) of
        (q, Return None) \<Rightarrow> Some (TDone, NotifyWork, sh\<lparr>sh_work := q\<rparr>)
      | (q, Return (Some (root, block))) \<Rightarrow> Some (TNote root block, NoNotify, sh\<lparr>sh_work := q\<rparr>)
      | (q, Wait) \<Rightarrow> Some (TPopWait, NoNotify, sh))"
| "traversal_step env (TNote root block) sh =
     Some (TVisit root block, NoNotify,
       sh\<lparr>sh_books := note_block_root (env_disp env) root block (sh_books sh)\<rparr>)"
| "traversal_step env (TVisit root block) sh =
     (if block \<in> set (sh_visited sh) then Some (TFinish, NoNotify, sh)
      else Some (TRead root block, NoNotify, sh\<lparr>sh_visited := hs_insert block (sh_visited sh)\<rparr>))"
| "traversal_step env (TRead root block) sh =
     (case read_source_block_threaded env block sh of
        (sh', Some bs) \<Rightarrow> Some (TDecode root block bs, NoNotify, sh')
      | (sh', None) \<Rightarrow> Some (TFinish, NoNotify, sh'))"
| "traversal_step env (TDecode root block bs) sh =
     (case decode_and_remember env block bs sh of
        (sh', child_ids) \<Rightarrow> Some (TChildren root block bs child_ids, NoNotify, sh'))"
| "traversal_step env (TChildren root block bs child_ids) sh =
     Some (TDestination block bs,
       if child_ids = [] \<or> sh_stop sh \<or> work_shutdown (sh_work sh) then NoNotify else NotifyWork,
       sh\<lparr>sh_work := work_enqueue_children (sh_stop sh) root child_ids (sh_work sh)\<rparr>)"
| "traversal_step env (TDestination block bs) sh =
     (case destination_step env block bs sh of (pc, sh') \<Rightarrow> Some (pc, NoNotify, sh'))"
| "traversal_step env (TEnqueue job) sh =
     (case write_enqueue (env_limits env) job (env_mode env) (sh_stop sh) (sh_write sh) of
        (q, Return True) \<Rightarrow>
          Some (if env_mode env = BlindWrite then TAttempted else TFinish, NotifyWrite, sh\<lparr>sh_write := q\<rparr>)
      | (q, Return False) \<Rightarrow> Some (TFinish, NoNotify, sh)
      | (q, Wait) \<Rightarrow> Some (TEnqueueWait job, NoNotify, sh))"
| "traversal_step env TAttempted sh =
     Some (TFinish, NoNotify, sh\<lparr>sh_books := note_attempted_write_block (sh_books sh)\<rparr>)"
| "traversal_step env TFinish sh =
     Some (TPop, NotifyWork, sh\<lparr>sh_work := work_finish_item (sh_stop sh) (sh_work sh)\<rparr>)"
| "traversal_step env _ sh = None"

section \<open>Write workers\<close>

datatype writer =
    WNext
  | WWait
  | WPublish "write_job list" nat
  | WRecord "write_completion list" nat nat
  | WCheckpoint
  | WFailCheckpoint
  | WDone

definition record_completion ::
  "('d, 'v) copy_env \<Rightarrow> write_completion \<Rightarrow> 'd shared \<Rightarrow> 'd shared" where
  "record_completion env c sh =
     (case completion_result c of
        Inr u \<Rightarrow>
          if completion_count_as_copied c then sh\<lparr>sh_books := note_copied_block (sh_books sh)\<rparr> else sh
      | Inl message \<Rightarrow> env_record env (completion_block_id c) WriteDestinationBlock message sh)"

fun writer_step ::
  "('d, 'v) copy_env \<Rightarrow> writer \<Rightarrow> 'd shared \<Rightarrow> (writer \<times> notification \<times> 'd shared) option" where
  "writer_step env WNext sh =
     (case write_next_action (env_limits env) (sh_stop sh) (sh_cap sh) (sh_write sh) of
        (q, cap, Return (WriteBatch jobs len)) \<Rightarrow>
          Some (WPublish jobs len, NoNotify, sh\<lparr>sh_write := q, sh_cap := cap\<rparr>)
      | (q, cap, Return RunCheckpoint) \<Rightarrow> Some (WCheckpoint, NoNotify, sh\<lparr>sh_write := q, sh_cap := cap\<rparr>)
      | (q, cap, Return Shutdown) \<Rightarrow> Some (WDone, NotifyWrite, sh\<lparr>sh_write := q, sh_cap := cap\<rparr>)
      | (q, cap, Wait) \<Rightarrow> Some (WWait, NoNotify, sh\<lparr>sh_cap := cap\<rparr>))"
| "writer_step env (WPublish jobs len) sh =
     (case publish_destination_write_batch (env_dest env) (sh_dest sh) (sh_cap sh) jobs of
        (d, cap, cs) \<Rightarrow>
          Some (WRecord cs (length jobs) len, NoNotify, sh\<lparr>sh_dest := d, sh_cap := cap\<rparr>))"
| "writer_step env (WRecord (c # cs) n len) sh =
     Some (WRecord cs n len, NoNotify, record_completion env c sh)"
| "writer_step env (WRecord [] n len) sh =
     Some (WNext, NotifyWrite, sh\<lparr>sh_write := complete_write_batch n len (sh_write sh)\<rparr>)"
| "writer_step env WCheckpoint sh =
     (case env_checkpoint_action env (sh_dest sh) of
        (d, Inr u) \<Rightarrow>
          Some (WNext, NotifyWrite, sh\<lparr>sh_dest := d, sh_write := finish_checkpoint (sh_write sh)\<rparr>)
      | (d, Inl e) \<Rightarrow>
          Some (WFailCheckpoint, NoNotify,
            sh\<lparr>sh_dest := d, sh_stop := True,
               sh_books := record_store_failure (env_disp env) (env_roots env) CompactDestinationStore
                 (store_error_text env e) (sh_books sh)\<rparr>))"
| "writer_step env WFailCheckpoint sh =
     Some (WNext, NotifyWrite, sh\<lparr>sh_write := fail_checkpoint (sh_write sh)\<rparr>)"
| "writer_step env _ sh = None"

section \<open>The joining thread and the interrupt poller\<close>

datatype joiner = JTraversals | JWriters | JDone

datatype poller = PPoll | PStopWork | PStopWrite | PDone

text \<open>
  The poller sleeps until the copy stops or an interrupt arrives; its three actions on an
  interrupt are those of \<^verbatim>\<open>request_threaded_shutdown\<close>.
\<close>

fun poller_step ::
  "bool \<Rightarrow> poller \<Rightarrow> 'd shared \<Rightarrow> (poller \<times> notification \<times> 'd shared) option" where
  "poller_step interrupted PPoll sh =
     (if sh_stop sh then Some (PDone, NoNotify, sh)
      else if interrupted then Some (PStopWork, NoNotify, sh\<lparr>sh_stop := True\<rparr>)
      else None)"
| "poller_step interrupted PStopWork sh =
     Some (PStopWrite, NotifyWork, sh\<lparr>sh_work := work_request_shutdown (sh_work sh)\<rparr>)"
| "poller_step interrupted PStopWrite sh =
     Some (PDone, NotifyWrite, sh\<lparr>sh_write := write_request_shutdown (sh_write sh)\<rparr>)"
| "poller_step interrupted PDone sh = None"

section \<open>The system\<close>

record 'd copy_system =
  shared_state :: "'d shared"
  traversals :: "traversal list"
  writers :: "writer list"
  joiner_pc :: joiner
  poller_pc :: poller

fun wake_traversal :: "notification \<Rightarrow> traversal \<Rightarrow> traversal" where
  "wake_traversal NotifyWork TPopWait = TPop"
| "wake_traversal NotifyWrite (TEnqueueWait job) = TEnqueue job"
| "wake_traversal _ pc = pc"

fun wake_writer :: "notification \<Rightarrow> writer \<Rightarrow> writer" where
  "wake_writer NotifyWrite WWait = WNext"
| "wake_writer _ pc = pc"

definition notify :: "notification \<Rightarrow> 'd copy_system \<Rightarrow> 'd copy_system" where
  "notify n s = s\<lparr>traversals := map (wake_traversal n) (traversals s),
     writers := map (wake_writer n) (writers s)\<rparr>"

definition copy_system_start ::
  "('d, 'v) copy_env \<Rightarrow> copy_progress option \<Rightarrow> nat \<Rightarrow> 'd \<Rightarrow> 'd copy_system" where
  "copy_system_start env p worker_thread_count d =
     \<lparr>shared_state = \<lparr>sh_work = work_queue_new (env_roots env), sh_write = write_queue_new,
        sh_visited = [], sh_books = books_new p, sh_cap = Unknown, sh_stop = False, sh_dest = d\<rparr>,
      traversals = replicate (max worker_thread_count 1) TPop,
      writers = replicate (writer_thread_count (env_limits env)) WNext,
      joiner_pc = JTraversals, poller_pc = PPoll\<rparr>"

inductive thread_step :: "('d, 'v) copy_env \<Rightarrow> 'd copy_system \<Rightarrow> 'd copy_system \<Rightarrow> bool"
  for env :: "('d, 'v) copy_env" where
  traversal_moves:
    "i < length (traversals s) \<Longrightarrow>
     traversal_step env (traversals s ! i) (shared_state s) = Some (pc, n, sh) \<Longrightarrow>
     thread_step env s (notify n (s\<lparr>shared_state := sh, traversals := (traversals s)[i := pc]\<rparr>))"
| writer_moves:
    "i < length (writers s) \<Longrightarrow>
     writer_step env (writers s ! i) (shared_state s) = Some (pc, n, sh) \<Longrightarrow>
     thread_step env s (notify n (s\<lparr>shared_state := sh, writers := (writers s)[i := pc]\<rparr>))"
| traversals_joined:
    "joiner_pc s = JTraversals \<Longrightarrow> \<forall>pc \<in> set (traversals s). pc = TDone \<Longrightarrow>
     sh = shared_state s \<Longrightarrow>
     thread_step env s (notify NotifyWrite (s\<lparr>joiner_pc := JWriters,
       shared_state := sh\<lparr>sh_write := finish_producing (sh_stop sh) (sh_write sh)\<rparr>\<rparr>))"
| writers_joined:
    "joiner_pc s = JWriters \<Longrightarrow> \<forall>pc \<in> set (writers s). pc = WDone \<Longrightarrow>
     sh = shared_state s \<Longrightarrow>
     thread_step env s (s\<lparr>joiner_pc := JDone, shared_state := sh\<lparr>sh_stop := True\<rparr>\<rparr>)"
| poller_moves:
    "poller_step False (poller_pc s) (shared_state s) = Some (pc, n, sh) \<Longrightarrow>
     thread_step env s (notify n (s\<lparr>shared_state := sh, poller_pc := pc\<rparr>))"

text \<open>A waiting thread may also wake up without a notification.\<close>

inductive spurious_wakeup :: "'d copy_system \<Rightarrow> 'd copy_system \<Rightarrow> bool" where
  "spurious_wakeup s (s\<lparr>traversals := (traversals s)[i := wake_traversal n (traversals s ! i)]\<rparr>)"
| "spurious_wakeup s (s\<lparr>writers := (writers s)[i := wake_writer n (writers s ! i)]\<rparr>)"

text \<open>An interrupt is an event of the environment that the poller sees.\<close>

inductive interrupt_seen :: "'d copy_system \<Rightarrow> 'd copy_system \<Rightarrow> bool" where
  "poller_step True (poller_pc s) (shared_state s) = Some (pc, n, sh) \<Longrightarrow>
   interrupt_seen s (notify n (s\<lparr>shared_state := sh, poller_pc := pc\<rparr>))"

definition copy_step :: "('d, 'v) copy_env \<Rightarrow> 'd copy_system \<Rightarrow> 'd copy_system \<Rightarrow> bool" where
  "copy_step env s t \<longleftrightarrow> thread_step env s t \<or> spurious_wakeup s t \<or> interrupt_seen s t"

text \<open>Limits are \<^verbatim>\<open>usize\<close> values; the largest one is not used as a byte limit.\<close>

definition limits_ok :: "write_limits \<Rightarrow> bool" where
  "limits_ok lim \<longleftrightarrow> (\<exists>w b c. lim = queue_limits w b c \<and> w \<le> USIZE_MAX \<and> b < USIZE_MAX)"

definition copy_started :: "('d, 'v) copy_env \<Rightarrow> 'd copy_system \<Rightarrow> bool" where
  "copy_started env s \<longleftrightarrow> limits_ok (env_limits env) \<and> (\<exists>p n d. s = copy_system_start env p n d)"

end
