(* ===== verification/Copy_Queues_Laws.thy ===== *)
theory Copy_Queues_Laws
  imports Copy_Queues
begin

text \<open>
  Laws of the write queue: its byte counter is exact, the writes in flight stay within both
  limits, a checkpoint runs alone, and no operation but a shutdown drops a job.
\<close>

section \<open>Saturating arithmetic\<close>

lemma saturating_add_exact: "a + b \<le> USIZE_MAX \<Longrightarrow> saturating_add a b = a + b"
  by (simp add: saturating_add_def)

lemma saturating_add_less: "n \<le> USIZE_MAX \<Longrightarrow> saturating_add a b < n \<longleftrightarrow> a + b < n"
  by (auto simp: saturating_add_def)

lemma saturating_add_le: "n < USIZE_MAX \<Longrightarrow> saturating_add a b \<le> n \<longleftrightarrow> a + b \<le> n"
  by (auto simp: saturating_add_def)

lemma saturating_add_0: "saturating_add a b = 0 \<longleftrightarrow> a = 0 \<and> b = 0"
  by (auto simp: saturating_add_def USIZE_MAX_def)

lemma jobs_len_simps [simp]:
  "jobs_len [] = 0" "jobs_len (j # js) = job_len j + jobs_len js"
  "jobs_len (js @ ks) = jobs_len js + jobs_len ks"
  by (simp_all add: jobs_len_def)

section \<open>Well-formed limits\<close>

definition limits_wf :: "write_limits \<Rightarrow> bool" where
  "limits_wf lim \<longleftrightarrow> 1 \<le> max_in_flight_writes lim \<and> max_in_flight_writes lim \<le> USIZE_MAX \<and>
     max_in_flight_write_bytes lim < USIZE_MAX"

lemma queue_limits_wf: "w \<le> USIZE_MAX \<Longrightarrow> b < USIZE_MAX \<Longrightarrow> limits_wf (queue_limits w b c)"
  by (auto simp: limits_wf_def queue_limits_def)

section \<open>Filling a batch\<close>

lemma fill_batch_moves:
  assumes "fill_batch mb target jobs len queued q = (jobs', len', queued', q')"
  shows "\<exists>moved. q = moved @ q' \<and> jobs' = jobs @ moved \<and> len' = len + jobs_len moved \<and>
    queued' = queued - jobs_len moved"
  using assms
proof (induction mb target jobs len queued q rule: fill_batch.induct)
  case (2 mb target jobs len queued j q)
  show ?case
  proof (cases "length jobs < target \<and> \<not> (mb > 0 \<and> jobs \<noteq> [] \<and> saturating_add len (job_len j) > mb)")
    case True
    then have "fill_batch mb target (jobs @ [j]) (len + job_len j) (queued - job_len j) q =
        (jobs', len', queued', q')"
      using 2(2) by auto
    from 2(1) [OF _ _ this] True obtain moved where "q = moved @ q'" "jobs' = (jobs @ [j]) @ moved"
      "len' = len + job_len j + jobs_len moved" "queued' = queued - job_len j - jobs_len moved"
      by auto
    then show ?thesis by (intro exI [of _ "j # moved"]) simp
  next
    case False
    then have "(jobs', len', queued', q') = (jobs, len, queued, j # q)"
      using 2(2) by (auto split: if_splits)
    then show ?thesis by simp
  qed
qed simp

lemma fill_batch_bounds:
  assumes "fill_batch mb target jobs len queued q = (jobs', len', queued', q')"
    and "length jobs \<le> target" and "mb < USIZE_MAX" and "mb > 0 \<Longrightarrow> len \<le> mb \<or> length jobs = 1"
    and "jobs \<noteq> []"
  shows "length jobs' \<le> target \<and> (mb > 0 \<longrightarrow> len' \<le> mb \<or> length jobs' = 1)"
  using assms
proof (induction mb target jobs len queued q rule: fill_batch.induct)
  case (2 mb target jobs len queued j q)
  show ?case
  proof (cases "length jobs < target \<and> \<not> (mb > 0 \<and> jobs \<noteq> [] \<and> saturating_add len (job_len j) > mb)")
    case True
    then have "fill_batch mb target (jobs @ [j]) (len + job_len j) (queued - job_len j) q =
        (jobs', len', queued', q')"
      using 2(2) by auto
    moreover have "mb > 0 \<Longrightarrow> len + job_len j \<le> mb"
      using True 2(4,6) saturating_add_le [of mb len "job_len j"] by auto
    ultimately show ?thesis using True 2(1,4) by simp
  next
    case False
    then have "(jobs', len', queued', q') = (jobs, len, queued, j # q)"
      using 2(2) by (auto split: if_splits)
    then show ?thesis using 2(3-) by simp
  qed
qed simp

section \<open>The invariant of the write queue\<close>

definition write_queue_ok :: "write_limits \<Rightarrow> write_queue \<Rightarrow> bool" where
  "write_queue_ok lim q \<longleftrightarrow>
     queued_write_bytes q = jobs_len (write_items q) \<and>
     length (write_items q) + active_writes q \<le> max_in_flight_writes lim \<and>
     (max_in_flight_write_bytes lim > 0 \<longrightarrow>
        queued_write_bytes q + active_write_bytes q \<le> max_in_flight_write_bytes lim \<or>
        length (write_items q) + active_writes q \<le> 1) \<and>
     (active_writes q = 0 \<longrightarrow> active_write_bytes q = 0) \<and>
     (checkpoint_running q \<longrightarrow> write_items q = [] \<and> active_writes q = 0 \<and> \<not> checkpoint_pending q)"

lemma write_queue_new_ok: "write_queue_ok lim write_queue_new"
  by (simp add: write_queue_ok_def write_queue_new_def)

lemma count_attempt_frame [simp]:
  "write_items (count_attempt lim mode q) = write_items q"
  "queued_write_bytes (count_attempt lim mode q) = queued_write_bytes q"
  "active_writes (count_attempt lim mode q) = active_writes q"
  "active_write_bytes (count_attempt lim mode q) = active_write_bytes q"
  "checkpoint_running (count_attempt lim mode q) = checkpoint_running q"
  "producers_finished (count_attempt lim mode q) = producers_finished q"
  "write_shutdown (count_attempt lim mode q) = write_shutdown q"
  by (simp_all add: count_attempt_def Let_def split: option.splits)

lemma write_enqueue_Return:
  assumes "write_enqueue lim job mode stop q = (q', Return b)"
  shows "b \<and> \<not> write_shutdown q \<and> \<not> stop \<and> \<not> enqueue_blocked lim job q \<and>
      write_items q' = write_items q @ [job] \<and>
      queued_write_bytes q' = queued_write_bytes q + job_len job \<and>
      active_writes q' = active_writes q \<and> active_write_bytes q' = active_write_bytes q \<and>
      checkpoint_running q' = checkpoint_running q \<and> producers_finished q' = producers_finished q \<and>
      write_shutdown q' = write_shutdown q
    \<or> \<not> b \<and> q' = q \<and> (write_shutdown q \<or> stop)"
  using assms by (auto simp: write_enqueue_def Let_def split: if_splits)

lemma write_enqueue_Wait:
  "write_enqueue lim job mode stop q = (q', Wait) \<Longrightarrow>
     q' = q \<and> \<not> write_shutdown q \<and> enqueue_blocked lim job q"
  by (auto simp: write_enqueue_def Let_def split: if_splits)

lemma write_enqueue_ok:
  assumes lim: "limits_wf lim" and ok: "write_queue_ok lim q"
    and e: "write_enqueue lim job mode stop q = (q', Return b)"
  shows "write_queue_ok lim q'"
proof (cases b)
  case True
  note E = write_enqueue_Return [OF e]
  have nb: "\<not> enqueue_blocked lim job q" and i: "write_items q' = write_items q @ [job]"
    and eqs: "queued_write_bytes q' = queued_write_bytes q + job_len job"
      "active_writes q' = active_writes q" "active_write_bytes q' = active_write_bytes q"
      "checkpoint_running q' = checkpoint_running q"
    using E True by simp_all
  have fl: "length (write_items q) + active_writes q < max_in_flight_writes lim"
    using nb lim saturating_add_less [of "max_in_flight_writes lim"]
    by (auto simp: enqueue_blocked_def in_flight_writes_def limits_wf_def not_le)
  have bytes: "queued_write_bytes q + active_write_bytes q + job_len job \<le> max_in_flight_write_bytes lim"
    if pos: "max_in_flight_write_bytes lim > 0" "length (write_items q) + active_writes q > 0"
  proof -
    let ?m = "max_in_flight_write_bytes lim"
    have m: "?m < USIZE_MAX" using lim by (simp add: limits_wf_def)
    have "in_flight_writes q > 0"
      using pos(2) saturating_add_0 [of "length (write_items q)" "active_writes q"]
      by (auto simp: in_flight_writes_def)
    then have "saturating_add (saturating_add (queued_write_bytes q) (active_write_bytes q)) (job_len job) \<le> ?m"
      using nb pos(1) by (auto simp: enqueue_blocked_def not_less)
    then have "saturating_add (queued_write_bytes q) (active_write_bytes q) + job_len job \<le> ?m"
      using saturating_add_le [OF m] by blast
    then show ?thesis
      using saturating_add_le [OF m, of "queued_write_bytes q" "active_write_bytes q"] m
      by (auto simp: saturating_add_def split: if_splits)
  qed
  have running: "\<not> checkpoint_running q" using nb by (auto simp: enqueue_blocked_def)
  show ?thesis
    unfolding write_queue_ok_def i eqs using ok fl bytes running
    by (cases "length (write_items q) + active_writes q > 0") (auto simp: write_queue_ok_def)
next
  case False
  then show ?thesis using write_enqueue_Return [OF e] ok by simp
qed

lemma next_action_Wait:
  assumes "write_next_action lim stop cap q = (q', cap', Wait)"
  shows "q' = q \<and> (active_writes q > 0 \<or> checkpoint_running q \<or>
    write_items q = [] \<and> \<not> checkpoint_pending q \<and> \<not> producers_finished q \<and> \<not> write_shutdown q)"
  using assms by (auto simp: write_next_action_def split: if_splits list.splits prod.splits)

lemma next_action_Checkpoint:
  assumes "write_next_action lim stop cap q = (q', cap', Return RunCheckpoint)"
  shows "q' = q\<lparr>checkpoint_pending := False, checkpoint_running := True\<rparr> \<and> write_items q = [] \<and>
    checkpoint_pending q \<and> \<not> checkpoint_running q \<and> active_writes q = 0"
  using assms by (auto simp: write_next_action_def split: if_splits list.splits prod.splits)

lemma next_action_Shutdown:
  assumes "write_next_action lim stop cap q = (q', cap', Return Shutdown)"
  shows "q' = q\<lparr>write_shutdown := True\<rparr> \<and> write_items q = [] \<and> active_writes q = 0 \<and>
    \<not> checkpoint_running q \<and> (producers_finished q \<or> write_shutdown q \<or> stop)"
  using assms by (auto simp: write_next_action_def split: if_splits list.splits prod.splits)

lemma next_action_Batch:
  assumes "write_next_action lim stop cap q = (q', cap', Return (WriteBatch jobs len))"
  shows "\<exists>rest. write_items q = jobs @ rest \<and> jobs \<noteq> [] \<and> len = jobs_len jobs \<and>
    q' = q\<lparr>write_items := rest, queued_write_bytes := queued_write_bytes q - jobs_len jobs,
           active_writes := active_writes q + length jobs,
           active_write_bytes := active_write_bytes q + jobs_len jobs\<rparr>"
proof -
  obtain cap1 target where t: "target_batch_len lim cap (length (write_items q)) = (cap1, target)"
    by fastforce
  obtain first rest where i: "write_items q = first # rest"
    using assms t by (auto simp: write_next_action_def split: if_splits list.splits)
  obtain jobs' len' queued' rest' where f: "fill_batch (max_in_flight_write_bytes lim) target [first]
      (job_len first) (queued_write_bytes q - job_len first) rest = (jobs', len', queued', rest')"
    by (metis prod_cases4)
  have eq: "jobs = jobs'" "len = len'" "q' = q\<lparr>write_items := rest', queued_write_bytes := queued',
      active_writes := active_writes q + length jobs', active_write_bytes := active_write_bytes q + len'\<rparr>"
    using assms t i f by (auto simp: write_next_action_def split: if_splits)
  obtain moved where "rest = moved @ rest'" "jobs' = [first] @ moved" "len' = job_len first + jobs_len moved"
    "queued' = queued_write_bytes q - job_len first - jobs_len moved"
    using fill_batch_moves [OF f] by blast
  then show ?thesis using eq i by simp
qed

lemma next_action_ok:
  assumes ok: "write_queue_ok lim q"
    and n: "write_next_action lim stop cap q = (q', cap', Return a)"
  shows "write_queue_ok lim q'"
proof (cases a)
  case (WriteBatch jobs len)
  obtain rest where "write_items q = jobs @ rest" "jobs \<noteq> []"
    "q' = q\<lparr>write_items := rest, queued_write_bytes := queued_write_bytes q - jobs_len jobs,
       active_writes := active_writes q + length jobs,
       active_write_bytes := active_write_bytes q + jobs_len jobs\<rparr>"
    using next_action_Batch n WriteBatch by blast
  then show ?thesis using ok by (auto simp: write_queue_ok_def)
next
  case RunCheckpoint
  show ?thesis using next_action_Checkpoint [OF n [unfolded RunCheckpoint]] ok by (auto simp: write_queue_ok_def)
next
  case Shutdown
  show ?thesis using next_action_Shutdown [OF n [unfolded Shutdown]] ok by (auto simp: write_queue_ok_def)
qed

lemma complete_write_batch_ok:
  assumes "write_queue_ok lim q" and "active_writes q = n \<Longrightarrow> active_write_bytes q \<le> len" and "n \<le> active_writes q"
  shows "write_queue_ok lim (complete_write_batch n len q)"
  using assms by (auto simp: write_queue_ok_def complete_write_batch_def)

lemma write_end_ok:
  assumes "write_queue_ok lim q"
  shows "write_queue_ok lim (finish_checkpoint q)" "write_queue_ok lim (fail_checkpoint q)"
    "write_queue_ok lim (finish_producing stop q)" "write_queue_ok lim (write_request_shutdown q)"
  using assms by (auto simp: write_queue_ok_def finish_checkpoint_def fail_checkpoint_def
      finish_producing_def write_request_shutdown_def Let_def)

end
