(* ===== verification/Copy_Threads_Laws.thy ===== *)
theory Copy_Threads_Laws
  imports Copy_Threads Copy_Queues_Laws
begin

text \<open>
  Laws of the multi-threaded copy: the counters of both queues agree with what the threads
  hold, the limits and the exclusion of checkpoints hold in every reachable state, and no
  reachable state is a deadlock (in particular no wake-up is lost).
\<close>

section \<open>What the threads hold\<close>

fun holds_item :: "traversal \<Rightarrow> nat" where
  "holds_item TPop = 0"
| "holds_item TPopWait = 0"
| "holds_item TDone = 0"
| "holds_item _ = 1"

fun writer_jobs :: "writer \<Rightarrow> nat" where
  "writer_jobs (WPublish jobs len) = length jobs"
| "writer_jobs (WRecord cs n len) = n"
| "writer_jobs _ = 0"

fun writer_bytes :: "writer \<Rightarrow> nat" where
  "writer_bytes (WPublish jobs len) = len"
| "writer_bytes (WRecord cs n len) = len"
| "writer_bytes _ = 0"

fun writer_checkpoint :: "writer \<Rightarrow> nat" where
  "writer_checkpoint WCheckpoint = 1"
| "writer_checkpoint WFailCheckpoint = 1"
| "writer_checkpoint _ = 0"

definition total_over :: "('a \<Rightarrow> nat) \<Rightarrow> 'a list \<Rightarrow> nat" where
  "total_over f xs = sum_list (map f xs)"

lemma total_over_update:
  "i < length xs \<Longrightarrow> total_over f (xs[i := y]) + f (xs ! i) = total_over f xs + f y"
  unfolding total_over_def
proof (induction xs arbitrary: i)
  case (Cons x xs)
  then show ?case by (cases i) auto
qed simp

lemma total_over_member: "x \<in> set xs \<Longrightarrow> f x \<le> total_over f xs"
  unfolding total_over_def by (induction xs) auto

lemma total_over_zero: "total_over f xs = 0 \<longleftrightarrow> (\<forall>x \<in> set xs. f x = 0)"
  unfolding total_over_def by (induction xs) auto

lemma total_over_map: "(\<And>x. f (g x) = f x) \<Longrightarrow> total_over f (map g xs) = total_over f xs"
  unfolding total_over_def by (induction xs) auto

lemma total_over_only:
  assumes "i < length xs" and "total_over f xs = f (xs ! i)" and "\<And>x. x \<in> set xs \<Longrightarrow> f x = 0 \<Longrightarrow> g x = 0"
  shows "total_over g xs = g (xs ! i)"
  using assms
proof (induction xs arbitrary: i)
  case (Cons x xs)
  show ?case
  proof (cases i)
    case 0
    then have "total_over f xs = 0" using Cons.prems(2) by (simp add: total_over_def)
    then have "total_over g xs = 0" using Cons.prems(3) by (simp add: total_over_zero)
    then show ?thesis using 0 by (simp add: total_over_def)
  next
    case (Suc j)
    have "f (xs ! j) \<le> total_over f xs" using Cons.prems(1) Suc by (intro total_over_member) simp
    then have z: "f x = 0" "total_over f xs = f (xs ! j)"
      using Cons.prems(2) Suc by (simp_all add: total_over_def)
    have "total_over g xs = g (xs ! j)" by (rule Cons.IH) (use Cons.prems z Suc in auto)
    then show ?thesis using z(1) Cons.prems(3) [of x] Suc by (simp add: total_over_def)
  qed
qed simp

lemma total_over_replicate: "total_over f (replicate k x) = k * f x"
  by (simp add: total_over_def sum_list_replicate)

lemma holds_wake [simp]: "holds_item (wake_traversal n pc) = holds_item pc"
  by (cases "(n, pc)" rule: wake_traversal.cases) auto

lemma writer_wake [simp]:
  "writer_jobs (wake_writer n pc) = writer_jobs pc"
  "writer_bytes (wake_writer n pc) = writer_bytes pc"
  "writer_checkpoint (wake_writer n pc) = writer_checkpoint pc"
  by (cases "(n, pc)" rule: wake_writer.cases; auto)+

fun writer_ok :: "writer \<Rightarrow> bool" where
  "writer_ok (WPublish jobs len) = (jobs \<noteq> [])"
| "writer_ok (WRecord cs n len) = (n > 0)"
| "writer_ok _ = True"

lemma writer_ok_wake [simp]: "writer_ok (wake_writer n pc) = writer_ok pc"
  by (cases "(n, pc)" rule: wake_writer.cases) auto

lemma writer_ok_bytes: "writer_ok w \<Longrightarrow> writer_jobs w = 0 \<Longrightarrow> writer_bytes w = 0"
  by (cases w) auto

section \<open>Counting, step by step\<close>

lemma env_record_frame [simp]:
  "sh_work (env_record env b oper m sh) = sh_work sh" "sh_write (env_record env b oper m sh) = sh_write sh"
  "sh_stop (env_record env b oper m sh) = sh_stop sh" "sh_dest (env_record env b oper m sh) = sh_dest sh"
  "sh_visited (env_record env b oper m sh) = sh_visited sh" "sh_cap (env_record env b oper m sh) = sh_cap sh"
  by (simp_all add: env_record_def)

lemma record_completion_frame [simp]:
  "sh_work (record_completion env c sh) = sh_work sh" "sh_write (record_completion env c sh) = sh_write sh"
  "sh_stop (record_completion env c sh) = sh_stop sh" "sh_dest (record_completion env c sh) = sh_dest sh"
  "sh_visited (record_completion env c sh) = sh_visited sh" "sh_cap (record_completion env c sh) = sh_cap sh"
  by (simp_all add: record_completion_def split: sum.splits)

lemma read_source_frame:
  assumes "read_source_block_threaded env b sh = (sh', r)"
  shows "sh_work sh' = sh_work sh \<and> sh_write sh' = sh_write sh \<and> sh_stop sh' = sh_stop sh \<and>
    sh_dest sh' = sh_dest sh \<and> sh_visited sh' = sh_visited sh \<and> sh_cap sh' = sh_cap sh"
  using assms by (auto simp: read_source_block_threaded_def Let_def split: sum.splits option.splits)

lemma decode_and_remember_frame:
  assumes "decode_and_remember env b bs sh = (sh', r)"
  shows "sh_work sh' = sh_work sh \<and> sh_write sh' = sh_write sh \<and> sh_stop sh' = sh_stop sh \<and>
    sh_dest sh' = sh_dest sh \<and> sh_visited sh' = sh_visited sh \<and> sh_cap sh' = sh_cap sh"
  using assms by (auto simp: decode_and_remember_def split: prod.splits)

lemma destination_step_frame:
  assumes "destination_step env b bs sh = (pc, sh')"
  shows "sh_work sh' = sh_work sh \<and> sh_write sh' = sh_write sh \<and> sh_stop sh' = sh_stop sh \<and>
    sh_dest sh' = sh_dest sh \<and> sh_visited sh' = sh_visited sh \<and> sh_cap sh' = sh_cap sh \<and>
    (pc = TFinish \<or> (\<exists>job. pc = TEnqueue job))"
  using assms
  by (auto simp: destination_step_def split: copy_destination_mode.splits sum.splits option.splits if_splits)

definition same_writes :: "write_queue \<Rightarrow> write_queue \<Rightarrow> bool" where
  "same_writes q q' \<longleftrightarrow> active_writes q' = active_writes q \<and> active_write_bytes q' = active_write_bytes q \<and>
     checkpoint_running q' = checkpoint_running q"

lemma same_writes_refl [simp]: "same_writes q q"
  by (simp add: same_writes_def)

lemma traversal_step_counts:
  assumes step: "traversal_step env pc sh = Some (pc', n, sh')"
    and lim: "limits_wf (env_limits env)" and ok: "write_queue_ok (env_limits env) (sh_write sh)"
    and held: "holds_item pc \<le> active_workers (sh_work sh)"
  shows "active_workers (sh_work sh') + holds_item pc = active_workers (sh_work sh) + holds_item pc' \<and>
    write_queue_ok (env_limits env) (sh_write sh') \<and> same_writes (sh_write sh) (sh_write sh')"
proof (cases pc)
  case TPop
  then show ?thesis using step ok
    by (auto simp: work_pop_def split: if_splits list.splits)
next
  case (TVisit root block)
  then show ?thesis using step ok by (auto split: if_splits)
next
  case (TRead root block)
  obtain sh1 r where rd: "read_source_block_threaded env block sh = (sh1, r)" by fastforce
  show ?thesis using step ok TRead rd read_source_frame [OF rd] by (cases r) auto
next
  case (TDecode root block bs)
  obtain sh1 r where rd: "decode_and_remember env block bs sh = (sh1, r)" by fastforce
  show ?thesis using step ok TDecode rd decode_and_remember_frame [OF rd] by auto
next
  case (TChildren root block bs cs)
  then show ?thesis using step ok by (auto simp: work_enqueue_children_def)
next
  case (TDestination block bs)
  obtain pc1 sh1 where rd: "destination_step env block bs sh = (pc1, sh1)" by fastforce
  show ?thesis using step ok TDestination rd destination_step_frame [OF rd] by auto
next
  case (TEnqueue job)
  obtain q r where e: "write_enqueue (env_limits env) job (env_mode env) (sh_stop sh) (sh_write sh) = (q, r)"
    by fastforce
  show ?thesis
  proof (cases r)
    case (Return b)
    have "write_queue_ok (env_limits env) q" "same_writes (sh_write sh) q"
      using write_enqueue_ok [OF lim ok e [unfolded Return]] write_enqueue_Return [OF e [unfolded Return]]
      by (auto simp: same_writes_def)
    then show ?thesis using step e Return TEnqueue ok by (cases b) auto
  next
    case Wait
    then show ?thesis using step e TEnqueue ok by auto
  qed
next
  case TFinish
  then show ?thesis using step ok held by (auto simp: work_finish_item_def Let_def)
qed (use step ok in auto)

lemma writer_step_counts:
  assumes step: "writer_step env pc sh = Some (pc', n, sh')"
    and ok: "write_queue_ok (env_limits env) (sh_write sh)" and pc: "writer_ok pc"
    and held: "writer_jobs pc \<le> active_writes (sh_write sh)" "writer_bytes pc \<le> active_write_bytes (sh_write sh)"
      "writer_checkpoint pc \<le> of_bool (checkpoint_running (sh_write sh))"
      "active_writes (sh_write sh) = writer_jobs pc \<Longrightarrow> active_write_bytes (sh_write sh) = writer_bytes pc"
  shows "active_writes (sh_write sh') + writer_jobs pc = active_writes (sh_write sh) + writer_jobs pc' \<and>
    active_write_bytes (sh_write sh') + writer_bytes pc = active_write_bytes (sh_write sh) + writer_bytes pc' \<and>
    of_bool (checkpoint_running (sh_write sh')) + writer_checkpoint pc =
      of_bool (checkpoint_running (sh_write sh)) + writer_checkpoint pc' \<and>
    write_queue_ok (env_limits env) (sh_write sh') \<and> sh_work sh' = sh_work sh \<and> writer_ok pc'"
proof (cases pc)
  case WNext
  obtain q cap r where a: "write_next_action (env_limits env) (sh_stop sh) (sh_cap sh) (sh_write sh) = (q, cap, r)"
    by (metis prod_cases3)
  show ?thesis
  proof (cases r)
    case (Return act)
    then have okq: "write_queue_ok (env_limits env) q" using next_action_ok [OF ok] a by blast
    show ?thesis
    proof (cases act)
      case (WriteBatch jobs len)
      then show ?thesis using step WNext a Return okq next_action_Batch [of "env_limits env"] by fastforce
    next
      case RunCheckpoint
      then show ?thesis using step WNext a Return okq next_action_Checkpoint [of "env_limits env"] by fastforce
    next
      case Shutdown
      then show ?thesis using step WNext a Return okq next_action_Shutdown [of "env_limits env"] by fastforce
    qed
  next
    case Wait
    then show ?thesis using step WNext a ok by auto
  qed
next
  case (WPublish jobs len)
  then show ?thesis using step ok pc by (auto split: prod.splits)
next
  case (WRecord cs k len)
  show ?thesis
  proof (cases cs)
    case Nil
    have "write_queue_ok (env_limits env) (complete_write_batch k len (sh_write sh))"
      by (rule complete_write_batch_ok [OF ok]) (use held WRecord in auto)
    then show ?thesis using step WRecord Nil held by (auto simp: complete_write_batch_def)
  next
    case (Cons c cs')
    then show ?thesis using step WRecord ok pc by auto
  qed
next
  case WCheckpoint
  then have "checkpoint_running (sh_write sh)" using held(3) by (auto simp: of_bool_def split: if_splits)
  then show ?thesis using step ok WCheckpoint write_end_ok [OF ok]
    by (auto simp: finish_checkpoint_def split: prod.splits sum.splits)
next
  case WFailCheckpoint
  then have "checkpoint_running (sh_write sh)" using held(3) by (auto simp: of_bool_def split: if_splits)
  then show ?thesis using step ok WFailCheckpoint write_end_ok [OF ok] by (auto simp: fail_checkpoint_def)
qed (use step in auto)

section \<open>The counting invariant\<close>

definition counts_ok :: "('d, 'v) copy_env \<Rightarrow> 'd shared \<Rightarrow> traversal list \<Rightarrow> writer list \<Rightarrow> bool" where
  "counts_ok env sh ts ws \<longleftrightarrow>
     active_workers (sh_work sh) = total_over holds_item ts \<and>
     active_writes (sh_write sh) = total_over writer_jobs ws \<and>
     active_write_bytes (sh_write sh) = total_over writer_bytes ws \<and>
     of_bool (checkpoint_running (sh_write sh)) = total_over writer_checkpoint ws \<and>
     write_queue_ok (env_limits env) (sh_write sh) \<and> (\<forall>w \<in> set ws. writer_ok w)"

lemma counts_ok_wake:
  "counts_ok env sh (map (wake_traversal n) ts) (map (wake_writer n) ws) \<longleftrightarrow> counts_ok env sh ts ws"
  by (simp add: counts_ok_def total_over_map)

lemma counts_ok_cong:
  "sh_work sh' = sh_work sh \<Longrightarrow> sh_write sh' = sh_write sh \<Longrightarrow>
     counts_ok env sh' ts ws \<longleftrightarrow> counts_ok env sh ts ws"
  by (simp add: counts_ok_def)

lemma counts_ok_traversal:
  assumes lim: "limits_wf (env_limits env)" and ok: "counts_ok env sh ts ws" and i: "i < length ts"
    and step: "traversal_step env (ts ! i) sh = Some (pc, n, sh')"
  shows "counts_ok env sh' (ts[i := pc]) ws"
proof -
  have "holds_item (ts ! i) \<le> active_workers (sh_work sh)"
    using ok total_over_member [of "ts ! i" ts holds_item] i by (simp add: counts_ok_def)
  from traversal_step_counts [OF step lim _ this] ok
  have c: "active_workers (sh_work sh') + holds_item (ts ! i) = active_workers (sh_work sh) + holds_item pc"
    "write_queue_ok (env_limits env) (sh_write sh')" "same_writes (sh_write sh) (sh_write sh')"
    by (simp_all add: counts_ok_def)
  then show ?thesis using ok total_over_update [OF i, of holds_item pc]
    by (simp add: counts_ok_def same_writes_def)
qed

lemma counts_ok_writer:
  assumes ok: "counts_ok env sh ts ws" and i: "i < length ws"
    and step: "writer_step env (ws ! i) sh = Some (pc, n, sh')"
  shows "counts_ok env sh' ts (ws[i := pc])"
proof -
  let ?w = "ws ! i"
  have w: "?w \<in> set ws" using i by simp
  have held: "writer_jobs ?w \<le> active_writes (sh_write sh)" "writer_bytes ?w \<le> active_write_bytes (sh_write sh)"
      "writer_checkpoint ?w \<le> of_bool (checkpoint_running (sh_write sh))"
    using ok total_over_member [OF w] by (auto simp: counts_ok_def)
  have alone: "active_write_bytes (sh_write sh) = writer_bytes ?w"
    if "active_writes (sh_write sh) = writer_jobs ?w"
  proof -
    have "total_over writer_bytes ws = writer_bytes ?w"
      by (rule total_over_only [OF i, where f = writer_jobs]) (use ok that writer_ok_bytes in \<open>auto simp: counts_ok_def\<close>)
    then show ?thesis using ok by (simp add: counts_ok_def)
  qed
  have "write_queue_ok (env_limits env) (sh_write sh)" "writer_ok ?w"
    using ok w by (simp_all add: counts_ok_def)
  note c = writer_step_counts [OF step this held alone]
  have "\<forall>w \<in> set (ws[i := pc]). writer_ok w"
    using c ok set_update_subset_insert [of ws i pc] by (auto simp: counts_ok_def)
  then show ?thesis
    using c ok total_over_update [OF i, of writer_jobs pc] total_over_update [OF i, of writer_bytes pc]
      total_over_update [OF i, of writer_checkpoint pc]
    by (simp add: counts_ok_def)
qed

section \<open>The waiting invariant\<close>

text \<open>Why a write worker may rest: someone will notify it, or there is nothing to do yet.\<close>

definition writer_may_wait :: "write_queue \<Rightarrow> bool" where
  "writer_may_wait q \<longleftrightarrow> active_writes q > 0 \<or> checkpoint_running q \<or>
     write_items q = [] \<and> \<not> checkpoint_pending q \<and> \<not> producers_finished q \<and> \<not> write_shutdown q"

definition waits_ok :: "('d, 'v) copy_env \<Rightarrow> 'd shared \<Rightarrow> traversal list \<Rightarrow> writer list \<Rightarrow> joiner \<Rightarrow> bool" where
  "waits_ok env sh ts ws j \<longleftrightarrow>
     (TPopWait \<in> set ts \<longrightarrow> work_items (sh_work sh) = [] \<and> active_workers (sh_work sh) > 0) \<and>
     (\<forall>job. TEnqueueWait job \<in> set ts \<longrightarrow>
        enqueue_blocked (env_limits env) job (sh_write sh) \<and> \<not> write_shutdown (sh_write sh)) \<and>
     (WWait \<in> set ws \<longrightarrow> writer_may_wait (sh_write sh)) \<and>
     (WDone \<in> set ws \<longrightarrow> write_shutdown (sh_write sh)) \<and>
     (j \<noteq> JTraversals \<longrightarrow> (\<forall>pc \<in> set ts. pc = TDone) \<and> producers_finished (sh_write sh)) \<and>
     (j = JDone \<longrightarrow> (\<forall>pc \<in> set ws. pc = WDone) \<and> sh_stop sh) \<and> ws \<noteq> []"

lemma wait_wake_iff [simp]:
  "TPopWait \<in> wake_traversal n ` A \<longleftrightarrow> TPopWait \<in> A \<and> n \<noteq> NotifyWork"
  "TEnqueueWait job \<in> wake_traversal n ` A \<longleftrightarrow> TEnqueueWait job \<in> A \<and> n \<noteq> NotifyWrite"
  "WWait \<in> wake_writer n ` B \<longleftrightarrow> WWait \<in> B \<and> n \<noteq> NotifyWrite"
  "WDone \<in> wake_writer n ` B \<longleftrightarrow> WDone \<in> B"
proof -
  have t: "wake_traversal n pc = TPopWait \<longleftrightarrow> pc = TPopWait \<and> n \<noteq> NotifyWork"
    "wake_traversal n pc = TEnqueueWait job \<longleftrightarrow> pc = TEnqueueWait job \<and> n \<noteq> NotifyWrite" for pc
    by (cases "(n, pc)" rule: wake_traversal.cases; auto)+
  have w: "wake_writer n pc = WWait \<longleftrightarrow> pc = WWait \<and> n \<noteq> NotifyWrite"
    "wake_writer n pc = WDone \<longleftrightarrow> pc = WDone" for pc
    by (cases "(n, pc)" rule: wake_writer.cases; auto)+
  show "TPopWait \<in> wake_traversal n ` A \<longleftrightarrow> TPopWait \<in> A \<and> n \<noteq> NotifyWork"
    "TEnqueueWait job \<in> wake_traversal n ` A \<longleftrightarrow> TEnqueueWait job \<in> A \<and> n \<noteq> NotifyWrite"
    "WWait \<in> wake_writer n ` B \<longleftrightarrow> WWait \<in> B \<and> n \<noteq> NotifyWrite"
    "WDone \<in> wake_writer n ` B \<longleftrightarrow> WDone \<in> B"
    unfolding image_iff by (metis t w)+
qed

lemma wake_done [simp]:
  "wake_traversal n TDone = TDone" "wake_writer n WDone = WDone"
  by (cases n; simp)+

lemma traversal_step_quiet:
  assumes step: "traversal_step env pc sh = Some (pc', n, sh')"
  shows "(n \<noteq> NotifyWrite \<longrightarrow> sh_write sh' = sh_write sh) \<and>
    (n \<noteq> NotifyWork \<longrightarrow> work_items (sh_work sh) = [] \<and> active_workers (sh_work sh) > 0 \<longrightarrow>
       work_items (sh_work sh') = [] \<and> active_workers (sh_work sh') > 0) \<and>
    (write_shutdown (sh_write sh') = write_shutdown (sh_write sh)) \<and>
    sh_stop sh' = sh_stop sh \<and>
    (pc' = TPopWait \<longrightarrow> n = NoNotify \<and> work_items (sh_work sh') = [] \<and> active_workers (sh_work sh') > 0) \<and>
    (\<forall>job. pc' = TEnqueueWait job \<longrightarrow>
       enqueue_blocked (env_limits env) job (sh_write sh') \<and> \<not> write_shutdown (sh_write sh'))"
proof (cases pc)
  case TPop
  then show ?thesis using step by (auto simp: work_pop_def split: if_splits list.splits)
next
  case (TVisit root block)
  then show ?thesis using step by (auto split: if_splits)
next
  case (TRead root block)
  obtain sh1 r where rd: "read_source_block_threaded env block sh = (sh1, r)" by fastforce
  show ?thesis using step TRead rd read_source_frame [OF rd] by (cases r) auto
next
  case (TDecode root block bs)
  obtain sh1 r where rd: "decode_and_remember env block bs sh = (sh1, r)" by fastforce
  show ?thesis using step TDecode rd decode_and_remember_frame [OF rd] by auto
next
  case (TChildren root block bs cs)
  then show ?thesis using step by (auto simp: work_enqueue_children_def split: if_splits)
next
  case (TDestination block bs)
  obtain pc1 sh1 where rd: "destination_step env block bs sh = (pc1, sh1)" by fastforce
  show ?thesis using step TDestination rd destination_step_frame [OF rd] by auto
next
  case (TEnqueue job)
  obtain q r where e: "write_enqueue (env_limits env) job (env_mode env) (sh_stop sh) (sh_write sh) = (q, r)"
    by fastforce
  show ?thesis
  proof (cases r)
    case (Return b)
    show ?thesis
      using step e Return TEnqueue write_enqueue_Return [OF e [unfolded Return]]
      by (cases b) (auto split: if_splits)
  next
    case Wait
    then show ?thesis using step e TEnqueue write_enqueue_Wait [OF e [unfolded Wait]] by auto
  qed
qed (use step in auto)

lemma enqueue_blocked_moves:
  assumes "length (write_items q') + active_writes q' = length (write_items q) + active_writes q"
    and "queued_write_bytes q' + active_write_bytes q' = queued_write_bytes q + active_write_bytes q"
    and "checkpoint_pending q \<or> checkpoint_running q \<Longrightarrow> checkpoint_pending q' \<or> checkpoint_running q'"
    and "enqueue_blocked lim job q"
  shows "enqueue_blocked lim job q'"
proof -
  have "in_flight_writes q' = in_flight_writes q"
    "saturating_add (queued_write_bytes q') (active_write_bytes q') =
     saturating_add (queued_write_bytes q) (active_write_bytes q)"
    using assms(1,2) by (simp_all add: in_flight_writes_def saturating_add_def)
  then show ?thesis using assms(3,4) by (auto simp: enqueue_blocked_def)
qed

lemma writer_step_quiet:
  assumes step: "writer_step env pc sh = Some (pc', n, sh')"
    and ok: "write_queue_ok (env_limits env) (sh_write sh)"
  shows "(n \<noteq> NotifyWrite \<longrightarrow> enqueue_blocked (env_limits env) job (sh_write sh) \<longrightarrow>
        enqueue_blocked (env_limits env) job (sh_write sh')) \<and>
    (n \<noteq> NotifyWrite \<longrightarrow> write_shutdown (sh_write sh') = write_shutdown (sh_write sh)) \<and>
    (n \<noteq> NotifyWrite \<longrightarrow> writer_may_wait (sh_write sh) \<longrightarrow> writer_may_wait (sh_write sh')) \<and>
    (pc' = WWait \<longrightarrow> writer_may_wait (sh_write sh')) \<and> (pc' = WDone \<longrightarrow> write_shutdown (sh_write sh')) \<and>
    (write_shutdown (sh_write sh) \<longrightarrow> write_shutdown (sh_write sh')) \<and>
    (producers_finished (sh_write sh) \<longrightarrow> producers_finished (sh_write sh')) \<and>
    sh_work sh' = sh_work sh \<and> (sh_stop sh \<longrightarrow> sh_stop sh') \<and> n \<noteq> NotifyWork"
proof (cases pc)
  case WNext
  obtain q cap r where a: "write_next_action (env_limits env) (sh_stop sh) (sh_cap sh) (sh_write sh) = (q, cap, r)"
    by (metis prod_cases3)
  show ?thesis
  proof (cases r)
    case (Return act)
    show ?thesis
    proof (cases act)
      case (WriteBatch jobs len)
      note b = next_action_Batch [OF a [unfolded Return WriteBatch]]
      then obtain rest where i: "write_items (sh_write sh) = jobs @ rest" "jobs \<noteq> []" by blast
      have "queued_write_bytes (sh_write sh) = jobs_len (write_items (sh_write sh))"
        using ok by (simp add: write_queue_ok_def)
      then have "enqueue_blocked (env_limits env) job q" if "enqueue_blocked (env_limits env) job (sh_write sh)"
        using b by (intro enqueue_blocked_moves [OF _ _ _ that]) auto
      moreover have "writer_may_wait q" using b i(2) by (auto simp: writer_may_wait_def)
      moreover have "write_shutdown q = write_shutdown (sh_write sh)"
        "producers_finished q = producers_finished (sh_write sh)" using b by auto
      moreover have "pc' = WPublish jobs len" "n = NoNotify" "sh' = sh\<lparr>sh_write := q, sh_cap := cap\<rparr>"
        using step WNext a Return WriteBatch by simp_all
      ultimately show ?thesis by simp
    next
      case RunCheckpoint
      note b = next_action_Checkpoint [OF a [unfolded Return RunCheckpoint]]
      then have "enqueue_blocked (env_limits env) job q" by (simp add: enqueue_blocked_def)
      then show ?thesis using step WNext a Return RunCheckpoint b by (auto simp: writer_may_wait_def)
    next
      case Shutdown
      show ?thesis
        using step WNext a Return Shutdown next_action_Shutdown [OF a [unfolded Return Shutdown]] by auto
    qed
  next
    case Wait
    then show ?thesis using step WNext a next_action_Wait [OF a [unfolded Wait]]
      by (auto simp: writer_may_wait_def)
  qed
next
  case (WPublish jobs len)
  then show ?thesis using step by (auto split: prod.splits)
next
  case (WRecord cs k len)
  then show ?thesis using step by (cases cs) (auto simp: complete_write_batch_def)
next
  case WCheckpoint
  then show ?thesis using step by (auto simp: finish_checkpoint_def split: prod.splits sum.splits)
next
  case WFailCheckpoint
  then show ?thesis using step by (auto simp: fail_checkpoint_def)
qed (use step in auto)

lemma finish_keeps:
  "producers_finished (finish_producing st q)" "write_shutdown q \<Longrightarrow> write_shutdown (finish_producing st q)"
  by (simp_all add: finish_producing_def Let_def)

lemma waits_ok_traversal:
  assumes ok: "waits_ok env sh ts ws j" and i: "i < length ts"
    and step: "traversal_step env (ts ! i) sh = Some (pc, n, sh')"
  shows "waits_ok env sh' (map (wake_traversal n) (ts[i := pc])) (map (wake_writer n) ws) j"
proof -
  note q = traversal_step_quiet [OF step]
  have sub: "set (ts[i := pc]) \<subseteq> insert pc (set ts)" by (rule set_update_subset_insert)
  have nt: "j = JTraversals"
  proof (rule ccontr)
    assume "j \<noteq> JTraversals"
    then have "ts ! i = TDone" using ok i by (simp add: waits_ok_def)
    then show False using step by simp
  qed
  have pop: "work_items (sh_work sh') = [] \<and> active_workers (sh_work sh') > 0"
    if w: "TPopWait \<in> set (ts[i := pc])" "n \<noteq> NotifyWork"
  proof (cases "pc = TPopWait")
    case False
    then have "TPopWait \<in> set ts" using w sub by auto
    then show ?thesis using ok q w(2) by (simp add: waits_ok_def)
  qed (use q in simp)
  have enq: "enqueue_blocked (env_limits env) job (sh_write sh') \<and> \<not> write_shutdown (sh_write sh')"
    if w: "TEnqueueWait job \<in> set (ts[i := pc])" "n \<noteq> NotifyWrite" for job
  proof (cases "pc = TEnqueueWait job")
    case False
    then have "TEnqueueWait job \<in> set ts" using w sub by auto
    then show ?thesis using ok q w(2) by (simp add: waits_ok_def)
  qed (use q in auto)
  show ?thesis using ok q pop enq nt by (auto simp: waits_ok_def)
qed

lemma waits_ok_writer:
  assumes ok: "waits_ok env sh ts ws j" and wq: "write_queue_ok (env_limits env) (sh_write sh)"
    and i: "i < length ws" and step: "writer_step env (ws ! i) sh = Some (pc, n, sh')"
  shows "waits_ok env sh' (map (wake_traversal n) ts) (map (wake_writer n) (ws[i := pc])) j"
proof -
  note q = writer_step_quiet [OF step wq]
  have sub: "set (ws[i := pc]) \<subseteq> insert pc (set ws)" by (rule set_update_subset_insert)
  have nd: "j \<noteq> JDone"
  proof
    assume "j = JDone"
    then have "ws ! i = WDone" using ok i by (simp add: waits_ok_def)
    then show False using step by simp
  qed
  have wt: "writer_may_wait (sh_write sh')" if w: "WWait \<in> set (ws[i := pc])" "n \<noteq> NotifyWrite"
  proof (cases "pc = WWait")
    case False
    then have "WWait \<in> set ws" using w sub by auto
    then show ?thesis using ok q w(2) by (simp add: waits_ok_def)
  qed (use q in simp)
  have dn: "write_shutdown (sh_write sh')" if w: "WDone \<in> set (ws[i := pc])"
  proof (cases "pc = WDone")
    case False
    then have "WDone \<in> set ws" using w sub by auto
    then show ?thesis using ok q by (simp add: waits_ok_def)
  qed (use q in simp)
  show ?thesis unfolding waits_ok_def
    using ok q wt dn nd by (auto simp: waits_ok_def)
qed

section \<open>Every reachable state\<close>

definition system_ok :: "('d, 'v) copy_env \<Rightarrow> 'd copy_system \<Rightarrow> bool" where
  "system_ok env s \<longleftrightarrow> limits_wf (env_limits env) \<and>
     counts_ok env (shared_state s) (traversals s) (writers s) \<and>
     waits_ok env (shared_state s) (traversals s) (writers s) (joiner_pc s)"

lemma notify_simps [simp]:
  "shared_state (notify n s) = shared_state s" "traversals (notify n s) = map (wake_traversal n) (traversals s)"
  "writers (notify n s) = map (wake_writer n) (writers s)" "joiner_pc (notify n s) = joiner_pc s"
  "poller_pc (notify n s) = poller_pc s"
  by (simp_all add: notify_def)

lemma system_ok_start: "copy_started env s \<Longrightarrow> system_ok env s"
proof -
  assume st: "copy_started env s"
  have "limits_wf (env_limits env)" using st queue_limits_wf by (auto simp: copy_started_def limits_ok_def)
  moreover have "active_writes write_queue_new = 0" "active_write_bytes write_queue_new = 0"
    "\<not> checkpoint_running write_queue_new" "active_workers (work_queue_new rs) = 0" for rs
    by (simp_all add: write_queue_new_def work_queue_new_def)
  ultimately show ?thesis using st
    by (auto simp: copy_started_def system_ok_def counts_ok_def waits_ok_def copy_system_start_def
        write_queue_new_ok writer_thread_count_def total_over_replicate)
qed

lemma joined_ok:
  assumes ok: "system_ok env s" and j: "joiner_pc s = JTraversals" and d: "\<forall>pc \<in> set (traversals s). pc = TDone"
  shows "system_ok env (notify NotifyWrite (s\<lparr>joiner_pc := JWriters, shared_state :=
    (shared_state s)\<lparr>sh_write := finish_producing (sh_stop (shared_state s)) (sh_write (shared_state s))\<rparr>\<rparr>))"
proof -
  let ?sh = "shared_state s"
  let ?q = "finish_producing (sh_stop ?sh) (sh_write ?sh)"
  have "write_queue_ok (env_limits env) ?q"
    using ok write_end_ok(3) by (simp add: system_ok_def counts_ok_def)
  moreover have "active_writes ?q = active_writes (sh_write ?sh)"
    "active_write_bytes ?q = active_write_bytes (sh_write ?sh)"
    "checkpoint_running ?q = checkpoint_running (sh_write ?sh)"
    by (simp_all add: finish_producing_def Let_def)
  ultimately have "counts_ok env (?sh\<lparr>sh_write := ?q\<rparr>) (traversals s) (writers s)"
    using ok by (simp add: system_ok_def counts_ok_def)
  moreover have "waits_ok env (?sh\<lparr>sh_write := ?q\<rparr>) (map (wake_traversal NotifyWrite) (traversals s))
      (map (wake_writer NotifyWrite) (writers s)) JWriters"
    using ok d finish_keeps by (auto simp: system_ok_def waits_ok_def)
  ultimately show ?thesis using ok by (simp add: system_ok_def counts_ok_wake)
qed

lemma waits_ok_wake:
  assumes "waits_ok env sh ts ws j"
  shows "waits_ok env sh (map (wake_traversal n) ts) (map (wake_writer n) ws) j"
proof -
  have "(\<forall>pc \<in> set ts. pc = TDone) \<Longrightarrow> (\<forall>pc \<in> set (map (wake_traversal n) ts). pc = TDone)"
    "(\<forall>pc \<in> set ws. pc = WDone) \<Longrightarrow> (\<forall>pc \<in> set (map (wake_writer n) ws). pc = WDone)"
    by auto
  then show ?thesis using assms unfolding waits_ok_def by (simp only: set_map wait_wake_iff) blast
qed

lemma waits_ok_stop:
  assumes "waits_ok env sh ts ws j" and "sh_work sh' = sh_work sh" and "sh_write sh' = sh_write sh"
    and "sh_stop sh \<Longrightarrow> sh_stop sh'"
  shows "waits_ok env sh' ts ws j"
  using assms by (simp add: waits_ok_def)

lemma waits_ok_stop_work:
  assumes "waits_ok env sh ts ws j" and "TPopWait \<notin> set ts"
  shows "waits_ok env (sh\<lparr>sh_work := q\<rparr>) ts ws j"
  using assms by (simp add: waits_ok_def)

lemma waits_ok_stop_write:
  assumes "waits_ok env sh ts ws j" and "\<And>job. TEnqueueWait job \<notin> set ts" and "WWait \<notin> set ws"
    and "write_shutdown (sh_write sh) \<Longrightarrow> write_shutdown q"
    and "producers_finished (sh_write sh) \<Longrightarrow> producers_finished q"
  shows "waits_ok env (sh\<lparr>sh_write := q\<rparr>) ts ws j"
  using assms by (simp add: waits_ok_def)

lemma counts_ok_write:
  assumes "counts_ok env sh ts ws" and "write_queue_ok (env_limits env) q"
    and "active_writes q = active_writes (sh_write sh)" "active_write_bytes q = active_write_bytes (sh_write sh)"
    "checkpoint_running q = checkpoint_running (sh_write sh)"
  shows "counts_ok env (sh\<lparr>sh_write := q\<rparr>) ts ws"
  using assms by (simp add: counts_ok_def)

lemma poller_ok:
  assumes ok: "system_ok env s" and step: "poller_step b (poller_pc s) (shared_state s) = Some (pc, n, sh)"
  shows "system_ok env (notify n (s\<lparr>shared_state := sh, poller_pc := pc\<rparr>))"
proof -
  let ?sh = "shared_state s"
  let ?ts = "map (wake_traversal n) (traversals s)" and ?ws = "map (wake_writer n) (writers s)"
  have c: "counts_ok env ?sh (traversals s) (writers s)" using ok by (simp add: system_ok_def)
  have w: "waits_ok env ?sh ?ts ?ws (joiner_pc s)"
    using ok by (intro waits_ok_wake) (simp add: system_ok_def)
  have "counts_ok env sh (traversals s) (writers s) \<and> waits_ok env sh ?ts ?ws (joiner_pc s)"
  proof (cases "poller_pc s")
    case PPoll
    then have "sh_work sh = sh_work ?sh \<and> sh_write sh = sh_write ?sh \<and> (sh_stop ?sh \<longrightarrow> sh_stop sh)"
      using step by (auto split: if_splits)
    then show ?thesis using c w counts_ok_cong [of sh ?sh] waits_ok_stop [of env ?sh] by blast
  next
    case PStopWork
    then have e: "sh = ?sh\<lparr>sh_work := work_request_shutdown (sh_work ?sh)\<rparr>" "n = NotifyWork"
      using step by simp_all
    have "counts_ok env sh (traversals s) (writers s)"
      using c by (simp add: e counts_ok_def work_request_shutdown_def)
    moreover have "TPopWait \<notin> set ?ts" by (simp add: e)
    ultimately show ?thesis using waits_ok_stop_work [OF w] e(1) by blast
  next
    case PStopWrite
    let ?q = "write_request_shutdown (sh_write ?sh)"
    have e: "sh = ?sh\<lparr>sh_write := ?q\<rparr>" "n = NotifyWrite" using step PStopWrite by simp_all
    have "write_queue_ok (env_limits env) ?q" using c write_end_ok(4) by (simp add: counts_ok_def)
    then have "counts_ok env sh (traversals s) (writers s)"
      unfolding e(1) by (intro counts_ok_write [OF c]) (simp_all add: write_request_shutdown_def)
    moreover have "waits_ok env sh ?ts ?ws (joiner_pc s)"
      unfolding e(1) by (rule waits_ok_stop_write [OF w]) (simp_all add: e(2) write_request_shutdown_def)
    ultimately show ?thesis by blast
  next
    case PDone
    then show ?thesis using step by simp
  qed
  then show ?thesis using ok by (simp add: system_ok_def counts_ok_wake)
qed

lemma thread_step_ok: "thread_step env s t \<Longrightarrow> system_ok env s \<Longrightarrow> system_ok env t"
proof (induction rule: thread_step.induct)
  case (traversal_moves i s pc n sh)
  note ok = traversal_moves(3) [unfolded system_ok_def]
  have "counts_ok env sh ((traversals s)[i := pc]) (writers s)"
    by (rule counts_ok_traversal) (use ok traversal_moves(1,2) in auto)
  moreover have "waits_ok env sh (map (wake_traversal n) ((traversals s)[i := pc]))
      (map (wake_writer n) (writers s)) (joiner_pc s)"
    by (rule waits_ok_traversal) (use ok traversal_moves(1,2) in auto)
  ultimately show ?case using ok by (simp add: system_ok_def counts_ok_wake)
next
  case (writer_moves i s pc n sh)
  note ok = writer_moves(3) [unfolded system_ok_def]
  have "counts_ok env sh (traversals s) ((writers s)[i := pc])"
    by (rule counts_ok_writer) (use ok writer_moves(1,2) in auto)
  moreover have "waits_ok env sh (map (wake_traversal n) (traversals s))
      (map (wake_writer n) ((writers s)[i := pc])) (joiner_pc s)"
    by (rule waits_ok_writer) (use ok writer_moves(1,2) in \<open>auto simp: counts_ok_def\<close>)
  ultimately show ?case using ok by (simp add: system_ok_def counts_ok_wake)
next
  case (traversals_joined s sh)
  then show ?case using joined_ok by blast
next
  case (writers_joined s sh)
  then show ?case by (auto simp: system_ok_def waits_ok_def counts_ok_def)
next
  case (poller_moves s pc n sh)
  then show ?case using poller_ok by blast
qed

lemma spurious_ok: "spurious_wakeup s t \<Longrightarrow> system_ok env s \<Longrightarrow> system_ok env t"
proof (induction rule: spurious_wakeup.induct)
  case (1 s i n)
  show ?case
  proof (cases "i < length (traversals s)")
    case True
    let ?ts = "(traversals s)[i := wake_traversal n (traversals s ! i)]"
    have sub: "set ?ts \<subseteq> insert (wake_traversal n (traversals s ! i)) (set (traversals s))"
      by (rule set_update_subset_insert)
    have w: "x \<in> set (traversals s)"
      if "x \<in> set ?ts" and "x = TPopWait \<or> (\<exists>job. x = TEnqueueWait job) " for x
    proof (cases "x = wake_traversal n (traversals s ! i)")
      case wk: True
      then have "traversals s ! i = x"
        using that(2) by (cases "(n, traversals s ! i)" rule: wake_traversal.cases) auto
      then show ?thesis using True by auto
    qed (use that sub in auto)
    have d: "\<forall>pc \<in> set ?ts. pc = TDone" if "\<forall>pc \<in> set (traversals s). pc = TDone"
    proof -
      have "traversals s ! i = TDone" using that True by simp
      then show ?thesis using that sub by auto
    qed
    have "total_over holds_item ?ts = total_over holds_item (traversals s)"
      using total_over_update [OF True, of holds_item "wake_traversal n (traversals s ! i)"] by simp
    then show ?thesis using 1 w d by (auto simp: system_ok_def counts_ok_def waits_ok_def)
  qed (use 1 in \<open>simp add: system_ok_def list_update_beyond not_less\<close>)
next
  case (2 s i n)
  show ?case
  proof (cases "i < length (writers s)")
    case True
    let ?ws = "(writers s)[i := wake_writer n (writers s ! i)]"
    have sub: "set ?ws \<subseteq> insert (wake_writer n (writers s ! i)) (set (writers s))"
      by (rule set_update_subset_insert)
    have w: "x \<in> set (writers s)" if "x \<in> set ?ws" and "x = WWait \<or> x = WDone" for x
    proof (cases "x = wake_writer n (writers s ! i)")
      case wk: True
      then have "writers s ! i = x"
        using that(2) by (cases "(n, writers s ! i)" rule: wake_writer.cases) auto
      then show ?thesis using True by auto
    qed (use that sub in auto)
    have d: "\<forall>pc \<in> set ?ws. pc = WDone" if "\<forall>pc \<in> set (writers s). pc = WDone"
    proof -
      have "writers s ! i = WDone" using that True by simp
      then show ?thesis using that sub by auto
    qed
    have o: "\<forall>w \<in> set ?ws. writer_ok w" using 2 sub True by (auto simp: system_ok_def counts_ok_def)
    have "total_over f ?ws = total_over f (writers s)" if "\<And>pc. f (wake_writer n pc) = f pc" for f
      using total_over_update [OF True, of f "wake_writer n (writers s ! i)"] that by simp
    then show ?thesis using 2 w d o by (auto simp: system_ok_def counts_ok_def waits_ok_def)
  qed (use 2 in \<open>simp add: system_ok_def list_update_beyond not_less\<close>)
qed

lemma interrupt_ok: "interrupt_seen s t \<Longrightarrow> system_ok env s \<Longrightarrow> system_ok env t"
  by (induction rule: interrupt_seen.induct) (rule poller_ok)

interpretation copy_machine: guarded_machine "copy_started env" "copy_step env" "system_ok env"
  for env :: "('d, 'v) copy_env"
proof unfold_locales
  show "system_ok env s" if "copy_started env s" for s using that by (rule system_ok_start)
  show "system_ok env t" if "system_ok env s" and "copy_step env s t" for s t
    using that thread_step_ok spurious_ok interrupt_ok unfolding copy_step_def by blast
qed

section \<open>Progress\<close>

definition copy_finished :: "'d copy_system \<Rightarrow> bool" where
  "copy_finished s \<longleftrightarrow> (\<forall>pc \<in> set (traversals s). pc = TDone) \<and> (\<forall>pc \<in> set (writers s). pc = WDone) \<and>
     joiner_pc s = JDone \<and> poller_pc s = PDone"

lemma traversal_enabled:
  assumes "pc \<noteq> TPopWait" and "\<And>job. pc \<noteq> TEnqueueWait job" and "pc \<noteq> TDone"
  shows "traversal_step env pc sh \<noteq> None"
proof (cases pc)
  case TPop
  obtain q r where "work_pop (sh_stop sh) (sh_work sh) = (q, r)" by fastforce
  then show ?thesis using TPop by (cases r) (auto split: option.split)
next
  case (TRead root block)
  obtain sh1 r where "read_source_block_threaded env block sh = (sh1, r)" by fastforce
  then show ?thesis using TRead by (cases r) auto
next
  case (TDecode root block bs)
  then show ?thesis by (cases "decode_and_remember env block bs sh") auto
next
  case (TDestination block bs)
  then show ?thesis by (cases "destination_step env block bs sh") auto
next
  case (TEnqueue job)
  obtain q r where e: "write_enqueue (env_limits env) job (env_mode env) (sh_stop sh) (sh_write sh) = (q, r)"
    by fastforce
  show ?thesis
  proof (cases r)
    case (Return b)
    then show ?thesis using TEnqueue e by (cases b) simp_all
  next
    case Wait
    then show ?thesis using TEnqueue e by simp
  qed
qed (use assms in auto)

lemma writer_enabled:
  assumes "pc \<noteq> WWait" and "pc \<noteq> WDone"
  shows "writer_step env pc sh \<noteq> None"
proof (cases pc)
  case WNext
  obtain q cap r where e: "write_next_action (env_limits env) (sh_stop sh) (sh_cap sh) (sh_write sh) = (q, cap, r)"
    by (metis prod_cases3)
  show ?thesis
  proof (cases r)
    case (Return a)
    then show ?thesis using WNext e by (cases a) simp_all
  next
    case Wait
    then show ?thesis using WNext e by simp
  qed
next
  case (WPublish jobs len)
  then show ?thesis
    by (cases "publish_destination_write_batch (env_dest env) (sh_dest sh) (sh_cap sh) jobs") simp
next
  case (WRecord cs n len)
  then show ?thesis by (cases cs) auto
next
  case WCheckpoint
  then show ?thesis by (auto split: prod.splits sum.splits)
qed (use assms in auto)

lemma traversal_can_move:
  assumes "pc \<in> set (traversals s)" and "traversal_step env pc (shared_state s) \<noteq> None"
  shows "\<exists>t. thread_step env s t"
proof -
  obtain i where i: "i < length (traversals s)" "traversals s ! i = pc"
    using assms(1) by (auto simp: in_set_conv_nth)
  obtain pc' n sh where "traversal_step env pc (shared_state s) = Some (pc', n, sh)"
    using assms(2) by (metis option.exhaust prod_cases3)
  then show ?thesis using thread_step.traversal_moves [of i s env] i by blast
qed

lemma writer_can_move:
  assumes "pc \<in> set (writers s)" and "writer_step env pc (shared_state s) \<noteq> None"
  shows "\<exists>t. thread_step env s t"
proof -
  obtain i where i: "i < length (writers s)" "writers s ! i = pc"
    using assms(1) by (auto simp: in_set_conv_nth)
  obtain pc' n sh where "writer_step env pc (shared_state s) = Some (pc', n, sh)"
    using assms(2) by (metis option.exhaust prod_cases3)
  then show ?thesis using thread_step.writer_moves [of i s env] i by blast
qed

lemma blocked_not_empty:
  assumes "limits_wf lim" and "enqueue_blocked lim job q" and "write_items q = []" "active_writes q = 0"
  shows "checkpoint_pending q \<or> checkpoint_running q"
  using assms by (auto simp: enqueue_blocked_def in_flight_writes_def saturating_add_def limits_wf_def)

text \<open>If no thread can move, no traversal worker waits for room in the write queue.\<close>

lemma stuck_no_enqueue_wait:
  assumes ok: "system_ok env s" and stuck: "\<nexists>t. thread_step env s t"
  shows "TEnqueueWait job \<notin> set (traversals s) \<and>
    (WWait \<in> set (writers s) \<longrightarrow> \<not> producers_finished (sh_write (shared_state s)))"
proof -
  let ?sh = "shared_state s" and ?q = "sh_write (shared_state s)"
  have lim: "limits_wf (env_limits env)" and c: "counts_ok env ?sh (traversals s) (writers s)"
    and w: "waits_ok env ?sh (traversals s) (writers s) (joiner_pc s)"
    using ok by (simp_all add: system_ok_def)
  have ws: "x = WWait \<or> x = WDone" if "x \<in> set (writers s)" for x
    using writer_can_move [OF that] writer_enabled [of x env ?sh] stuck by blast
  have z: "total_over f (writers s) = 0" if "f WWait = 0" "f WDone = 0" for f :: "writer \<Rightarrow> nat"
    unfolding total_over_zero using ws that by blast
  have idle: "active_writes ?q = 0" "\<not> checkpoint_running ?q"
    using c z [of writer_jobs] z [of writer_checkpoint] by (auto simp: counts_ok_def)
  have blocked: "enqueue_blocked (env_limits env) job ?q" "\<not> write_shutdown ?q"
    if "TEnqueueWait job \<in> set (traversals s)" using w that by (auto simp: waits_ok_def)
  show ?thesis
  proof (cases "WWait \<in> set (writers s)")
    case True
    then have m: "write_items ?q = []" "\<not> checkpoint_pending ?q" "\<not> producers_finished ?q"
      using w idle by (auto simp: waits_ok_def writer_may_wait_def)
    then show ?thesis using blocked_not_empty [OF lim _ m(1) idle(1)] blocked idle by blast
  next
    case False
    have "writers s \<noteq> []" using w by (simp add: waits_ok_def)
    then obtain x where "x \<in> set (writers s)" by (cases "writers s") auto
    then have "WDone \<in> set (writers s)" using ws False by blast
    then have "write_shutdown ?q" using w by (simp add: waits_ok_def)
    then show ?thesis using blocked False by blast
  qed
qed

lemma system_progress:
  assumes ok: "system_ok env s" and stuck: "\<nexists>t. thread_step env s t"
  shows "copy_finished s"
proof -
  let ?sh = "shared_state s"
  have c: "counts_ok env ?sh (traversals s) (writers s)"
    and w: "waits_ok env ?sh (traversals s) (writers s) (joiner_pc s)"
    using ok by (simp_all add: system_ok_def)
  note ne = stuck_no_enqueue_wait [OF ok stuck]
  have ts: "x = TPopWait \<or> x = TDone" if "x \<in> set (traversals s)" for x
    using traversal_can_move [OF that] traversal_enabled [of x env ?sh] ne stuck that by blast
  then have "\<forall>x \<in> set (traversals s). holds_item x = 0" by (metis holds_item.simps(2,3))
  then have "active_workers (sh_work ?sh) = 0" using c by (simp add: counts_ok_def total_over_zero)
  then have "TPopWait \<notin> set (traversals s)" using w by (auto simp: waits_ok_def)
  then have td: "\<forall>pc \<in> set (traversals s). pc = TDone" using ts by metis
  then have j: "joiner_pc s \<noteq> JTraversals"
    using thread_step.traversals_joined [of s ?sh env] stuck by blast
  then have "producers_finished (sh_write ?sh)" using w by (simp add: waits_ok_def)
  then have "WWait \<notin> set (writers s)" using ne by blast
  then have wd: "\<forall>pc \<in> set (writers s). pc = WDone"
    using writer_can_move writer_enabled stuck by metis
  then have "joiner_pc s = JDone"
    using thread_step.writers_joined [of s ?sh env] stuck j by (cases "joiner_pc s") auto
  moreover from this have "sh_stop ?sh" using w by (simp add: waits_ok_def)
  then have "poller_pc s = PDone"
    using thread_step.poller_moves [of s _ _ _ env] stuck by (cases "poller_pc s") auto
  ultimately show ?thesis using td wd by (simp add: copy_finished_def)
qed

section \<open>Properties\<close>

text \<open>
  C38. Bounds of the multi-threaded copy. In every reachable state the destination writes
  queued or under way are at most the configured number; with a byte limit their bytes stay
  within it, unless a single write is in flight; and while a checkpoint runs (compacting the
  destination) no write is queued or under way in any thread.
\<close>

theorem copy_writes_bounded:
  assumes "reach (copy_started env) (copy_step env) s"
  defines "q \<equiv> sh_write (shared_state s)" and "lim \<equiv> env_limits env"
  shows "length (write_items q) + total_over writer_jobs (writers s) \<le> max_in_flight_writes lim \<and>
    (max_in_flight_write_bytes lim = 0 \<or>
     jobs_len (write_items q) + total_over writer_bytes (writers s) \<le> max_in_flight_write_bytes lim \<or>
     length (write_items q) + total_over writer_jobs (writers s) \<le> 1) \<and>
    (WCheckpoint \<in> set (writers s) \<longrightarrow> write_items q = [] \<and> (\<forall>w \<in> set (writers s). writer_jobs w = 0))"
proof -
  have ok: "counts_ok env (shared_state s) (traversals s) (writers s)"
    using copy_machine.inv_reach [OF assms(1)] by (simp add: system_ok_def)
  have running: "checkpoint_running q" if "WCheckpoint \<in> set (writers s)"
  proof (rule ccontr)
    assume "\<not> checkpoint_running q"
    then have "total_over writer_checkpoint (writers s) = 0" using ok by (simp add: counts_ok_def q_def)
    then show False using that by (auto simp: total_over_zero)
  qed
  have "write_items q = [] \<and> (\<forall>w \<in> set (writers s). writer_jobs w = 0)" if "WCheckpoint \<in> set (writers s)"
  proof -
    have "write_items q = []" "total_over writer_jobs (writers s) = 0"
      using ok running [OF that] by (auto simp: counts_ok_def write_queue_ok_def q_def)
    then show ?thesis by (simp add: total_over_zero)
  qed
  then show ?thesis using ok by (auto simp: counts_ok_def write_queue_ok_def q_def lim_def)
qed

definition demo_destination :: "(block_hash \<times> bytes) list block_destination" where
  "demo_destination =
     \<lparr>dest_get = \<lambda>d b. Ok (map_of d b), dest_put = \<lambda>d b bs. ((b, bs) # d, Ok ()),
      dest_put_batch = \<lambda>d es. (d, Err (BackendFailure UNSUPPORTED_BATCH_WRITE_MESSAGE)),
      show_store_error = \<lambda>_. []\<rparr>"

definition demo_copy_env :: "((block_hash \<times> bytes) list, unit) copy_env" where
  "demo_copy_env =
     \<lparr>env_source = \<lambda>b. Ok (if b = [1] then Some [9] else if b = [2] then Some [] else None),
      env_dest = demo_destination, env_checkpoint_action = \<lambda>d. (d, Ok ()),
      env_codec = \<lparr>deserialize_versioned_block = \<lambda>bs b. Ok (V1 (V1Branch (if bs = [9] then [[2]] else []))),
        codec_typed_block = \<lambda>_. Err [], codec_from_reader = \<lambda>_. Err [], read_replay_journal = \<lambda>_. Err []\<rparr>,
      env_disp = hex_encode, env_iter = \<lambda>xs. xs, env_mode = BlindWrite, env_roots = [[1]],
      env_limits = queue_limits 1 0 None\<rparr>"

definition demo_start :: "(block_hash \<times> bytes) list copy_system" where
  "demo_start = copy_system_start demo_copy_env None 1 []"

lemma demo_started: "copy_started demo_copy_env demo_start"
proof -
  have "env_limits demo_copy_env = queue_limits 1 0 None" by (simp add: demo_copy_env_def)
  moreover have "1 \<le> USIZE_MAX" "0 < USIZE_MAX" by (simp_all add: USIZE_MAX_def)
  ultimately show ?thesis unfolding copy_started_def limits_ok_def demo_start_def by blast
qed

theorem copy_writes_bounded_witness:
  "length (write_items (sh_write (shared_state demo_start))) + total_over writer_jobs (writers demo_start) \<le> 1"
  using copy_writes_bounded [OF reach_start, OF demo_started] by (simp add: demo_copy_env_def queue_limits_def)

text \<open>
  C5. The multi-threaded copy cannot deadlock. In every reachable state some thread can take
  a step that needs neither an interrupt nor a spurious wake-up, unless all threads have
  finished: whoever waits on a condition variable is notified by a thread that can still move.
\<close>

theorem copy_never_deadlocks:
  assumes "reach (copy_started env) (copy_step env) s"
  shows "(\<exists>t. thread_step env s t) \<or> copy_finished s"
  using system_progress [OF copy_machine.inv_reach [OF assms]] by blast

theorem copy_never_deadlocks_witness:
  "(\<exists>t. thread_step demo_copy_env demo_start t) \<or> copy_finished demo_start"
  using copy_never_deadlocks [OF reach_start, OF demo_started] .

end
