(* ===== verification/Copy_Books.thy ===== *)
theory Copy_Books
  imports Copy_Failures_Laws
begin

text \<open>
  What a traversal relies on from the books, whatever was recorded before: roots only spread,
  the roots of a block also belong to the children it has, and a block with a recorded failure
  has a failure in the report for each of its roots.
\<close>

definition books_ok :: "(block_hash \<Rightarrow> rstring) \<Rightarrow> copy_books \<Rightarrow> bool" where
  "books_ok disp t \<longleftrightarrow> (\<forall>b. distinct (entries_of (block_roots t) b)) \<and> (\<forall>r. closed_upto r {} t) \<and>
     (\<exists>rec extra. books_ledger disp rec extra t)"

text \<open>\<open>books_grow\<close>: what every operation on the books keeps.\<close>

definition books_grow :: "copy_books \<Rightarrow> copy_books \<Rightarrow> bool" where
  "books_grow t t' \<longleftrightarrow> (\<forall>b. known_roots t b \<subseteq> known_roots t' b) \<and>
     (\<forall>b. entries_of (failure_templates t) b \<noteq> [] \<longrightarrow> entries_of (failure_templates t') b \<noteq> [])"

lemma books_grow_refl [simp]: "books_grow t t"
  by (simp add: books_grow_def)

lemma books_grow_trans: "books_grow t u \<Longrightarrow> books_grow u v \<Longrightarrow> books_grow t v"
  unfolding books_grow_def by blast

lemma books_ok_new: "books_ok disp (books_new p)"
  by (auto simp: books_ok_def books_new_def closed_upto_def books_ledger_def intro: exI [of _ "[]"])

lemma books_ok_cong:
  assumes "block_roots t' = block_roots t" "discovered_children t' = discovered_children t"
    "failure_templates t' = failure_templates t" "failures t' = failures t"
  shows "books_ok disp t' \<longleftrightarrow> books_ok disp t"
  by (simp add: books_ok_def closed_upto_def books_ledger_def assms)

subsection \<open>Associating a root\<close>

lemma associate_books:
  assumes "books_ok disp t"
  shows "books_ok disp (associate_loop disp r q t)" and "books_grow t (associate_loop disp r q t)"
proof -
  have "closed_upto r' {} (associate_loop disp r q t)" for r'
  proof (cases "r' = r")
    case True
    have "closed_upto r (set q \<union> {}) t" by (rule closed_upto_mono [of _ "{}"]) (use assms in \<open>auto simp: books_ok_def\<close>)
    then show ?thesis using True associate_loop_closed by blast
  next
    case False
    then show ?thesis using assms associate_loop_closed_other by (simp add: books_ok_def)
  qed
  then show "books_ok disp (associate_loop disp r q t)"
    using assms associate_loop_distinct associate_loop_ledger unfolding books_ok_def by blast
  show "books_grow t (associate_loop disp r q t)"
    by (auto simp: books_grow_def associate_loop_frame intro: associate_loop_mono)
qed

lemma note_block_root_books:
  assumes "books_ok disp t"
  shows "books_ok disp (note_block_root disp r b t)" "books_grow t (note_block_root disp r b t)"
    "r \<in> known_roots (note_block_root disp r b t) b"
    "discovered_children (note_block_root disp r b t) = discovered_children t"
  using associate_books [OF assms, of r "[b]"] associate_loop_covers [of b "[b]" r disp t]
  by (simp_all add: note_block_root_def associate_root_with_known_subgraph_def associate_loop_frame)

subsection \<open>Remembering children\<close>

lemma fold_children_closed:
  assumes "closed_upto r P t"
  shows "closed_upto r (P - set cs) (fold (\<lambda>c. associate_loop disp r [c]) cs t)"
  using assms
proof (induction cs arbitrary: P t)
  case (Cons c cs)
  have "closed_upto r (set [c] \<union> (P - {c})) t"
    by (rule closed_upto_mono [OF Cons.prems]) auto
  then have "closed_upto r (P - {c}) (associate_loop disp r [c] t)" by (rule associate_loop_closed)
  then have "closed_upto r (P - {c} - set cs) (fold (\<lambda>c. associate_loop disp r [c]) cs (associate_loop disp r [c] t))"
    by (rule Cons.IH)
  moreover have "P - {c} - set cs = P - set (c # cs)" by auto
  ultimately show ?case by simp
qed simp

lemma fold_children_other:
  "r' \<noteq> r \<Longrightarrow> closed_upto r' P t \<Longrightarrow> closed_upto r' P (fold (\<lambda>c. associate_loop disp r [c]) cs t)"
  by (induction cs arbitrary: t) (simp_all add: associate_loop_closed_other)

definition same_but_roots :: "copy_books \<Rightarrow> copy_books \<Rightarrow> bool" where
  "same_but_roots t t' \<longleftrightarrow> discovered_children t' = discovered_children t \<and>
     failure_templates t' = failure_templates t \<and> (\<forall>b. known_roots t b \<subseteq> known_roots t' b)"

lemma fold_children_frame: "same_but_roots t (fold (\<lambda>c. associate_loop disp r [c]) cs t)"
proof (induction cs arbitrary: t)
  case (Cons c cs)
  have "same_but_roots t (associate_loop disp r [c] t)"
    by (auto simp: same_but_roots_def associate_loop_frame intro: associate_loop_mono)
  then show ?case using Cons [of "associate_loop disp r [c] t"] by (auto simp: same_but_roots_def)
qed (simp add: same_but_roots_def)

lemma fold_children_books:
  assumes "\<forall>b. distinct (entries_of (block_roots t) b)" and "books_ledger disp rec extra t"
  shows "(\<forall>b. distinct (entries_of (block_roots (fold (\<lambda>c. associate_loop disp r [c]) cs t)) b)) \<and>
    books_ledger disp rec extra (fold (\<lambda>c. associate_loop disp r [c]) cs t)"
  using assms
proof (induction cs arbitrary: t)
  case (Cons c cs)
  have "\<forall>b. distinct (entries_of (block_roots (associate_loop disp r [c] t)) b)"
    using Cons.prems(1) associate_loop_distinct by blast
  then show ?case using Cons.IH [of "associate_loop disp r [c] t"] associate_loop_ledger [OF Cons.prems(2)] by simp
qed simp

lemma fold_roots_books:
  assumes "\<And>r. r \<in> set rs \<Longrightarrow> closed_upto r (set cs) t" and "\<And>r. r \<notin> set rs \<Longrightarrow> closed_upto r {} t"
    and "\<forall>b. distinct (entries_of (block_roots t) b)" and "books_ledger disp rec extra t"
  shows "books_ok disp (fold (\<lambda>r. fold (\<lambda>c. associate_loop disp r [c]) cs) rs t) \<and>
    same_but_roots t (fold (\<lambda>r. fold (\<lambda>c. associate_loop disp r [c]) cs) rs t)"
  using assms
proof (induction rs arbitrary: t)
  case Nil
  then show ?case by (auto simp: books_ok_def same_but_roots_def)
next
  case (Cons r rs)
  let ?t = "fold (\<lambda>c. associate_loop disp r [c]) cs t"
  have r: "closed_upto r {} ?t" using fold_children_closed [of r "set cs" t cs disp] Cons.prems(1) by simp
  have a: "closed_upto r' (set cs) ?t" if "r' \<in> set rs" for r'
  proof (cases "r' = r")
    case False
    then show ?thesis using fold_children_other Cons.prems(1) [of r'] that by simp
  qed (use closed_upto_mono [OF r] in simp)
  have b: "closed_upto r' {} ?t" if "r' \<notin> set rs" for r'
  proof (cases "r' = r")
    case False
    then show ?thesis using fold_children_other Cons.prems(2) [of r'] that by simp
  qed (use r in simp)
  note k = fold_children_books [OF Cons.prems(3,4), of r cs]
  have "books_ok disp (fold (\<lambda>r. fold (\<lambda>c. associate_loop disp r [c]) cs) rs ?t) \<and>
      same_but_roots ?t (fold (\<lambda>r. fold (\<lambda>c. associate_loop disp r [c]) cs) rs ?t)"
    by (rule Cons.IH) (use a b k in auto)
  then show ?case using fold_children_frame [of t disp r cs] by (auto simp: same_but_roots_def)
qed

lemma remember_children_books:
  assumes ok: "books_ok disp t" and iter: "\<And>xs. set (iter xs) = set xs"
  shows "books_ok disp (remember_children disp iter b cs t)" "books_grow t (remember_children disp iter b cs t)"
    "discovered_children (remember_children disp iter b cs t) = hm_insert b cs (discovered_children t)"
proof -
  let ?t = "t\<lparr>discovered_children := hm_insert b cs (discovered_children t)\<rparr>"
  let ?rs = "iter (entries_of (block_roots ?t) b)"
  obtain rec extra where l: "books_ledger disp rec extra t" using ok by (auto simp: books_ok_def)
  then have l': "books_ledger disp rec extra ?t" by (simp add: books_ledger_def)
  have "closed_upto r (set cs) ?t" for r
    using ok by (auto simp: books_ok_def closed_upto_def)
  moreover have "closed_upto r {} ?t" if "r \<notin> set ?rs" for r
    using ok that by (auto simp: books_ok_def closed_upto_def iter)
  ultimately have "books_ok disp (fold (\<lambda>r. fold (\<lambda>c. associate_loop disp r [c]) cs) ?rs ?t) \<and>
      same_but_roots ?t (fold (\<lambda>r. fold (\<lambda>c. associate_loop disp r [c]) cs) ?rs ?t)"
    by (intro fold_roots_books [OF _ _ _ l']) (use ok in \<open>auto simp: books_ok_def\<close>)
  moreover have "associate_root_with_known_subgraph disp = (\<lambda>r c. associate_loop disp r [c])"
    by (intro ext) (simp add: associate_root_with_known_subgraph_def)
  then have "remember_children disp iter b cs t =
      fold (\<lambda>r. fold (\<lambda>c. associate_loop disp r [c]) cs) ?rs ?t"
    by (simp add: remember_children_def)
  ultimately show "books_ok disp (remember_children disp iter b cs t)"
    "books_grow t (remember_children disp iter b cs t)"
    "discovered_children (remember_children disp iter b cs t) = hm_insert b cs (discovered_children t)"
    by (simp_all add: same_but_roots_def books_grow_def)
qed

subsection \<open>Recording\<close>

lemma record_failure_books:
  assumes ok: "books_ok disp t" and iter: "\<And>xs. mset (iter xs) = mset xs"
  shows "books_ok disp (record_failure disp iter b oper m t)" "books_grow t (record_failure disp iter b oper m t)"
    "entries_of (failure_templates (record_failure disp iter b oper m t)) b \<noteq> []"
proof -
  let ?t = "record_failure disp iter b oper m t"
  let ?tpl = "\<lparr>template_operation = oper, template_message = m\<rparr>"
  obtain rec extra where l: "books_ledger disp rec extra t" using ok by (auto simp: books_ok_def)
  have d: "mset (iter (entries_of (block_roots t) b)) = mset_set (known_roots t b)"
    using ok by (simp add: iter mset_set_set books_ok_def)
  have f: "mset (failures ?t) = mset (failures t) +
      image_mset (\<lambda>r. templated_failure disp r b ?tpl) (mset_set (known_roots t b))"
    by (simp add: record_failure_def Let_def d)
  have "entries_of (failure_templates ?t) x = map snd (filter (\<lambda>p. fst p = x) (rec @ [(b, ?tpl)]))" for x
    using l by (simp add: books_ledger_def record_failure_def Let_def)
  then have "books_ledger disp (rec @ [(b, ?tpl)]) extra ?t"
    using l f by (simp add: books_ledger_def ledger_append ac_simps)
  then show "books_ok disp ?t" using ok unfolding books_ok_def closed_upto_def by auto
  show "books_grow t ?t" "entries_of (failure_templates ?t) b \<noteq> []"
    by (simp_all add: books_grow_def record_failure_def Let_def)
qed

lemma record_store_failure_books:
  assumes ok: "books_ok disp t"
  shows "books_ok disp (record_store_failure disp rs oper m t)" "books_grow t (record_store_failure disp rs oper m t)"
proof -
  let ?t = "record_store_failure disp rs oper m t"
  obtain rec extra where l: "books_ledger disp rec extra t" using ok by (auto simp: books_ok_def)
  let ?new = "mset (map (\<lambda>root. \<lparr>failure_root_id = disp root, failure_block_id = DESTINATION_STORE_FAILURE_ID,
    failure_operation = oper, failure_message = m\<rparr>) rs)"
  have "books_ledger disp rec (extra + ?new) ?t"
    using l by (simp add: books_ledger_def record_store_failure_def Let_def ac_simps)
  then show "books_ok disp ?t" using ok unfolding books_ok_def closed_upto_def by auto
  show "books_grow t ?t" by (simp add: books_grow_def)
qed

lemma note_counters_books [simp]:
  "books_ok disp (note_read_source_block t) = books_ok disp t"
  "books_ok disp (note_copied_block t) = books_ok disp t"
  "books_ok disp (note_skipped_already_present_block t) = books_ok disp t"
  "books_ok disp (note_attempted_write_block t) = books_ok disp t"
  "books_grow t (note_read_source_block t)" "books_grow t (note_copied_block t)"
  "books_grow t (note_skipped_already_present_block t)" "books_grow t (note_attempted_write_block t)"
  "discovered_children (note_read_source_block t) = discovered_children t"
  "discovered_children (note_copied_block t) = discovered_children t"
  "discovered_children (note_skipped_already_present_block t) = discovered_children t"
  "discovered_children (note_attempted_write_block t) = discovered_children t"
  by (simp_all add: note_read_source_block_def note_copied_block_def
      note_skipped_already_present_block_def note_attempted_write_block_def books_grow_def
      books_ok_def closed_upto_def books_ledger_def)

subsection \<open>Reading the report\<close>

lemma ledger_mem:
  assumes "(b, tpl) \<in> set rec" and "r \<in> roots b" and "finite (roots b)"
  shows "templated_failure disp r b tpl \<in># ledger disp roots rec"
  using assms by (induction rec) auto

lemma recorded_failure_reported:
  assumes ok: "books_ok disp t" and tpl: "entries_of (failure_templates t) b \<noteq> []" and r: "r \<in> known_roots t b"
  shows "\<exists>f \<in> set (failures t). failure_root_id f = disp r \<and> failure_block_id f = disp b"
proof -
  obtain rec extra where l: "books_ledger disp rec extra t" using ok by (auto simp: books_ok_def)
  have "filter (\<lambda>p. fst p = b) rec \<noteq> []" using l tpl unfolding books_ledger_def by auto
  then obtain x where "x \<in> set (filter (\<lambda>p. fst p = b) rec)" by (meson list.set_sel(1))
  then have x: "x \<in> set rec" "fst x = b" by simp_all
  define y where "y = snd x"
  have "(b, y) = x" using x(2) by (simp add: y_def prod_eq_iff)
  then have "(b, y) \<in> set rec" using x(1) by simp
  then have "templated_failure disp r b y \<in># ledger disp (known_roots t) rec"
    using r by (intro ledger_mem) simp_all
  then have "templated_failure disp r b y \<in> set (failures t)"
    using l unfolding books_ledger_def by (metis union_iff set_mset_mset)
  then show ?thesis by (intro bexI) (simp_all add: templated_failure_def)
qed

lemma closed_reaches:
  assumes ok: "books_ok disp t" and p: "(b0, b) \<in> E\<^sup>*" and r: "r \<in> known_roots t b0"
    and e: "\<And>x y. (x, y) \<in> E \<Longrightarrow> r \<in> known_roots t x \<Longrightarrow> y \<in> set (entries_of (discovered_children t) x)"
  shows "r \<in> known_roots t b"
  using p r
proof (induction rule: rtrancl_induct)
  case (step y z)
  then show ?case using ok e [OF step(2)] by (auto simp: books_ok_def closed_upto_def)
qed

end
