(* ===== verification/Copy_Coverage.thy ===== *)
theory Copy_Coverage
  imports Copy_Threads_Laws Copy_Books
begin

text \<open>
  The multi-threaded copy leaves nothing behind. When all workers have finished and nobody
  asked them to stop, every block reachable from a requested root is in the destination or is
  reported as failed for every root that reaches it.
\<close>

section \<open>Contracts of the stores\<close>

definition present :: "'d block_destination \<Rightarrow> 'd \<Rightarrow> block_hash \<Rightarrow> bool" where
  "present ops d b \<longleftrightarrow> (\<exists>bs. dest_get ops d b = Ok (Some bs))"

text \<open>
  A put that succeeds makes its block readable, and no put, batch put or compaction takes away
  a block, whether it succeeds or fails.
\<close>

definition destination_contract :: "'d block_destination \<Rightarrow> bool" where
  "destination_contract ops \<longleftrightarrow>
     (\<forall>d b bs d' r. dest_put ops d b bs = (d', r) \<longrightarrow>
        (\<forall>c. present ops d c \<longrightarrow> present ops d' c) \<and> (r = Ok () \<longrightarrow> present ops d' b)) \<and>
     (\<forall>d es d' r. dest_put_batch ops d es = (d', r) \<longrightarrow>
        (\<forall>c. present ops d c \<longrightarrow> present ops d' c) \<and> (r = Ok () \<longrightarrow> (\<forall>b \<in> fst ` set es. present ops d' b)))"

definition copy_contract :: "('d, 'v) copy_env \<Rightarrow> bool" where
  "copy_contract env \<longleftrightarrow> (\<forall>xs. mset (env_iter env xs) = mset xs) \<and> destination_contract (env_dest env) \<and>
     (\<forall>d d' r c. env_checkpoint_action env d = (d', r) \<longrightarrow> present (env_dest env) d c \<longrightarrow>
        present (env_dest env) d' c)"

lemma contract_iter: "copy_contract env \<Longrightarrow> mset (env_iter env xs) = mset xs"
  "copy_contract env \<Longrightarrow> set (env_iter env xs) = set xs"
  by (auto simp: copy_contract_def) (metis set_mset_mset)+

section \<open>The graph of source blocks\<close>

definition children_of :: "('d, 'v) copy_env \<Rightarrow> block_hash \<Rightarrow> block_hash list" where
  "children_of env b =
     (case env_source env b of
        Inr (Some bs) \<Rightarrow> (case block_child_ids (env_codec env) b bs of Inr cs \<Rightarrow> cs | Inl _ \<Rightarrow> [])
      | _ \<Rightarrow> [])"

definition source_edges :: "('d, 'v) copy_env \<Rightarrow> (block_hash \<times> block_hash) set" where
  "source_edges env = {(b, c). c \<in> set (children_of env b)}"

section \<open>Publication\<close>

fun failed_completion :: "write_completion \<Rightarrow> bool" where
  "failed_completion c = (case completion_result c of Inl _ \<Rightarrow> True | Inr _ \<Rightarrow> False)"

definition failed_ids_of :: "write_completion list \<Rightarrow> block_hash set" where
  "failed_ids_of cs = completion_block_id ` set (filter failed_completion cs)"

abbreviation job_ids :: "write_job list \<Rightarrow> block_hash set" where
  "job_ids jobs \<equiv> job_block_id ` set jobs"

lemma one_by_one_accounts:
  assumes c: "destination_contract ops"
    and p: "publish_destination_write_jobs_one_by_one ops d jobs = (d', cs)"
  shows "(\<forall>b. present ops d b \<longrightarrow> present ops d' b) \<and>
    (\<forall>b \<in> job_ids jobs. b \<in> failed_ids_of cs \<or> present ops d' b)"
  using p
proof (induction jobs arbitrary: d cs)
  case (Cons job jobs)
  obtain d1 r where put: "dest_put ops d (job_block_id job) (job_block_bytes job) = (d1, r)" by fastforce
  obtain d2 cs2 where rest: "publish_destination_write_jobs_one_by_one ops d1 jobs = (d2, cs2)" by fastforce
  have eq: "d' = d2" "cs = completion_of job (map_err (show_store_error ops) r) # cs2"
    using Cons.prems put rest by auto
  note IH = Cons.IH [OF rest [folded eq(1)]]
  have p1: "\<forall>b. present ops d b \<longrightarrow> present ops d1 b" "r = Ok () \<longrightarrow> present ops d1 (job_block_id job)"
    using c put unfolding destination_contract_def by blast+
  have "job_block_id job \<in> failed_ids_of cs \<or> present ops d' (job_block_id job)"
  proof (cases r)
    case (Inl e)
    then show ?thesis by (simp add: eq failed_ids_of_def completion_of_def)
  next
    case (Inr u)
    then show ?thesis using p1 IH by simp
  qed
  moreover have "failed_ids_of cs2 \<subseteq> failed_ids_of cs" by (auto simp: eq failed_ids_of_def)
  ultimately show ?case using IH p1 by auto
qed simp

lemma publish_accounts:
  assumes c: "destination_contract ops"
    and p: "publish_destination_write_batch ops d cap jobs = (d', cap', cs)"
  shows "(\<forall>b. present ops d b \<longrightarrow> present ops d' b) \<and>
    (\<forall>b \<in> job_ids jobs. b \<in> failed_ids_of cs \<or> present ops d' b)"
proof (cases "length jobs \<le> 1 \<and> \<not> (length jobs = 1 \<and> (cap = Unknown \<or> cap = Probing))")
  case True
  then have "publish_destination_write_jobs_one_by_one ops d jobs = (d', cs)"
    using p by (auto simp: publish_destination_write_batch_def Let_def split: prod.splits)
  then show ?thesis by (rule one_by_one_accounts [OF c])
next
  case False
  let ?es = "map (\<lambda>job. (job_block_id job, job_block_bytes job)) jobs"
  obtain d1 r where b: "dest_put_batch ops d ?es = (d1, r)" by fastforce
  have k: "\<forall>b. present ops d b \<longrightarrow> present ops d1 b" and kb: "r = Ok () \<longrightarrow> (\<forall>b \<in> fst ` set ?es. present ops d1 b)"
    using c b unfolding destination_contract_def by blast+
  show ?thesis
  proof (cases r)
    case (Inr u)
    then have "d' = d1" using p b False by (auto simp: publish_destination_write_batch_def Let_def)
    then show ?thesis using k kb Inr by (auto simp: image_iff)
  next
    case (Inl e)
    show ?thesis
    proof (cases "is_unsupported_batch_write_error e")
      case True
      then have "publish_destination_write_jobs_one_by_one ops d1 jobs = (d', cs)"
        using p b False Inl by (auto simp: publish_destination_write_batch_def Let_def split: prod.splits)
      from one_by_one_accounts [OF c this] k show ?thesis by blast
    next
      case err: False
      then have "d' = d1" "cs = map (\<lambda>job. completion_of job (Err (show_store_error ops e))) jobs"
        using p b False Inl by (auto simp: publish_destination_write_batch_def Let_def)
      then show ?thesis using k by (auto simp: failed_ids_of_def completion_of_def image_iff)
    qed
  qed
qed

section \<open>What each thread has in hand\<close>

fun approaching :: "traversal \<Rightarrow> block_hash set" where
  "approaching (TNote r b) = {b}"
| "approaching (TVisit r b) = {b}"
| "approaching _ = {}"

fun noting :: "traversal \<Rightarrow> (block_hash \<times> block_hash) set" where
  "noting (TNote r b) = {(r, b)}"
| "noting _ = {}"

fun expanding :: "traversal \<Rightarrow> block_hash set" where
  "expanding (TRead r b) = {b}"
| "expanding (TDecode r b bs) = {b}"
| "expanding (TChildren r b bs cs) = {b}"
| "expanding _ = {}"

fun carrying :: "traversal \<Rightarrow> block_hash set" where
  "carrying (TRead r b) = {b}"
| "carrying (TDecode r b bs) = {b}"
| "carrying (TChildren r b bs cs) = {b}"
| "carrying (TDestination b bs) = {b}"
| "carrying (TEnqueue job) = {job_block_id job}"
| "carrying (TEnqueueWait job) = {job_block_id job}"
| "carrying _ = {}"

fun publishing :: "writer \<Rightarrow> block_hash set" where
  "publishing (WPublish jobs len) = job_ids jobs"
| "publishing (WRecord cs n len) = failed_ids_of cs"
| "publishing _ = {}"

fun traversal_data_ok :: "('d, 'v) copy_env \<Rightarrow> copy_books \<Rightarrow> traversal \<Rightarrow> bool" where
  "traversal_data_ok env t (TDecode r b bs) = (env_source env b = Ok (Some bs))"
| "traversal_data_ok env t (TChildren r b bs cs) =
     (cs = children_of env b \<and> set cs \<subseteq> set (entries_of (discovered_children t) b))"
| "traversal_data_ok env t _ = True"

lemma wake_in_hand [simp]:
  "approaching (wake_traversal n pc) = approaching pc" "noting (wake_traversal n pc) = noting pc"
  "expanding (wake_traversal n pc) = expanding pc" "carrying (wake_traversal n pc) = carrying pc"
  "traversal_data_ok env t (wake_traversal n pc) = traversal_data_ok env t pc"
  by (cases "(n, pc)" rule: wake_traversal.cases; auto)+

lemma wake_publishing [simp]: "publishing (wake_writer n pc) = publishing pc"
  by (cases "(n, pc)" rule: wake_writer.cases) auto

definition over :: "('a \<Rightarrow> 'b set) \<Rightarrow> 'a list \<Rightarrow> 'b set" where
  "over f xs = (\<Union>x \<in> set xs. f x)"

lemma over_map: "(\<And>x. f (g x) = f x) \<Longrightarrow> over f (map g xs) = over f xs"
  by (simp add: over_def)

lemma over_update_old: "z \<in> over f xs \<Longrightarrow> z \<in> over f (xs[i := y]) \<or> z \<in> f (xs ! i)"
proof -
  assume "z \<in> over f xs"
  then obtain j where j: "j < length xs" "z \<in> f (xs ! j)" by (auto simp: over_def in_set_conv_nth)
  show ?thesis
  proof (cases "j = i")
    case False
    then have "xs[i := y] ! j = xs ! j" by simp
    then show ?thesis using j by (auto simp: over_def) (metis length_list_update nth_mem)
  qed (use j in simp)
qed

lemma over_update_new: "i < length xs \<Longrightarrow> f y \<subseteq> over f (xs[i := y])"
  by (auto simp: over_def) (metis set_update_memI)

lemma over_empty: "\<forall>x \<in> set xs. f x = {} \<Longrightarrow> over f xs = {}"
  by (simp add: over_def)

section \<open>The coverage invariant\<close>

definition due :: "'d shared \<Rightarrow> traversal list \<Rightarrow> block_hash set" where
  "due sh ts = snd ` set (work_items (sh_work sh)) \<union> over approaching ts \<union> set (sh_visited sh)"

definition accounted :: "('d, 'v) copy_env \<Rightarrow> 'd shared \<Rightarrow> block_hash set" where
  "accounted env sh = job_ids (write_items (sh_write sh)) \<union>
     {b. entries_of (failure_templates (sh_books sh)) b \<noteq> []} \<union>
     {b. present (env_dest env) (sh_dest sh) b}"

definition phases_ok :: "'d shared \<Rightarrow> traversal list \<Rightarrow> joiner \<Rightarrow> bool" where
  "phases_ok sh ts j \<longleftrightarrow>
     (work_shutdown (sh_work sh) \<longrightarrow> work_items (sh_work sh) = [] \<and> active_workers (sh_work sh) = 0) \<and>
     (write_shutdown (sh_write sh) \<longrightarrow> producers_finished (sh_write sh) \<and> write_items (sh_write sh) = []) \<and>
     (producers_finished (sh_write sh) \<longrightarrow> j \<noteq> JTraversals) \<and>
     (TDone \<in> set ts \<longrightarrow> work_shutdown (sh_work sh)) \<and> ts \<noteq> []"

definition expanded :: "('d, 'v) copy_env \<Rightarrow> 'd shared \<Rightarrow> traversal list \<Rightarrow> block_hash \<Rightarrow> bool" where
  "expanded env sh ts b \<longleftrightarrow> set (children_of env b) \<subseteq> due sh ts \<and>
     set (children_of env b) \<subseteq> set (entries_of (discovered_children (sh_books sh)) b)"

definition coverage_ok ::
  "('d, 'v) copy_env \<Rightarrow> 'd shared \<Rightarrow> traversal list \<Rightarrow> writer list \<Rightarrow> joiner \<Rightarrow> bool" where
  "coverage_ok env sh ts ws j \<longleftrightarrow>
     phases_ok sh ts j \<and>
     set (env_roots env) \<subseteq> due sh ts \<and>
     (\<forall>r \<in> set (env_roots env). (r, r) \<in> set (work_items (sh_work sh)) \<union> over noting ts \<or>
        r \<in> known_roots (sh_books sh) r) \<and>
     (\<forall>b \<in> set (sh_visited sh). b \<in> over expanding ts \<or> expanded env sh ts b) \<and>
     (\<forall>b \<in> set (sh_visited sh). b \<in> over carrying ts \<union> over publishing ws \<union> accounted env sh) \<and>
     (\<forall>pc \<in> set ts. traversal_data_ok env (sh_books sh) pc)"

end
