(* ===== verification/Copy_Complete.thy ===== *)
theory Copy_Complete
  imports Copy_Coverage
begin

text \<open>
  The multi-threaded copy leaves nothing behind: the coverage invariant is kept by every step,
  and what it says of the final state.
\<close>

section \<open>One traversal step\<close>

text \<open>What a step hands over: nothing that was due, in hand or accounted for is lost.\<close>

definition handed_over ::
  "('d, 'v) copy_env \<Rightarrow> traversal \<Rightarrow> 'd shared \<Rightarrow> traversal \<Rightarrow> 'd shared \<Rightarrow> bool" where
  "handed_over env pc sh pc' sh' \<longleftrightarrow>
     snd ` set (work_items (sh_work sh)) \<union> approaching pc \<union> set (sh_visited sh) \<subseteq>
       snd ` set (work_items (sh_work sh')) \<union> approaching pc' \<union> set (sh_visited sh') \<and>
     (\<forall>r. (r, r) \<in> set (work_items (sh_work sh)) \<union> noting pc \<longrightarrow>
        (r, r) \<in> set (work_items (sh_work sh')) \<union> noting pc' \<or> r \<in> known_roots (sh_books sh') r) \<and>
     set (sh_visited sh') \<subseteq> set (sh_visited sh) \<union> (expanding pc' \<inter> carrying pc') \<and>
     (\<forall>b \<in> expanding pc. b \<in> expanding pc' \<or>
        set (children_of env b) \<subseteq> snd ` set (work_items (sh_work sh')) \<and>
        set (children_of env b) \<subseteq> set (entries_of (discovered_children (sh_books sh')) b)) \<and>
     carrying pc \<subseteq> carrying pc' \<union> accounted env sh' \<and>
     accounted env sh \<subseteq> accounted env sh' \<and>
     traversal_data_ok env (sh_books sh') pc' \<and>
     (\<forall>b. set (children_of env b) \<subseteq> set (entries_of (discovered_children (sh_books sh)) b) \<longrightarrow>
        set (children_of env b) \<subseteq> set (entries_of (discovered_children (sh_books sh')) b)) \<and>
     books_ok (env_disp env) (sh_books sh') \<and> books_grow (sh_books sh) (sh_books sh')"

lemma accounted_mono:
  assumes "books_grow (sh_books sh) (sh_books sh')" and "sh_dest sh' = sh_dest sh"
    and "set (write_items (sh_write sh)) \<subseteq> set (write_items (sh_write sh'))"
  shows "accounted env sh \<subseteq> accounted env sh'"
  using assms by (auto simp: accounted_def books_grow_def)

lemma env_record_books:
  assumes "copy_contract env" and "books_ok (env_disp env) (sh_books sh)"
  shows "books_ok (env_disp env) (sh_books (env_record env b oper m sh))"
    "books_grow (sh_books sh) (sh_books (env_record env b oper m sh))"
    "b \<in> accounted env (env_record env b oper m sh)"
    "discovered_children (sh_books (env_record env b oper m sh)) = discovered_children (sh_books sh)"
  using record_failure_books [OF assms(2) contract_iter(1) [OF assms(1)], of b oper m]
  by (simp_all add: env_record_def accounted_def)

lemma handed_over_quiet:
  assumes "sh_work sh' = sh_work sh" "sh_write sh' = sh_write sh" "sh_visited sh' = sh_visited sh"
    "sh_dest sh' = sh_dest sh"
    and "books_ok (env_disp env) (sh_books sh')" "books_grow (sh_books sh) (sh_books sh')"
    and "\<And>b. set (children_of env b) \<subseteq> set (entries_of (discovered_children (sh_books sh)) b) \<Longrightarrow>
      set (children_of env b) \<subseteq> set (entries_of (discovered_children (sh_books sh')) b)"
    and "approaching pc \<subseteq> approaching pc'" "noting pc \<subseteq> noting pc'"
    and "\<And>b. b \<in> expanding pc \<Longrightarrow> b \<in> expanding pc' \<or> children_of env b = []"
    and "carrying pc \<subseteq> carrying pc' \<union> accounted env sh'" and "traversal_data_ok env (sh_books sh') pc'"
  shows "handed_over env pc sh pc' sh'"
proof -
  have "accounted env sh \<subseteq> accounted env sh'" using accounted_mono [of sh sh' env] assms(2,4,6) by simp
  moreover have "\<forall>r. (r, r) \<in> set (work_items (sh_work sh)) \<union> noting pc \<longrightarrow>
      (r, r) \<in> set (work_items (sh_work sh')) \<union> noting pc' \<or> r \<in> known_roots (sh_books sh') r"
    using assms(1,9) by auto
  moreover have "\<forall>b \<in> expanding pc. b \<in> expanding pc' \<or>
      set (children_of env b) \<subseteq> snd ` set (work_items (sh_work sh')) \<and>
      set (children_of env b) \<subseteq> set (entries_of (discovered_children (sh_books sh')) b)"
    using assms(10) by (metis empty_set empty_subsetI)
  ultimately show ?thesis
    unfolding handed_over_def using assms(1,3,5-8,11,12) by (simp add: subset_iff)
qed

lemma read_step_hands_over:
  assumes c: "copy_contract env" and ok: "books_ok (env_disp env) (sh_books sh)"
    and r: "read_source_block_threaded env b sh = (sh', res)"
  shows "handed_over env (TRead root b) sh (case res of Some bs \<Rightarrow> TDecode root b bs | None \<Rightarrow> TFinish) sh'"
proof -
  let ?sh = "sh\<lparr>sh_books := note_read_source_block (sh_books sh)\<rparr>"
  have ok1: "books_ok (env_disp env) (sh_books ?sh)" using ok by simp
  have g1: "books_grow (sh_books sh) (sh_books ?sh)" by simp
  note rec = env_record_books [OF c ok1, of b ReadSourceBlock]
  note fr = read_source_frame [OF r]
  consider (found) bs where "env_source env b = Ok (Some bs)" "res = Some bs" "sh' = ?sh"
    | (missing) m where "res = None" "sh' = env_record env b ReadSourceBlock m ?sh" "children_of env b = []"
    using r by (auto simp: read_source_block_threaded_def Let_def children_of_def split: sum.splits option.splits)
  then show ?thesis
  proof cases
    case found
    then show ?thesis using ok1 fr by (intro handed_over_quiet) auto
  next
    case missing
    then show ?thesis using rec [of m] fr books_grow_trans [OF g1]
      by (intro handed_over_quiet) auto
  qed
qed

lemma decode_step_hands_over:
  assumes c: "copy_contract env" and ok: "books_ok (env_disp env) (sh_books sh)"
    and src: "env_source env b = Ok (Some bs)" and d: "decode_and_remember env b bs sh = (sh', cs)"
  shows "handed_over env (TDecode root b bs) sh (TChildren root b bs cs) sh'"
proof -
  let ?disp = "env_disp env" and ?iter = "env_iter env"
  obtain t where t: "decode_source_block (env_codec env) ?disp ?iter b bs (sh_books sh) = (t, cs)"
    and sh': "sh' = sh\<lparr>sh_books := remember_children ?disp ?iter b cs t\<rparr>"
    using d by (auto simp: decode_and_remember_def split: prod.splits)
  have t1: "books_ok ?disp t \<and> books_grow (sh_books sh) t \<and>
      discovered_children t = discovered_children (sh_books sh) \<and> cs = children_of env b"
    using t src ok record_failure_books [OF ok contract_iter(1) [OF c]]
    by (auto simp: decode_source_block_def children_of_def split: sum.splits)
  then have tok: "books_ok ?disp t" by blast
  note rem = remember_children_books [where iter = ?iter, OF tok contract_iter(2) [OF c], of b cs]
  show ?thesis
    unfolding sh'
  proof (rule handed_over_quiet)
    show "books_grow (sh_books sh) (sh_books (sh\<lparr>sh_books := remember_children ?disp ?iter b cs t\<rparr>))"
      using books_grow_trans [OF conjunct1 [OF conjunct2 [OF t1]] rem(2)] by simp
  qed (use t1 rem in \<open>auto split: if_splits\<close>)
qed

lemma destination_step_hands_over:
  assumes c: "copy_contract env" and ok: "books_ok (env_disp env) (sh_books sh)"
    and ns: "\<not> sh_stop sh" and d: "destination_step env b bs sh = (pc, sh')"
  shows "handed_over env (TDestination b bs) sh pc sh'"
proof -
  note fr = destination_step_frame [OF d]
  have enqueue: ?thesis if "pc = TEnqueue job" "job_block_id job = b" "sh' = sh" for job
    using that ok by (intro handed_over_quiet) simp_all
  have skip: ?thesis
    if e: "pc = TFinish" "sh' = sh\<lparr>sh_books := note_skipped_already_present_block (sh_books sh)\<rparr>"
      and p: "present (env_dest env) (sh_dest sh) b"
  proof -
    have "b \<in> accounted env sh'" using p e(2) by (simp add: accounted_def)
    then show ?thesis using e ok by (intro handed_over_quiet) simp_all
  qed
  have err: ?thesis if e: "pc = TFinish" "sh' = env_record env b CheckDestinationBlock m sh" for m
    using env_record_books [OF c ok, of b CheckDestinationBlock m] e by (intro handed_over_quiet) simp_all
  show ?thesis
  proof (cases "env_mode env")
    case ReadBeforeWrite
    show ?thesis
    proof (cases "dest_get (env_dest env) (sh_dest sh) b")
      case (Inl e)
      then have "pc = TFinish" "sh' = env_record env b CheckDestinationBlock (store_error_text env e) sh"
        using d ns ReadBeforeWrite by (simp_all add: destination_step_def)
      then show ?thesis by (rule err)
    next
      case (Inr found)
      show ?thesis
      proof (cases found)
        case None
        let ?job = "\<lparr>job_block_id = b, job_block_bytes = bs, count_as_copied = True\<rparr>"
        have "pc = TEnqueue ?job" "sh' = sh"
          using Inr None d ns ReadBeforeWrite by (auto simp: destination_step_def)
        then show ?thesis using enqueue [of ?job] by simp
      next
        case (Some x)
        have "pc = TFinish" "sh' = sh\<lparr>sh_books := note_skipped_already_present_block (sh_books sh)\<rparr>"
          "present (env_dest env) (sh_dest sh) b"
          using Inr Some d ns ReadBeforeWrite by (auto simp: destination_step_def present_def)
        then show ?thesis by (rule skip)
      qed
    qed
  next
    case BlindWrite
    let ?job = "\<lparr>job_block_id = b, job_block_bytes = bs, count_as_copied = False\<rparr>"
    have "pc = TEnqueue ?job" "sh' = sh" using BlindWrite d by (auto simp: destination_step_def)
    then show ?thesis using enqueue [of ?job] by simp
  qed
qed

lemma pop_step_hands_over:
  assumes ok: "books_ok (env_disp env) (sh_books sh)" and ns: "\<not> sh_stop sh"
    and step: "traversal_step env TPop sh = Some (pc, n, sh')"
  shows "handed_over env TPop sh pc sh'"
proof -
  consider (wait) "pc = TPopWait" "sh' = sh"
    | (stop) "pc = TDone" "sh' = sh\<lparr>sh_work := (sh_work sh)\<lparr>work_shutdown := True\<rparr>\<rparr>"
    | (item) r b rest where "pc = TNote r b" "work_items (sh_work sh) = (r, b) # rest"
        "sh' = sh\<lparr>sh_work := (sh_work sh)\<lparr>work_items := rest, active_workers := active_workers (sh_work sh) + 1\<rparr>\<rparr>"
    using step ns by (auto simp: work_pop_def split: if_splits list.splits)
  then show ?thesis
  proof cases
    case wait
    then show ?thesis using ok by (intro handed_over_quiet) simp_all
  next
    case stop
    then show ?thesis using ok by (simp add: handed_over_def accounted_def)
  next
    case item
    then show ?thesis using ok by (auto simp: handed_over_def accounted_def)
  qed
qed

lemma note_step_hands_over:
  assumes "books_ok (env_disp env) (sh_books sh)"
  shows "handed_over env (TNote r b) sh (TVisit r b)
    (sh\<lparr>sh_books := note_block_root (env_disp env) r b (sh_books sh)\<rparr>)"
proof -
  let ?sh = "sh\<lparr>sh_books := note_block_root (env_disp env) r b (sh_books sh)\<rparr>"
  note n = note_block_root_books [OF assms, of r b]
  have "accounted env sh \<subseteq> accounted env ?sh" by (rule accounted_mono) (simp_all add: n)
  then show ?thesis using n by (auto simp: handed_over_def)
qed

lemma visit_step_hands_over:
  assumes ok: "books_ok (env_disp env) (sh_books sh)"
    and step: "traversal_step env (TVisit r b) sh = Some (pc, n, sh')"
  shows "handed_over env (TVisit r b) sh pc sh'"
proof (cases "b \<in> set (sh_visited sh)")
  case True
  then show ?thesis using step ok by (auto simp: handed_over_def)
next
  case False
  then show ?thesis using step ok by (auto simp: handed_over_def accounted_def)
qed

lemma children_step_hands_over:
  assumes ok: "books_ok (env_disp env) (sh_books sh)" and ns: "\<not> sh_stop sh" "\<not> work_shutdown (sh_work sh)"
    and d: "traversal_data_ok env (sh_books sh) (TChildren r b bs cs)"
  shows "handed_over env (TChildren r b bs cs) sh (TDestination b bs)
    (sh\<lparr>sh_work := work_enqueue_children (sh_stop sh) r cs (sh_work sh)\<rparr>)"
proof -
  let ?q = "work_enqueue_children (sh_stop sh) r cs (sh_work sh)"
  have "work_items ?q = work_items (sh_work sh) @ map (\<lambda>c. (r, c)) cs"
    using ns by (simp add: work_enqueue_children_def enqueue_children_def)
  then have "snd ` set (work_items ?q) = snd ` set (work_items (sh_work sh)) \<union> set cs"
    "set (work_items (sh_work sh)) \<subseteq> set (work_items ?q)"
    by (auto simp: image_Un image_image)
  then show ?thesis using ok d by (auto simp: handed_over_def accounted_def)
qed

lemma enqueue_step_hands_over:
  assumes ok: "books_ok (env_disp env) (sh_books sh)"
    and ns: "\<not> sh_stop sh" "\<not> write_shutdown (sh_write sh)"
    and step: "traversal_step env (TEnqueue job) sh = Some (pc, n, sh')"
  shows "handed_over env (TEnqueue job) sh pc sh'"
proof -
  obtain q r where e: "write_enqueue (env_limits env) job (env_mode env) (sh_stop sh) (sh_write sh) = (q, r)"
    by fastforce
  show ?thesis
  proof (cases r)
    case (Return b)
    note w = write_enqueue_Return [OF e [unfolded Return]]
    have b: "b" "write_items q = write_items (sh_write sh) @ [job]" using w ns by auto
    then have "sh' = sh\<lparr>sh_write := q\<rparr>" "pc = TAttempted \<or> pc = TFinish"
      using step e Return by (auto split: if_splits)
    then show ?thesis using ok b by (auto simp: handed_over_def accounted_def)
  next
    case Wait
    then have "sh' = sh" "pc = TEnqueueWait job" using step e by auto
    then show ?thesis using ok by (intro handed_over_quiet) simp_all
  qed
qed

lemma finish_step_hands_over:
  assumes "books_ok (env_disp env) (sh_books sh)"
  shows "handed_over env TFinish sh TPop (sh\<lparr>sh_work := work_finish_item (sh_stop sh) (sh_work sh)\<rparr>)"
proof -
  have "work_items (work_finish_item (sh_stop sh) (sh_work sh)) = work_items (sh_work sh)"
    by (simp add: work_finish_item_def Let_def)
  then show ?thesis using assms by (simp add: handed_over_def accounted_def)
qed

lemma traversal_step_hands_over:
  assumes c: "copy_contract env" and ok: "books_ok (env_disp env) (sh_books sh)" and ns: "\<not> sh_stop sh"
    and step: "traversal_step env pc sh = Some (pc', n, sh')" and d: "traversal_data_ok env (sh_books sh) pc"
    and sd: "holds_item pc = 1 \<Longrightarrow> \<not> work_shutdown (sh_work sh) \<and> \<not> write_shutdown (sh_write sh)"
  shows "handed_over env pc sh pc' sh'"
proof (cases pc)
  case TPop
  then show ?thesis using pop_step_hands_over [OF ok ns] step by simp
next
  case (TNote r b)
  then show ?thesis using note_step_hands_over [OF ok, of r b] step by auto
next
  case (TVisit r b)
  then show ?thesis using visit_step_hands_over [OF ok] step by simp
next
  case (TRead r b)
  obtain sh1 res where rd: "read_source_block_threaded env b sh = (sh1, res)" by fastforce
  show ?thesis using read_step_hands_over [OF c ok rd, of r] step TRead rd by (cases res) simp_all
next
  case (TDecode r b bs)
  obtain sh1 cs where rd: "decode_and_remember env b bs sh = (sh1, cs)" by fastforce
  have "env_source env b = Ok (Some bs)" using d TDecode by simp
  from decode_step_hands_over [OF c ok this rd, of r] show ?thesis using step TDecode rd by simp
next
  case (TChildren r b bs cs)
  have "\<not> work_shutdown (sh_work sh)" using sd TChildren by simp
  from children_step_hands_over [OF ok ns this, of r b bs cs] show ?thesis
    using step TChildren d by auto
next
  case (TDestination b bs)
  obtain pc1 sh1 where rd: "destination_step env b bs sh = (pc1, sh1)" by fastforce
  show ?thesis using destination_step_hands_over [OF c ok ns rd] step TDestination rd by simp
next
  case (TEnqueue job)
  then have "\<not> write_shutdown (sh_write sh)" using sd by simp
  then show ?thesis using enqueue_step_hands_over [OF ok ns] step TEnqueue by blast
next
  case TAttempted
  then have "pc' = TFinish" "sh' = sh\<lparr>sh_books := note_attempted_write_block (sh_books sh)\<rparr>" using step by simp_all
  then show ?thesis using ok TAttempted by (intro handed_over_quiet) simp_all
next
  case TFinish
  then show ?thesis using finish_step_hands_over [OF ok] step by auto
qed (use step in simp_all)

section \<open>The invariant is kept\<close>

lemma due_wake [simp]: "due sh (map (wake_traversal n) ts) = due sh ts"
  by (simp add: due_def over_map)

lemma expanded_wake [simp]: "expanded env sh (map (wake_traversal n) ts) b = expanded env sh ts b"
  by (simp add: expanded_def)

lemma phases_wake: "phases_ok sh ts j \<Longrightarrow> phases_ok sh (map (wake_traversal n) ts) j"
proof -
  have "TDone \<in> wake_traversal n ` set ts \<longleftrightarrow> TDone \<in> set ts"
  proof
    assume "TDone \<in> wake_traversal n ` set ts"
    then obtain pc where pc: "pc \<in> set ts" "wake_traversal n pc = TDone" by auto
    have "pc = TDone" using pc(2) by (cases "(n, pc)" rule: wake_traversal.cases) auto
    then show "TDone \<in> set ts" using pc(1) by simp
  next
    assume "TDone \<in> set ts"
    then have "wake_traversal n TDone \<in> wake_traversal n ` set ts" by (rule imageI)
    then show "TDone \<in> wake_traversal n ` set ts" by simp
  qed
  then show "phases_ok sh ts j \<Longrightarrow> phases_ok sh (map (wake_traversal n) ts) j"
    by (simp add: phases_ok_def)
qed

lemma coverage_wake:
  assumes "coverage_ok env sh ts ws j"
  shows "coverage_ok env sh (map (wake_traversal n) ts) (map (wake_writer n) ws) j"
  using assms phases_wake [of sh ts j n]
  by (simp add: coverage_ok_def over_map)

lemma due_handed:
  assumes i: "i < length ts" and h: "handed_over env (ts ! i) sh pc sh'"
  shows "due sh ts \<subseteq> due sh' (ts[i := pc])"
proof
  fix b assume "b \<in> due sh ts"
  then consider "b \<in> over approaching (ts[i := pc])"
    | "b \<in> snd ` set (work_items (sh_work sh)) \<union> approaching (ts ! i) \<union> set (sh_visited sh)"
    using over_update_old [of b approaching ts i pc] by (auto simp: due_def)
  then show "b \<in> due sh' (ts[i := pc])"
  proof cases
    case 2
    then have "b \<in> snd ` set (work_items (sh_work sh')) \<union> approaching pc \<union> set (sh_visited sh')"
      using h unfolding handed_over_def by blast
    then show ?thesis using over_update_new [OF i, of approaching pc] by (auto simp: due_def)
  qed (simp add: due_def)
qed

lemma expanded_mono:
  assumes "expanded env sh ts b" and "due sh ts \<subseteq> due sh' ts'"
    and "set (children_of env b) \<subseteq> set (entries_of (discovered_children (sh_books sh)) b) \<Longrightarrow>
      set (children_of env b) \<subseteq> set (entries_of (discovered_children (sh_books sh')) b)"
  shows "expanded env sh' ts' b"
  using assms unfolding expanded_def by blast

lemma traversal_data_mono:
  assumes "traversal_data_ok env t pc"
    and "\<And>b. set (children_of env b) \<subseteq> set (entries_of (discovered_children t) b) \<Longrightarrow>
      set (children_of env b) \<subseteq> set (entries_of (discovered_children t') b)"
  shows "traversal_data_ok env t' pc"
  using assms by (cases pc) auto

definition phase_kept :: "'d shared \<Rightarrow> traversal \<Rightarrow> 'd shared \<Rightarrow> bool" where
  "phase_kept sh pc sh' \<longleftrightarrow>
     (work_shutdown (sh_work sh') \<longrightarrow> work_items (sh_work sh') = [] \<and> active_workers (sh_work sh') = 0) \<and>
     (pc = TDone \<longrightarrow> work_shutdown (sh_work sh')) \<and>
     (work_shutdown (sh_work sh) \<longrightarrow> work_shutdown (sh_work sh')) \<and>
     write_shutdown (sh_write sh') = write_shutdown (sh_write sh) \<and>
     producers_finished (sh_write sh') = producers_finished (sh_write sh) \<and>
     (write_shutdown (sh_write sh) \<longrightarrow> write_items (sh_write sh') = write_items (sh_write sh))"

lemma phase_kept_same:
  assumes "sh_work sh' = sh_work sh" "sh_write sh' = sh_write sh" "pc \<noteq> TDone"
    and "work_shutdown (sh_work sh) \<Longrightarrow> work_items (sh_work sh) = [] \<and> active_workers (sh_work sh) = 0"
  shows "phase_kept sh pc sh'"
  using assms by (simp add: phase_kept_def)

lemma traversal_step_phase:
  assumes step: "traversal_step env pc sh = Some (pc', n, sh')" and ns: "\<not> sh_stop sh"
    and ws: "work_shutdown (sh_work sh) \<Longrightarrow> work_items (sh_work sh) = [] \<and> active_workers (sh_work sh) = 0"
    and sd: "holds_item pc = 1 \<Longrightarrow> \<not> work_shutdown (sh_work sh) \<and> \<not> write_shutdown (sh_write sh)"
  shows "phase_kept sh pc' sh'"
proof (cases pc)
  case TPop
  then show ?thesis using step ns ws
    by (auto simp: work_pop_def phase_kept_def split: if_splits list.splits)
next
  case (TVisit r b)
  then show ?thesis using step ws by (intro phase_kept_same) (auto split: if_splits)
next
  case (TRead r b)
  obtain sh1 res where rd: "read_source_block_threaded env b sh = (sh1, res)" by fastforce
  have "sh' = sh1" "pc' \<noteq> TDone" using step TRead rd by (auto split: option.splits)
  then show ?thesis using read_source_frame [OF rd] ws by (intro phase_kept_same) simp_all
next
  case (TDecode r b bs)
  obtain sh1 cs where rd: "decode_and_remember env b bs sh = (sh1, cs)" by fastforce
  have "sh' = sh1" "pc' \<noteq> TDone" using step TDecode rd by auto
  then show ?thesis using decode_and_remember_frame [OF rd] ws by (intro phase_kept_same) simp_all
next
  case (TChildren r b bs cs)
  then show ?thesis using step sd by (auto simp: phase_kept_def work_enqueue_children_def)
next
  case (TDestination b bs)
  obtain pc1 sh1 where rd: "destination_step env b bs sh = (pc1, sh1)" by fastforce
  have "sh' = sh1" "pc' = pc1" using step TDestination rd by auto
  then show ?thesis using destination_step_frame [OF rd] ws by (intro phase_kept_same) auto
next
  case (TEnqueue job)
  obtain q r where e: "write_enqueue (env_limits env) job (env_mode env) (sh_stop sh) (sh_write sh) = (q, r)"
    by fastforce
  show ?thesis
  proof (cases r)
    case (Return b)
    have k: "write_shutdown q = write_shutdown (sh_write sh)" "producers_finished q = producers_finished (sh_write sh)"
      using write_enqueue_Return [OF e [unfolded Return]] by auto
    have "sh' = sh\<lparr>sh_write := q\<rparr> \<or> sh' = sh" "pc' \<noteq> TDone"
      using step TEnqueue e Return by (cases b; auto split: if_splits)+
    then show ?thesis using k ws sd TEnqueue by (auto simp: phase_kept_def)
  next
    case Wait
    then have "sh' = sh" "pc' \<noteq> TDone" using step TEnqueue e by auto
    then show ?thesis using ws by (intro phase_kept_same) simp_all
  qed
next
  case TFinish
  then show ?thesis using step ns ws sd by (auto simp: work_finish_item_def Let_def phase_kept_def)
qed (use step ws in \<open>auto intro: phase_kept_same\<close>)

lemma phases_traversal:
  assumes ph: "phases_ok sh ts j" and i: "i < length ts" and k: "phase_kept sh pc sh'"
  shows "phases_ok sh' (ts[i := pc]) j"
proof -
  have "TDone \<in> set (ts[i := pc]) \<Longrightarrow> TDone \<in> set ts \<or> pc = TDone"
    using set_update_subset_insert [of ts i pc] by auto
  then show ?thesis using ph k unfolding phases_ok_def phase_kept_def by auto
qed

lemma coverage_traversal:
  assumes c: "copy_contract env" and ok: "books_ok (env_disp env) (sh_books sh)" and ns: "\<not> sh_stop sh"
    and cov: "coverage_ok env sh ts ws j" and i: "i < length ts"
    and step: "traversal_step env (ts ! i) sh = Some (pc, n, sh')"
    and held: "holds_item (ts ! i) \<le> active_workers (sh_work sh)"
    and j: "j \<noteq> JTraversals \<Longrightarrow> ts ! i = TDone"
  shows "coverage_ok env sh' (ts[i := pc]) ws j"
proof -
  let ?ts = "ts[i := pc]"
  have ph: "phases_ok sh ts j" and d: "\<forall>pc \<in> set ts. traversal_data_ok env (sh_books sh) pc"
    using cov by (simp_all add: coverage_ok_def)
  have jt: "j = JTraversals" using j step by (cases "j = JTraversals") auto
  have sd: "\<not> work_shutdown (sh_work sh) \<and> \<not> write_shutdown (sh_write sh)" if "holds_item (ts ! i) = 1"
    using that held ph jt by (auto simp: phases_ok_def)
  have h: "handed_over env (ts ! i) sh pc sh'"
    by (rule traversal_step_hands_over [OF c ok ns step _ sd]) (use d i in auto)
  note H = h [unfolded handed_over_def]
  have pk: "phase_kept sh pc sh'"
    by (rule traversal_step_phase [OF step ns _ sd]) (use ph in \<open>simp add: phases_ok_def\<close>)
  have due: "due sh ts \<subseteq> due sh' ?ts" by (rule due_handed [OF i h])
  have roots: "\<forall>r \<in> set (env_roots env). (r, r) \<in> set (work_items (sh_work sh')) \<union> over noting ?ts \<or>
      r \<in> known_roots (sh_books sh') r"
  proof
    fix r assume "r \<in> set (env_roots env)"
    then consider "r \<in> known_roots (sh_books sh) r" | "(r, r) \<in> over noting ?ts"
      | "(r, r) \<in> set (work_items (sh_work sh)) \<union> noting (ts ! i)"
      using cov over_update_old [of "(r, r)" noting ts i pc] unfolding coverage_ok_def by blast
    then show "(r, r) \<in> set (work_items (sh_work sh')) \<union> over noting ?ts \<or> r \<in> known_roots (sh_books sh') r"
    proof cases
      case 1
      then show ?thesis using H unfolding books_grow_def by blast
    next
      case 3
      then show ?thesis using H over_update_new [OF i, of noting pc] by blast
    qed blast
  qed
  have exp: "\<forall>b \<in> set (sh_visited sh'). b \<in> over expanding ?ts \<or> expanded env sh' ?ts b"
  proof
    fix b assume b: "b \<in> set (sh_visited sh')"
    then consider "b \<in> expanding pc" | "b \<in> over expanding ts" | "expanded env sh ts b"
      using H cov unfolding coverage_ok_def by blast
    then show "b \<in> over expanding ?ts \<or> expanded env sh' ?ts b"
    proof cases
      case 1
      then show ?thesis using over_update_new [OF i, of expanding pc] by blast
    next
      case 2
      then consider "b \<in> over expanding ?ts" | "b \<in> expanding (ts ! i)"
        using over_update_old [of b expanding ts i pc] by blast
      then show ?thesis
      proof cases
        case 2
        then have "b \<in> expanding pc \<or> expanded env sh' ?ts b"
          using H unfolding expanded_def due_def by blast
        then show ?thesis using over_update_new [OF i, of expanding pc] by blast
      qed blast
    next
      case 3
      have "expanded env sh' ?ts b" by (rule expanded_mono [OF 3 due]) (use H in blast)
      then show ?thesis by blast
    qed
  qed
  have car: "\<forall>b \<in> set (sh_visited sh'). b \<in> over carrying ?ts \<union> over publishing ws \<union> accounted env sh'"
  proof
    fix b assume b: "b \<in> set (sh_visited sh')"
    then consider "b \<in> carrying pc" | "b \<in> over carrying ?ts" | "b \<in> carrying (ts ! i)"
      | "b \<in> over publishing ws \<union> accounted env sh"
      using H cov over_update_old [of b carrying ts i pc] unfolding coverage_ok_def by blast
    then show "b \<in> over carrying ?ts \<union> over publishing ws \<union> accounted env sh'"
      by cases (use H over_update_new [OF i, of carrying pc] in blast)+
  qed
  have data: "\<forall>x \<in> set ?ts. traversal_data_ok env (sh_books sh') x"
  proof
    fix x assume "x \<in> set ?ts"
    then consider "x = pc" | "x \<in> set ts" using set_update_subset_insert [of ts i pc] by blast
    then show "traversal_data_ok env (sh_books sh') x"
    proof cases
      case 2
      show ?thesis by (rule traversal_data_mono [of env "sh_books sh"]) (use d 2 H in blast)+
    qed (use H in blast)
  qed
  show ?thesis
    unfolding coverage_ok_def using phases_traversal [OF ph i pk] cov due roots exp car data
    unfolding coverage_ok_def by blast
qed

section \<open>Write workers keep the invariant\<close>

definition writes_handed :: "('d, 'v) copy_env \<Rightarrow> writer \<Rightarrow> 'd shared \<Rightarrow> writer \<Rightarrow> 'd shared \<Rightarrow> bool" where
  "writes_handed env pc sh pc' sh' \<longleftrightarrow>
     sh_work sh' = sh_work sh \<and> sh_visited sh' = sh_visited sh \<and>
     discovered_children (sh_books sh') = discovered_children (sh_books sh) \<and>
     publishing pc \<union> accounted env sh \<subseteq> publishing pc' \<union> accounted env sh' \<and>
     books_ok (env_disp env) (sh_books sh') \<and> books_grow (sh_books sh) (sh_books sh') \<and>
     (\<not> sh_stop sh' \<longrightarrow>
        (write_shutdown (sh_write sh') \<longrightarrow>
           producers_finished (sh_write sh') \<and> write_items (sh_write sh') = []) \<and>
        (producers_finished (sh_write sh') \<longrightarrow> producers_finished (sh_write sh)))"

lemma next_step_hands:
  assumes ok: "books_ok (env_disp env) (sh_books sh)" and ns: "\<not> sh_stop sh"
    and ph: "write_shutdown (sh_write sh) \<Longrightarrow> producers_finished (sh_write sh) \<and> write_items (sh_write sh) = []"
    and step: "writer_step env WNext sh = Some (pc, n, sh')"
  shows "writes_handed env WNext sh pc sh'"
proof -
  obtain q cap r where a: "write_next_action (env_limits env) (sh_stop sh) (sh_cap sh) (sh_write sh) = (q, cap, r)"
    by (metis prod_cases3)
  show ?thesis
  proof (cases r)
    case (Return act)
    show ?thesis
    proof (cases act)
      case (WriteBatch jobs len)
      note b = next_action_Batch [OF a [unfolded Return WriteBatch]]
      have "pc = WPublish jobs len" "sh' = sh\<lparr>sh_write := q, sh_cap := cap\<rparr>"
        using step a Return WriteBatch by simp_all
      then show ?thesis using b ok ph by (auto simp: writes_handed_def accounted_def)
    next
      case RunCheckpoint
      note b = next_action_Checkpoint [OF a [unfolded Return RunCheckpoint]]
      have "pc = WCheckpoint" "sh' = sh\<lparr>sh_write := q, sh_cap := cap\<rparr>"
        using step a Return RunCheckpoint by simp_all
      then show ?thesis using b ok ph by (auto simp: writes_handed_def accounted_def)
    next
      case Shutdown
      note b = next_action_Shutdown [OF a [unfolded Return Shutdown]]
      have "pc = WDone" "sh' = sh\<lparr>sh_write := q, sh_cap := cap\<rparr>"
        using step a Return Shutdown by simp_all
      then show ?thesis using b ok ph ns by (auto simp: writes_handed_def accounted_def)
    qed
  next
    case Wait
    then have "pc = WWait" "sh' = sh\<lparr>sh_cap := cap\<rparr>" using step a by simp_all
    then show ?thesis using ok ph by (simp add: writes_handed_def accounted_def)
  qed
qed

lemma record_step_hands:
  assumes c: "copy_contract env" and ok: "books_ok (env_disp env) (sh_books sh)"
    and ph: "write_shutdown (sh_write sh) \<Longrightarrow> producers_finished (sh_write sh) \<and> write_items (sh_write sh) = []"
  shows "writes_handed env (WRecord (x # cs) k len) sh (WRecord cs k len) (record_completion env x sh)"
proof (cases "completion_result x")
  case (Inl m)
  let ?sh = "env_record env (completion_block_id x) WriteDestinationBlock m sh"
  note e = env_record_books [OF c ok, of "completion_block_id x" WriteDestinationBlock m]
  have "record_completion env x sh = ?sh" using Inl by (simp add: record_completion_def)
  moreover have "accounted env sh \<subseteq> accounted env ?sh" by (rule accounted_mono) (simp_all add: e)
  moreover have "failed_ids_of (x # cs) = insert (completion_block_id x) (failed_ids_of cs)"
    using Inl by (simp add: failed_ids_of_def)
  ultimately show ?thesis using e ph by (auto simp: writes_handed_def)
next
  case (Inr u)
  let ?sh = "record_completion env x sh"
  have "sh_books ?sh = sh_books sh \<or> sh_books ?sh = note_copied_block (sh_books sh)"
    using Inr by (simp add: record_completion_def)
  then have b: "books_ok (env_disp env) (sh_books ?sh)" "books_grow (sh_books sh) (sh_books ?sh)"
    "discovered_children (sh_books ?sh) = discovered_children (sh_books sh)"
    using ok by auto
  have "accounted env sh \<subseteq> accounted env ?sh" by (rule accounted_mono) (simp_all add: b)
  moreover have "failed_ids_of (x # cs) = failed_ids_of cs" using Inr by (simp add: failed_ids_of_def)
  ultimately show ?thesis using b ph by (auto simp: writes_handed_def)
qed

lemma writer_step_hands:
  assumes c: "copy_contract env" and ok: "books_ok (env_disp env) (sh_books sh)" and ns: "\<not> sh_stop sh"
    and ph: "write_shutdown (sh_write sh) \<Longrightarrow> producers_finished (sh_write sh) \<and> write_items (sh_write sh) = []"
    and step: "writer_step env pc sh = Some (pc', n, sh')"
    and nf: "pc \<noteq> WFailCheckpoint"
  shows "writes_handed env pc sh pc' sh'"
proof (cases pc)
  case WNext
  then show ?thesis using next_step_hands [OF ok ns ph] step by simp
next
  case (WPublish jobs len)
  obtain d cap cs where p: "publish_destination_write_batch (env_dest env) (sh_dest sh) (sh_cap sh) jobs = (d, cap, cs)"
    by (metis prod_cases3)
  have e: "pc' = WRecord cs (length jobs) len" "sh' = sh\<lparr>sh_dest := d, sh_cap := cap\<rparr>"
    using step WPublish p by simp_all
  have "destination_contract (env_dest env)" using c by (simp add: copy_contract_def)
  note a = publish_accounts [OF this p]
  show ?thesis using a e WPublish ok ph by (auto simp: writes_handed_def accounted_def)
next
  case (WRecord cs k len)
  show ?thesis
  proof (cases cs)
    case Nil
    then have e: "pc' = WNext" "sh' = sh\<lparr>sh_write := complete_write_batch k len (sh_write sh)\<rparr>"
      using step WRecord by simp_all
    show ?thesis using e WRecord Nil ok ph
      by (simp add: writes_handed_def accounted_def complete_write_batch_def failed_ids_of_def)
  next
    case (Cons x xs)
    then have "pc' = WRecord xs k len" "sh' = record_completion env x sh" using step WRecord by simp_all
    then show ?thesis using record_step_hands [OF c ok ph] WRecord Cons by simp
  qed
next
  case WCheckpoint
  obtain d r where a: "env_checkpoint_action env (sh_dest sh) = (d, r)" by fastforce
  have keep: "\<forall>b. present (env_dest env) (sh_dest sh) b \<longrightarrow> present (env_dest env) d b"
    using c a unfolding copy_contract_def by blast
  show ?thesis
  proof (cases r)
    case (Inr u)
    then have "pc' = WNext" "sh' = sh\<lparr>sh_dest := d, sh_write := finish_checkpoint (sh_write sh)\<rparr>"
      using step WCheckpoint a by simp_all
    then show ?thesis using keep WCheckpoint ok ph
      by (auto simp: writes_handed_def accounted_def finish_checkpoint_def)
  next
    case (Inl e)
    let ?t = "record_store_failure (env_disp env) (env_roots env) CompactDestinationStore
      (store_error_text env e) (sh_books sh)"
    have e: "pc' = WFailCheckpoint" "sh' = sh\<lparr>sh_dest := d, sh_stop := True, sh_books := ?t\<rparr>"
      using step WCheckpoint a Inl by simp_all
    note b = record_store_failure_books [OF ok, of "env_roots env" CompactDestinationStore "store_error_text env e"]
    have "{x. entries_of (failure_templates (sh_books sh)) x \<noteq> []} \<subseteq> {x. entries_of (failure_templates ?t) x \<noteq> []}"
      using b(2) by (auto simp: books_grow_def)
    then show ?thesis using b keep WCheckpoint by (auto simp: e writes_handed_def accounted_def)
  qed
qed (use step nf in simp_all)

lemma coverage_writer:
  assumes cov: "coverage_ok env sh ts ws j" and i: "i < length ws" and ns: "\<not> sh_stop sh'"
    and h: "writes_handed env (ws ! i) sh pc sh'"
  shows "coverage_ok env sh' ts (ws[i := pc]) j"
proof -
  note H = h [unfolded writes_handed_def]
  have due: "due sh' ts = due sh ts" using H by (simp add: due_def)
  have exp: "expanded env sh' ts b = expanded env sh ts b" for b using H by (simp add: expanded_def due)
  have data: "traversal_data_ok env (sh_books sh') x = traversal_data_ok env (sh_books sh) x" for x
    using H by (cases x) simp_all
  have "phases_ok sh' ts j" using cov H ns unfolding coverage_ok_def phases_ok_def by auto
  moreover have "\<forall>b \<in> set (sh_visited sh'). b \<in> over carrying ts \<union> over publishing (ws[i := pc]) \<union> accounted env sh'"
  proof
    fix b assume "b \<in> set (sh_visited sh')"
    then have "b \<in> set (sh_visited sh)" using H by simp
    then have "b \<in> over carrying ts \<union> over publishing ws \<union> accounted env sh"
      using cov unfolding coverage_ok_def by blast
    then consider "b \<in> over carrying ts" | "b \<in> over publishing (ws[i := pc])"
      | "b \<in> publishing (ws ! i) \<union> accounted env sh"
      using over_update_old [of b publishing ws i pc] by blast
    then show "b \<in> over carrying ts \<union> over publishing (ws[i := pc]) \<union> accounted env sh'"
      by cases (use H over_update_new [OF i, of publishing pc] in blast)+
  qed
  moreover have "r \<in> known_roots (sh_books sh) r \<Longrightarrow> r \<in> known_roots (sh_books sh') r" for r
    using H unfolding books_grow_def by blast
  ultimately show ?thesis using cov H unfolding coverage_ok_def due exp data by auto
qed

section \<open>Every reachable state is covered\<close>

definition covered_ok :: "('d, 'v) copy_env \<Rightarrow> 'd copy_system \<Rightarrow> bool" where
  "covered_ok env s \<longleftrightarrow> system_ok env s \<and>
     (sh_stop (shared_state s) \<or>
        books_ok (env_disp env) (sh_books (shared_state s)) \<and>
        coverage_ok env (shared_state s) (traversals s) (writers s) (joiner_pc s) \<and>
        WFailCheckpoint \<notin> set (writers s) \<and> poller_pc s = PPoll)"

lemma fail_checkpoint_wake [simp]: "WFailCheckpoint \<in> wake_writer n ` B \<longleftrightarrow> WFailCheckpoint \<in> B"
proof -
  have "wake_writer n pc = WFailCheckpoint \<longleftrightarrow> pc = WFailCheckpoint" for pc
    by (cases "(n, pc)" rule: wake_writer.cases) auto
  then show ?thesis unfolding image_iff by metis
qed

lemma covered_start: "copy_started env s \<Longrightarrow> covered_ok env s"
proof -
  assume st: "copy_started env s"
  then obtain p n d where s: "s = copy_system_start env p n d" by (auto simp: copy_started_def)
  have "coverage_ok env (shared_state s) (traversals s) (writers s) (joiner_pc s)"
    by (auto simp: s copy_system_start_def coverage_ok_def phases_ok_def work_queue_new_def write_queue_new_def
        due_def image_image)
  then show ?thesis using system_ok_start [OF st] books_ok_new
    by (simp add: covered_ok_def s copy_system_start_def)
qed

lemma writer_fail_stops: "writer_step env pc sh = Some (WFailCheckpoint, n, sh') \<Longrightarrow> sh_stop sh'"
proof (cases pc)
  case WNext
  assume s: "writer_step env pc sh = Some (WFailCheckpoint, n, sh')"
  obtain q cap r where a: "write_next_action (env_limits env) (sh_stop sh) (sh_cap sh) (sh_write sh) = (q, cap, r)"
    by (metis prod_cases3)
  show ?thesis
  proof (cases r)
    case (Return act)
    then show ?thesis using s WNext a by (cases act) simp_all
  next
    case Wait
    then show ?thesis using s WNext a by simp
  qed
next
  case (WRecord cs k len)
  assume "writer_step env pc sh = Some (WFailCheckpoint, n, sh')"
  then show ?thesis using WRecord by (cases cs) simp_all
qed (auto split: prod.splits sum.splits)

lemma covered_traversal:
  assumes c: "copy_contract env" and ok: "covered_ok env s" and i: "i < length (traversals s)"
    and step: "traversal_step env (traversals s ! i) (shared_state s) = Some (pc, n, sh)"
    and ns: "\<not> sh_stop sh"
  shows "books_ok (env_disp env) (sh_books sh) \<and>
    coverage_ok env sh ((traversals s)[i := pc]) (writers s) (joiner_pc s) \<and>
    WFailCheckpoint \<notin> set (writers s) \<and> poller_pc s = PPoll"
proof -
  let ?sh = "shared_state s" and ?ts = "traversals s"
  have ns0: "\<not> sh_stop ?sh" using traversal_step_quiet [OF step] ns by simp
  have b: "books_ok (env_disp env) (sh_books ?sh)" and cov: "coverage_ok env ?sh ?ts (writers s) (joiner_pc s)"
    and f: "WFailCheckpoint \<notin> set (writers s)" "poller_pc s = PPoll"
    using ok ns0 by (auto simp: covered_ok_def)
  have cnt: "counts_ok env ?sh ?ts (writers s)" and w: "waits_ok env ?sh ?ts (writers s) (joiner_pc s)"
    using ok by (simp_all add: covered_ok_def system_ok_def)
  have held: "holds_item (?ts ! i) \<le> active_workers (sh_work ?sh)"
    using cnt total_over_member [of "?ts ! i" ?ts holds_item] i by (simp add: counts_ok_def)
  have j: "joiner_pc s \<noteq> JTraversals \<Longrightarrow> ?ts ! i = TDone" using w i by (simp add: waits_ok_def)
  have jt: "joiner_pc s = JTraversals" using j step by (cases "joiner_pc s = JTraversals") auto
  have sd: "\<not> work_shutdown (sh_work ?sh) \<and> \<not> write_shutdown (sh_write ?sh)" if "holds_item (?ts ! i) = 1"
    using that held cov jt by (auto simp: coverage_ok_def phases_ok_def)
  have d: "traversal_data_ok env (sh_books ?sh) (?ts ! i)" using cov i by (simp add: coverage_ok_def)
  have "handed_over env (?ts ! i) ?sh pc sh" by (rule traversal_step_hands_over [OF c b ns0 step d sd])
  then have "books_ok (env_disp env) (sh_books sh)" by (simp add: handed_over_def)
  then show ?thesis using coverage_traversal [OF c b ns0 cov i step held j] f by blast
qed

lemma covered_writer:
  assumes c: "copy_contract env" and ok: "covered_ok env s" and i: "i < length (writers s)"
    and step: "writer_step env (writers s ! i) (shared_state s) = Some (pc, n, sh)"
    and ns: "\<not> sh_stop sh"
  shows "books_ok (env_disp env) (sh_books sh) \<and>
    coverage_ok env sh (traversals s) ((writers s)[i := pc]) (joiner_pc s) \<and>
    WFailCheckpoint \<notin> set ((writers s)[i := pc]) \<and> poller_pc s = PPoll"
proof -
  let ?sh = "shared_state s" and ?ws = "writers s"
  have wq: "write_queue_ok (env_limits env) (sh_write ?sh)"
    using ok by (simp add: covered_ok_def system_ok_def counts_ok_def)
  have ns0: "\<not> sh_stop ?sh" using writer_step_quiet [OF step wq] ns by blast
  have b: "books_ok (env_disp env) (sh_books ?sh)" and cov: "coverage_ok env ?sh (traversals s) ?ws (joiner_pc s)"
    and f: "WFailCheckpoint \<notin> set ?ws" "poller_pc s = PPoll"
    using ok ns0 by (auto simp: covered_ok_def)
  have h: "writes_handed env (?ws ! i) ?sh pc sh"
  proof (rule writer_step_hands [OF c b ns0 _ step])
    show "write_shutdown (sh_write ?sh) \<Longrightarrow> producers_finished (sh_write ?sh) \<and> write_items (sh_write ?sh) = []"
      using cov by (simp add: coverage_ok_def phases_ok_def)
    show "?ws ! i \<noteq> WFailCheckpoint" using f i nth_mem by metis
  qed
  have "pc \<noteq> WFailCheckpoint" using writer_fail_stops step ns by blast
  then have "WFailCheckpoint \<notin> set (?ws[i := pc])"
    using f set_update_subset_insert [of ?ws i pc] by auto
  moreover have "books_ok (env_disp env) (sh_books sh)" using h by (simp add: writes_handed_def)
  ultimately show ?thesis using coverage_writer [OF cov i ns h] f by blast
qed

lemma coverage_joined:
  assumes "coverage_ok env sh ts ws JTraversals"
  shows "coverage_ok env (sh\<lparr>sh_write := finish_producing False (sh_write sh)\<rparr>) ts ws JWriters"
proof -
  let ?sh = "sh\<lparr>sh_write := finish_producing False (sh_write sh)\<rparr>"
  have "due ?sh ts = due sh ts" by (simp add: due_def)
  moreover have "expanded env ?sh ts b = expanded env sh ts b" for b by (simp add: expanded_def due_def)
  moreover have "accounted env ?sh = accounted env sh" by (simp add: accounted_def finish_producing_def)
  ultimately show ?thesis using assms
    by (simp add: coverage_ok_def phases_ok_def finish_producing_def)
qed

lemma covered_thread_step:
  assumes c: "copy_contract env"
  shows "thread_step env s t \<Longrightarrow> covered_ok env s \<Longrightarrow> covered_ok env t"
proof (induction rule: thread_step.induct)
  case (traversal_moves i s pc n sh)
  let ?u = "s\<lparr>shared_state := sh, traversals := (traversals s)[i := pc]\<rparr>"
  have "system_ok env (notify n ?u)"
    using thread_step_ok [OF thread_step.traversal_moves [OF traversal_moves(1,2)]] traversal_moves(3)
    by (simp add: covered_ok_def)
  then show ?case
    using covered_traversal [OF c traversal_moves(3,1,2)] coverage_wake [of env sh "(traversals s)[i := pc]"]
    by (cases "sh_stop sh") (auto simp: covered_ok_def)
next
  case (writer_moves i s pc n sh)
  let ?u = "s\<lparr>shared_state := sh, writers := (writers s)[i := pc]\<rparr>"
  have "system_ok env (notify n ?u)"
    using thread_step_ok [OF thread_step.writer_moves [OF writer_moves(1,2)]] writer_moves(3)
    by (simp add: covered_ok_def)
  then show ?case
    using covered_writer [OF c writer_moves(3,1,2)] coverage_wake [of env sh "traversals s" "(writers s)[i := pc]"]
    by (cases "sh_stop sh") (auto simp: covered_ok_def)
next
  case (traversals_joined s sh)
  let ?sh = "sh\<lparr>sh_write := finish_producing (sh_stop sh) (sh_write sh)\<rparr>"
  have "system_ok env (notify NotifyWrite (s\<lparr>joiner_pc := JWriters, shared_state := ?sh\<rparr>))"
    using thread_step_ok [OF thread_step.traversals_joined [OF traversals_joined(1-3), of env]] traversals_joined(4)
    by (simp add: covered_ok_def)
  moreover have "coverage_ok env ?sh (traversals s) (writers s) JWriters" if "\<not> sh_stop sh"
    using traversals_joined that coverage_joined [of env sh "traversals s" "writers s"]
    by (auto simp: covered_ok_def)
  ultimately show ?case
    using traversals_joined coverage_wake [of env ?sh "traversals s" "writers s" JWriters NotifyWrite]
    by (cases "sh_stop sh") (auto simp: covered_ok_def)
next
  case (writers_joined s sh)
  have "system_ok env (s\<lparr>joiner_pc := JDone, shared_state := sh\<lparr>sh_stop := True\<rparr>\<rparr>)"
    using thread_step_ok [OF thread_step.writers_joined [OF writers_joined(1-3), of env]] writers_joined(4)
    by (simp add: covered_ok_def)
  then show ?case by (simp add: covered_ok_def)
next
  case (poller_moves s pc n sh)
  have "system_ok env (notify n (s\<lparr>shared_state := sh, poller_pc := pc\<rparr>))"
    using thread_step_ok [OF thread_step.poller_moves [OF poller_moves(1), of env]] poller_moves(2)
    by (simp add: covered_ok_def)
  moreover have "sh_stop sh"
    using poller_moves by (cases "poller_pc s") (auto simp: covered_ok_def split: if_splits)
  ultimately show ?case by (simp add: covered_ok_def)
qed


lemma set_update_same: "P y = P (xs ! i) \<Longrightarrow> (\<exists>x \<in> set (xs[i := y]). P x) = (\<exists>x \<in> set xs. P x)"
  by (induction xs arbitrary: i) (auto split: nat.splits)

lemma over_update_same: "f y = f (xs ! i) \<Longrightarrow> over f (xs[i := y]) = over f xs"
proof -
  assume "f y = f (xs ! i)"
  then have "(z \<in> over f (xs[i := y])) = (z \<in> over f xs)" for z
    using set_update_same [of "\<lambda>x. z \<in> f x" y xs i] by (simp add: over_def)
  then show ?thesis by blast
qed

lemma wake_final: "wake_traversal n pc = TDone \<longleftrightarrow> pc = TDone" "wake_writer n pw = WFailCheckpoint \<longleftrightarrow> pw = WFailCheckpoint"
  by (cases "(n, pc)" rule: wake_traversal.cases; simp) (cases "(n, pw)" rule: wake_writer.cases; simp)

lemma coverage_wake_one:
  assumes "coverage_ok env sh ts ws j"
  shows "coverage_ok env sh (ts[i := wake_traversal n (ts ! i)]) ws j"
    and "coverage_ok env sh ts (ws[i := wake_writer n (ws ! i)]) j"
proof -
  let ?ts = "ts[i := wake_traversal n (ts ! i)]"
  have "due sh ?ts = due sh ts" by (simp add: due_def over_update_same)
  moreover have "TDone \<in> set ?ts \<longleftrightarrow> TDone \<in> set ts"
    using set_update_same [of "\<lambda>pc. pc = TDone" "wake_traversal n (ts ! i)" ts i] wake_final(1) by auto
  moreover have "\<forall>pc \<in> set ?ts. traversal_data_ok env (sh_books sh) pc"
  proof
    fix pc assume "pc \<in> set ?ts"
    then have "pc \<in> set ts \<or> i < length ts \<and> pc = wake_traversal n (ts ! i)"
      using set_update_subset_insert [of ts i] by (cases "i < length ts") (auto simp: list_update_beyond not_less)
    then show "traversal_data_ok env (sh_books sh) pc"
      using assms by (auto simp: coverage_ok_def)
  qed
  ultimately show "coverage_ok env sh ?ts ws j" using assms
    by (simp add: coverage_ok_def phases_ok_def expanded_def over_update_same)
  show "coverage_ok env sh ts (ws[i := wake_writer n (ws ! i)]) j"
    using assms by (simp add: coverage_ok_def over_update_same)
qed

lemma covered_spurious:
  assumes "spurious_wakeup s t" and ok: "covered_ok env s"
  shows "covered_ok env t"
proof -
  have "system_ok env t" using spurious_ok [OF assms(1), of env] ok by (simp add: covered_ok_def)
  with assms show ?thesis
  proof (induction rule: spurious_wakeup.induct)
    case (1 s i n)
    then show ?case using coverage_wake_one(1) [of env "shared_state s" "traversals s"]
      by (auto simp: covered_ok_def)
  next
    case (2 s i n)
    have "WFailCheckpoint \<in> set ((writers s)[i := wake_writer n (writers s ! i)]) \<longleftrightarrow> WFailCheckpoint \<in> set (writers s)"
      using set_update_same [of "\<lambda>pc. pc = WFailCheckpoint" "wake_writer n (writers s ! i)" "writers s" i] wake_final(2)
      by auto
    then show ?case using 2 coverage_wake_one(2) [of env "shared_state s" "traversals s" "writers s" "joiner_pc s"]
      by (auto simp: covered_ok_def)
  qed
qed

lemma covered_interrupt:
  assumes "interrupt_seen s t" and ok: "covered_ok env s"
  shows "covered_ok env t"
proof -
  have "system_ok env t" using interrupt_ok [OF assms(1), of env] ok by (simp add: covered_ok_def)
  with assms show ?thesis
  proof (induction rule: interrupt_seen.induct)
    case (1 s pc n sh)
    have "sh_stop sh" using 1 by (cases "poller_pc s") (auto simp: covered_ok_def split: if_splits)
    then show ?case using 1 by (simp add: covered_ok_def)
  qed
qed

interpretation covered_machine: guarded_machine "copy_started env" "copy_step env"
    "\<lambda>s. copy_contract env \<longrightarrow> covered_ok env s"
  for env :: "('d, 'v) copy_env"
proof unfold_locales
  show "copy_contract env \<longrightarrow> covered_ok env s" if "copy_started env s" for s using covered_start [OF that] by simp
  show "copy_contract env \<longrightarrow> covered_ok env t"
    if "copy_contract env \<longrightarrow> covered_ok env s" and "copy_step env s t" for s t
    using that covered_thread_step covered_spurious covered_interrupt unfolding copy_step_def by blast
qed

section \<open>The finished copy\<close>

text \<open>
  The copy has succeeded when all traversal and write workers have returned and nobody has
  asked them to stop.
\<close>

definition copy_ran_through :: "'d copy_system \<Rightarrow> bool" where
  "copy_ran_through s \<longleftrightarrow> (\<forall>pc \<in> set (traversals s). pc = TDone) \<and> (\<forall>pc \<in> set (writers s). pc = WDone) \<and>
     \<not> sh_stop (shared_state s)"

definition settled :: "('d, 'v) copy_env \<Rightarrow> 'd shared \<Rightarrow> block_hash \<Rightarrow> block_hash \<Rightarrow> bool" where
  "settled env sh r b \<longleftrightarrow> present (env_dest env) (sh_dest sh) b \<or>
     (\<exists>f \<in> set (failures (sh_books sh)). failure_root_id f = env_disp env r \<and> failure_block_id f = env_disp env b)"

lemma finished_over:
  assumes "\<forall>pc \<in> set ts. pc = TDone" "\<forall>pc \<in> set ws. pc = WDone"
  shows "over approaching ts = {}" "over noting ts = {}" "over expanding ts = {}" "over carrying ts = {}"
    "over publishing ws = {}"
  using assms by (auto simp: over_def)

lemma finished_coverage:
  assumes ok: "covered_ok env s" and fin: "copy_ran_through s"
  shows "set (env_roots env) \<subseteq> set (sh_visited (shared_state s))"
    and "r \<in> set (env_roots env) \<Longrightarrow> r \<in> known_roots (sh_books (shared_state s)) r"
    and "b \<in> set (sh_visited (shared_state s)) \<Longrightarrow> expanded env (shared_state s) (traversals s) b"
    and "due (shared_state s) (traversals s) = set (sh_visited (shared_state s))"
    and "b \<in> set (sh_visited (shared_state s)) \<Longrightarrow> present (env_dest env) (sh_dest (shared_state s)) b \<or>
      entries_of (failure_templates (sh_books (shared_state s))) b \<noteq> []"
    and "books_ok (env_disp env) (sh_books (shared_state s))"
proof -
  let ?sh = "shared_state s" and ?ts = "traversals s" and ?ws = "writers s"
  have t: "\<forall>pc \<in> set ?ts. pc = TDone" and w: "\<forall>pc \<in> set ?ws. pc = WDone" and ns: "\<not> sh_stop ?sh"
    using fin by (simp_all add: copy_ran_through_def)
  have cov: "coverage_ok env ?sh ?ts ?ws (joiner_pc s)" and b: "books_ok (env_disp env) (sh_books ?sh)"
    using ok ns by (simp_all add: covered_ok_def)
  then have p: "phases_ok ?sh ?ts (joiner_pc s)" by (simp add: coverage_ok_def)
  have "?ts \<noteq> []" using p by (simp add: phases_ok_def)
  then have "TDone \<in> set ?ts" using t by (metis list.set_sel(1))
  then have items: "work_items (sh_work ?sh) = []" using p by (simp add: phases_ok_def)
  have wt: "waits_ok env ?sh ?ts ?ws (joiner_pc s)" using ok by (simp add: covered_ok_def system_ok_def)
  then have "?ws \<noteq> []" by (simp add: waits_ok_def)
  then have "WDone \<in> set ?ws" using w by (metis list.set_sel(1))
  then have writes: "write_items (sh_write ?sh) = []" using p wt by (simp add: phases_ok_def waits_ok_def)
  note o = finished_over [OF t w]
  show due: "due ?sh ?ts = set (sh_visited ?sh)" by (simp add: due_def items o)
  show "set (env_roots env) \<subseteq> set (sh_visited ?sh)" using cov due by (simp add: coverage_ok_def)
  show "r \<in> set (env_roots env) \<Longrightarrow> r \<in> known_roots (sh_books ?sh) r" using cov o items by (simp add: coverage_ok_def)
  show "b \<in> set (sh_visited ?sh) \<Longrightarrow> expanded env ?sh ?ts b" for b using cov o by (simp add: coverage_ok_def)
  show "b \<in> set (sh_visited ?sh) \<Longrightarrow> present (env_dest env) (sh_dest ?sh) b \<or>
      entries_of (failure_templates (sh_books ?sh)) b \<noteq> []" for b
    using cov by (simp add: coverage_ok_def o accounted_def writes) blast
  show "books_ok (env_disp env) (sh_books ?sh)" by (rule b)
qed

lemma finished_settles:
  assumes ok: "covered_ok env s" and fin: "copy_ran_through s" and r: "r \<in> set (env_roots env)"
    and p: "(r, b) \<in> (source_edges env)\<^sup>*"
  shows "settled env (shared_state s) r b"
proof -
  let ?sh = "shared_state s"
  note f = finished_coverage [OF ok fin]
  have "b \<in> set (sh_visited ?sh) \<and> r \<in> known_roots (sh_books ?sh) b"
    using p
  proof (induction rule: rtrancl_induct)
    case base
    then show ?case using f(1) f(2) [OF r] r by blast
  next
    case (step y z)
    have z: "z \<in> set (children_of env y)" using step(2) by (simp add: source_edges_def)
    have "expanded env ?sh (traversals s) y" using f(3) step(3) by blast
    then have "z \<in> set (sh_visited ?sh)" "z \<in> set (entries_of (discovered_children (sh_books ?sh)) y)"
      using z f(4) by (auto simp: expanded_def)
    moreover have "closed_upto r {} (sh_books ?sh)" using f(6) by (simp add: books_ok_def)
    ultimately show ?case using step(3) by (auto simp: closed_upto_def)
  qed
  then show ?thesis using f(5) recorded_failure_reported [OF f(6)] unfolding settled_def by blast
qed

text \<open>A schedule, to run the system on a concrete input.\<close>

datatype choice = RunTraversal nat | RunWriter nat | RunJoiner

fun run_choice :: "('d, 'v) copy_env \<Rightarrow> choice \<Rightarrow> 'd copy_system \<Rightarrow> 'd copy_system option" where
  "run_choice env (RunTraversal i) s =
     (if i < length (traversals s) then
        (case traversal_step env (traversals s ! i) (shared_state s) of
           Some (pc, n, sh) \<Rightarrow> Some (notify n (s\<lparr>shared_state := sh, traversals := (traversals s)[i := pc]\<rparr>))
         | None \<Rightarrow> None)
      else None)"
| "run_choice env (RunWriter i) s =
     (if i < length (writers s) then
        (case writer_step env (writers s ! i) (shared_state s) of
           Some (pc, n, sh) \<Rightarrow> Some (notify n (s\<lparr>shared_state := sh, writers := (writers s)[i := pc]\<rparr>))
         | None \<Rightarrow> None)
      else None)"
| "run_choice env RunJoiner s =
     (if joiner_pc s = JTraversals \<and> list_all (\<lambda>pc. pc = TDone) (traversals s) then
        Some (notify NotifyWrite (s\<lparr>joiner_pc := JWriters,
          shared_state := shared_state s\<lparr>sh_write := finish_producing (sh_stop (shared_state s)) (sh_write (shared_state s))\<rparr>\<rparr>))
      else None)"

fun run_schedule :: "('d, 'v) copy_env \<Rightarrow> choice list \<Rightarrow> 'd copy_system \<Rightarrow> 'd copy_system option" where
  "run_schedule env [] s = Some s"
| "run_schedule env (c # cs) s = Option.bind (run_choice env c s) (run_schedule env cs)"

lemma run_choice_steps: "run_choice env c s = Some t \<Longrightarrow> copy_step env s t"
  unfolding copy_step_def
  by (cases c) (auto simp: list_all_iff split: if_splits option.splits intro: thread_step.intros)

lemma run_schedule_reach:
  "run_schedule env cs s = Some t \<Longrightarrow> reach (copy_started env) (copy_step env) s \<Longrightarrow>
   reach (copy_started env) (copy_step env) t"
proof (induction cs arbitrary: s)
  case (Cons c cs)
  then obtain u where "run_choice env c s = Some u" "run_schedule env cs u = Some t"
    by (auto simp: bind_eq_Some_conv)
  then show ?case using Cons.IH Cons.prems(2) reach_step run_choice_steps by metis
qed simp

end
