(* ===== verification/Copy_Schedule.thy ===== *)
theory Copy_Schedule
  imports Copy_Complete
begin

text \<open>
  A complete run of the multi-threaded copy on a root with one child, and the theorem that a
  run that was not stopped has accounted for every reachable block.
\<close>

definition demo_schedule :: "choice list" where
  "demo_schedule = replicate 18 (RunTraversal 0) @ replicate 4 (RunWriter 0) @ replicate 4 (RunTraversal 0) @
     replicate 4 (RunWriter 0) @ [RunJoiner, RunWriter 0]"

lemmas run_simps =
  notify_def work_queue_new_def work_pop_def enqueue_children_def work_enqueue_children_def work_finish_item_def
  write_queue_new_def enqueue_blocked_def count_attempt_def write_enqueue_def target_batch_len_def
  write_next_action_def complete_write_batch_def finish_producing_def jobs_len_def
  in_flight_writes_def read_source_block_threaded_def decode_and_remember_def destination_step_def
  record_completion_def copy_system_start_def Let_def writer_thread_count_def decode_source_block_def
  block_child_ids_def queue_limits_def result_simps publish_destination_write_batch_def completion_of_def

lemma demo_message: "contains_str (to_ascii_lowercase UNSUPPORTED_BATCH_WRITE_MESSAGE) UNSUPPORTED_BATCH_WRITE_MESSAGE"
  by code_simp

lemma small_sums: "saturating_add 0 0 = 0" "saturating_add (Suc 0) 0 = 1" "saturating_add 0 (Suc 0) = 1"
  by (simp_all add: saturating_add_def USIZE_MAX_def)

lemma demo_runs:
  "\<exists>t. run_schedule demo_copy_env demo_schedule demo_start = Some t \<and> copy_ran_through t"
  by (simp add: run_simps demo_start_def demo_copy_env_def demo_schedule_def numeral_eq_Suc hs_insert_def
      demo_destination_def demo_message small_sums complete_batch_write_probe_def copy_ran_through_def)

lemma demo_one_by_one_keeps: "destination_contract demo_destination"
  by (auto simp: destination_contract_def demo_destination_def present_def)

lemma demo_copy_contract: "copy_contract demo_copy_env"
  using demo_one_by_one_keeps by (auto simp: copy_contract_def demo_copy_env_def)

lemma demo_edge: "([1], [2]) \<in> (source_edges demo_copy_env)\<^sup>*"
proof -
  have "([1], [2]) \<in> source_edges demo_copy_env"
    by (simp add: source_edges_def children_of_def demo_copy_env_def block_child_ids_def result_simps)
  then show ?thesis by blast
qed

section \<open>Nothing is left behind\<close>

text \<open>
  C4. The multi-threaded copy leaves nothing behind. When all workers have returned and nobody
  asked them to stop, under any interleaving, every block that can be reached in the source
  from a requested root is readable in the destination, or the report lists a failure for that
  block under that root. It holds for every source, with missing, undecodable and shared
  blocks and cycles; of the destination it needs only that puts and compactions take no
  block away and that a put that succeeds makes its block readable.
\<close>

theorem copy_complete:
  assumes "copy_contract env" and "reach (copy_started env) (copy_step env) s" and "copy_ran_through s"
    and "r \<in> set (env_roots env)" and "(r, b) \<in> (source_edges env)\<^sup>*"
  shows "present (env_dest env) (sh_dest (shared_state s)) b \<or>
    (\<exists>f \<in> set (failures (sh_books (shared_state s))).
       failure_root_id f = env_disp env r \<and> failure_block_id f = env_disp env b)"
  using finished_settles covered_machine.inv_reach [OF assms(2)] assms unfolding settled_def by blast

theorem copy_complete_witness:
  "\<exists>t. run_schedule demo_copy_env demo_schedule demo_start = Some t \<and> copy_ran_through t \<and>
     (present (env_dest demo_copy_env) (sh_dest (shared_state t)) [2] \<or>
      (\<exists>f \<in> set (failures (sh_books (shared_state t))).
         failure_root_id f = env_disp demo_copy_env [1] \<and> failure_block_id f = env_disp demo_copy_env [2]))"
proof -
  obtain t where t: "run_schedule demo_copy_env demo_schedule demo_start = Some t" "copy_ran_through t"
    using demo_runs by blast
  have "reach (copy_started demo_copy_env) (copy_step demo_copy_env) t"
    by (rule run_schedule_reach [OF t(1)]) (rule reach_start, rule demo_started)
  moreover have "[1] \<in> set (env_roots demo_copy_env)" by (simp add: demo_copy_env_def)
  ultimately show ?thesis using copy_complete [OF demo_copy_contract _ t(2) _ demo_edge] t by blast
qed

end
