(* ===== verification/Replay_Keys.thy ===== *)
theory Replay_Keys
  imports Content_Resolver Batch_Config_Laws "HOL-Library.Product_Lexorder"
begin

text \<open>
  The identity of a replayed item (\<^verbatim>\<open>runtime.rs\<close>): the sort key of an item, the bytes that are
  hashed to a replay digest, the journal record of an item and the digest computed from the
  record alone.

  The bytes escape zero bytes and end every string with two zero bytes, so that they compare
  as the key does: the digest input is one byte string per key.
\<close>

section \<open>Metadata as text\<close>

text \<open>\<^verbatim>\<open>collect\<close> into a \<^verbatim>\<open>BTreeMap\<close>: the last value of a key stays.\<close>

definition bmap_collect :: "(rstring \<times> rstring) list \<Rightarrow> bmap" where
  "bmap_collect kvs = fold (\<lambda>(k, v). bmap_insert k v) kvs []"

lemma metadata_values_to_text_map_collect:
  "metadata_values_to_text_map md = bmap_collect (List.map_filter text_pair md)"
  by (simp add: metadata_values_to_text_map_def bmap_collect_def foldl_conv_fold case_prod_unfold)

definition metadata_to_text_map :: "metadata \<Rightarrow> bmap" where
  "metadata_to_text_map md = metadata_values_to_text_map md"

section \<open>Sort keys\<close>

text \<open>\<^verbatim>\<open>{:020}\<close> and \<^verbatim>\<open>{:?}\<close> of a byte vector.\<close>

definition zero_padded :: "nat \<Rightarrow> nat \<Rightarrow> rstring" where
  "zero_padded width n = replicate (width - length (show_nat n)) 48 @ show_nat n"

definition debug_bytes :: "bytes \<Rightarrow> rstring" where
  "debug_bytes bs = [91] @ join [44, 32] (map (\<lambda>b. show_nat (unat b)) bs) @ [93]"

fun replay_content_key :: "content_ref \<Rightarrow> rstring" where
  "replay_content_key (DocumentRef p) =
     lit ''document:'' @ normalize_document_identity_path (display_path p)"
| "replay_content_key (InlineRef mt body) = lit ''inline:'' @ mt @ [58] @ debug_bytes body"
| "replay_content_key (StoredReplay mt body (DocumentIdentity source_path)) =
     lit ''document:'' @ normalize_document_identity_path source_path"
| "replay_content_key (StoredReplay mt body (EmailChunkIdentity email_ref i)) =
     lit ''email:'' @ email_ref @ [58] @ zero_padded 20 i"
| "replay_content_key (EmailChunkRef email_ref i) = lit ''email:'' @ email_ref @ [58] @ zero_padded 20 i"

definition replay_sort_key :: "index_item \<Rightarrow> rstring \<times> (rstring \<times> rstring) list" where
  "replay_sort_key item = (replay_content_key (item_content_ref item), metadata_to_text_map (item_metadata item))"

text \<open>Rust compares strings as their UTF-8 bytes.\<close>

definition key_bytes :: "rstring \<times> (rstring \<times> rstring) list \<Rightarrow> bytes \<times> (bytes \<times> bytes) list" where
  "key_bytes key = (utf8 (fst key), map (\<lambda>(k, v). (utf8 k, utf8 v)) (snd key))"

definition replay_key_cmp :: "index_item \<Rightarrow> index_item \<Rightarrow> ordering" where
  "replay_key_cmp a b = cmp (key_bytes (replay_sort_key a)) (key_bytes (replay_sort_key b))"

definition sort_replay_items :: "index_item list \<Rightarrow> index_item list" where
  "sort_replay_items is = sort_by replay_key_cmp is"

section \<open>Key bytes\<close>

fun append_comparable_sort_bytes :: "bytes \<Rightarrow> bytes \<Rightarrow> bytes" where
  "append_comparable_sort_bytes buffer [] = buffer"
| "append_comparable_sort_bytes buffer (b # bs) =
     append_comparable_sort_bytes (buffer @ (if b = 0 then [0, 1] else [b])) bs"

definition append_comparable_sort_string :: "bytes \<Rightarrow> rstring \<Rightarrow> bytes" where
  "append_comparable_sort_string buffer value = append_comparable_sort_bytes buffer (utf8 value) @ [0, 0]"

text \<open>
  The digits are written from the end of an array of twenty; \<open>digits\<close> is the part written so
  far. A \<^verbatim>\<open>usize\<close> never needs more than the array holds.
\<close>

function decimal_loop :: "nat \<Rightarrow> bytes \<Rightarrow> bytes" where
  "decimal_loop remaining digits =
     (let digits' = (48 + of_nat (remaining mod 10)) # digits;
          remaining' = remaining div 10
      in if remaining' = 0 then digits' else decimal_loop remaining' digits')"
  by pat_completeness auto
termination
  by (relation "measure fst") auto

definition append_usize_decimal :: "bytes \<Rightarrow> nat \<Rightarrow> bytes" where
  "append_usize_decimal buffer value = buffer @ decimal_loop value []"

definition append_zero_padded_usize_decimal :: "bytes \<Rightarrow> nat \<Rightarrow> nat \<Rightarrow> bytes" where
  "append_zero_padded_usize_decimal buffer value width =
     (let digits = decimal_loop value []
      in buffer @ replicate (width - length digits) 48 @ digits)"

fun debug_body_loop :: "bytes \<Rightarrow> nat \<Rightarrow> bytes \<Rightarrow> bytes" where
  "debug_body_loop buffer index [] = buffer"
| "debug_body_loop buffer index (b # body) =
     debug_body_loop (append_usize_decimal (if index > 0 then buffer @ [44, 32] else buffer) (unat b))
       (index + 1) body"

definition append_inline_debug_body :: "bytes \<Rightarrow> bytes \<Rightarrow> bytes" where
  "append_inline_debug_body buffer body = debug_body_loop (buffer @ [91]) 0 body @ [93]"

fun document_path_loop :: "bytes \<Rightarrow> bytes \<Rightarrow> bytes" where
  "document_path_loop buffer [] = buffer"
| "document_path_loop buffer (b # bs) =
     document_path_loop (append_comparable_sort_bytes buffer [if b = 92 then 47 else b]) bs"

definition append_normalized_document_identity_path_bytes :: "bytes \<Rightarrow> rstring \<Rightarrow> bytes" where
  "append_normalized_document_identity_path_bytes buffer p = document_path_loop buffer (utf8 p)"

definition append_document_key :: "bytes \<Rightarrow> rstring \<Rightarrow> bytes" where
  "append_document_key buffer p =
     append_normalized_document_identity_path_bytes
       (append_comparable_sort_bytes buffer (utf8 (lit ''document:''))) p"

definition append_inline_key :: "bytes \<Rightarrow> rstring \<Rightarrow> bytes \<Rightarrow> bytes" where
  "append_inline_key buffer mt body =
     append_inline_debug_body
       (append_comparable_sort_bytes
         (append_comparable_sort_bytes
           (append_comparable_sort_bytes buffer (utf8 (lit ''inline:''))) (utf8 mt))
         (utf8 [58])) body"

definition append_email_key :: "bytes \<Rightarrow> rstring \<Rightarrow> nat \<Rightarrow> bytes" where
  "append_email_key buffer email_ref i =
     append_zero_padded_usize_decimal
       (append_comparable_sort_bytes
         (append_comparable_sort_bytes
           (append_comparable_sort_bytes buffer (utf8 (lit ''email:''))) (utf8 email_ref))
         (utf8 [58])) i 20"

fun append_replay_content_sort_key_bytes :: "bytes \<Rightarrow> content_ref \<Rightarrow> bytes" where
  "append_replay_content_sort_key_bytes buffer (DocumentRef p) =
     append_document_key buffer (display_path p) @ [0, 0]"
| "append_replay_content_sort_key_bytes buffer (InlineRef mt body) =
     append_inline_key buffer mt body @ [0, 0]"
| "append_replay_content_sort_key_bytes buffer (StoredReplay mt body (DocumentIdentity source_path)) =
     append_document_key buffer source_path @ [0, 0]"
| "append_replay_content_sort_key_bytes buffer (StoredReplay mt body (EmailChunkIdentity email_ref i)) =
     append_email_key buffer email_ref i @ [0, 0]"
| "append_replay_content_sort_key_bytes buffer (EmailChunkRef email_ref i) =
     append_email_key buffer email_ref i @ [0, 0]"

fun append_metadata_sort_key :: "bytes \<Rightarrow> (rstring \<times> rstring) list \<Rightarrow> bytes" where
  "append_metadata_sort_key buffer [] = buffer"
| "append_metadata_sort_key buffer ((k, v) # kvs) =
     append_metadata_sort_key (append_comparable_sort_string (append_comparable_sort_string buffer k) v) kvs"

definition replay_sort_key_bytes :: "index_item \<Rightarrow> bytes" where
  "replay_sort_key_bytes item =
     append_metadata_sort_key (append_replay_content_sort_key_bytes [] (item_content_ref item))
       (metadata_to_text_map (item_metadata item))"

definition replay_sort_key_digest :: "(bytes \<Rightarrow> block_hash) \<Rightarrow> index_item \<Rightarrow> block_hash" where
  "replay_sort_key_digest hash_bytes item = hash_bytes (replay_sort_key_bytes item)"

section \<open>Journal records\<close>

datatype replay_journal_step_kind = StepEmbedding | StepIndexing

datatype replay_journal_content_ref =
    JournalDocument rstring
  | JournalInline rstring bytes
  | JournalEmailChunk rstring nat

datatype replay_journal_record =
    InputRecord replay_journal_step_kind rstring "(rstring \<times> rstring) list" replay_journal_content_ref
  | OutcomeRecord replay_journal_step_kind "rstring list" nat "rstring list" rstring

fun replay_journal_record_label :: "replay_journal_record \<Rightarrow> rstring" where
  "replay_journal_record_label (InputRecord _ block_id _ _) = block_id"
| "replay_journal_record_label (OutcomeRecord _ _ _ _ root_block_id) = root_block_id"

definition normalize_replay_journal_path :: "path \<Rightarrow> rstring" where
  "normalize_replay_journal_path p = replace_char 92 [47] (display_path p)"

fun journal_content_ref :: "content_ref \<Rightarrow> replay_journal_content_ref" where
  "journal_content_ref (DocumentRef p) = JournalDocument (normalize_replay_journal_path p)"
| "journal_content_ref (InlineRef mt body) = JournalInline mt body"
| "journal_content_ref (StoredReplay _ _ (DocumentIdentity source_path)) =
     JournalDocument (normalize_document_identity_path source_path)"
| "journal_content_ref (StoredReplay _ _ (EmailChunkIdentity email_ref i)) = JournalEmailChunk email_ref i"
| "journal_content_ref (EmailChunkRef email_ref i) = JournalEmailChunk email_ref i"

definition replay_journal_record_from_item ::
  "(block_hash \<Rightarrow> rstring) \<Rightarrow> block_hash \<Rightarrow> index_item \<Rightarrow> replay_journal_record" where
  "replay_journal_record_from_item disp block_id item =
     InputRecord StepEmbedding (disp block_id) (metadata_to_text_map (item_metadata item))
       (journal_content_ref (item_content_ref item))"

fun append_replay_journal_content_sort_key_bytes :: "bytes \<Rightarrow> replay_journal_content_ref \<Rightarrow> bytes" where
  "append_replay_journal_content_sort_key_bytes buffer (JournalDocument p) = append_document_key buffer p @ [0, 0]"
| "append_replay_journal_content_sort_key_bytes buffer (JournalInline mt body) =
     append_inline_key buffer mt body @ [0, 0]"
| "append_replay_journal_content_sort_key_bytes buffer (JournalEmailChunk email_ref i) =
     append_email_key buffer email_ref i @ [0, 0]"

definition append_canonical_replay_journal_metadata_sort_key ::
  "bytes \<Rightarrow> (rstring \<times> rstring) list \<Rightarrow> bytes" where
  "append_canonical_replay_journal_metadata_sort_key buffer md = append_metadata_sort_key buffer (bmap_collect md)"

fun replay_journal_record_sort_key_digest ::
  "(bytes \<Rightarrow> block_hash) \<Rightarrow> replay_journal_record \<Rightarrow> block_hash option" where
  "replay_journal_record_sort_key_digest hash_bytes (InputRecord _ _ md content_ref) =
     Some (hash_bytes (append_canonical_replay_journal_metadata_sort_key
       (append_replay_journal_content_sort_key_bytes [] content_ref) md))"
| "replay_journal_record_sort_key_digest hash_bytes (OutcomeRecord _ _ _ _ _) = None"

section \<open>The bytes are the key\<close>

definition escaped :: "bytes \<Rightarrow> bytes" where
  "escaped bs = concat (map (\<lambda>b. if b = 0 then [0, 1] else [b]) bs)"

lemma escaped_simps [simp]:
  "escaped [] = []" "escaped (b # bs) = (if b = 0 then [0, 1] else [b]) @ escaped bs"
  "escaped (bs @ cs) = escaped bs @ escaped cs"
  by (simp_all add: escaped_def)

lemma escaped_nonzero: "0 \<notin> set bs \<Longrightarrow> escaped bs = bs"
  by (induction bs) auto

lemma append_comparable_escaped [simp]: "append_comparable_sort_bytes buffer bs = buffer @ escaped bs"
  by (induction buffer bs rule: append_comparable_sort_bytes.induct) simp_all

lemma append_string_escaped [simp]:
  "append_comparable_sort_string buffer s = buffer @ escaped (utf8 s) @ [0, 0]"
  by (simp add: append_comparable_sort_string_def)

declare decimal_loop.simps [simp del]

lemma utf8_Cons: "utf8 (c # s) = utf8_char c @ utf8 s"
  by (simp add: utf8_def)

lemma decimal_loop_show: "decimal_loop n ds = map of_nat (show_nat n) @ ds"
proof (induction n ds rule: decimal_loop.induct)
  case (1 n ds)
  show ?case
  proof (cases "n div 10 = 0")
    case True
    then have "n < 10" by simp
    then show ?thesis by (simp add: decimal_loop.simps [of n] show_nat.simps [of n])
  next
    case False
    then have "\<not> n < 10" by simp
    moreover have "decimal_loop (n div 10) ((48 + of_nat (n mod 10)) # ds)
        = map of_nat (show_nat (n div 10)) @ (48 + of_nat (n mod 10)) # ds"
      using 1 False by simp
    ultimately show ?thesis using False
      by (simp add: decimal_loop.simps [of n] show_nat.simps [of n])
  qed
qed

lemma digits_utf8: "utf8 (show_nat n) = map of_nat (show_nat n)"
  using show_nat_digits by (intro utf8_ascii) fastforce

lemma digits_nonzero: "0 \<notin> set (utf8 (show_nat n))"
proof -
  have "of_nat c \<noteq> (0 :: u8)" if "c \<in> set (show_nat n)" for c
  proof -
    have "48 \<le> c" "c \<le> 57" using show_nat_digits [OF that] by auto
    then show ?thesis by (auto simp: word_of_nat_eq_0_iff dest: dvd_imp_le)
  qed
  then show ?thesis by (auto simp: digits_utf8)
qed

text \<open>The array of twenty digits is never overrun.\<close>

lemma show_nat_bound: "n < 10 ^ k \<Longrightarrow> 0 < k \<Longrightarrow> length (show_nat n) \<le> k"
proof (induction k arbitrary: n)
  case (Suc k)
  show ?case
  proof (cases "n < 10")
    case False
    then have "n div 10 < 10 ^ k" "0 < k" using Suc.prems by (auto simp: less_mult_imp_div_less intro!: Nat.gr0I)
    then show ?thesis using Suc.IH [of "n div 10"] False by (simp add: show_nat.simps [of n])
  qed (simp add: show_nat.simps [of n])
qed simp

lemma usize_digits: "n < 2 ^ 64 \<Longrightarrow> length (decimal_loop n []) \<le> 20"
  using show_nat_bound [of n 20] by (simp add: decimal_loop_show)

lemma debug_loop:
  "debug_body_loop buffer i body =
     buffer @ (if i > 0 \<and> body \<noteq> [] then [44, 32] else []) @ utf8 (join [44, 32] (map (\<lambda>b. show_nat (unat b)) body))"
proof (induction buffer i body rule: debug_body_loop.induct)
  case (2 buffer i b body)
  show ?case using 2 by (cases body) (auto simp: append_usize_decimal_def decimal_loop_show digits_utf8 utf8_Cons utf8_char_def)
qed simp

lemma debug_body: "append_inline_debug_body buffer body = buffer @ escaped (utf8 (debug_bytes body))"
proof -
  have "0 \<notin> set (utf8 (join [44, 32] (map (\<lambda>b. show_nat (unat b)) body)))" (is "_ \<notin> set (utf8 (?j body))")
  proof (induction body)
    case (Cons b body)
    have "0 \<notin> set (utf8 [44, 32])" by (simp add: utf8_def utf8_char_def)
    then show ?case using Cons digits_nonzero by (cases body) (auto simp: utf8_Cons)
  qed simp
  then show ?thesis
    by (simp add: append_inline_debug_body_def debug_loop debug_bytes_def escaped_nonzero utf8_Cons utf8_char_def)
qed

lemma email_key: "append_email_key buffer r i = buffer @ escaped (utf8 (lit ''email:'' @ r @ [58] @ zero_padded 20 i))"
proof -
  have "utf8 (replicate n 48) = replicate n 48" for n by (induction n) (simp_all add: utf8_def utf8_char_def)
  then show ?thesis
    by (simp add: append_email_key_def append_zero_padded_usize_decimal_def zero_padded_def decimal_loop_show
        digits_utf8 escaped_nonzero escaped_nonzero [OF digits_nonzero, unfolded digits_utf8] utf8_Cons Let_def)
qed

lemma inline_key: "append_inline_key buffer m body = buffer @ escaped (utf8 (lit ''inline:'' @ m @ [58] @ debug_bytes body))"
  by (simp add: append_inline_key_def debug_body utf8_Cons)

lemma path_loop: "document_path_loop buffer bs = buffer @ escaped (map (\<lambda>b. if b = 92 then 47 else b) bs)"
  by (induction buffer bs rule: document_path_loop.induct) simp_all

lemma normalized_char:
  assumes "is_scalar c"
  shows "map (\<lambda>b. if b = 92 then 47 else b) (utf8_char c) = utf8_char (if c = 92 then 47 else c)"
proof (cases "c < 128")
  case True
  have "(of_nat c :: u8) = 92 \<longleftrightarrow> c = 92"
    using True by (simp add: word_unat_eq_iff unat_of_nat)
  then show ?thesis using True by (simp add: utf8_char_def)
next
  case False
  have "92 \<notin> set (utf8_char c)"
  proof
    assume "92 \<in> set (utf8_char c)"
    then have "unat (92 :: u8) \<in> set (map unat (utf8_char c))" unfolding set_map by (rule imageI)
    then show False using False assms unfolding utf8_char_nat [OF assms]
      by (auto simp: is_scalar_def split: if_splits)
  qed
  then show ?thesis using False by (auto intro!: map_idI)
qed

lemma normalized_utf8:
  "\<forall>c \<in> set s. is_scalar c \<Longrightarrow>
   map (\<lambda>b. if b = 92 then 47 else b) (utf8 s) = utf8 (normalize_document_identity_path s)"
  unfolding normalize_document_identity_path_def replace_char_def
  by (induction s) (simp_all add: utf8_Cons normalized_char utf8_def)


subsection \<open>Content keys\<close>

text \<open>Text is made of Unicode scalar values; \<open>item_text_ok\<close> says so of the path of an item.\<close>

fun item_text_ok :: "content_ref \<Rightarrow> bool" where
  "item_text_ok (DocumentRef p) = (\<forall>c \<in> set (display_path p). is_scalar c)"
| "item_text_ok (StoredReplay _ _ (DocumentIdentity source_path)) = (\<forall>c \<in> set source_path. is_scalar c)"
| "item_text_ok _ = True"

lemma document_key:
  "\<forall>c \<in> set p. is_scalar c \<Longrightarrow>
   append_document_key buffer p = buffer @ escaped (utf8 (lit ''document:'' @ normalize_document_identity_path p))"
  by (simp add: append_document_key_def append_normalized_document_identity_path_bytes_def path_loop normalized_utf8
      utf8_Cons)

lemma content_key_bytes:
  "item_text_ok r \<Longrightarrow>
   append_replay_content_sort_key_bytes buffer r = buffer @ escaped (utf8 (replay_content_key r)) @ [0, 0]"
  by (induction buffer r rule: append_replay_content_sort_key_bytes.induct)
    (simp_all only: append_replay_content_sort_key_bytes.simps replay_content_key.simps item_text_ok.simps
      document_key inline_key email_key append_assoc)

definition terminated :: "bytes \<Rightarrow> bytes" where
  "terminated bs = escaped bs @ [0, 0]"

definition encoded_pairs :: "(bytes \<times> bytes) list \<Rightarrow> bytes" where
  "encoded_pairs kvs = concat (map (\<lambda>(k, v). terminated k @ terminated v) kvs)"

lemma encoded_pairs_simps [simp]:
  "encoded_pairs [] = []" "encoded_pairs ((k, v) # kvs) = terminated k @ terminated v @ encoded_pairs kvs"
  by (simp_all add: encoded_pairs_def)

lemma metadata_key_bytes:
  "append_metadata_sort_key buffer kvs = buffer @ encoded_pairs (map (\<lambda>(k, v). (utf8 k, utf8 v)) kvs)"
  by (induction buffer kvs rule: append_metadata_sort_key.induct) (simp_all add: terminated_def)

lemma replay_key_bytes:
  "item_text_ok (item_content_ref item) \<Longrightarrow>
   replay_sort_key_bytes item =
     terminated (fst (key_bytes (replay_sort_key item))) @ encoded_pairs (snd (key_bytes (replay_sort_key item)))"
  by (simp add: replay_sort_key_bytes_def content_key_bytes metadata_key_bytes replay_sort_key_def key_bytes_def
      terminated_def)

subsection \<open>Comparison\<close>

lemma zero_byte_less: "(0 :: u8) < b \<longleftrightarrow> b \<noteq> 0"
  by (simp add: word_gt_0)

lemma terminated_less: "terminated a @ x < terminated b @ y \<longleftrightarrow> a < b \<or> a = b \<and> x < y"
proof (induction a arbitrary: b)
  case Nil
  then show ?case by (cases b) (auto simp: terminated_def zero_byte_less)
next
  case (Cons c a)
  show ?case
  proof (cases b)
    case Nil
    have "\<not> c < 0" by simp
    then show ?thesis using Nil by (auto simp: terminated_def)
  next
    case b: (Cons d b')
    have "terminated (c # a) @ x = (if c = 0 then [0, 1] else [c]) @ terminated a @ x"
      "terminated (d # b') @ y = (if d = 0 then [0, 1] else [d]) @ terminated b' @ y"
      by (simp_all add: terminated_def)
    then show ?thesis using b Cons [of b'] by (auto simp: zero_byte_less)
  qed
qed

lemma terminated_eq: "terminated a @ x = terminated b @ y \<longleftrightarrow> a = b \<and> x = y"
  using terminated_less [of a x b y] terminated_less [of b y a x] by (metis less_linear order_less_irrefl)

lemma encoded_pairs_less: "encoded_pairs kvs < encoded_pairs kvs' \<longleftrightarrow> kvs < kvs'"
proof (induction kvs arbitrary: kvs')
  case Nil
  have "terminated k @ x \<noteq> []" for k x by (simp add: terminated_def)
  then have "[] < terminated k @ x" for k x by (cases "terminated k @ x") auto
  then show ?case by (cases kvs') (auto split: prod.splits)
next
  case (Cons p kvs)
  obtain k v where p: "p = (k, v)" by fastforce
  show ?case
  proof (cases kvs')
    case Nil
    then show ?thesis by simp
  next
    case k': (Cons p' kvs'')
    obtain k' v' where p': "p' = (k', v')" by fastforce
    have "(k, v) < (k', v') \<longleftrightarrow> k < k' \<or> k = k' \<and> v < v'" by (auto simp: less_prod_def')
    then show ?thesis unfolding k' p p' encoded_pairs_simps terminated_less Cons_less_Cons
      using Cons [of kvs''] by blast
  qed
qed

lemma encoded_pairs_eq: "encoded_pairs kvs = encoded_pairs kvs' \<longleftrightarrow> kvs = kvs'"
  using encoded_pairs_less by (metis less_linear order_less_irrefl)


lemma key_bytes_cmp:
  assumes "item_text_ok (item_content_ref a)" and "item_text_ok (item_content_ref b)"
  shows "cmp (replay_sort_key_bytes a) (replay_sort_key_bytes b) = replay_key_cmp a b"
proof -
  obtain ca ma cb mb where k: "key_bytes (replay_sort_key a) = (ca, ma)" "key_bytes (replay_sort_key b) = (cb, mb)"
    by fastforce
  have bytes: "replay_sort_key_bytes a = terminated ca @ encoded_pairs ma"
    "replay_sort_key_bytes b = terminated cb @ encoded_pairs mb"
    using replay_key_bytes [OF assms(1)] replay_key_bytes [OF assms(2)] k by simp_all
  have "(ca, ma) < (cb, mb) \<longleftrightarrow> ca < cb \<or> ca = cb \<and> ma < mb" by (auto simp: less_prod_def')
  then show ?thesis
    unfolding replay_key_cmp_def k bytes cmp_def terminated_less terminated_eq encoded_pairs_less encoded_pairs_eq
    by auto
qed

section \<open>Records\<close>

lemma normalize_idem: "normalize_document_identity_path (normalize_document_identity_path p) = normalize_document_identity_path p"
  unfolding normalize_document_identity_path_def replace_char_def by (induction p) auto

lemma normalize_scalar:
  "\<forall>c \<in> set p. is_scalar c \<Longrightarrow> \<forall>c \<in> set (normalize_document_identity_path p). is_scalar c"
  unfolding normalize_document_identity_path_def replace_char_def by (induction p) (auto simp: is_scalar_def)

lemma journal_content_key:
  "item_text_ok r \<Longrightarrow>
   append_replay_journal_content_sort_key_bytes buffer (journal_content_ref r) = append_replay_content_sort_key_bytes buffer r"
  by (induction r rule: journal_content_ref.induct)
    (simp_all add: document_key normalize_replay_journal_path_def normalize_document_identity_path_def [symmetric]
      normalize_idem normalize_scalar)

text \<open>Collecting the pairs of a map gives the map back.\<close>

lemma bmap_insert_last: "\<forall>x \<in> set (map fst m). x < k \<Longrightarrow> bmap_insert k v m = m @ [(k, v)]"
  by (induction k v m rule: bmap_insert.induct) auto

lemma bmap_collect_sorted: "sorted_wrt (<) (map fst m) \<Longrightarrow> bmap_collect m = m"
proof (induction m rule: rev_induct)
  case (snoc p m)
  have "sorted_wrt (<) (map fst m)" "\<forall>x \<in> set (map fst m). x < fst p"
    using snoc.prems by (auto simp: sorted_wrt_append)
  moreover from this have "fold (\<lambda>(k, v). bmap_insert k v) m [] = m" using snoc.IH by (simp add: bmap_collect_def)
  ultimately show ?case by (cases p) (simp add: bmap_collect_def bmap_insert_last del: set_map)
qed (simp add: bmap_collect_def)

lemma sorted_bmap_collect: "sorted_wrt (<) (map fst (bmap_collect kvs))"
proof -
  have "sorted_wrt (<) (map fst m) \<Longrightarrow> sorted_wrt (<) (map fst (fold (\<lambda>(k, v). bmap_insert k v) kvs m))" for m
    by (induction kvs arbitrary: m) (auto simp: sorted_bmap_insert)
  then show ?thesis by (simp add: bmap_collect_def)
qed

lemma record_digest:
  "item_text_ok (item_content_ref item) \<Longrightarrow>
   replay_journal_record_sort_key_digest h (replay_journal_record_from_item disp block_id item) =
     Some (replay_sort_key_digest h item)"
  by (simp add: replay_journal_record_from_item_def replay_sort_key_digest_def replay_sort_key_bytes_def
      append_canonical_replay_journal_metadata_sort_key_def journal_content_key metadata_to_text_map_def
      metadata_values_to_text_map_collect bmap_collect_sorted [OF sorted_bmap_collect])

section \<open>Properties\<close>

text \<open>
  C40. The bytes a replay digest is computed from are the sort key of the item. The encoder
  that writes them without building strings produces bytes that compare exactly as the key,
  a string and a list of string pairs, compares: they order two items the same way, and they
  are equal only if the keys are, so no two different keys feed the same bytes to the hash.
\<close>

theorem replay_key_bytes_order:
  assumes "item_text_ok (item_content_ref a)" and "item_text_ok (item_content_ref b)"
  shows "cmp (replay_sort_key_bytes a) (replay_sort_key_bytes b) =
    cmp (key_bytes (replay_sort_key a)) (key_bytes (replay_sort_key b))"
  using key_bytes_cmp [OF assms] unfolding replay_key_cmp_def .

theorem replay_key_bytes_order_witness:
  "cmp (replay_sort_key_bytes \<lparr>item_metadata = [], item_content_ref = EmailChunkRef [97] 9\<rparr>)
     (replay_sort_key_bytes \<lparr>item_metadata = [], item_content_ref = EmailChunkRef [97] 10\<rparr>) =
   cmp (key_bytes (replay_sort_key \<lparr>item_metadata = [], item_content_ref = EmailChunkRef [97] 9\<rparr>))
     (key_bytes (replay_sort_key \<lparr>item_metadata = [], item_content_ref = EmailChunkRef [97] 10\<rparr>))"
  by (rule replay_key_bytes_order) simp_all

end
