(* ===== verification/Replay_Batches.thy ===== *)
theory Replay_Batches
  imports Replay_Keys
begin

text \<open>
  Replaying stored leaf blocks (\<^verbatim>\<open>runtime.rs\<close>): the item and the embedding that a leaf block
  holds, the check of an ordered replay entry against its block, and the materialisation of a
  batch of entries, by one thread or by several.
\<close>

section \<open>Errors\<close>

text \<open>The variants of \<^verbatim>\<open>RuntimeError\<close> that the replay functions return.\<close>

datatype runtime_error =
    Interrupted
  | RuntimeBlockStore block_store_error
  | NoClusterableBlocks
  | MissingIteratedBlock rstring
  | MissingReplayMetadata rstring
  | PrepareMutableRefStore rstring io_error
  | WriteMutableRefStore rstring io_error
  | ReadMutableRefStore rstring io_error
  | EncodeMutableRefStore rstring rstring
  | DecodeMutableRefStore rstring rstring
  | MissingReplayJournalHead rstring
  | InvalidReplayJournalHead rstring rstring
  | WriteReplayJournal rstring io_error
  | ReadReplayJournal rstring io_error
  | PrepareReplayOrderScratchRoot rstring io_error
  | WriteReplayOrderScratch rstring io_error
  | ReadReplayOrderScratch rstring io_error
  | ParallelReplayBatchMaterializationIncomplete nat

section \<open>Leaf blocks\<close>

record embedding_spec =
  spec_dims :: u64
  spec_encoding :: rstring

record stored_entry =
  stored_metadata :: metadata
  stored_embedding :: bytes
  stored_content :: content

record stored_leaf =
  leaf_level :: u64
  leaf_embedding_spec :: embedding_spec
  leaf_entries :: "stored_entry list"

datatype stored_block = StoredLeaf stored_leaf | StoredBranch

record validated_block =
  validated_hash :: block_hash
  validated_body :: stored_block

text \<open>The guard both readers of a leaf start with: the single entry of a replayable leaf.\<close>

definition replayable_entry :: "embedding_spec \<Rightarrow> validated_block \<Rightarrow> stored_entry option" where
  "replayable_entry spec validated =
     (case validated_body validated of
        StoredBranch \<Rightarrow> None
      | StoredLeaf block \<Rightarrow>
          if leaf_level block \<noteq> 0 \<or> leaf_embedding_spec block \<noteq> spec \<or>
             spec_dims (leaf_embedding_spec block) = 0 \<or> length (leaf_entries block) \<noteq> 1
          then None
          else case leaf_entries block of
            entry # _ \<Rightarrow> if stored_embedding entry = [] then None else Some entry
          | [] \<Rightarrow> None)"

definition embedding_content_bytes :: "rstring \<Rightarrow> bytes \<Rightarrow> bytes" where
  "embedding_content_bytes mt body = utf8 mt @ [0] @ body"

definition hash_embedding_input :: "(bytes \<Rightarrow> block_hash) \<Rightarrow> content \<Rightarrow> block_hash" where
  "hash_embedding_input sha c = sha (embedding_content_bytes (media_type c) (content_body c))"

definition replay_embedding_input_hash ::
  "(bytes \<Rightarrow> block_hash) \<Rightarrow> embedding_spec \<Rightarrow> validated_block \<Rightarrow> block_hash option" where
  "replay_embedding_input_hash sha spec validated =
     map_option (\<lambda>entry. hash_embedding_input sha (stored_content entry)) (replayable_entry spec validated)"

definition replay_item_from_validated_block ::
  "(block_hash \<Rightarrow> rstring) \<Rightarrow> embedding_spec \<Rightarrow> validated_block \<Rightarrow> runtime_error + (index_item \<times> bytes) option" where
  "replay_item_from_validated_block disp spec validated =
     (case replayable_entry spec validated of
        None \<Rightarrow> Ok None
      | Some entry \<Rightarrow>
          let fields = map_of (metadata_to_text_map (stored_metadata entry));
              missing = MissingReplayMetadata (disp (validated_hash validated));
              replayed = (\<lambda>identity. Ok (Some
                (\<lparr>item_metadata = stored_metadata entry,
                  item_content_ref = StoredReplay (media_type (stored_content entry))
                    (content_body (stored_content entry)) identity\<rparr>,
                 stored_embedding entry)))
          in case fields (lit ''source_kind'') of
               None \<Rightarrow> Err missing
             | Some source_kind \<Rightarrow>
                 if source_kind = lit ''document'' then
                   (case fields (lit ''source_path'') of
                      None \<Rightarrow> Err missing
                    | Some source_path \<Rightarrow> replayed (DocumentIdentity source_path))
                 else if source_kind = lit ''email'' then
                   (case fields (lit ''email_artifact_ref'') of
                      None \<Rightarrow> Err missing
                    | Some email_ref \<Rightarrow>
                        (case Option.bind (fields (lit ''chunk_index'')) parse_u64 of
                           None \<Rightarrow> Err missing
                         | Some chunk_index \<Rightarrow> replayed (EmailChunkIdentity email_ref (unat chunk_index))))
                 else Ok None)"

section \<open>Ordered entries\<close>

record replay_order_entry =
  entry_block_id :: block_hash
  entry_digest :: block_hash

record loaded_entry =
  loaded_item :: index_item
  loaded_record :: replay_journal_record
  loaded_input_hash :: block_hash
  loaded_embedding :: bytes

text \<open>The functions of the block library, SHA-256 and the store a batch is loaded from.\<close>

record replay_lib =
  rl_disp :: "block_hash \<Rightarrow> rstring"
  rl_sha256 :: "bytes \<Rightarrow> block_hash"
  rl_get :: "block_hash \<Rightarrow> block_store_error + validated_block option"

definition load_replay_batch_entry_from_validated ::
  "replay_lib \<Rightarrow> embedding_spec \<Rightarrow> replay_order_entry \<Rightarrow> validated_block \<Rightarrow> runtime_error + loaded_entry" where
  "load_replay_batch_entry_from_validated lib spec entry validated =
     (let block_id = rl_disp lib (validated_hash validated) in
      and_then (ok_or (MissingReplayMetadata block_id)
                  (replay_embedding_input_hash (rl_sha256 lib) spec validated)) (\<lambda>input_hash.
      and_then (replay_item_from_validated_block (rl_disp lib) spec validated) (\<lambda>found.
      and_then (ok_or (MissingReplayMetadata block_id) found) (\<lambda>(item, embedding).
        if replay_sort_key_digest (rl_sha256 lib) item \<noteq> entry_digest entry
        then Err (InvalidReplayJournalHead block_id
               (lit ''journal entry does not match referenced block replay metadata''))
        else Ok \<lparr>loaded_item = item,
               loaded_record = replay_journal_record_from_item (rl_disp lib) (validated_hash validated) item,
               loaded_input_hash = input_hash, loaded_embedding = embedding\<rparr>))))"

definition load_replay_batch_entry ::
  "replay_lib \<Rightarrow> embedding_spec \<Rightarrow> replay_order_entry \<Rightarrow> runtime_error + loaded_entry" where
  "load_replay_batch_entry lib spec entry =
     (case rl_get lib (entry_block_id entry) of
        Inl e \<Rightarrow> Err (RuntimeBlockStore e)
      | Inr None \<Rightarrow> Err (ReadReplayJournal (rl_disp lib (entry_block_id entry)) IoNotFound)
      | Inr (Some validated) \<Rightarrow> load_replay_batch_entry_from_validated lib spec entry validated)"

definition replay_journal_records_from_block_ids ::
  "replay_lib \<Rightarrow> embedding_spec \<Rightarrow> block_hash list \<Rightarrow> runtime_error + replay_journal_record list" where
  "replay_journal_records_from_block_ids lib spec block_ids =
     try_fold (\<lambda>records block_id.
       case rl_get lib block_id of
         Inl e \<Rightarrow> Err (RuntimeBlockStore e)
       | Inr None \<Rightarrow> Err (MissingIteratedBlock (rl_disp lib block_id))
       | Inr (Some validated) \<Rightarrow>
           and_then (replay_item_from_validated_block (rl_disp lib) spec validated) (\<lambda>found.
             case found of
               None \<Rightarrow> Ok records
             | Some (item, _) \<Rightarrow>
                 Ok (records @ [replay_journal_record_from_item (rl_disp lib) (validated_hash validated) item])))
       [] block_ids"

section \<open>A batch\<close>

text \<open>The single-threaded branch of \<^verbatim>\<open>replay_batch_from_entries\<close>, without the final unzipping.\<close>

definition load_replay_batch_entries ::
  "replay_lib \<Rightarrow> embedding_spec \<Rightarrow> replay_order_entry list \<Rightarrow> runtime_error + loaded_entry list" where
  "load_replay_batch_entries lib spec entries = try_map (load_replay_batch_entry lib spec) entries"

definition replay_batch_materialization_worker_count :: "nat \<Rightarrow> nat \<Rightarrow> nat \<Rightarrow> nat" where
  "replay_batch_materialization_worker_count available_parallelism entry_count limit =
     min (min entry_count (max limit 1)) available_parallelism"

text \<open>
  The parallel branch: workers draw indices from a shared counter, load the entry and send the
  result with its index; the receiver stores it at that index. One step of a worker is one
  draw or one load with its result delivered. The result is read off when all have finished.
\<close>

datatype load_worker = Drawing | Loading nat | Exhausted

record parallel_load =
  next_index :: nat
  load_workers :: "load_worker list"
  completed_loads :: "(runtime_error + loaded_entry) option list"

definition parallel_load_start :: "nat \<Rightarrow> replay_order_entry list \<Rightarrow> parallel_load" where
  "parallel_load_start worker_count entries =
     \<lparr>next_index = 0, load_workers = replicate worker_count Drawing,
      completed_loads = replicate (length entries) None\<rparr>"

fun load_worker_step ::
  "replay_lib \<Rightarrow> embedding_spec \<Rightarrow> replay_order_entry list \<Rightarrow> nat \<Rightarrow> parallel_load \<Rightarrow> parallel_load option" where
  "load_worker_step lib spec entries w s =
     (case load_workers s ! w of
        Drawing \<Rightarrow>
          let index = next_index s in
          Some (s\<lparr>next_index := index + 1,
                  load_workers := (load_workers s)[w := if index \<ge> length entries then Exhausted else Loading index]\<rparr>)
      | Loading index \<Rightarrow>
          Some (s\<lparr>completed_loads := (completed_loads s)[index := Some (load_replay_batch_entry lib spec (entries ! index))],
                  load_workers := (load_workers s)[w := Drawing]\<rparr>)
      | Exhausted \<Rightarrow> None)"

inductive parallel_load_step ::
  "replay_lib \<Rightarrow> embedding_spec \<Rightarrow> replay_order_entry list \<Rightarrow> parallel_load \<Rightarrow> parallel_load \<Rightarrow> bool"
  for lib spec entries where
  "w < length (load_workers s) \<Longrightarrow> load_worker_step lib spec entries w s = Some t \<Longrightarrow>
   parallel_load_step lib spec entries s t"

fun ordered_loads ::
  "nat \<Rightarrow> (runtime_error + loaded_entry) option list \<Rightarrow> runtime_error + loaded_entry list" where
  "ordered_loads i [] = Ok []"
| "ordered_loads i (c # cs) =
     and_then (ok_or (ParallelReplayBatchMaterializationIncomplete i) c) (\<lambda>r.
     and_then r (\<lambda>x. and_then (ordered_loads (i + 1) cs) (\<lambda>xs. Ok (x # xs))))"

definition parallel_load_finished :: "parallel_load \<Rightarrow> bool" where
  "parallel_load_finished s \<longleftrightarrow> (\<forall>w \<in> set (load_workers s). w = Exhausted)"

section \<open>Every schedule loads the same batch\<close>

definition parallel_load_ok ::
  "replay_lib \<Rightarrow> embedding_spec \<Rightarrow> replay_order_entry list \<Rightarrow> parallel_load \<Rightarrow> bool" where
  "parallel_load_ok lib spec entries s \<longleftrightarrow>
     length (completed_loads s) = length entries \<and> load_workers s \<noteq> [] \<and>
     (\<forall>i. Loading i \<in> set (load_workers s) \<longrightarrow> i < length entries) \<and>
     (Exhausted \<in> set (load_workers s) \<longrightarrow> length entries \<le> next_index s) \<and>
     (\<forall>i < length entries. i < next_index s \<longrightarrow> Loading i \<notin> set (load_workers s) \<longrightarrow>
        completed_loads s ! i = Some (load_replay_batch_entry lib spec (entries ! i)))"

lemma set_update_iff:
  "w < length ws \<Longrightarrow> x \<in> set (ws[w := y]) \<longleftrightarrow> x = y \<or> (\<exists>v < length ws. v \<noteq> w \<and> ws ! v = x)"
  by (auto simp: in_set_conv_nth nth_list_update)

lemma set_split_at: "w < length ws \<Longrightarrow> x \<in> set ws \<longleftrightarrow> x = ws ! w \<or> (\<exists>v < length ws. v \<noteq> w \<and> ws ! v = x)"
  using set_update_iff [of w ws x "ws ! w"] by simp

lemma parallel_load_okI:
  assumes "length (completed_loads s) = length entries" and "load_workers s \<noteq> []"
    and "\<And>i. Loading i \<in> set (load_workers s) \<Longrightarrow> i < length entries"
    and "Exhausted \<in> set (load_workers s) \<Longrightarrow> length entries \<le> next_index s"
    and "\<And>i. i < length entries \<Longrightarrow> i < next_index s \<Longrightarrow> Loading i \<notin> set (load_workers s) \<Longrightarrow>
      completed_loads s ! i = Some (load_replay_batch_entry lib spec (entries ! i))"
  shows "parallel_load_ok lib spec entries s"
  using assms unfolding parallel_load_ok_def by blast

lemma parallel_load_draw:
  assumes ok: "parallel_load_ok lib spec entries s" and w: "w < length (load_workers s)"
    and d: "load_workers s ! w = Drawing"
  shows "parallel_load_ok lib spec entries (s\<lparr>next_index := next_index s + 1,
    load_workers := (load_workers s)[w := if next_index s \<ge> length entries then Exhausted else Loading (next_index s)]\<rparr>)"
    (is "parallel_load_ok _ _ _ (s\<lparr>next_index := _, load_workers := ?ws\<rparr>)")
proof -
  have load: "Loading i \<in> set ?ws \<longleftrightarrow> Loading i \<in> set (load_workers s) \<or> i = next_index s \<and> i < length entries" for i
    unfolding set_update_iff [OF w] set_split_at [OF w, of "Loading i"] using d by auto
  have ex: "Exhausted \<in> set ?ws \<Longrightarrow> length entries \<le> next_index s"
    using ok unfolding parallel_load_ok_def set_update_iff [OF w] set_split_at [OF w, of Exhausted]
    by (auto split: if_splits)
  show ?thesis
  proof (rule parallel_load_okI, goal_cases)
    case (5 i)
    then have "i < next_index s" "Loading i \<notin> set (load_workers s)" using load by auto
    then show ?case using ok 5 by (simp add: parallel_load_ok_def)
  qed (use ok ex load in \<open>auto simp: parallel_load_ok_def\<close>)
qed

lemma parallel_load_store:
  assumes ok: "parallel_load_ok lib spec entries s" and w: "w < length (load_workers s)"
    and d: "load_workers s ! w = Loading i"
  shows "parallel_load_ok lib spec entries (s\<lparr>
    completed_loads := (completed_loads s)[i := Some (load_replay_batch_entry lib spec (entries ! i))],
    load_workers := (load_workers s)[w := Drawing]\<rparr>)"
    (is "parallel_load_ok _ _ _ (s\<lparr>completed_loads := ?cs, load_workers := ?ws\<rparr>)")
proof -
  have load: "Loading j \<in> set ?ws \<Longrightarrow> Loading j \<in> set (load_workers s)"
    "j \<noteq> i \<Longrightarrow> Loading j \<in> set (load_workers s) \<Longrightarrow> Loading j \<in> set ?ws"
    "Exhausted \<in> set ?ws \<Longrightarrow> Exhausted \<in> set (load_workers s)" for j
    unfolding set_update_iff [OF w] set_split_at [OF w, of "Loading j"] set_split_at [OF w, of Exhausted]
    using d by auto
  have "Loading i \<in> set (load_workers s)" using w d by (metis nth_mem)
  then have i: "i < length entries" using ok by (simp add: parallel_load_ok_def)
  show ?thesis
  proof (rule parallel_load_okI, goal_cases)
    case (5 j)
    then show ?case using ok i load(2) [of j] by (cases "j = i") (auto simp: parallel_load_ok_def)
  qed (use ok load in \<open>auto simp: parallel_load_ok_def\<close>)
qed

lemma parallel_load_ok_step:
  assumes ok: "parallel_load_ok lib spec entries s" and step: "parallel_load_step lib spec entries s t"
  shows "parallel_load_ok lib spec entries t"
  using step
proof cases
  case (1 w)
  then show ?thesis
    using parallel_load_draw [OF ok 1(1)] parallel_load_store [OF ok 1(1)]
    by (cases "load_workers s ! w") (simp_all add: Let_def)
qed

lemma ordered_loads_all:
  "ordered_loads k (map (\<lambda>e. Some (load_replay_batch_entry lib spec e)) entries) = load_replay_batch_entries lib spec entries"
  unfolding load_replay_batch_entries_def
  by (induction entries arbitrary: k) simp_all

interpretation parallel_load: guarded_machine
  "\<lambda>s. \<exists>worker_count. 0 < worker_count \<and> s = parallel_load_start worker_count entries"
  "parallel_load_step lib spec entries" "parallel_load_ok lib spec entries"
  for lib spec entries
proof unfold_locales
  show "parallel_load_ok lib spec entries s"
    if "\<exists>worker_count. 0 < worker_count \<and> s = parallel_load_start worker_count entries" for s
    using that by (auto simp: parallel_load_ok_def parallel_load_start_def)
  show "parallel_load_ok lib spec entries t"
    if "parallel_load_ok lib spec entries s" "parallel_load_step lib spec entries s t" for s t
    using that by (rule parallel_load_ok_step)
qed

lemma parallel_load_result:
  assumes ok: "parallel_load_ok lib spec entries s" and fin: "parallel_load_finished s"
  shows "completed_loads s = map (\<lambda>e. Some (load_replay_batch_entry lib spec e)) entries"
proof -
  have "load_workers s \<noteq> []" using ok by (simp add: parallel_load_ok_def)
  then have "Exhausted \<in> set (load_workers s)" using fin unfolding parallel_load_finished_def by (metis list.set_sel(1))
  then have n: "length entries \<le> next_index s" using ok by (simp add: parallel_load_ok_def)
  have "Loading i \<notin> set (load_workers s)" for i using fin by (auto simp: parallel_load_finished_def)
  then show ?thesis using ok n by (intro nth_equalityI) (auto simp: parallel_load_ok_def)
qed

section \<open>Properties\<close>

lemma replayed_input_hash:
  "replay_item_from_validated_block disp spec v = Ok (Some x) \<Longrightarrow> \<exists>h. replay_embedding_input_hash sha spec v = Some h"
  by (auto simp: replay_item_from_validated_block_def replay_embedding_input_hash_def split: option.splits)

text \<open>
  A journal record that was made from a stored leaf block always replays to that block:
  the digest computed from the record alone is the digest the block's item has, so the check
  of the entry against its block passes and yields the item, the same record and the stored
  embedding. With any other digest the entry is refused.
\<close>

theorem journal_record_replays:
  assumes "rl_get lib block_id = Ok (Some v)"
    and "replay_item_from_validated_block (rl_disp lib) spec v = Ok (Some (item, embedding))"
    and "item_text_ok (item_content_ref item)"
    and "record = replay_journal_record_from_item (rl_disp lib) (validated_hash v) item"
  shows "\<exists>input_hash. load_replay_batch_entry lib spec \<lparr>entry_block_id = block_id, entry_digest = digest\<rparr> =
    (if replay_journal_record_sort_key_digest (rl_sha256 lib) record = Some digest
     then Ok \<lparr>loaded_item = item, loaded_record = record, loaded_input_hash = input_hash, loaded_embedding = embedding\<rparr>
     else Err (InvalidReplayJournalHead (rl_disp lib (validated_hash v))
       (lit ''journal entry does not match referenced block replay metadata'')))"
proof -
  obtain h where h: "replay_embedding_input_hash (rl_sha256 lib) spec v = Some h"
    using replayed_input_hash [OF assms(2)] by blast
  have "replay_journal_record_sort_key_digest (rl_sha256 lib) record = Some (replay_sort_key_digest (rl_sha256 lib) item)"
    unfolding assms(4) by (rule record_digest [OF assms(3)])
  then show ?thesis using assms(1,2,4) h
    by (intro exI [of _ h])
      (simp add: load_replay_batch_entry_def load_replay_batch_entry_from_validated_def Let_def del: lit_simps)
qed

definition demo_leaf :: validated_block where
  "demo_leaf = \<lparr>validated_hash = [7], validated_body = StoredLeaf \<lparr>leaf_level = 0,
     leaf_embedding_spec = \<lparr>spec_dims = 1, spec_encoding = lit ''f32le''\<rparr>,
     leaf_entries = [\<lparr>stored_metadata = [(VText (lit ''source_kind''), VText (lit ''document'')),
         (VText (lit ''source_path''), VText (lit ''a''))],
       stored_embedding = [0, 0, 128, 63], stored_content = \<lparr>media_type = lit ''text/plain'', content_body = [65]\<rparr>\<rparr>]\<rparr>\<rparr>"

definition demo_replay_lib :: replay_lib where
  "demo_replay_lib = \<lparr>rl_disp = hex_encode, rl_sha256 = \<lambda>bs. bs, rl_get = \<lambda>b. Ok (if b = [7] then Some demo_leaf else None)\<rparr>"

definition demo_spec :: embedding_spec where
  "demo_spec = \<lparr>spec_dims = 1, spec_encoding = lit ''f32le''\<rparr>"

definition demo_item :: index_item where
  "demo_item = \<lparr>item_metadata = [(VText (lit ''source_kind''), VText (lit ''document'')),
     (VText (lit ''source_path''), VText (lit ''a''))],
     item_content_ref = StoredReplay (lit ''text/plain'') [65] (DocumentIdentity (lit ''a''))\<rparr>"

lemma demo_leaf_item:
  "replay_item_from_validated_block (rl_disp demo_replay_lib) demo_spec demo_leaf = Ok (Some (demo_item, [0, 0, 128, 63]))"
  by code_simp

theorem journal_record_replays_witness:
  "\<exists>input_hash. load_replay_batch_entry demo_replay_lib demo_spec \<lparr>entry_block_id = [7], entry_digest = replay_sort_key_digest (rl_sha256 demo_replay_lib) demo_item\<rparr> =
    (if replay_journal_record_sort_key_digest (rl_sha256 demo_replay_lib)
          (replay_journal_record_from_item (rl_disp demo_replay_lib) (validated_hash demo_leaf) demo_item) =
        Some (replay_sort_key_digest (rl_sha256 demo_replay_lib) demo_item)
     then Ok \<lparr>loaded_item = demo_item,
       loaded_record = replay_journal_record_from_item (rl_disp demo_replay_lib) (validated_hash demo_leaf) demo_item,
       loaded_input_hash = input_hash, loaded_embedding = [0, 0, 128, 63]\<rparr>
     else Err (InvalidReplayJournalHead (rl_disp demo_replay_lib (validated_hash demo_leaf))
       (lit ''journal entry does not match referenced block replay metadata'')))"
proof -
  have "rl_get demo_replay_lib [7] = Ok (Some demo_leaf)" by (simp add: demo_replay_lib_def)
  moreover have "item_text_ok (item_content_ref demo_item)" by (simp add: demo_item_def is_scalar_def)
  ultimately show ?thesis using journal_record_replays [OF _ demo_leaf_item _ refl] by blast
qed

text \<open>
  The batch that several threads load is the batch one thread loads. Whatever the number
  of workers and their schedule, when all of them have finished the results read off in index
  order are those of loading the entries one after the other: the same items in the same
  order, or the same first error.
\<close>

theorem parallel_load_deterministic:
  assumes "reach (\<lambda>s. \<exists>worker_count. 0 < worker_count \<and> s = parallel_load_start worker_count entries)
    (parallel_load_step lib spec entries) s" and "parallel_load_finished s"
  shows "ordered_loads 0 (completed_loads s) = load_replay_batch_entries lib spec entries"
  using parallel_load_result [OF parallel_load.inv_reach [OF assms(1)] assms(2)] ordered_loads_all by simp

fun run_loads :: "replay_lib \<Rightarrow> embedding_spec \<Rightarrow> replay_order_entry list \<Rightarrow> nat list \<Rightarrow> parallel_load \<Rightarrow> parallel_load option" where
  "run_loads lib spec entries [] s = Some s"
| "run_loads lib spec entries (w # ws) s =
     (if w < length (load_workers s) then Option.bind (load_worker_step lib spec entries w s) (run_loads lib spec entries ws)
      else None)"

lemma run_loads_reach:
  "run_loads lib spec entries ws s = Some t \<Longrightarrow> reach start (parallel_load_step lib spec entries) s \<Longrightarrow>
   reach start (parallel_load_step lib spec entries) t"
proof (induction ws arbitrary: s)
  case (Cons w ws)
  then obtain u where "w < length (load_workers s)" "load_worker_step lib spec entries w s = Some u"
    "run_loads lib spec entries ws u = Some t"
    by (auto simp: bind_eq_Some_conv simp del: load_worker_step.simps split: if_splits)
  then show ?case using Cons reach_step parallel_load_step.intros by metis
qed simp

definition demo_entry :: replay_order_entry where
  "demo_entry = \<lparr>entry_block_id = [8], entry_digest = []\<rparr>"

theorem parallel_load_deterministic_witness:
  "\<exists>t. run_loads demo_replay_lib demo_spec [demo_entry] [0, 1, 0, 0] (parallel_load_start 2 [demo_entry]) = Some t \<and>
     parallel_load_finished t \<and>
     ordered_loads 0 (completed_loads t) = load_replay_batch_entries demo_replay_lib demo_spec [demo_entry]"
proof -
  obtain t where t: "run_loads demo_replay_lib demo_spec [demo_entry] [0, 1, 0, 0] (parallel_load_start 2 [demo_entry]) = Some t"
    "parallel_load_finished t"
    by (simp add: parallel_load_start_def numeral_2_eq_2 parallel_load_finished_def)
  have "reach (\<lambda>s. \<exists>n. 0 < n \<and> s = parallel_load_start n [demo_entry])
      (parallel_load_step demo_replay_lib demo_spec [demo_entry]) t"
    by (rule run_loads_reach [OF t(1)], rule reach_start) (rule exI [of _ 2], simp)
  from parallel_load_deterministic [OF this t(2)] t show ?thesis by blast
qed

end
