(* ===== verification/Replay_Journal.thy ===== *)
theory Replay_Journal
  imports Replay_Batches Block_Children
begin

text \<open>
  The replay journal (\<^verbatim>\<open>runtime.rs\<close>): a chain of blocks in the block store, each with a bounded
  payload and the id of its predecessor, whose head is kept in the mutable ref store.
  Appending, publishing the new head, and walking the chain newest first.

  The block library, \<^verbatim>\<open>ciborium\<close>, \<^verbatim>\<open>serde_json\<close>, the block store and the storage of the mutable
  ref are arguments (\<open>journal_lib\<close>). Whether an interrupt is pending when it is checked is an
  argument of the operation that checks.
\<close>

section \<open>Data\<close>

definition REPLAY_JOURNAL_SCHEMA_VERSION :: u64 where
  "REPLAY_JOURNAL_SCHEMA_VERSION = 1"

definition REPLAY_JOURNAL_BLOCK_MAX_BYTES :: nat where
  "REPLAY_JOURNAL_BLOCK_MAX_BYTES = 64 * 1024 * 1024"

record mutable_ref_state =
  current_root_block_id :: "rstring option"
  replay_journal_head_block_id :: "rstring option"
  ref_metadata :: "bmap option"

definition default_ref_state :: mutable_ref_state where
  "default_ref_state = \<lparr>current_root_block_id = None, replay_journal_head_block_id = None, ref_metadata = None\<rparr>"

record mutable_ref_update =
  update_root :: "rstring option"
  update_head :: "rstring option"
  update_metadata :: "bmap option"

record replay_journal_block_body =
  body_schema_version :: u64
  body_previous_block_id :: "rstring option"
  body_entries :: "replay_journal_record list"

record ('s, 'r, 'v) journal_lib =
  jl_disp :: "block_hash \<Rightarrow> rstring"
  jl_ref_label :: rstring
  jl_ref_read :: "'r \<Rightarrow> runtime_error + bytes option"
  jl_ref_write :: "'r \<Rightarrow> bytes \<Rightarrow> ('r, runtime_error, unit) fallible"
  jl_refs_from_slice :: "bytes \<Rightarrow> rstring + mutable_ref_state"
  jl_refs_to_vec_pretty :: "mutable_ref_state \<Rightarrow> rstring + bytes"
  jl_write_record :: "replay_journal_record \<Rightarrow> rstring + bytes"
  jl_write_body :: "replay_journal_block_body \<Rightarrow> rstring + bytes"
  jl_read_body :: "bytes \<Rightarrow> rstring + replay_journal_block_body"
  jl_build_custom_block :: "rstring \<Rightarrow> cbor \<Rightarrow> rstring + 'v"
  jl_into_typed_block :: "'v \<Rightarrow> rstring + typed_block"
  jl_debug_block :: "'v decoded_block \<Rightarrow> rstring"
  jl_put_versioned :: "'s \<Rightarrow> 'v \<Rightarrow> ('s, block_store_error, block_hash) fallible"
  jl_get_decoded :: "'s \<Rightarrow> block_hash \<Rightarrow> block_store_error + 'v decoded_block option"

section \<open>The mutable ref\<close>

definition load_mutable_ref_store :: "('s, 'r, 'v) journal_lib \<Rightarrow> 'r \<Rightarrow> runtime_error + mutable_ref_state" where
  "load_mutable_ref_store lib ref =
     and_then (jl_ref_read lib ref) (\<lambda>found.
       case found of
         None \<Rightarrow> Ok default_ref_state
       | Some bs \<Rightarrow> map_err (DecodeMutableRefStore (jl_ref_label lib)) (jl_refs_from_slice lib bs))"

definition write_mutable_ref_store ::
  "('s, 'r, 'v) journal_lib \<Rightarrow> 'r \<Rightarrow> mutable_ref_state \<Rightarrow> ('r, runtime_error, unit) fallible" where
  "write_mutable_ref_store lib ref refs =
     (case jl_refs_to_vec_pretty lib refs of
        Inl message \<Rightarrow> (ref, Err (EncodeMutableRefStore (jl_ref_label lib) message))
      | Inr encoded \<Rightarrow> jl_ref_write lib ref encoded)"

fun or_keep :: "'a option \<Rightarrow> 'a option \<Rightarrow> 'a option" where
  "or_keep (Some x) old = Some x"
| "or_keep None old = old"

definition apply_mutable_ref_store_update :: "mutable_ref_state \<Rightarrow> mutable_ref_update \<Rightarrow> mutable_ref_state" where
  "apply_mutable_ref_store_update refs u =
     \<lparr>current_root_block_id = or_keep (update_root u) (current_root_block_id refs),
      replay_journal_head_block_id = or_keep (update_head u) (replay_journal_head_block_id refs),
      ref_metadata = or_keep (update_metadata u) (ref_metadata refs)\<rparr>"

definition update_mutable_ref_store ::
  "('s, 'r, 'v) journal_lib \<Rightarrow> 'r \<Rightarrow> mutable_ref_update \<Rightarrow> ('r, runtime_error, unit) fallible" where
  "update_mutable_ref_store lib ref u =
     (case load_mutable_ref_store lib ref of
        Inl e \<Rightarrow> (ref, Err e)
      | Inr refs \<Rightarrow> write_mutable_ref_store lib ref (apply_mutable_ref_store_update refs u))"

section \<open>Journal blocks\<close>

definition cbor_array_header_size :: "nat \<Rightarrow> nat" where
  "cbor_array_header_size len =
     (if len \<le> 23 then 1 else if len \<le> 255 then 2 else if len \<le> 65535 then 3
      else if len \<le> 4294967295 then 5 else 9)"

definition encode_replay_journal_record ::
  "('s, 'r, 'v) journal_lib \<Rightarrow> replay_journal_record \<Rightarrow> runtime_error + bytes" where
  "encode_replay_journal_record lib record =
     map_err (\<lambda>m. WriteReplayJournal (replay_journal_record_label record) (IoOther m)) (jl_write_record lib record)"

definition journal_body :: "replay_journal_record list \<Rightarrow> rstring option \<Rightarrow> replay_journal_block_body" where
  "journal_body entries previous =
     \<lparr>body_schema_version = REPLAY_JOURNAL_SCHEMA_VERSION, body_previous_block_id = previous, body_entries = entries\<rparr>"

definition encode_replay_journal_block_body ::
  "('s, 'r, 'v) journal_lib \<Rightarrow> replay_journal_record list \<Rightarrow> rstring option \<Rightarrow> runtime_error + bytes" where
  "encode_replay_journal_block_body lib entries previous =
     map_err (\<lambda>m. WriteReplayJournal (case previous of Some p \<Rightarrow> p | None \<Rightarrow> lit ''<new>'') (IoOther m))
       (jl_write_body lib (journal_body entries previous))"

definition replay_journal_block_body_size ::
  "('s, 'r, 'v) journal_lib \<Rightarrow> nat list \<Rightarrow> nat \<Rightarrow> rstring option \<Rightarrow> runtime_error + nat" where
  "replay_journal_block_body_size lib encoded_entry_sizes encoded_entry_size_sum previous =
     and_then (encode_replay_journal_block_body lib [] previous) (\<lambda>base.
       Ok (length base - cbor_array_header_size 0 + cbor_array_header_size (length encoded_entry_sizes)
           + encoded_entry_size_sum))"

definition replay_journal_custom_block :: "('s, 'r, 'v) journal_lib \<Rightarrow> bytes \<Rightarrow> runtime_error + 'v" where
  "replay_journal_custom_block lib body =
     map_err (\<lambda>m. WriteReplayJournal (lit ''<new>'') (IoOther m))
       (jl_build_custom_block lib REPLAY_JOURNAL_BLOCK_TYPE (artifact_content REPLAY_JOURNAL_MEDIA_TYPE body))"

definition too_large :: "rstring \<Rightarrow> runtime_error" where
  "too_large label = WriteReplayJournal label
     (IoOther (lit ''replay journal block exceeded 67108864-byte maximum payload''))"

definition store_replay_journal_block ::
  "('s, 'r, 'v) journal_lib \<Rightarrow> 's \<Rightarrow> rstring option \<Rightarrow> replay_journal_record list
     \<Rightarrow> ('s, runtime_error, block_hash) fallible" where
  "store_replay_journal_block lib st previous entries =
     (case encode_replay_journal_block_body lib entries previous of
        Inl e \<Rightarrow> (st, Err e)
      | Inr body \<Rightarrow>
          if length body > REPLAY_JOURNAL_BLOCK_MAX_BYTES then
            (st, Err (too_large (case entries of entry # _ \<Rightarrow> replay_journal_record_label entry | [] \<Rightarrow> lit ''<empty>'')))
          else case replay_journal_custom_block lib body of
            Inl e \<Rightarrow> (st, Err e)
          | Inr versioned \<Rightarrow> (case jl_put_versioned lib st versioned of
              (st', Inl e) \<Rightarrow> (st', Err (RuntimeBlockStore e))
            | (st', Inr h) \<Rightarrow> (st', Ok h)))"

section \<open>Appending\<close>

fun append_loop ::
  "('s, 'r, 'v) journal_lib \<Rightarrow> 's \<Rightarrow> rstring option \<Rightarrow> replay_journal_record list \<Rightarrow> nat list \<Rightarrow> nat
     \<Rightarrow> replay_journal_record list \<Rightarrow> ('s, runtime_error, rstring option \<times> replay_journal_record list) fallible" where
  "append_loop lib st head pending sizes total_len [] = (st, Ok (head, pending))"
| "append_loop lib st head pending sizes total_len (record # records) =
     (case encode_replay_journal_record lib record of
        Inl e \<Rightarrow> (st, Err e)
      | Inr encoded \<Rightarrow>
          let len = length encoded in
          case replay_journal_block_body_size lib (sizes @ [len]) (total_len + len) head of
            Inl e \<Rightarrow> (st, Err e)
          | Inr block_size \<Rightarrow>
              if block_size > REPLAY_JOURNAL_BLOCK_MAX_BYTES then
                if pending = [] then (st, Err (too_large (replay_journal_record_label record)))
                else case store_replay_journal_block lib st head pending of
                  (st', Inl e) \<Rightarrow> (st', Err e)
                | (st', Inr published) \<Rightarrow>
                    append_loop lib st' (Some (jl_disp lib published)) [record] [len] len records
              else append_loop lib st head (pending @ [record]) (sizes @ [len]) (total_len + len) records)"

definition append_replay_journal_records ::
  "('s, 'r, 'v) journal_lib \<Rightarrow> 's \<Rightarrow> 'r \<Rightarrow> replay_journal_record list
     \<Rightarrow> ('s, runtime_error, rstring option) fallible" where
  "append_replay_journal_records lib st ref records =
     (case load_mutable_ref_store lib ref of
        Inl e \<Rightarrow> (st, Err e)
      | Inr refs \<Rightarrow>
          if records = [] then (st, Ok (replay_journal_head_block_id refs))
          else case append_loop lib st (replay_journal_head_block_id refs) [] [] 0 records of
            (st', Inl e) \<Rightarrow> (st', Err e)
          | (st', Inr (head, pending)) \<Rightarrow>
              if pending = [] then (st', Ok head)
              else case store_replay_journal_block lib st' head pending of
                (st'', Inl e) \<Rightarrow> (st'', Err e)
              | (st'', Inr published) \<Rightarrow> (st'', Ok (Some (jl_disp lib published))))"

definition publish_replay_journal_and_mutable_refs ::
  "('s, 'r, 'v) journal_lib \<Rightarrow> bool \<Rightarrow> bool \<Rightarrow> 's \<times> 'r \<Rightarrow> replay_journal_record list \<Rightarrow> rstring option \<Rightarrow> bmap option
     \<Rightarrow> ('s \<times> 'r, runtime_error, unit) fallible" where
  "publish_replay_journal_and_mutable_refs lib interrupted_before interrupted_between s records root md =
     (if interrupted_before then (s, Err Interrupted)
      else case append_replay_journal_records lib (fst s) (snd s) records of
        (st, Inl e) \<Rightarrow> ((st, snd s), Err e)
      | (st, Inr head) \<Rightarrow>
          if interrupted_between then ((st, snd s), Err Interrupted)
          else case update_mutable_ref_store lib (snd s)
                 \<lparr>update_root = root, update_head = head, update_metadata = md\<rparr> of
            (ref, r) \<Rightarrow> ((st, ref), r))"

section \<open>Walking the chain\<close>

definition invalid_head :: "rstring \<Rightarrow> rstring \<Rightarrow> runtime_error" where
  "invalid_head block_id message = InvalidReplayJournalHead block_id message"

definition replay_journal_block_body_from_decoded ::
  "('s, 'r, 'v) journal_lib \<Rightarrow> 'v decoded_block \<Rightarrow> rstring \<Rightarrow> runtime_error + replay_journal_block_body" where
  "replay_journal_block_body_from_decoded lib decoded block_id =
     (case decoded of
        V1 b \<Rightarrow> Err (invalid_head block_id (lit ''unexpected journal block version '' @ jl_debug_block lib decoded))
      | V2 validated \<Rightarrow>
          and_then (map_err (invalid_head block_id) (jl_into_typed_block lib validated)) (\<lambda>typed.
            case typed of
              Custom custom \<Rightarrow>
                if custom_type_name custom \<noteq> REPLAY_JOURNAL_BLOCK_TYPE then
                  Err (invalid_head block_id (lit ''unexpected journal block type name '' @ custom_type_name custom))
                else
                  and_then (map_err (\<lambda>e. invalid_head block_id (payload_error_text e))
                              (custom_block_payload (custom_content custom))) (\<lambda>(media_type, body).
                    if media_type \<noteq> REPLAY_JOURNAL_MEDIA_TYPE then
                      Err (invalid_head block_id (lit ''unexpected journal media type '' @ media_type))
                    else
                      and_then (map_err (invalid_head block_id) (jl_read_body lib body)) (\<lambda>journal.
                        if body_schema_version journal \<noteq> REPLAY_JOURNAL_SCHEMA_VERSION then
                          Err (invalid_head block_id (lit ''journal block schema_version must be 1''))
                        else Ok journal))
            | other \<Rightarrow> Err (invalid_head block_id (lit ''unexpected journal block type '' @ typed_block_name other))))"

text \<open>One step of both walks: the block of an id that was not visited before.\<close>

definition journal_block_at ::
  "('s, 'r, 'v) journal_lib \<Rightarrow> 's \<Rightarrow> rstring list \<Rightarrow> rstring \<Rightarrow> runtime_error + replay_journal_block_body" where
  "journal_block_at lib st visited block_id =
     (if block_id \<in> set visited then Err (invalid_head block_id (lit ''replay journal chain contains a cycle''))
      else
        and_then (map_err (\<lambda>e. invalid_head block_id (parse_error_text e)) (parse_block_hash block_id)) (\<lambda>h.
        and_then (map_err RuntimeBlockStore (jl_get_decoded lib st h)) (\<lambda>found.
          case found of
            None \<Rightarrow> Err (ReadReplayJournal block_id IoNotFound)
          | Some decoded \<Rightarrow> replay_journal_block_body_from_decoded lib decoded (jl_disp lib h))))"

text \<open>
  A chain may be as long as the store has blocks; \<open>n\<close> bounds the number of blocks read, and
  \<open>None\<close> means that the bound was reached.
\<close>

text \<open>
  The walk checks for an interrupt before each block and before each entry. A check is named by
  its place in the walk, and whether an interrupt is pending there is an argument.
\<close>

datatype walk_check = BlockCheck nat | EntryCheck nat nat

fun checked_fold ::
  "(nat \<Rightarrow> bool) \<Rightarrow> nat \<Rightarrow> ('s \<Rightarrow> 'a \<Rightarrow> runtime_error + 's) \<Rightarrow> 's \<Rightarrow> 'a list \<Rightarrow> runtime_error + 's" where
  "checked_fold interrupted k f s [] = Ok s"
| "checked_fold interrupted k f s (x # xs) =
     (if interrupted k then Err Interrupted else and_then (f s x) (\<lambda>s'. checked_fold interrupted (Suc k) f s' xs))"

lemma checked_fold_quiet [simp]: "(\<And>i. \<not> interrupted i) \<Longrightarrow> checked_fold interrupted k f s xs = try_fold f s xs"
  by (induction xs arbitrary: k s) simp_all

fun journal_walk ::
  "nat \<Rightarrow> ('s, 'r, 'v) journal_lib \<Rightarrow> (walk_check \<Rightarrow> bool) \<Rightarrow> 's
     \<Rightarrow> ('a \<Rightarrow> replay_journal_record \<Rightarrow> runtime_error + 'a) \<Rightarrow> rstring list
     \<Rightarrow> rstring \<Rightarrow> 'a \<Rightarrow> (runtime_error + 'a) option" where
  "journal_walk 0 lib interrupted st visit visited block_id acc = None"
| "journal_walk (Suc n) lib interrupted st visit visited block_id acc =
     (if interrupted (BlockCheck (length visited)) then Some (Err Interrupted)
      else case journal_block_at lib st visited block_id of
        Inl e \<Rightarrow> Some (Err e)
      | Inr body \<Rightarrow>
         (case checked_fold (\<lambda>k. interrupted (EntryCheck (length visited) k)) 0 visit acc (rev (body_entries body)) of
          Inl e \<Rightarrow> Some (Err e)
        | Inr acc' \<Rightarrow> (case body_previous_block_id body of
            Some previous \<Rightarrow> journal_walk n lib interrupted st visit (block_id # visited) previous acc'
          | None \<Rightarrow> Some (Ok acc'))))"

definition for_each_replay_journal_record_newest_first ::
  "nat \<Rightarrow> ('s, 'r, 'v) journal_lib \<Rightarrow> (walk_check \<Rightarrow> bool) \<Rightarrow> 's \<Rightarrow> 'r
     \<Rightarrow> ('a \<Rightarrow> replay_journal_record \<Rightarrow> runtime_error + 'a) \<Rightarrow> 'a \<Rightarrow> (runtime_error + 'a) option" where
  "for_each_replay_journal_record_newest_first n lib interrupted st ref visit acc =
     (case load_mutable_ref_store lib ref of
        Inl e \<Rightarrow> Some (Err e)
      | Inr refs \<Rightarrow> (case replay_journal_head_block_id refs of
          None \<Rightarrow> Some (Err (MissingReplayJournalHead (jl_ref_label lib)))
        | Some head \<Rightarrow> journal_walk n lib interrupted st visit [] head acc))"

fun load_journal_loop ::
  "nat \<Rightarrow> ('s, 'r, 'v) journal_lib \<Rightarrow> 's \<Rightarrow> rstring list \<Rightarrow> rstring \<Rightarrow> replay_journal_block_body list
     \<Rightarrow> (runtime_error + replay_journal_block_body list) option" where
  "load_journal_loop 0 lib st visited block_id blocks = None"
| "load_journal_loop (Suc n) lib st visited block_id blocks =
     (case journal_block_at lib st visited block_id of
        Inl e \<Rightarrow> Some (Err e)
      | Inr body \<Rightarrow> (case body_previous_block_id body of
          Some previous \<Rightarrow> load_journal_loop n lib st (block_id # visited) previous (blocks @ [body])
        | None \<Rightarrow> Some (Ok (blocks @ [body]))))"

definition load_replay_journal_records ::
  "nat \<Rightarrow> ('s, 'r, 'v) journal_lib \<Rightarrow> 's \<Rightarrow> 'r \<Rightarrow> (runtime_error + replay_journal_record list) option" where
  "load_replay_journal_records n lib st ref =
     (case load_mutable_ref_store lib ref of
        Inl e \<Rightarrow> Some (Err e)
      | Inr refs \<Rightarrow> (case replay_journal_head_block_id refs of
          None \<Rightarrow> Some (Err (MissingReplayJournalHead (jl_ref_label lib)))
        | Some head \<Rightarrow>
            map_option (\<lambda>r. and_then r (\<lambda>blocks. Ok (concat (map body_entries (rev blocks)))))
              (load_journal_loop n lib st [] head [])))"

section \<open>Indexing outcomes\<close>

definition cbor_encoded_text_size :: "nat \<Rightarrow> nat" where
  "cbor_encoded_text_size len = cbor_array_header_size len + len"

definition replay_journal_indexing_outcome_record_base_size ::
  "('s, 'r, 'v) journal_lib \<Rightarrow> nat \<Rightarrow> block_hash \<Rightarrow> runtime_error + nat" where
  "replay_journal_indexing_outcome_record_base_size lib input_block_count root_id =
     and_then (encode_replay_journal_record lib
       (OutcomeRecord StepIndexing [] input_block_count [] (jl_disp lib root_id))) (\<lambda>encoded. Ok (length encoded))"

definition replay_journal_indexing_outcome_record_size :: "nat \<Rightarrow> nat \<Rightarrow> nat \<Rightarrow> nat" where
  "replay_journal_indexing_outcome_record_size encoded_base_size id_count ids_size =
     encoded_base_size - cbor_array_header_size 0 + cbor_array_header_size id_count + ids_size"

definition predecessor_id :: rstring where
  "predecessor_id = replicate 64 48"

definition outcome_too_large :: "rstring \<Rightarrow> nat \<Rightarrow> runtime_error" where
  "outcome_too_large root payload_limit = WriteReplayJournal root
     (IoOther (lit ''replay journal indexing outcome exceeded '' @ show_nat payload_limit @
       lit ''-byte maximum payload''))"

fun outcome_loop ::
  "('s, 'r, 'v) journal_lib \<Rightarrow> nat \<Rightarrow> rstring \<Rightarrow> nat \<Rightarrow> nat \<Rightarrow> nat
     \<Rightarrow> replay_journal_record list \<Rightarrow> rstring list \<Rightarrow> nat \<Rightarrow> rstring list
     \<Rightarrow> runtime_error + replay_journal_record list" where
  "outcome_loop lib inputs root limit initial_base continuation_base records ids ids_size [] =
     Ok (records @ [OutcomeRecord StepIndexing [] (if records = [] then inputs else 0) ids root])"
| "outcome_loop lib inputs root limit initial_base continuation_base records ids ids_size (bid # rest) =
     (let len = cbor_encoded_text_size (length (utf8 bid));
          is_initial = (records = []);
          encoded_size = replay_journal_indexing_outcome_record_size
            (if is_initial then initial_base else continuation_base) (length ids + 1) (ids_size + len)
      in and_then (replay_journal_block_body_size lib [encoded_size] encoded_size (Some predecessor_id)) (\<lambda>block_size.
           if block_size > limit then
             if ids = [] then Err (outcome_too_large root limit)
             else outcome_loop lib inputs root limit initial_base continuation_base
                    (records @ [OutcomeRecord StepIndexing [] (if is_initial then inputs else 0) ids root])
                    [bid] len rest
           else outcome_loop lib inputs root limit initial_base continuation_base records (ids @ [bid])
                  (ids_size + len) rest))"

definition replay_journal_indexing_outcome_records_with_limit ::
  "('s, 'r, 'v) journal_lib \<Rightarrow> nat \<Rightarrow> block_hash list \<Rightarrow> block_hash \<Rightarrow> nat
     \<Rightarrow> runtime_error + replay_journal_record list" where
  "replay_journal_indexing_outcome_records_with_limit lib inputs generated root_id limit =
     and_then (replay_journal_indexing_outcome_record_base_size lib inputs root_id) (\<lambda>initial_base.
     and_then (replay_journal_indexing_outcome_record_base_size lib 0 root_id) (\<lambda>continuation_base.
       outcome_loop lib inputs (jl_disp lib root_id) limit initial_base continuation_base [] [] 0
         (remdups_adj (sort (map (jl_disp lib) generated)))))"

definition replay_journal_indexing_outcome_records ::
  "('s, 'r, 'v) journal_lib \<Rightarrow> nat \<Rightarrow> block_hash list \<Rightarrow> block_hash \<Rightarrow> runtime_error + replay_journal_record list" where
  "replay_journal_indexing_outcome_records lib inputs generated root_id =
     replay_journal_indexing_outcome_records_with_limit lib inputs generated root_id REPLAY_JOURNAL_BLOCK_MAX_BYTES"

end
