(* ===== verification/Replay_Journal_Laws.thy ===== *)
theory Replay_Journal_Laws
  imports Replay_Journal
begin

text \<open>
  Publishing to the replay journal is atomic for its readers: walking the chain from the
  published head yields the records from before, or these and all the new ones.
\<close>

section \<open>Contract of the libraries\<close>

text \<open>
  The ref storage keeps the old bytes or has the new ones when a write fails; decoders read
  what encoders wrote; a block that was put can be read under the id that was returned, and
  puts take no block away; ids are shown as lower-case hexadecimal.
\<close>

definition journal_contract :: "('s, 'r, 'v) journal_lib \<Rightarrow> bool" where
  "journal_contract lib \<longleftrightarrow>
     (\<forall>refs bs. jl_refs_to_vec_pretty lib refs = Ok bs \<longrightarrow> jl_refs_from_slice lib bs = Ok refs) \<and>
     (\<forall>ref bs ref' r. jl_ref_write lib ref bs = (ref', r) \<longrightarrow>
        jl_ref_read lib ref' = Ok (Some bs) \<or> r \<noteq> Ok () \<and> jl_ref_read lib ref' = jl_ref_read lib ref) \<and>
     (\<forall>b bs. jl_write_body lib b = Ok bs \<longrightarrow> jl_read_body lib bs = Ok b) \<and>
     (\<forall>t c v. jl_build_custom_block lib t c = Ok v \<longrightarrow>
        jl_into_typed_block lib v = Ok (Custom \<lparr>custom_type_name = t, custom_content = c\<rparr>)) \<and>
     (\<forall>st v st' h. jl_put_versioned lib st v = (st', Ok h) \<longrightarrow>
        length h = HASH_LEN \<and> jl_get_decoded lib st' h = Ok (Some (V2 v))) \<and>
     (\<forall>st v st' r h b. jl_put_versioned lib st v = (st', r) \<longrightarrow> jl_get_decoded lib st h = Ok (Some b) \<longrightarrow>
        jl_get_decoded lib st' h = Ok (Some b)) \<and>
     (\<forall>h. length h = HASH_LEN \<longrightarrow> jl_disp lib h = hex_encode h)"

lemma contract_refs:
  "journal_contract lib \<Longrightarrow> jl_refs_to_vec_pretty lib refs = Ok bs \<Longrightarrow> jl_refs_from_slice lib bs = Ok refs"
  "journal_contract lib \<Longrightarrow> jl_ref_write lib ref bs = (ref', r) \<Longrightarrow>
     jl_ref_read lib ref' = Ok (Some bs) \<or> r \<noteq> Ok () \<and> jl_ref_read lib ref' = jl_ref_read lib ref"
  unfolding journal_contract_def by (elim conjE, simp)+

lemma contract_blocks:
  "journal_contract lib \<Longrightarrow> jl_write_body lib b = Ok bs \<Longrightarrow> jl_read_body lib bs = Ok b"
  "journal_contract lib \<Longrightarrow> jl_build_custom_block lib t c = Ok v \<Longrightarrow>
     jl_into_typed_block lib v = Ok (Custom \<lparr>custom_type_name = t, custom_content = c\<rparr>)"
  "journal_contract lib \<Longrightarrow> jl_put_versioned lib st v = (st', Ok h) \<Longrightarrow>
     length h = HASH_LEN \<and> jl_get_decoded lib st' h = Ok (Some (V2 v))"
  "journal_contract lib \<Longrightarrow> jl_put_versioned lib st v = (st', r) \<Longrightarrow> jl_get_decoded lib st i = Ok (Some d) \<Longrightarrow>
     jl_get_decoded lib st' i = Ok (Some d)"
  "journal_contract lib \<Longrightarrow> length i = HASH_LEN \<Longrightarrow> jl_disp lib i = hex_encode i"
  unfolding journal_contract_def by blast+

lemma parse_shown: "length h = HASH_LEN \<Longrightarrow> parse_block_hash (hex_encode h) = Ok h"
  by (rule tree_hash.parse_accepts) (simp_all add: lower_hex_encode)

section \<open>Chains\<close>

definition block_at :: "('s, 'r, 'v) journal_lib \<Rightarrow> 's \<Rightarrow> rstring \<Rightarrow> replay_journal_block_body \<Rightarrow> bool" where
  "block_at lib st block_id body \<longleftrightarrow> (\<exists>h d. parse_block_hash block_id = Ok h \<and>
     jl_get_decoded lib st h = Ok (Some d) \<and> replay_journal_block_body_from_decoded lib d (jl_disp lib h) = Ok body)"

lemma journal_block_at_iff:
  "journal_block_at lib st visited block_id = Ok body \<longleftrightarrow> block_id \<notin> set visited \<and> block_at lib st block_id body"
  by (auto simp: journal_block_at_def block_at_def result_simps split: option.splits)

lemma block_at_unique: "block_at lib st i b \<Longrightarrow> block_at lib st i b' \<Longrightarrow> b = b'"
  by (auto simp: block_at_def)

fun chain :: "('s, 'r, 'v) journal_lib \<Rightarrow> 's \<Rightarrow> rstring \<Rightarrow> (rstring \<times> replay_journal_block_body) list \<Rightarrow> bool" where
  "chain lib st block_id [] = False"
| "chain lib st block_id ((i, b) # c) =
     (i = block_id \<and> block_at lib st i b \<and>
      (case body_previous_block_id b of None \<Rightarrow> c = [] | Some previous \<Rightarrow> chain lib st previous c))"

definition chain_records :: "(rstring \<times> replay_journal_block_body) list \<Rightarrow> replay_journal_record list" where
  "chain_records c = concat (map (\<lambda>(i, b). rev (body_entries b)) c)"

lemma chain_records_simps [simp]:
  "chain_records [] = []" "chain_records ((i, b) # c) = rev (body_entries b) @ chain_records c"
  "chain_records (c @ c') = chain_records c @ chain_records c'"
  by (simp_all add: chain_records_def)

lemma chain_first: "chain lib st i c \<Longrightarrow> \<exists>b c'. c = (i, b) # c'"
  by (cases c) auto

lemma chain_suffix: "chain lib st i (c1 @ (j, b) # c2) \<Longrightarrow> chain lib st j ((j, b) # c2)"
proof (induction c1 arbitrary: i)
  case (Cons x c1)
  then show ?case by (cases x) (auto split: option.splits)
qed simp

lemma chain_mono:
  "(\<And>i b. block_at lib st i b \<Longrightarrow> block_at lib st' i b) \<Longrightarrow> chain lib st i c \<Longrightarrow> chain lib st' i c"
proof (induction c arbitrary: i)
  case (Cons x c)
  then show ?case by (cases x) (auto split: option.splits)
qed simp

lemma try_fold_append: "try_fold f s (xs @ ys) = and_then (try_fold f s xs) (\<lambda>s'. try_fold f s' ys)"
proof (induction xs arbitrary: s)
  case (Cons x xs)
  then show ?case by (cases "f s x") simp_all
qed simp

lemma walk_chain:
  assumes "chain lib st i c" and "distinct (map fst c)" and "set (map fst c) \<inter> set visited = {}" and "length c \<le> n"
  shows "journal_walk n lib (\<lambda>_. False) st visit visited i acc = Some (try_fold visit acc (chain_records c))"
  using assms
proof (induction n arbitrary: i c visited acc)
  case 0
  then show ?case by (cases c) auto
next
  case (Suc n)
  obtain b c' where c: "c = (i, b) # c'" using chain_first [OF Suc.prems(1)] by blast
  have at: "journal_block_at lib st visited i = Ok b"
    unfolding journal_block_at_iff using Suc.prems(1,3) c by auto
  show ?case
  proof (cases "try_fold visit acc (rev (body_entries b))")
    case (Inl e)
    then show ?thesis by (simp add: at c try_fold_append)
  next
    case (Inr acc')
    show ?thesis
    proof (cases "body_previous_block_id b")
      case None
      then have "c' = []" using Suc.prems(1) c by simp
      then show ?thesis using None Inr by (simp add: at c)
    next
      case (Some p)
      have "journal_walk n lib (\<lambda>_. False) st visit (i # visited) p acc' = Some (try_fold visit acc' (chain_records c'))"
        using Suc.prems c Some by (intro Suc.IH) auto
      then show ?thesis using Some Inr by (simp add: at c try_fold_append)
    qed
  qed
qed

lemma walk_Ok_chain:
  assumes "journal_walk n lib (\<lambda>_. False) st visit visited i acc = Some (Ok r)"
  shows "\<exists>c. chain lib st i c \<and> distinct (map fst c) \<and> set (map fst c) \<inter> set visited = {} \<and>
    try_fold visit acc (chain_records c) = Ok r"
  using assms
proof (induction n arbitrary: visited i acc)
  case (Suc n)
  obtain b where at: "journal_block_at lib st visited i = Ok b" using Suc.prems by (auto split: sum.splits)
  obtain acc' where f: "try_fold visit acc (rev (body_entries b)) = Ok acc'"
    using Suc.prems at by (auto split: sum.splits)
  have b: "i \<notin> set visited" "block_at lib st i b" using at unfolding journal_block_at_iff by auto
  show ?case
  proof (cases "body_previous_block_id b")
    case None
    then show ?thesis using Suc.prems at f b by (intro exI [of _ "[(i, b)]"]) auto
  next
    case (Some p)
    then have "journal_walk n lib (\<lambda>_. False) st visit (i # visited) p acc' = Some (Ok r)" using Suc.prems at f by simp
    from Suc.IH [OF this] obtain c where "chain lib st p c" "distinct (map fst c)"
      "set (map fst c) \<inter> set (i # visited) = {}" "try_fold visit acc' (chain_records c) = Ok r" by blast
    then show ?thesis using Some f b by (intro exI [of _ "(i, b) # c"]) (auto simp: try_fold_append)
  qed
qed simp

section \<open>Storing a block\<close>

lemma stored_body_decodes:
  assumes c: "journal_contract lib" and enc: "jl_write_body lib (journal_body es prev) = Ok body"
    and v: "replay_journal_custom_block lib body = Ok v"
  shows "replay_journal_block_body_from_decoded lib (V2 v) block_id = Ok (journal_body es prev)"
proof -
  have "jl_build_custom_block lib REPLAY_JOURNAL_BLOCK_TYPE (artifact_content REPLAY_JOURNAL_MEDIA_TYPE body) = Ok v"
    using v by (simp add: replay_journal_custom_block_def result_simps)
  note typed = contract_blocks(2) [OF c this]
  note read = contract_blocks(1) [OF c enc]
  show ?thesis
    by (simp add: replay_journal_block_body_from_decoded_def typed read text_field_artifact)
      (simp add: journal_body_def)
qed

lemma store_block_keeps:
  assumes c: "journal_contract lib" and s: "store_replay_journal_block lib st prev es = (st', r)"
  shows "jl_get_decoded lib st h = Ok (Some d) \<Longrightarrow> jl_get_decoded lib st' h = Ok (Some d)"
  using s contract_blocks(4) [OF c]
  by (auto simp: store_replay_journal_block_def split: sum.splits if_splits prod.splits)

lemma store_block_at:
  assumes c: "journal_contract lib" and s: "store_replay_journal_block lib st prev es = (st', Ok h)"
  shows "block_at lib st' (jl_disp lib h) (journal_body es prev)"
proof -
  obtain body v where b: "jl_write_body lib (journal_body es prev) = Ok body"
    "replay_journal_custom_block lib body = Ok v" "jl_put_versioned lib st v = (st', Ok h)"
    using s by (auto simp: store_replay_journal_block_def encode_replay_journal_block_body_def result_simps
        split: sum.splits if_splits prod.splits)
  have h: "length h = HASH_LEN" "jl_get_decoded lib st' h = Ok (Some (V2 v))"
    using contract_blocks(3) [OF c b(3)] by auto
  have "parse_block_hash (jl_disp lib h) = Ok h" using contract_blocks(5) [OF c h(1)] parse_shown [OF h(1)] by simp
  then show ?thesis using h(2) stored_body_decodes [OF c b(1,2)] by (auto simp: block_at_def)
qed

definition journal_at ::
  "('s, 'r, 'v) journal_lib \<Rightarrow> 's \<Rightarrow> rstring option \<Rightarrow> (rstring \<times> replay_journal_block_body) list \<Rightarrow> bool" where
  "journal_at lib st head c \<longleftrightarrow>
     (case head of None \<Rightarrow> c = [] | Some h \<Rightarrow> chain lib st h c \<and> distinct (map fst c))"

lemma block_at_mono:
  assumes "\<And>i d. jl_get_decoded lib st i = Ok (Some d) \<Longrightarrow> jl_get_decoded lib st' i = Ok (Some d)"
  shows "block_at lib st i b \<Longrightarrow> block_at lib st' i b"
  using assms unfolding block_at_def by blast

lemma journal_at_mono:
  assumes "\<And>i d. jl_get_decoded lib st i = Ok (Some d) \<Longrightarrow> jl_get_decoded lib st' i = Ok (Some d)"
    and "journal_at lib st head c"
  shows "journal_at lib st' head c"
  using assms(2) chain_mono [OF block_at_mono [OF assms(1)]] unfolding journal_at_def
  by (cases head) simp_all

text \<open>A new block cannot close a cycle: it would have to name itself as a predecessor.\<close>

lemma store_extends_journal:
  assumes c: "journal_contract lib" and j: "journal_at lib st head ch"
    and s: "store_replay_journal_block lib st head es = (st', Ok h)"
  shows "journal_at lib st' (Some (jl_disp lib h)) ((jl_disp lib h, journal_body es head) # ch)"
proof -
  let ?i = "jl_disp lib h" and ?b = "journal_body es head"
  have at: "block_at lib st' ?i ?b" by (rule store_block_at [OF c s])
  have j': "journal_at lib st' head ch" by (rule journal_at_mono [OF store_block_keeps [OF c s] j])
  show ?thesis
  proof (cases head)
    case None
    then show ?thesis using at j' by (simp add: journal_at_def journal_body_def)
  next
    case (Some p)
    then have ch: "chain lib st' p ch" "distinct (map fst ch)" using j' by (simp_all add: journal_at_def)
    have "?i \<notin> set (map fst ch)"
    proof
      assume "?i \<in> set (map fst ch)"
      then obtain x where x: "x \<in> set ch" "fst x = ?i" by (auto simp del: chain.simps)
      define b where "b = snd x"
      have "(?i, b) = x" using x(2) by (simp add: b_def prod_eq_iff)
      then have "(?i, b) \<in> set ch" using x(1) by simp
      from split_list [OF this] obtain c1 c2 where sp: "ch = c1 @ (?i, b) # c2" by blast
      have suf: "chain lib st' ?i ((?i, b) # c2)" using ch(1) unfolding sp by (rule chain_suffix)
      then have "block_at lib st' ?i b" by simp
      then have b: "b = ?b" by (rule block_at_unique [OF _ at])
      have "body_previous_block_id b = Some p" by (simp add: b journal_body_def Some)
      then have "chain lib st' p c2" using suf by simp
      from chain_first [OF this] obtain b2 c3 where c2: "c2 = (p, b2) # c3" by blast
      obtain b1 c4 where "ch = (p, b1) # c4" using chain_first [OF ch(1)] by blast
      then have "p \<in> set (map fst (c1 @ [(?i, b)]))" using sp by (cases c1) simp_all
      then show False using ch(2) unfolding sp c2 by auto
    qed
    moreover have "body_previous_block_id ?b = Some p" by (simp add: journal_body_def Some)
    ultimately show ?thesis using at ch by (simp add: journal_at_def)
  qed
qed

section \<open>Appending\<close>

text \<open>One round of the loop: a record that fits is added, one that does not starts a new block.\<close>

lemma append_loop_cases:
  assumes a: "append_loop lib st head pend sizes tot (r # rs) = (st', res)"
  obtains e where "st' = st" "res = Err e"
  | n where "append_loop lib st head (pend @ [r]) (sizes @ [n]) (tot + n) rs = (st', res)"
  | e where "store_replay_journal_block lib st head pend = (st', Err e)" "res = Err e"
  | st1 h n where "store_replay_journal_block lib st head pend = (st1, Ok h)"
      "append_loop lib st1 (Some (jl_disp lib h)) [r] [n] n rs = (st', res)"
proof (cases "encode_replay_journal_record lib r")
  case (Inl e)
  then show ?thesis using a that(1) [of e] by simp
next
  case (Inr enc)
  let ?n = "length enc"
  show ?thesis
  proof (cases "replay_journal_block_body_size lib (sizes @ [?n]) (tot + ?n) head")
    case (Inl e)
    then show ?thesis using a Inr that(1) [of e] by simp
  next
    case size: (Inr m)
    obtain st1 r1 where s: "store_replay_journal_block lib st head pend = (st1, r1)" by fastforce
    show ?thesis
    proof (cases "m > REPLAY_JOURNAL_BLOCK_MAX_BYTES")
      case False
      then show ?thesis using a Inr size that(2) by (simp add: Let_def)
    next
      case True
      then show ?thesis using a Inr size s that(1,3,4) by (cases "pend = []"; cases r1) (auto simp: Let_def)
    qed
  qed
qed

lemma append_loop_keeps:
  assumes c: "journal_contract lib"
  shows "append_loop lib st head pend sizes tot rs = (st', res) \<Longrightarrow>
    jl_get_decoded lib st i = Ok (Some d) \<Longrightarrow> jl_get_decoded lib st' i = Ok (Some d)"
proof (induction rs arbitrary: st head pend sizes tot)
  case (Cons r rs)
  from Cons.prems(1) show ?case
  proof (cases rule: append_loop_cases)
    case (3 e)
    show ?thesis by (rule store_block_keeps [OF c 3(1) Cons.prems(2)])
  next
    case (4 st1 h n)
    show ?thesis by (rule Cons.IH [OF 4(2) store_block_keeps [OF c 4(1) Cons.prems(2)]])
  qed (use Cons in auto)
qed simp

lemma append_loop_journal:
  assumes c: "journal_contract lib"
  shows "append_loop lib st head pend sizes tot rs = (st', Ok (head', pend')) \<Longrightarrow> journal_at lib st head ch \<Longrightarrow>
    \<exists>ch'. journal_at lib st' head' (ch' @ ch) \<and> rev pend' @ chain_records ch' = rev (pend @ rs)"
proof (induction rs arbitrary: st head pend sizes tot ch)
  case Nil
  then show ?case by (intro exI [of _ "[]"]) simp
next
  case (Cons r rs)
  from Cons.prems(1) show ?case
  proof (cases rule: append_loop_cases)
    case (2 n)
    from Cons.IH [OF this Cons.prems(2)] show ?thesis by simp
  next
    case (4 st1 h n)
    from Cons.IH [OF 4(2) store_extends_journal [OF c Cons.prems(2) 4(1)]] obtain ch' where
      ch': "journal_at lib st' head' (ch' @ (jl_disp lib h, journal_body pend head) # ch)"
      "rev pend' @ chain_records ch' = rev ([r] @ rs)" by blast
    have "rev pend' @ chain_records (ch' @ [(jl_disp lib h, journal_body pend head)]) =
        (rev pend' @ chain_records ch') @ rev pend"
      by (simp add: journal_body_def)
    also have "\<dots> = rev (pend @ r # rs)" by (simp add: ch'(2))
    finally show ?thesis using ch'(1)
      by (intro exI [of _ "ch' @ [(jl_disp lib h, journal_body pend head)]"]) simp
  qed auto
qed

lemma append_journal:
  assumes c: "journal_contract lib" and l: "load_mutable_ref_store lib ref = Ok refs"
    and j: "journal_at lib st (replay_journal_head_block_id refs) ch"
    and a: "append_replay_journal_records lib st ref rs = (st', res)"
  shows "journal_at lib st' (replay_journal_head_block_id refs) ch"
    and "res = Ok head \<Longrightarrow> \<exists>ch'. journal_at lib st' head (ch' @ ch) \<and> chain_records ch' = rev rs"
proof -
  let ?head = "replay_journal_head_block_id refs"
  consider "st' = st" "rs = []" "res = Ok ?head"
    | st1 res1 where "append_loop lib st ?head [] [] 0 rs = (st1, res1)" "rs \<noteq> []"
    using a l by (cases "rs = []") (auto simp: append_replay_journal_records_def prod_eq_iff)
  then have "journal_at lib st' ?head ch \<and>
    (res = Ok head \<longrightarrow> (\<exists>ch'. journal_at lib st' head (ch' @ ch) \<and> chain_records ch' = rev rs))"
  proof cases
    case 1
    then show ?thesis using j by (auto intro: exI [of _ "[]"])
  next
    case (2 st1 res1)
    have j1: "journal_at lib st1 ?head ch" by (rule journal_at_mono [OF append_loop_keeps [OF c 2(1)] j])
    show ?thesis
    proof (cases res1)
      case (Inl e)
      then show ?thesis using a l 2 j1 by (auto simp: append_replay_journal_records_def)
    next
      case (Inr p)
      obtain head1 pend1 where p: "p = (head1, pend1)" by fastforce
      obtain ch1 where ch1: "journal_at lib st1 head1 (ch1 @ ch)" "rev pend1 @ chain_records ch1 = rev rs"
        using append_loop_journal [OF c 2(1) [unfolded Inr p] j] by auto
      show ?thesis
      proof (cases "pend1 = []")
        case True
        then have "st' = st1" "res = Ok head1" using a l 2 Inr p by (auto simp: append_replay_journal_records_def)
        then show ?thesis using j1 ch1 True by auto
      next
        case False
        obtain st2 r2 where s: "store_replay_journal_block lib st1 head1 pend1 = (st2, r2)" by fastforce
        have st: "st' = st2" using a l 2 Inr p s False
          by (auto simp: append_replay_journal_records_def split: sum.splits)
        have "journal_at lib st' ?head ch" unfolding st by (rule journal_at_mono [OF store_block_keeps [OF c s] j1])
        moreover have "\<exists>ch'. journal_at lib st' head (ch' @ ch) \<and> chain_records ch' = rev rs" if ok: "res = Ok head"
        proof -
          obtain h where h: "r2 = Ok h" "head = Some (jl_disp lib h)"
            using a l 2 Inr p s False ok by (auto simp: append_replay_journal_records_def split: sum.splits)
          from store_extends_journal [OF c ch1(1) s [unfolded h(1)]] ch1(2) show ?thesis
            unfolding st h(2) by (intro exI [of _ "(jl_disp lib h, journal_body pend1 head1) # ch1"])
              (simp add: journal_body_def)
        qed
        ultimately show ?thesis by blast
      qed
    qed
  qed
  then show "journal_at lib st' ?head ch"
    and "res = Ok head \<Longrightarrow> \<exists>ch'. journal_at lib st' head (ch' @ ch) \<and> chain_records ch' = rev rs" by blast+
qed

section \<open>What a reader sees\<close>

definition collect_record :: "replay_journal_record list \<Rightarrow> replay_journal_record \<Rightarrow> runtime_error + replay_journal_record list" where
  "collect_record acc record = Ok (acc @ [record])"

text \<open>The journal replays \<open>rs\<close>, newest first, when it is not interrupted; a journal that was never written replays nothing.\<close>

definition journal_replays :: "('s, 'r, 'v) journal_lib \<Rightarrow> 's \<Rightarrow> 'r \<Rightarrow> replay_journal_record list \<Rightarrow> bool" where
  "journal_replays lib st ref rs \<longleftrightarrow>
     (\<exists>n. for_each_replay_journal_record_newest_first n lib (\<lambda>_. False) st ref collect_record [] = Some (Ok rs)) \<or>
     (\<exists>refs. load_mutable_ref_store lib ref = Ok refs \<and> replay_journal_head_block_id refs = None \<and> rs = [])"

lemma collect_fold: "try_fold collect_record acc rs = Ok (acc @ rs)"
  by (induction rs arbitrary: acc) (simp_all add: collect_record_def)

lemma journal_replays_iff:
  "journal_replays lib st ref rs \<longleftrightarrow>
     (\<exists>refs ch. load_mutable_ref_store lib ref = Ok refs \<and>
        journal_at lib st (replay_journal_head_block_id refs) ch \<and> rs = chain_records ch)"
proof (cases "load_mutable_ref_store lib ref")
  case (Inl e)
  then show ?thesis by (simp add: journal_replays_def for_each_replay_journal_record_newest_first_def)
next
  case (Inr refs)
  show ?thesis
  proof (cases "replay_journal_head_block_id refs")
    case None
    then show ?thesis using Inr
      by (simp add: journal_replays_def for_each_replay_journal_record_newest_first_def journal_at_def)
  next
    case (Some h)
    have "(\<exists>n. journal_walk n lib (\<lambda>_. False) st collect_record [] h [] = Some (Ok rs)) \<longleftrightarrow>
      (\<exists>ch. chain lib st h ch \<and> distinct (map fst ch) \<and> rs = chain_records ch)"
    proof
      assume "\<exists>n. journal_walk n lib (\<lambda>_. False) st collect_record [] h [] = Some (Ok rs)"
      then obtain n where "journal_walk n lib (\<lambda>_. False) st collect_record [] h [] = Some (Ok rs)" by blast
      from walk_Ok_chain [OF this] show "\<exists>ch. chain lib st h ch \<and> distinct (map fst ch) \<and> rs = chain_records ch"
        by (auto simp: collect_fold)
    next
      assume "\<exists>ch. chain lib st h ch \<and> distinct (map fst ch) \<and> rs = chain_records ch"
      then obtain ch where ch: "chain lib st h ch" "distinct (map fst ch)" "rs = chain_records ch" by blast
      have "journal_walk (length ch) lib (\<lambda>_. False) st collect_record [] h [] = Some (try_fold collect_record [] (chain_records ch))"
        by (rule walk_chain [OF ch(1,2)]) simp_all
      then show "\<exists>n. journal_walk n lib (\<lambda>_. False) st collect_record [] h [] = Some (Ok rs)" by (auto simp: collect_fold ch(3))
    qed
    then show ?thesis using Inr Some
      by (simp add: journal_replays_def for_each_replay_journal_record_newest_first_def journal_at_def)
  qed
qed

lemma update_ref_cases:
  assumes c: "journal_contract lib" and l: "load_mutable_ref_store lib ref = Ok refs"
    and u: "update_mutable_ref_store lib ref upd = (ref', r)"
  obtains "load_mutable_ref_store lib ref' = Ok (apply_mutable_ref_store_update refs upd)"
  | "r \<noteq> Ok ()" "load_mutable_ref_store lib ref' = Ok refs"
proof (cases "jl_refs_to_vec_pretty lib (apply_mutable_ref_store_update refs upd)")
  case (Inl m)
  then have "ref' = ref" "r \<noteq> Ok ()" using u l by (auto simp: update_mutable_ref_store_def write_mutable_ref_store_def)
  then show ?thesis using that(2) l by simp
next
  case (Inr enc)
  then have w: "jl_ref_write lib ref enc = (ref', r)" using u l
    by (simp add: update_mutable_ref_store_def write_mutable_ref_store_def)
  have new: "jl_refs_from_slice lib enc = Ok (apply_mutable_ref_store_update refs upd)"
    by (rule contract_refs(1) [OF c Inr])
  from contract_refs(2) [OF c w] consider "jl_ref_read lib ref' = Ok (Some enc)"
    | "r \<noteq> Ok ()" "jl_ref_read lib ref' = jl_ref_read lib ref" by blast
  then show ?thesis
  proof cases
    case 1
    then show ?thesis using that(1) new by (simp add: load_mutable_ref_store_def)
  next
    case 2
    then show ?thesis using that(2) l by (simp add: load_mutable_ref_store_def)
  qed
qed

lemma append_published:
  assumes c: "journal_contract lib" and l: "load_mutable_ref_store lib ref = Ok refs"
    and j: "journal_at lib st (replay_journal_head_block_id refs) ch"
    and a: "append_replay_journal_records lib st ref rs = (st', Ok head)"
    and u: "load_mutable_ref_store lib ref' = Ok (apply_mutable_ref_store_update refs upd)" "update_head upd = head"
  shows "journal_replays lib st' ref' (rev rs @ chain_records ch)"
proof -
  obtain ch' where ch': "journal_at lib st' head (ch' @ ch)" "chain_records ch' = rev rs"
    using append_journal(2) [OF c l j a refl] by blast
  have old: "journal_at lib st' (replay_journal_head_block_id refs) ch" by (rule append_journal(1) [OF c l j a])
  have "journal_at lib st' (or_keep head (replay_journal_head_block_id refs)) (ch' @ ch)"
  proof (cases head)
    case None
    then have "ch' @ ch = []" using ch'(1) by (simp add: journal_at_def)
    then show ?thesis using None old by simp
  next
    case (Some h)
    then show ?thesis using ch'(1) by simp
  qed
  then show ?thesis unfolding journal_replays_iff using u ch'(2)
    by (intro exI [of _ "apply_mutable_ref_store_update refs upd"] exI [of _ "ch' @ ch"])
      (simp add: apply_mutable_ref_store_update_def)
qed

lemma publish_cases:
  assumes c: "journal_contract lib" and l: "load_mutable_ref_store lib ref = Ok refs"
    and j: "journal_at lib st (replay_journal_head_block_id refs) ch"
    and p: "publish_replay_journal_and_mutable_refs lib i1 i2 (st, ref) rs root md = ((st', ref'), r)"
  shows "journal_replays lib st' ref' (rev rs @ chain_records ch) \<or>
    r \<noteq> Ok () \<and> journal_replays lib st' ref' (chain_records ch)"
proof -
  obtain st1 r1 where a: "append_replay_journal_records lib st ref rs = (st1, r1)" by fastforce
  have same: "journal_replays lib st'' ref'' (chain_records ch)"
    if "journal_at lib st'' (replay_journal_head_block_id refs) ch" "load_mutable_ref_store lib ref'' = Ok refs" for st'' ref''
    unfolding journal_replays_iff using that by blast
  have j1: "journal_at lib st1 (replay_journal_head_block_id refs) ch" by (rule append_journal(1) [OF c l j a])
  consider "i1" | "\<not> i1" "\<exists>e. r1 = Err e" | "\<not> i1" "i2" "\<exists>h. r1 = Ok h" | h where "\<not> i1" "\<not> i2" "r1 = Ok h"
    by (cases r1) auto
  then show ?thesis
  proof cases
    case 1
    then have "st' = st" "ref' = ref" "r \<noteq> Ok ()" using p by (auto simp: publish_replay_journal_and_mutable_refs_def)
    then show ?thesis using same [OF j l] by simp
  next
    case 2
    then have "st' = st1" "ref' = ref" "r \<noteq> Ok ()" using p a by (auto simp: publish_replay_journal_and_mutable_refs_def)
    then show ?thesis using same [OF j1 l] by simp
  next
    case 3
    then have "st' = st1" "ref' = ref" "r \<noteq> Ok ()" using p a by (auto simp: publish_replay_journal_and_mutable_refs_def)
    then show ?thesis using same [OF j1 l] by simp
  next
    case (4 h)
    let ?u = "\<lparr>update_root = root, update_head = h, update_metadata = md\<rparr>"
    have st': "st' = st1" and u: "update_mutable_ref_store lib ref ?u = (ref', r)"
      using p a 4 by (auto simp: publish_replay_journal_and_mutable_refs_def split: prod.splits)
    from update_ref_cases [OF c l u] show ?thesis
    proof cases
      case 1
      then show ?thesis using append_published [OF c l j a [unfolded 4(3)]] st' by simp
    next
      case 2
      then show ?thesis using same [OF j1] st' by simp
    qed
  qed
qed

text \<open>
  C8. Publishing to the replay journal is atomic and loses nothing. If publishing succeeds, a
  walk from the published head sees the new records and then all records from before, newest
  first, however the records were split into blocks. If it fails or is interrupted at any
  point, a walk sees either that or exactly the records from before: never a part of the new
  records, a broken chain or a cycle.
\<close>

theorem journal_publish_atomic:
  assumes "journal_contract lib" and "journal_replays lib st ref old"
    and "publish_replay_journal_and_mutable_refs lib interrupted_before interrupted_between (st, ref) records root md
      = ((st', ref'), r)"
  shows "journal_replays lib st' ref' (rev records @ old) \<or> r \<noteq> Ok () \<and> journal_replays lib st' ref' old"
  using assms(2) publish_cases [OF assms(1) _ _ assms(3)] unfolding journal_replays_iff by blast

text \<open>A store of at most 200 blocks that can hold one journal block.\<close>

definition journal_hash :: "nat \<Rightarrow> block_hash" where
  "journal_hash n = replicate 31 0 @ [of_nat n]"

definition demo_record :: replay_journal_record where
  "demo_record = InputRecord StepEmbedding (lit ''07'')
     [(lit ''source_kind'', lit ''document''), (lit ''source_path'', lit ''/a.txt'')] (JournalDocument (lit ''/a.txt''))"

definition demo_refs :: mutable_ref_state where
  "demo_refs = \<lparr>current_root_block_id = None, replay_journal_head_block_id = Some (hex_encode (journal_hash 0)), ref_metadata = None\<rparr>"

definition single_record_lib :: "replay_journal_record \<Rightarrow> ((rstring \<times> cbor) list, bytes option, rstring \<times> cbor) journal_lib" where
  "single_record_lib record =
     \<lparr>jl_disp = hex_encode, jl_ref_label = [], jl_ref_read = \<lambda>ref. Ok ref, jl_ref_write = \<lambda>ref bs. (Some bs, Ok ()),
      jl_refs_from_slice = \<lambda>bs. Ok demo_refs,
      jl_refs_to_vec_pretty = \<lambda>refs. if refs = demo_refs then Ok [2] else Err [],
      jl_write_record = \<lambda>r. Ok [1], jl_write_body = \<lambda>b. if b = journal_body [record] None then Ok [1, 2] else if b = journal_body [] None then Ok [1] else Err [],
      jl_read_body = \<lambda>bs. Ok (if bs = [1] then journal_body [] None else journal_body [record] None),
      jl_build_custom_block = \<lambda>t c. Ok (t, c),
      jl_into_typed_block = \<lambda>v. Ok (Custom \<lparr>custom_type_name = fst v, custom_content = snd v\<rparr>),
      jl_debug_block = \<lambda>_. [],
      jl_put_versioned = \<lambda>st v. if length st < 200 then (st @ [v], Ok (journal_hash (length st))) else (st, Err (BackendFailure [])),
      jl_get_decoded = \<lambda>st h. Ok (case find (\<lambda>i. journal_hash i = h) [0..<length st] of Some i \<Rightarrow> Some (V2 (st ! i)) | None \<Rightarrow> None)\<rparr>"

definition demo_journal_lib :: "((rstring \<times> cbor) list, bytes option, rstring \<times> cbor) journal_lib" where
  "demo_journal_lib = single_record_lib demo_record"

lemma find_append_None: "find P xs = None \<Longrightarrow> find P (xs @ ys) = find P ys"
  by (induction xs) auto

lemma find_append_Some: "find P xs = Some x \<Longrightarrow> find P (xs @ ys) = Some x"
  by (induction xs) auto

lemma journal_hash_inject: "i < 200 \<Longrightarrow> j < 200 \<Longrightarrow> journal_hash i = journal_hash j \<Longrightarrow> i = j"
  by (simp add: journal_hash_def word_unat_eq_iff unat_of_nat)

lemma journal_put_get:
  assumes "length st < 200"
  shows "find (\<lambda>i. journal_hash i = journal_hash (length st)) [0..<length (st @ [v])] = Some (length st)"
proof -
  have "journal_hash i \<noteq> journal_hash (length st)" if "i < length st" for i
    using journal_hash_inject [of i "length st"] assms that by auto
  then have "find (\<lambda>i. journal_hash i = journal_hash (length st)) [0..<length st] = None"
    by (simp add: find_None_iff)
  then show ?thesis by (simp add: find_append_None)
qed

lemma single_record_contract: "journal_contract (single_record_lib record)"
  unfolding journal_contract_def
proof (intro conjI allI impI, goal_cases)
  case (5 st v st' h)
  then have "length st < 200" "st' = st @ [v]" "h = journal_hash (length st)"
    by (auto simp: single_record_lib_def split: if_splits)
  then show ?case using journal_put_get [of st v] by (simp add: single_record_lib_def journal_hash_def HASH_LEN_def)
next
  case (6 st v st' h)
  then have "length st < 200" "st' = st @ [v]" "h = journal_hash (length st)"
    by (auto simp: single_record_lib_def split: if_splits)
  then show ?case using journal_put_get [of st v] by (simp add: single_record_lib_def)
next
  case (7 st v st' r h b)
  then obtain i where i: "find (\<lambda>i. journal_hash i = h) [0..<length st] = Some i" "b = V2 (st ! i)"
    by (auto simp: single_record_lib_def split: option.splits)
  then have "i < length st" by (auto simp: find_Some_iff)
  then show ?case using 7(1) i find_append_Some [OF i(1)]
    by (auto simp: single_record_lib_def nth_append split: if_splits)
qed (auto simp: single_record_lib_def journal_body_def split: if_splits)

lemma single_record_publish:
  "\<exists>st' ref'. publish_replay_journal_and_mutable_refs (single_record_lib record) False False ([], None) [record] None None
     = ((st', ref'), Ok ())"
  by (simp add: publish_replay_journal_and_mutable_refs_def append_replay_journal_records_def load_mutable_ref_store_def
      single_record_lib_def default_ref_state_def encode_replay_journal_record_def replay_journal_block_body_size_def
      encode_replay_journal_block_body_def store_replay_journal_block_def replay_journal_custom_block_def
      update_mutable_ref_store_def write_mutable_ref_store_def apply_mutable_ref_store_update_def demo_refs_def
      cbor_array_header_size_def REPLAY_JOURNAL_BLOCK_MAX_BYTES_def Let_def journal_body_def)

lemmas demo_journal_contract = single_record_contract [of demo_record, folded demo_journal_lib_def]

lemmas demo_publish = single_record_publish [of demo_record, folded demo_journal_lib_def]

theorem journal_publish_atomic_witness:
  "\<exists>st' ref'. publish_replay_journal_and_mutable_refs demo_journal_lib False False ([], None) [demo_record] None None
     = ((st', ref'), Ok ()) \<and> journal_replays demo_journal_lib st' ref' [demo_record]"
proof -
  obtain st' ref' where p: "publish_replay_journal_and_mutable_refs demo_journal_lib False False ([], None) [demo_record] None None
     = ((st', ref'), Ok ())" using demo_publish by blast
  have "journal_replays demo_journal_lib [] None []"
    by (simp add: journal_replays_def load_mutable_ref_store_def demo_journal_lib_def single_record_lib_def default_ref_state_def)
  from journal_publish_atomic [OF demo_journal_contract this p] p show ?thesis by auto
qed

end
