(* ===== verification/Replay_Journal_Sizes.thy ===== *)
theory Replay_Journal_Sizes
  imports Replay_Journal_Laws
begin

text \<open>
  The sizes the replay journal computes without encoding: they are the sizes of the encoded
  blocks, so that records are split into blocks that fit, and a batch of records can always be
  appended if each record fits on its own.
\<close>

section \<open>What is relied on from the encoder\<close>

definition record_len :: "('s, 'r, 'v) journal_lib \<Rightarrow> replay_journal_record \<Rightarrow> nat" where
  "record_len lib record = (case jl_write_record lib record of Inr encoded \<Rightarrow> length encoded | Inl _ \<Rightarrow> 0)"

definition block_len :: "('s, 'r, 'v) journal_lib \<Rightarrow> replay_journal_record list \<Rightarrow> rstring option \<Rightarrow> nat" where
  "block_len lib entries previous =
     (case jl_write_body lib (journal_body entries previous) of Inr encoded \<Rightarrow> length encoded | Inl _ \<Rightarrow> 0)"

definition outcome_record :: "nat \<Rightarrow> rstring list \<Rightarrow> rstring \<Rightarrow> replay_journal_record" where
  "outcome_record inputs ids root = OutcomeRecord StepIndexing [] inputs ids root"

text \<open>
  The head of a data item in RFC 8949: the major type in the three high bits, then the argument in
  the five low bits or in one, two, four or eight bytes after them.
\<close>

definition big_endian :: "nat \<Rightarrow> nat \<Rightarrow> bytes" where
  "big_endian width n = map (\<lambda>i. of_nat (n div 256 ^ (width - 1 - i))) [0..<width]"

definition cbor_head :: "u8 \<Rightarrow> nat \<Rightarrow> bytes" where
  "cbor_head major n =
     (let initial = (\<lambda>info. push_bit 5 major OR info) in
      if n < 24 then [initial (of_nat n)]
      else if n < 2 ^ 8 then initial 24 # big_endian 1 n
      else if n < 2 ^ 16 then initial 25 # big_endian 2 n
      else if n < 2 ^ 32 then initial 26 # big_endian 4 n
      else initial 27 # big_endian 8 n)"

definition array_head_len :: "nat \<Rightarrow> nat" where "array_head_len n = length (cbor_head 4 n)"

definition ids_len :: "rstring list \<Rightarrow> nat" where
  "ids_len ids = sum_list (map (\<lambda>i. length (cbor_head 3 (length (utf8 i)) @ utf8 i)) ids)"

text \<open>
  CBOR is compositional: a record or a body is encoded without error, an array is a header
  and its elements, a text string a header and its bytes, and a zero count is left out.
\<close>

definition size_contract :: "('s, 'r, 'v) journal_lib \<Rightarrow> bool" where
  "size_contract lib \<longleftrightarrow>
     (\<forall>record. \<exists>encoded. jl_write_record lib record = Ok encoded) \<and>
     (\<forall>entries previous. \<exists>encoded. jl_write_body lib (journal_body entries previous) = Ok encoded) \<and>
     (\<forall>entries previous. 1 \<le> block_len lib [] previous \<and>
        block_len lib entries previous + 1 =
          block_len lib [] previous + array_head_len (length entries) + sum_list (map (record_len lib) entries)) \<and>
     (\<forall>inputs ids root. 1 \<le> record_len lib (outcome_record inputs [] root) \<and>
        record_len lib (outcome_record inputs ids root) + 1 =
          record_len lib (outcome_record inputs [] root) + array_head_len (length ids) + ids_len ids \<and>
        record_len lib (outcome_record 0 [] root) \<le> record_len lib (outcome_record inputs [] root))"

lemma head_size: "length (cbor_head major n) = cbor_array_header_size n"
  by (simp add: cbor_head_def big_endian_def cbor_array_header_size_def Let_def)

lemma array_head_size: "array_head_len n = cbor_array_header_size n"
  by (simp add: array_head_len_def head_size)

lemma text_size: "length (cbor_head 3 (length bs) @ bs) = cbor_encoded_text_size (length bs)"
  by (simp add: head_size cbor_encoded_text_size_def)

lemma size_written:
  assumes "size_contract lib"
  obtains encoded where "jl_write_record lib record = Ok encoded" "length encoded = record_len lib record"
proof -
  obtain encoded where "jl_write_record lib record = Ok encoded"
    using assms unfolding size_contract_def by blast
  then show ?thesis using that by (simp add: record_len_def)
qed

lemma size_encoded:
  assumes "size_contract lib"
  shows "\<exists>body. encode_replay_journal_block_body lib entries previous = Ok body \<and>
    jl_write_body lib (journal_body entries previous) = Ok body \<and> length body = block_len lib entries previous"
proof -
  obtain body where "jl_write_body lib (journal_body entries previous) = Ok body"
    using assms unfolding size_contract_def by blast
  then show ?thesis by (simp add: encode_replay_journal_block_body_def block_len_def)
qed

lemma header_zero: "cbor_array_header_size 0 = 1" "1 \<le> cbor_array_header_size n"
  by (simp_all add: cbor_array_header_size_def)

lemma size_block:
  "size_contract lib \<Longrightarrow> 1 \<le> block_len lib [] previous"
  "size_contract lib \<Longrightarrow> block_len lib entries previous + 1 =
     block_len lib [] previous + cbor_array_header_size (length entries) + sum_list (map (record_len lib) entries)"
  unfolding size_contract_def array_head_size by blast+

text \<open>The estimate is the size of the encoded block.\<close>

lemma body_size_exact:
  assumes c: "size_contract lib" and "length sizes = length entries" and "tot = sum_list (map (record_len lib) entries)"
  shows "replay_journal_block_body_size lib sizes tot previous = Ok (block_len lib entries previous)"
proof -
  obtain base where b: "encode_replay_journal_block_body lib [] previous = Ok base" "length base = block_len lib [] previous"
    using size_encoded [OF c] by blast
  show ?thesis using size_block(1) [OF c, of previous] size_block(2) [OF c, of entries previous] assms(2,3)
    by (simp add: replay_journal_block_body_size_def b header_zero)
qed

section \<open>Appending\<close>

definition store_total :: "('s, 'r, 'v) journal_lib \<Rightarrow> bool" where
  "store_total lib \<longleftrightarrow> (\<forall>t c. \<exists>v. jl_build_custom_block lib t c = Ok v) \<and>
     (\<forall>st v. \<exists>st' h. jl_put_versioned lib st v = (st', Ok h))"

lemma store_fits:
  assumes c: "size_contract lib" and t: "store_total lib" and f: "block_len lib entries previous \<le> REPLAY_JOURNAL_BLOCK_MAX_BYTES"
  shows "\<exists>st' h. store_replay_journal_block lib st previous entries = (st', Ok h)"
proof -
  obtain body where b: "encode_replay_journal_block_body lib entries previous = Ok body"
    "length body = block_len lib entries previous" using size_encoded [OF c] by blast
  obtain v where v: "replay_journal_custom_block lib body = Ok v"
    using t unfolding store_total_def replay_journal_custom_block_def by (metis map_err.simps(2))
  obtain st' h where "jl_put_versioned lib st v = (st', Ok h)" using t unfolding store_total_def by blast
  then show ?thesis using b v f by (simp add: store_replay_journal_block_def)
qed

definition fits_alone :: "('s, 'r, 'v) journal_lib \<Rightarrow> rstring option \<Rightarrow> replay_journal_record \<Rightarrow> bool" where
  "fits_alone lib head record \<longleftrightarrow> block_len lib [record] head \<le> REPLAY_JOURNAL_BLOCK_MAX_BYTES \<and>
     (\<forall>h. block_len lib [record] (Some (jl_disp lib h)) \<le> REPLAY_JOURNAL_BLOCK_MAX_BYTES)"

lemma append_loop_fits:
  assumes c: "size_contract lib" and t: "store_total lib"
  shows "\<forall>r \<in> set records. fits_alone lib head r \<Longrightarrow>
    length sizes = length pend \<Longrightarrow> tot = sum_list (map (record_len lib) pend) \<Longrightarrow>
    pend = [] \<or> block_len lib pend head \<le> REPLAY_JOURNAL_BLOCK_MAX_BYTES \<Longrightarrow>
    \<exists>st' head' pend'. append_loop lib st head pend sizes tot records = (st', Ok (head', pend')) \<and>
      (pend' = [] \<or> block_len lib pend' head' \<le> REPLAY_JOURNAL_BLOCK_MAX_BYTES)"
proof (induction records arbitrary: st head pend sizes tot)
  case (Cons r rs)
  let ?n = "record_len lib r" and ?max = REPLAY_JOURNAL_BLOCK_MAX_BYTES
  obtain enc where enc: "jl_write_record lib r = Ok enc" "length enc = ?n" by (rule size_written [OF c])
  have rec: "encode_replay_journal_record lib r = Ok enc" by (simp add: encode_replay_journal_record_def enc)
  have size: "replay_journal_block_body_size lib (sizes @ [?n]) (tot + ?n) head = Ok (block_len lib (pend @ [r]) head)"
    using Cons.prems by (intro body_size_exact [OF c]) simp_all
  have fit: "block_len lib [r] head \<le> ?max" "\<And>h. block_len lib [r] (Some (jl_disp lib h)) \<le> ?max"
    using Cons.prems(1) by (simp_all add: fits_alone_def)
  show ?case
  proof (cases "block_len lib (pend @ [r]) head > ?max")
    case False
    have step: "append_loop lib st head pend sizes tot (r # rs)
        = append_loop lib st head (pend @ [r]) (sizes @ [?n]) (tot + ?n) rs"
      using False by (simp add: rec enc(2) size Let_def)
    show ?thesis unfolding step by (rule Cons.IH) (use Cons.prems False in simp_all)
  next
    case True
    then have p: "pend \<noteq> []" using fit(1) by auto
    then obtain st1 h where s: "store_replay_journal_block lib st head pend = (st1, Ok h)"
      using store_fits [OF c t] Cons.prems(4) by blast
    have step: "append_loop lib st head pend sizes tot (r # rs) = append_loop lib st1 (Some (jl_disp lib h)) [r] [?n] ?n rs"
      using True p by (simp add: rec enc(2) size Let_def s)
    have "\<forall>r \<in> set rs. fits_alone lib (Some (jl_disp lib h)) r"
      using Cons.prems(1) by (simp add: fits_alone_def)
    then show ?thesis unfolding step by (rule Cons.IH) (simp_all add: fit(2))
  qed
qed simp

section \<open>Indexing outcomes\<close>

fun outcome_ids :: "replay_journal_record \<Rightarrow> rstring list" where
  "outcome_ids (OutcomeRecord _ _ _ ids _) = ids"
| "outcome_ids _ = []"

definition outcome_ok :: "('s, 'r, 'v) journal_lib \<Rightarrow> rstring \<Rightarrow> nat \<Rightarrow> nat \<Rightarrow> replay_journal_record \<Rightarrow> bool" where
  "outcome_ok lib root limit inputs record \<longleftrightarrow>
     (\<exists>ids. record = outcome_record inputs ids root \<and>
        (ids \<noteq> [] \<longrightarrow> block_len lib [record] (Some predecessor_id) \<le> limit))"

text \<open>The first record carries the number of inputs, the others none.\<close>

fun outcomes_ok :: "('s, 'r, 'v) journal_lib \<Rightarrow> rstring \<Rightarrow> nat \<Rightarrow> nat \<Rightarrow> replay_journal_record list \<Rightarrow> bool" where
  "outcomes_ok lib root limit inputs [] = True"
| "outcomes_ok lib root limit inputs (r # rs) =
     (outcome_ok lib root limit inputs r \<and> (\<forall>r \<in> set rs. outcome_ok lib root limit 0 r))"

lemma outcomes_ok_snoc:
  "outcomes_ok lib root limit inputs (rs @ [r]) \<longleftrightarrow>
     outcomes_ok lib root limit inputs rs \<and> outcome_ok lib root limit (if rs = [] then inputs else 0) r"
  by (cases rs) auto

lemma ids_len_simps [simp]: "ids_len [] = 0" "ids_len [i] = cbor_encoded_text_size (length (utf8 i))"
  "ids_len (ids @ [i]) = ids_len ids + cbor_encoded_text_size (length (utf8 i))"
  by (simp_all add: ids_len_def text_size [simplified])

lemma outcome_size:
  assumes c: "size_contract lib"
  shows "replay_journal_indexing_outcome_record_size (record_len lib (outcome_record inputs [] root)) (length ids) (ids_len ids)
    = record_len lib (outcome_record inputs ids root)"
proof -
  have "1 \<le> record_len lib (outcome_record inputs [] root)"
    "record_len lib (outcome_record inputs ids root) + 1 =
       record_len lib (outcome_record inputs [] root) + cbor_array_header_size (length ids) + ids_len ids"
    using c unfolding size_contract_def array_head_size by blast+
  then show ?thesis by (simp add: replay_journal_indexing_outcome_record_size_def header_zero)
qed

lemma single_block_len:
  "size_contract lib \<Longrightarrow> record_len lib r \<le> record_len lib r' \<Longrightarrow> block_len lib [r] p \<le> block_len lib [r'] p"
  using size_block(2) [of lib "[r]" p] size_block(2) [of lib "[r']" p] by simp

lemma outcome_len_mono:
  assumes c: "size_contract lib" and "length ids = length ids'" and "ids_len ids = ids_len ids'"
  shows "record_len lib (outcome_record 0 ids root) \<le> record_len lib (outcome_record inputs ids' root)"
proof -
  have "record_len lib (outcome_record n is root) + 1 =
      record_len lib (outcome_record n [] root) + cbor_array_header_size (length is) + ids_len is"
    "record_len lib (outcome_record 0 [] root) \<le> record_len lib (outcome_record inputs [] root)" for n "is"
    using c unfolding size_contract_def array_head_size by blast+
  from this(1) [of 0 ids] this(1) [of inputs ids'] this(2) show ?thesis using assms(2,3) by simp
qed

lemma outcome_loop_ok:
  assumes c: "size_contract lib" and len: "\<forall>i \<in> set (ids @ rest). length (utf8 i) = k"
  shows "outcome_loop lib inputs root limit (record_len lib (outcome_record inputs [] root))
      (record_len lib (outcome_record 0 [] root)) records ids (ids_len ids) rest = Ok out \<Longrightarrow>
    outcomes_ok lib root limit inputs records \<Longrightarrow>
    ids \<noteq> [] \<longrightarrow> block_len lib [outcome_record (if records = [] then inputs else 0) ids root] (Some predecessor_id) \<le> limit \<Longrightarrow>
    (\<exists>i. length (utf8 i) = k \<and> block_len lib [outcome_record inputs [i] root] (Some predecessor_id) \<le> limit) \<or>
      records = [] \<and> ids = [] \<Longrightarrow>
    outcomes_ok lib root limit inputs out \<and> out \<noteq> [] \<and>
    concat (map outcome_ids out) = concat (map outcome_ids records) @ ids @ rest"
  using len
proof (induction rest arbitrary: records ids)
  case Nil
  then show ?case by (auto simp: outcomes_ok_snoc outcome_ok_def outcome_record_def)
next
  case (Cons i rest)
  let ?base = "\<lambda>n. record_len lib (outcome_record n [] root)" and ?n = "if records = [] then inputs else 0"
  let ?len = "\<lambda>n is. block_len lib [outcome_record n is root] (Some predecessor_id)"
  have base: "(if records = [] then ?base inputs else ?base 0) = ?base ?n" by simp
  have size: "replay_journal_indexing_outcome_record_size (?base ?n) (Suc (length ids))
      (ids_len ids + cbor_encoded_text_size (length (utf8 i))) = record_len lib (outcome_record ?n (ids @ [i]) root)"
    using outcome_size [OF c, of ?n root "ids @ [i]"] by simp
  have block: "replay_journal_block_body_size lib [record_len lib (outcome_record ?n (ids @ [i]) root)]
      (record_len lib (outcome_record ?n (ids @ [i]) root)) (Some predecessor_id) = Ok (?len ?n (ids @ [i]))"
    by (rule body_size_exact [OF c]) simp_all
  show ?case
  proof (cases "?len ?n (ids @ [i]) > limit")
    case False
    then have step: "outcome_loop lib inputs root limit (?base inputs) (?base 0) records (ids @ [i]) (ids_len (ids @ [i])) rest = Ok out"
      using Cons.prems(1) by (simp add: Let_def base size block [simplified])
    have "(\<exists>i. length (utf8 i) = k \<and> ?len inputs [i] \<le> limit) \<or> records = [] \<and> ids @ [i] = []"
      using Cons.prems(4) False Cons.prems(5) by (cases "records = [] \<and> ids = []") auto
    from Cons.IH [OF step Cons.prems(2) _ this] Cons.prems(5) False show ?thesis by simp
  next
    case True
    then have ids: "ids \<noteq> []" using Cons.prems(1) by (auto simp: Let_def base size block)
    let ?rs = "records @ [outcome_record ?n ids root]"
    have step: "outcome_loop lib inputs root limit (?base inputs) (?base 0) ?rs [i] (ids_len [i]) rest = Ok out"
      using Cons.prems(1) True ids 
      by (simp add: Let_def base size block [simplified] outcome_record_def [symmetric])
    obtain j where j: "length (utf8 j) = k" "?len inputs [j] \<le> limit" using Cons.prems(4) ids by auto
    have "ids_len [i] = ids_len [j]" using Cons.prems(5) j(1) by (simp add: ids_len_def)
    then have "?len 0 [i] \<le> ?len inputs [j]"
      by (intro single_block_len [OF c] outcome_len_mono [OF c]) simp_all
    then have fit: "?len 0 [i] \<le> limit" using j(2) by simp
    have ok: "outcomes_ok lib root limit inputs ?rs"
      using Cons.prems(2,3) ids by (auto simp: outcomes_ok_snoc outcome_ok_def)
    from Cons.IH [OF step ok] fit j Cons.prems(5) show ?thesis by (auto simp: outcome_record_def)
  qed
qed

section \<open>An encoder with these sizes\<close>

fun sized_record :: "replay_journal_record \<Rightarrow> bytes" where
  "sized_record (OutcomeRecord _ _ _ ids _) = replicate (array_head_len (length ids) + ids_len ids) 0"
| "sized_record _ = [0]"

definition sized_body :: "replay_journal_block_body \<Rightarrow> bytes" where
  "sized_body b = replicate (array_head_len (length (body_entries b)) +
     sum_list (map (\<lambda>r. length (sized_record r)) (body_entries b))) 0"

definition sized_lib :: "((rstring \<times> cbor) list, bytes option, rstring \<times> cbor) journal_lib" where
  "sized_lib = demo_journal_lib\<lparr>jl_disp := \<lambda>_. replicate 64 48, jl_write_record := \<lambda>r. Ok (sized_record r),
     jl_write_body := \<lambda>b. Ok (sized_body b), jl_put_versioned := \<lambda>st v. (st, Ok [])\<rparr>"

lemma sized_lens:
  "record_len sized_lib r = length (sized_record r)"
  "block_len sized_lib rs p = array_head_len (length rs) + sum_list (map (\<lambda>r. length (sized_record r)) rs)"
  by (simp_all add: record_len_def block_len_def sized_lib_def sized_body_def journal_body_def)

lemma sized_contract: "size_contract sized_lib"
  unfolding size_contract_def sized_lens
  by (simp add: outcome_record_def header_zero sized_lens array_head_size) (simp add: sized_lib_def)

lemma sized_total: "store_total sized_lib"
  by (simp add: store_total_def sized_lib_def demo_journal_lib_def single_record_lib_def)

lemma sized_fits: "fits_alone sized_lib head demo_record"
  by (simp add: fits_alone_def sized_lens demo_record_def array_head_size cbor_array_header_size_def REPLAY_JOURNAL_BLOCK_MAX_BYTES_def)

section \<open>Properties\<close>

text \<open>
  C39. Appending to the replay journal never fails because of sizes. When the store accepts
  blocks and every single record fits into a block of its own, any number of records is
  appended, also when the head of the chain changes in between. The size that decides where a
  block ends is exactly the length of the encoded block, with the heads of arrays and texts as
  RFC 8949 defines them.
\<close>

theorem journal_append_fits:
  assumes "size_contract lib" and "store_total lib" and "load_mutable_ref_store lib ref = Ok refs"
    and "\<forall>r \<in> set records. fits_alone lib (replay_journal_head_block_id refs) r"
  shows "(\<exists>st' head. append_replay_journal_records lib st ref records = (st', Ok head)) \<and>
    replay_journal_block_body_size lib (map (record_len lib) entries) (sum_list (map (record_len lib) entries)) previous =
      Ok (block_len lib entries previous)"
proof -
  have "replay_journal_block_body_size lib (map (record_len lib) entries) (sum_list (map (record_len lib) entries)) previous =
      Ok (block_len lib entries previous)" by (rule body_size_exact [OF assms(1)]) simp_all
  moreover obtain st' head' pend' where
    "append_loop lib st (replay_journal_head_block_id refs) [] [] 0 records = (st', Ok (head', pend'))"
    "pend' = [] \<or> block_len lib pend' head' \<le> REPLAY_JOURNAL_BLOCK_MAX_BYTES"
    using append_loop_fits [OF assms(1,2,4), of "[]" "[]" 0 st] by auto
  ultimately show ?thesis using store_fits [OF assms(1,2), of pend' head' st'] assms(3)
    by (cases "pend' = []") (auto simp: append_replay_journal_records_def)
qed

theorem journal_append_fits_witness:
  "\<exists>st' head. append_replay_journal_records sized_lib [] None [demo_record, demo_record] = (st', Ok head)"
proof -
  have "load_mutable_ref_store sized_lib None = Ok default_ref_state"
    by (simp add: load_mutable_ref_store_def sized_lib_def demo_journal_lib_def single_record_lib_def)
  from journal_append_fits [OF sized_contract sized_total this] show ?thesis using sized_fits by simp
qed

text \<open>
  The record of an indexing run is split without loss. The records that are written for
  the generated blocks list each id exactly once, in order, over all records; the first record
  carries the number of inputs and the others none; and each record fits into a journal block
  within the payload limit, whatever its predecessor.
\<close>

theorem outcome_records_split:
  assumes "size_contract lib" and "\<forall>h. length (utf8 (jl_disp lib h)) = 64"
    and "replay_journal_indexing_outcome_records_with_limit lib inputs generated root_id limit = Ok records"
  shows "concat (map outcome_ids records) = remdups_adj (sort (map (jl_disp lib) generated)) \<and>
    records \<noteq> [] \<and> outcomes_ok lib (jl_disp lib root_id) limit inputs records"
proof -
  let ?ids = "remdups_adj (sort (map (jl_disp lib) generated))" and ?root = "jl_disp lib root_id"
  have base: "replay_journal_indexing_outcome_record_base_size lib n root_id = Ok (record_len lib (outcome_record n [] ?root))" for n
  proof -
    obtain enc where "jl_write_record lib (outcome_record n [] ?root) = Ok enc"
      "length enc = record_len lib (outcome_record n [] ?root)" by (rule size_written [OF assms(1)])
    then show ?thesis
      by (simp add: replay_journal_indexing_outcome_record_base_size_def encode_replay_journal_record_def outcome_record_def)
  qed
  have "\<forall>i \<in> set ([] @ ?ids). length (utf8 i) = 64" using assms(2) by auto
  from outcome_loop_ok [OF assms(1) this, of inputs ?root limit "[]" records] assms(3) show ?thesis
    by (simp add: replay_journal_indexing_outcome_records_with_limit_def base)
qed

theorem outcome_records_split_witness:
  "\<exists>records. replay_journal_indexing_outcome_records_with_limit sized_lib 3 [[1]] [2] 1000 = Ok records \<and>
     concat (map outcome_ids records) = remdups_adj (sort (map (jl_disp sized_lib) [[1]])) \<and>
     records \<noteq> [] \<and> outcomes_ok sized_lib (jl_disp sized_lib [2]) 1000 3 records"
proof -
  have d: "length (utf8 (jl_disp sized_lib h)) = 64" for h by (simp add: sized_lib_def utf8_ascii)
  have b: "encode_replay_journal_block_body sized_lib [] p = Ok [0]" for p
    by (simp add: encode_replay_journal_block_body_def sized_lib_def sized_body_def journal_body_def array_head_size header_zero)
  have "\<exists>records. replay_journal_indexing_outcome_records_with_limit sized_lib 3 [[1]] [2] 1000 = Ok records"
    by (simp add: replay_journal_indexing_outcome_records_with_limit_def d b replay_journal_block_body_size_def
        replay_journal_indexing_outcome_record_base_size_def encode_replay_journal_record_def
        replay_journal_indexing_outcome_record_size_def cbor_encoded_text_size_def cbor_array_header_size_def)
      (simp add: sized_lib_def array_head_size cbor_array_header_size_def)
  then obtain records where "replay_journal_indexing_outcome_records_with_limit sized_lib 3 [[1]] [2] 1000 = Ok records" ..
  with outcome_records_split [OF sized_contract _ this] d show ?thesis by blast
qed

end
