(* ===== verification/Replay_Order.thy ===== *)
theory Replay_Order
  imports Replay_Journal
begin

text \<open>
  The order in which a journal is replayed (\<^verbatim>\<open>runtime.rs\<close>): the replay inputs of the journal
  are sorted by block id with an external merge sort. Sorted runs without duplicates are
  written to scratch files, merged group by group until few enough are left, and merged into
  one file that is read back in batches.

  The scratch directory is a map from paths to file contents. Preparing the root of the scratch
  directory and creating, opening and finishing a file may fail, and an interrupt may be pending
  at any check (\<open>scratch_io\<close>); a write that fails is reported when the file is finished. A
  failed collection leaves nothing behind, since its temporary directory is removed.
\<close>

section \<open>Entries\<close>

definition REPLAY_ORDER_ENTRY_BYTES :: nat where
  "REPLAY_ORDER_ENTRY_BYTES = 64"

definition REPLAY_ORDER_FLUSH_ENTRY_LIMIT :: nat where
  "REPLAY_ORDER_FLUSH_ENTRY_LIMIT = 65536"

definition REPLAY_ORDER_MERGE_FAN_IN :: nat where
  "REPLAY_ORDER_MERGE_FAN_IN = 64"

definition replay_order_entry_cmp :: "replay_order_entry \<Rightarrow> replay_order_entry \<Rightarrow> ordering" where
  "replay_order_entry_cmp a b =
     then_with (cmp (entry_block_id a) (entry_block_id b)) (cmp (entry_digest a) (entry_digest b))"

definition write_to :: "replay_order_entry \<Rightarrow> bytes" where
  "write_to e = entry_block_id e @ entry_digest e"

text \<open>A reader is what is left of its file.\<close>

definition read_from :: "bytes \<Rightarrow> io_error + (replay_order_entry \<times> bytes) option" where
  "read_from reader =
     (if reader = [] then Ok None
      else if length reader < REPLAY_ORDER_ENTRY_BYTES then Err (IoOther (lit ''failed to fill whole buffer''))
      else Ok (Some (\<lparr>entry_block_id = take 32 reader, entry_digest = take 32 (drop 32 reader)\<rparr>,
        drop REPLAY_ORDER_ENTRY_BYTES reader)))"

section \<open>Scratch files\<close>

type_synonym scratch_files = "path \<Rightarrow> bytes option"

text \<open>
  The places where the interrupt handler is asked. Each is passed at most once in a collection:
  a flush is named by its run, a merge by the file it writes, an entry by its number.
\<close>

datatype order_check =
    AtStart
  | AtWalk walk_check
  | AtFlush path
  | AtFlushEntry path nat
  | BeforeMerge
  | AtMerge
  | AtPass nat
  | AtPassGroup nat nat
  | AtGroup path
  | AtOpenRun path nat
  | AtMergedEntry path nat

record scratch_io =
  create_root_fault :: "path \<Rightarrow> io_error option"
  probe_create_fault :: "path \<Rightarrow> io_error option"
  probe_write_fault :: "path \<Rightarrow> io_error option"
  tempdir_in :: "path \<Rightarrow> io_error + path"
  create_fault :: "path \<Rightarrow> io_error option"
  finish_fault :: "path \<Rightarrow> io_error option"
  open_fault :: "path \<Rightarrow> io_error option"
  interrupted_at :: "order_check \<Rightarrow> bool"

definition order_interrupt :: "scratch_io \<Rightarrow> order_check \<Rightarrow> runtime_error + unit" where
  "order_interrupt io c = (if interrupted_at io c then Err Interrupted else Ok ())"

definition scratch_call :: "(rstring \<Rightarrow> io_error \<Rightarrow> runtime_error) \<Rightarrow> path \<Rightarrow> io_error option \<Rightarrow> runtime_error + unit" where
  "scratch_call err p fault = (case fault of None \<Rightarrow> Ok () | Some e \<Rightarrow> Err (err (display_path p) e))"

text \<open>The root is created and probed with a file that is removed again.\<close>

definition prepare_writable_directory :: "scratch_io \<Rightarrow> path \<Rightarrow> io_error + unit" where
  "prepare_writable_directory io root =
     (let call = (\<lambda>fault. case fault of None \<Rightarrow> Ok () | Some e \<Rightarrow> Err e) in
      and_then (call (create_root_fault io root)) (\<lambda>_.
      and_then (call (probe_create_fault io root)) (\<lambda>_. call (probe_write_fault io root))))"

definition prepare_replay_order_scratch_root :: "scratch_io \<Rightarrow> path \<Rightarrow> runtime_error + unit" where
  "prepare_replay_order_scratch_root io root =
     map_err (PrepareReplayOrderScratchRoot (display_path root)) (prepare_writable_directory io root)"

definition run_path :: "path \<Rightarrow> nat \<Rightarrow> path" where
  "run_path dir run_index = path_push dir (lit ''run-'' @ zero_padded 6 run_index @ lit ''.bin'')"

definition merge_path :: "path \<Rightarrow> nat \<Rightarrow> nat \<Rightarrow> path" where
  "merge_path dir pass_index group_index =
     path_push dir (lit ''merge-pass-'' @ zero_padded 2 pass_index @ lit ''-run-'' @ zero_padded 6 group_index @ lit ''.bin'')"

definition ordered_path :: "path \<Rightarrow> path" where
  "ordered_path dir = path_push dir (lit ''ordered-replay.bin'')"

section \<open>Writing sorted entries once\<close>

text \<open>
  Both writers hold back the previous entry: an entry with the same block id is dropped if it
  is the same entry and an error otherwise.
\<close>

record dedup_state =
  previous_entry :: "replay_order_entry option"
  written :: bytes
  unique_entries :: nat

definition dedup_start :: dedup_state where
  "dedup_start = \<lparr>previous_entry = None, written = [], unique_entries = 0\<rparr>"

definition conflict_error :: "(block_hash \<Rightarrow> rstring) \<Rightarrow> replay_order_entry \<Rightarrow> runtime_error" where
  "conflict_error disp e = InvalidReplayJournalHead (disp (entry_block_id e))
     (lit ''conflicting replay journal metadata references the same block id'')"

definition dedup_step ::
  "(block_hash \<Rightarrow> rstring) \<Rightarrow> dedup_state \<Rightarrow> replay_order_entry \<Rightarrow> runtime_error + dedup_state" where
  "dedup_step disp s e =
     (case previous_entry s of
        None \<Rightarrow> Ok (s\<lparr>previous_entry := Some e\<rparr>)
      | Some p \<Rightarrow>
          if entry_block_id p = entry_block_id e then
            if entry_digest p \<noteq> entry_digest e then Err (conflict_error disp e) else Ok s
          else Ok \<lparr>previous_entry = Some e, written = written s @ write_to p, unique_entries = unique_entries s + 1\<rparr>)"

definition dedup_finish :: "dedup_state \<Rightarrow> bytes \<times> nat" where
  "dedup_finish s =
     (case previous_entry s of
        None \<Rightarrow> (written s, unique_entries s)
      | Some p \<Rightarrow> (written s @ write_to p, unique_entries s + 1))"

definition flush_sorted_replay_order_run ::
  "scratch_io \<Rightarrow> (block_hash \<Rightarrow> rstring) \<Rightarrow> path \<Rightarrow> nat \<Rightarrow> replay_order_entry list \<Rightarrow> scratch_files
     \<Rightarrow> runtime_error + scratch_files \<times> path" where
  "flush_sorted_replay_order_run io disp dir run_index entries files =
     (let p = run_path dir run_index in
      and_then (order_interrupt io (AtFlush p)) (\<lambda>_.
      and_then (scratch_call WriteReplayOrderScratch p (create_fault io p)) (\<lambda>_.
      and_then (checked_fold (\<lambda>k. interrupted_at io (AtFlushEntry p k)) 0 (dedup_step disp) dedup_start
                  (sort_by replay_order_entry_cmp entries)) (\<lambda>s.
      and_then (scratch_call WriteReplayOrderScratch p (finish_fault io p)) (\<lambda>_.
        Ok (files(p \<mapsto> fst (dedup_finish s)), p))))))"

section \<open>Merging\<close>

text \<open>The heap pops the least cursor; it is kept as a sorted list.\<close>

type_synonym replay_order_cursor = "replay_order_entry \<times> nat"

definition cursor_cmp :: "replay_order_cursor \<Rightarrow> replay_order_cursor \<Rightarrow> ordering" where
  "cursor_cmp a b = then_with (replay_order_entry_cmp (fst a) (fst b)) (cmp (snd a) (snd b))"

fun open_runs ::
  "scratch_io \<Rightarrow> path \<Rightarrow> scratch_files \<Rightarrow> nat \<Rightarrow> path list \<Rightarrow> bytes list \<Rightarrow> replay_order_cursor list
     \<Rightarrow> runtime_error + bytes list \<times> replay_order_cursor list" where
  "open_runs io merged files run_index [] readers heap = Ok (readers, heap)"
| "open_runs io merged files run_index (p # ps) readers heap =
     and_then (order_interrupt io (AtOpenRun merged run_index)) (\<lambda>_.
     and_then (scratch_call ReadReplayOrderScratch p (open_fault io p)) (\<lambda>_.
     and_then (ok_or (ReadReplayOrderScratch (display_path p) IoNotFound) (files p)) (\<lambda>content.
     and_then (map_err (ReadReplayOrderScratch (display_path p)) (read_from content)) (\<lambda>found.
       case found of
         None \<Rightarrow> open_runs io merged files (run_index + 1) ps (readers @ [content]) heap
       | Some (e, reader) \<Rightarrow>
           open_runs io merged files (run_index + 1) ps (readers @ [reader]) (insert_by cursor_cmp (e, run_index) heap)))))"

lemma length_read_from: "read_from r = Ok (Some (e, r')) \<Longrightarrow> length r' + 64 = length r"
  by (auto simp: read_from_def REPLAY_ORDER_ENTRY_BYTES_def split: if_splits)

lemma length_insert_by [simp]: "length (insert_by c x ys) = Suc (length ys)"
  by (induction ys) auto

lemma sum_lengths_update:
  "i < length rs \<Longrightarrow> sum_list (map length (rs[i := r])) + length (rs ! i) = sum_list (map length rs) + length r"
  by (induction rs arbitrary: i) (auto split: nat.splits)

lemma merge_measure:
  "i < length readers \<Longrightarrow> read_from (readers ! i) = Ok (Some (e, r)) \<Longrightarrow>
   sum_list (map length (readers[i := r])) + 64 = sum_list (map length readers)"
  using sum_lengths_update [of i readers r] length_read_from [of "readers ! i" e r] by simp

text \<open>A cursor's run is one of the readers; the guard on its index always holds.\<close>

function merge_loop ::
  "(nat \<Rightarrow> bool) \<Rightarrow> nat \<Rightarrow> (block_hash \<Rightarrow> rstring) \<Rightarrow> path list \<Rightarrow> bytes list \<Rightarrow> replay_order_cursor list
     \<Rightarrow> dedup_state \<Rightarrow> runtime_error + dedup_state" where
  "merge_loop interrupted k disp paths readers [] s = Ok s"
| "merge_loop interrupted k disp paths readers ((e, i) # heap) s =
     (if interrupted k then Err Interrupted
      else case dedup_step disp s e of
        Inl err \<Rightarrow> Err err
      | Inr s' \<Rightarrow>
          (case (if i < length readers then read_from (readers ! i) else Ok None) of
             Inl err \<Rightarrow> Err (ReadReplayOrderScratch (display_path (paths ! i)) err)
           | Inr None \<Rightarrow> merge_loop interrupted (Suc k) disp paths readers heap s'
           | Inr (Some (next_entry, reader)) \<Rightarrow>
               merge_loop interrupted (Suc k) disp paths (readers[i := reader])
                 (insert_by cursor_cmp (next_entry, i) heap) s'))"
  by pat_completeness auto

termination
  by (relation "measure (\<lambda>(interrupted, k, disp, paths, readers, heap, s). sum_list (map length readers) + length heap)")
    (auto split: if_splits dest!: merge_measure)

definition merge_sorted_replay_order_run_group ::
  "scratch_io \<Rightarrow> (block_hash \<Rightarrow> rstring) \<Rightarrow> path list \<Rightarrow> path \<Rightarrow> scratch_files
     \<Rightarrow> runtime_error + scratch_files \<times> nat" where
  "merge_sorted_replay_order_run_group io disp run_paths merged files =
     and_then (order_interrupt io (AtGroup merged)) (\<lambda>_.
     and_then (scratch_call WriteReplayOrderScratch merged (create_fault io merged)) (\<lambda>_.
     and_then (open_runs io merged (files(merged \<mapsto> [])) 0 run_paths [] []) (\<lambda>(readers, heap).
     and_then (merge_loop (\<lambda>k. interrupted_at io (AtMergedEntry merged k)) 0 disp run_paths readers heap dedup_start) (\<lambda>s.
     and_then (scratch_call WriteReplayOrderScratch merged (finish_fault io merged)) (\<lambda>_.
       case dedup_finish s of (content, unique) \<Rightarrow> Ok (files(merged \<mapsto> content), unique))))))"

function chunks :: "nat \<Rightarrow> 'a list \<Rightarrow> 'a list list" where
  "chunks n xs = (if n = 0 \<or> xs = [] then [] else take n xs # chunks n (drop n xs))"
  by pat_completeness auto
termination
  by (relation "measure (\<lambda>(n, xs). length xs)") auto

declare chunks.simps [simp del]

fun merge_groups ::
  "scratch_io \<Rightarrow> (block_hash \<Rightarrow> rstring) \<Rightarrow> path \<Rightarrow> nat \<Rightarrow> nat \<Rightarrow> path list list \<Rightarrow> scratch_files
     \<Rightarrow> runtime_error + scratch_files \<times> path list" where
  "merge_groups io disp dir pass_index group_index [] files = Ok (files, [])"
| "merge_groups io disp dir pass_index group_index (grp # groups) files =
     (let p = merge_path dir pass_index group_index in
      and_then (order_interrupt io (AtPassGroup pass_index group_index)) (\<lambda>_.
      and_then (merge_sorted_replay_order_run_group io disp grp p files) (\<lambda>(files', _).
      and_then (merge_groups io disp dir pass_index (group_index + 1) groups files') (\<lambda>(files'', ps).
        Ok (files'', p # ps)))))"

lemma merge_groups_length: "merge_groups io disp dir k g groups files = Ok (files', ps) \<Longrightarrow> length ps = length groups"
  by (induction groups arbitrary: g files files' ps) (auto simp: Let_def result_simps split: prod.splits)

lemma length_chunks: "0 < n \<Longrightarrow> n * length (chunks n xs) < length xs + n"
proof (induction n xs rule: chunks.induct)
  case (1 n xs)
  show ?case
  proof (cases "xs = []")
    case False
    have "n * length (chunks n (drop n xs)) < length (drop n xs) + n" using 1 False by blast
    then show ?thesis using False 1(2)
      by (cases "n < length xs") (simp_all add: chunks.simps [of n xs] chunks.simps [of n "[]"])
  qed (use 1(2) in \<open>simp add: chunks.simps [of n "[]"]\<close>)
qed

lemma chunks_shrink: "64 < length xs \<Longrightarrow> length (chunks 64 xs) < length xs"
  using length_chunks [of 64 xs] by simp

text \<open>One pass merges each group of runs into one; passes are repeated until one group is left.\<close>

function merge_passes ::
  "scratch_io \<Rightarrow> (block_hash \<Rightarrow> rstring) \<Rightarrow> path \<Rightarrow> nat \<Rightarrow> path list \<Rightarrow> scratch_files
     \<Rightarrow> runtime_error + scratch_files \<times> path list" where
  "merge_passes io disp dir pass_index paths files =
     (if length paths > REPLAY_ORDER_MERGE_FAN_IN then
        if interrupted_at io (AtPass pass_index) then Err Interrupted
        else (case merge_groups io disp dir pass_index 0 (chunks REPLAY_ORDER_MERGE_FAN_IN paths) files of
           Inl e \<Rightarrow> Err e
         | Inr (files', next_paths) \<Rightarrow> merge_passes io disp dir (pass_index + 1) next_paths files')
      else Ok (files, paths))"
  by pat_completeness auto
termination
  by (relation "measure (\<lambda>(io, disp, dir, pass_index, paths, files). length paths)")
    (auto simp: REPLAY_ORDER_MERGE_FAN_IN_def dest!: merge_groups_length intro: chunks_shrink)

declare merge_passes.simps [simp del]

definition merge_sorted_replay_order_runs ::
  "scratch_io \<Rightarrow> (block_hash \<Rightarrow> rstring) \<Rightarrow> path list \<Rightarrow> path \<Rightarrow> scratch_files
     \<Rightarrow> runtime_error + scratch_files \<times> nat" where
  "merge_sorted_replay_order_runs io disp run_paths merged files =
     and_then (order_interrupt io AtMerge) (\<lambda>_.
      if length run_paths \<le> REPLAY_ORDER_MERGE_FAN_IN then
        merge_sorted_replay_order_run_group io disp run_paths merged files
      else
        and_then (ok_or (WriteReplayOrderScratch (display_path merged)
             (IoOther (lit ''merged replay-order path must have a parent directory''))) (path_parent merged)) (\<lambda>dir.
        and_then (merge_passes io disp dir 0 run_paths files) (\<lambda>(files', paths).
          merge_sorted_replay_order_run_group io disp paths merged files')))"

section \<open>Collecting the inputs of a journal\<close>

record replay_order_storage =
  storage_files :: scratch_files
  entries_path :: path
  total_items :: nat

record collect_state =
  ordered_entries :: "replay_order_entry list"
  run_paths :: "path list"
  scratch :: scratch_files

definition flush_entries ::
  "scratch_io \<Rightarrow> (block_hash \<Rightarrow> rstring) \<Rightarrow> path \<Rightarrow> collect_state \<Rightarrow> runtime_error + collect_state" where
  "flush_entries io disp dir s =
     and_then (flush_sorted_replay_order_run io disp dir (length (run_paths s)) (ordered_entries s) (scratch s))
       (\<lambda>(files, p). Ok \<lparr>ordered_entries = [], run_paths = run_paths s @ [p], scratch = files\<rparr>)"

fun collect_input ::
  "scratch_io \<Rightarrow> (block_hash \<Rightarrow> rstring) \<Rightarrow> (bytes \<Rightarrow> block_hash) \<Rightarrow> path \<Rightarrow> nat
     \<Rightarrow> collect_state \<Rightarrow> replay_journal_record \<Rightarrow> runtime_error + collect_state" where
  "collect_input io disp sha dir flush_entry_limit s (OutcomeRecord _ _ _ _ _) = Ok s"
| "collect_input io disp sha dir flush_entry_limit s (InputRecord step block_id md content_ref) =
     and_then (map_err (\<lambda>e. InvalidReplayJournalHead block_id (parse_error_text e)) (parse_block_hash block_id)) (\<lambda>h.
       case replay_journal_record_sort_key_digest sha (InputRecord step block_id md content_ref) of
         None \<Rightarrow> Ok s
       | Some digest \<Rightarrow>
           let s' = s\<lparr>ordered_entries := ordered_entries s @ [\<lparr>entry_block_id = h, entry_digest = digest\<rparr>]\<rparr>
           in if length (ordered_entries s') \<ge> max flush_entry_limit 1 then flush_entries io disp dir s' else Ok s')"

definition finish_collection ::
  "scratch_io \<Rightarrow> (block_hash \<Rightarrow> rstring) \<Rightarrow> path \<Rightarrow> collect_state \<Rightarrow> runtime_error + replay_order_storage" where
  "finish_collection io disp dir s =
     and_then (if ordered_entries s \<noteq> [] then flush_entries io disp dir s else Ok s) (\<lambda>s'.
       if run_paths s' = [] then Err NoClusterableBlocks
       else
         and_then (order_interrupt io BeforeMerge) (\<lambda>_.
         and_then (merge_sorted_replay_order_runs io disp (run_paths s') (ordered_path dir) (scratch s')) (\<lambda>(files, total_count).
           if total_count = 0 then Err NoClusterableBlocks
           else Ok \<lparr>storage_files = files, entries_path = ordered_path dir, total_items = total_count\<rparr>)))"

text \<open>The temporary directory is created in the scratch root; everything is written there.\<close>

definition collect_ordered_replay_block_ids_from_journal_with_limit ::
  "nat \<Rightarrow> ('s, 'r, 'v) journal_lib \<Rightarrow> scratch_io \<Rightarrow> (bytes \<Rightarrow> block_hash) \<Rightarrow> path \<Rightarrow> nat \<Rightarrow> 's \<Rightarrow> 'r
     \<Rightarrow> (runtime_error + replay_order_storage) option" where
  "collect_ordered_replay_block_ids_from_journal_with_limit n lib io sha replay_order_scratch_root flush_entry_limit st ref =
     (case and_then (order_interrupt io AtStart) (\<lambda>_.
           and_then (prepare_replay_order_scratch_root io replay_order_scratch_root) (\<lambda>_.
             map_err (PrepareReplayOrderScratchRoot (display_path replay_order_scratch_root))
               (tempdir_in io replay_order_scratch_root))) of
        Inl e \<Rightarrow> Some (Err e)
      | Inr dir \<Rightarrow>
          map_option (\<lambda>r. and_then r (finish_collection io (jl_disp lib) dir))
            (for_each_replay_journal_record_newest_first n lib (\<lambda>c. interrupted_at io (AtWalk c)) st ref
              (collect_input io (jl_disp lib) sha dir flush_entry_limit)
              \<lparr>ordered_entries = [], run_paths = [], scratch = Map.empty\<rparr>))"

definition collect_ordered_replay_block_ids_from_journal ::
  "nat \<Rightarrow> ('s, 'r, 'v) journal_lib \<Rightarrow> scratch_io \<Rightarrow> (bytes \<Rightarrow> block_hash) \<Rightarrow> path \<Rightarrow> 's \<Rightarrow> 'r
     \<Rightarrow> (runtime_error + replay_order_storage) option" where
  "collect_ordered_replay_block_ids_from_journal n lib io sha replay_order_scratch_root st ref =
     collect_ordered_replay_block_ids_from_journal_with_limit n lib io sha replay_order_scratch_root
       REPLAY_ORDER_FLUSH_ENTRY_LIMIT st ref"

section \<open>Reading the order back\<close>

record replay_order_reader =
  reader_rest :: bytes
  remaining_items :: nat

definition open_reader :: "scratch_io \<Rightarrow> replay_order_storage \<Rightarrow> runtime_error + replay_order_reader" where
  "open_reader io storage =
     and_then (scratch_call ReadReplayOrderScratch (entries_path storage) (open_fault io (entries_path storage))) (\<lambda>_.
     and_then (ok_or (ReadReplayOrderScratch (display_path (entries_path storage)) IoNotFound)
                 (storage_files storage (entries_path storage))) (\<lambda>content.
       Ok \<lparr>reader_rest = content, remaining_items = total_items storage\<rparr>))"

fun read_entries :: "path \<Rightarrow> nat \<Rightarrow> bytes \<Rightarrow> runtime_error + replay_order_entry list \<times> bytes" where
  "read_entries p 0 rest = Ok ([], rest)"
| "read_entries p (Suc target) rest =
     and_then (map_err (ReadReplayOrderScratch (display_path p)) (read_from rest)) (\<lambda>found.
       case found of
         None \<Rightarrow> Err (ReadReplayOrderScratch (display_path p)
           (IoOther (lit ''replay-order scratch file ended before all expected entries were read'')))
       | Some (e, rest') \<Rightarrow> and_then (read_entries p target rest') (\<lambda>(es, rest''). Ok (e # es, rest'')))"

definition read_next_entries ::
  "path \<Rightarrow> replay_order_reader \<Rightarrow> nat \<Rightarrow> runtime_error + replay_order_entry list \<times> replay_order_reader" where
  "read_next_entries p reader max_items =
     and_then (read_entries p (min (remaining_items reader) max_items) (reader_rest reader)) (\<lambda>(es, rest).
       Ok (es, \<lparr>reader_rest = rest, remaining_items = remaining_items reader - length es\<rparr>))"

definition read_all_entries :: "scratch_io \<Rightarrow> replay_order_storage \<Rightarrow> runtime_error + replay_order_entry list" where
  "read_all_entries io storage =
     and_then (open_reader io storage) (\<lambda>reader.
     and_then (read_next_entries (entries_path storage) reader (total_items storage)) (\<lambda>(es, _). Ok es))"

end
