(* ===== verification/Replay_Order_Laws.thy ===== *)
theory Replay_Order_Laws
  imports Replay_Order Replay_Journal_Laws
begin

text \<open>
  The external merge sort yields the same order as sorting all inputs at once, for every size
  of a run.
\<close>

section \<open>Order\<close>

definition entry_key :: "replay_order_entry \<Rightarrow> bytes \<times> bytes" where
  "entry_key e = (entry_block_id e, entry_digest e)"

lemma entry_key_inject: "entry_key a = entry_key b \<longleftrightarrow> a = b"
  by (cases a; cases b) (simp add: entry_key_def)

lemma inj_entry_key: "inj_on entry_key A"
  by (simp add: inj_on_def entry_key_inject)

lemma entry_cmp_key: "replay_order_entry_cmp a b = cmp (entry_key a) (entry_key b)"
  by (auto simp: replay_order_entry_cmp_def entry_key_def cmp_def less_prod_def')

definition cursor_key :: "replay_order_cursor \<Rightarrow> (bytes \<times> bytes) \<times> nat" where
  "cursor_key c = (entry_key (fst c), snd c)"

lemma pair_le_fst: "(x :: 'a :: order, i :: 'b :: preorder) \<le> (y, j) \<Longrightarrow> x \<le> y"
  by (auto simp: less_eq_prod_def)

lemma cursor_key_le: "cursor_key a \<le> cursor_key b \<Longrightarrow> entry_key (fst a) \<le> entry_key (fst b)"
  unfolding cursor_key_def by (rule pair_le_fst)

lemma cursor_cmp_key: "cursor_cmp a b = cmp (cursor_key a) (cursor_key b)"
  by (auto simp: cursor_cmp_def entry_cmp_key cursor_key_def cmp_def less_prod_def')

lemma cmp_Greater: "cmp a b = Greater \<longleftrightarrow> b < a"
  by (auto simp: cmp_def)

lemma sorted_insert_key:
  "(\<And>a b. c a b = cmp (k a) (k b)) \<Longrightarrow> sorted (map k ys) \<Longrightarrow> sorted (map k (insert_by c x ys))"
  by (induction ys) (auto simp: cmp_Greater set_insert_by not_less)

lemma sorted_sort_key: "(\<And>a b. c a b = cmp (k a) (k b)) \<Longrightarrow> sorted (map k (sort_by c xs))"
  by (induction xs) (auto simp: sort_by_def sorted_insert_key)

abbreviation in_order :: "replay_order_entry list \<Rightarrow> bool" where
  "in_order es \<equiv> sorted (map entry_key es)"

lemma in_order_Cons: "in_order (e # es) \<longleftrightarrow> (\<forall>x \<in> set es. entry_key e \<le> entry_key x) \<and> in_order es"
  by simp

section \<open>Duplicates and conflicts\<close>

definition conflicting :: "replay_order_entry set \<Rightarrow> bool" where
  "conflicting A \<longleftrightarrow> (\<exists>a \<in> A. \<exists>b \<in> A. entry_block_id a = entry_block_id b \<and> a \<noteq> b)"

definition encoded :: "replay_order_entry list \<Rightarrow> bytes" where
  "encoded es = concat (map write_to es)"

lemma encoded_simps [simp]: "encoded [] = []" "encoded (e # es) = write_to e @ encoded es"
  "encoded (es @ fs) = encoded es @ encoded fs"
  by (simp_all add: encoded_def)

definition held :: "dedup_state \<Rightarrow> replay_order_entry list" where
  "held s = (case previous_entry s of None \<Rightarrow> [] | Some p \<Rightarrow> [p])"

lemma dedup_start_simps [simp]: "held dedup_start = []" "written dedup_start = []" "unique_entries dedup_start = 0"
  by (simp_all add: held_def dedup_start_def)

lemma same_id_equal:
  "entry_block_id a = entry_block_id b \<Longrightarrow> entry_digest a = entry_digest b \<Longrightarrow> a = (b :: replay_order_entry)"
  by (cases a; cases b) simp

lemma id_order: "entry_key a \<le> entry_key b \<Longrightarrow> entry_key b \<le> entry_key c \<Longrightarrow> entry_block_id a = entry_block_id c \<Longrightarrow>
   entry_block_id a = entry_block_id b"
  by (auto simp: entry_key_def less_eq_prod_def less_prod_def')

lemma dedup_fold_Ok:
  assumes "\<not> conflicting (set (held s @ es))"
  shows "\<exists>s'. try_fold (dedup_step disp) s es = Ok s' \<and>
    dedup_finish s' = (written s @ encoded (remdups_adj (held s @ es)),
      unique_entries s + length (remdups_adj (held s @ es)))"
  using assms
proof (induction es arbitrary: s)
  case Nil
  then show ?case by (cases "previous_entry s") (auto simp: dedup_finish_def held_def)
next
  case (Cons e es)
  show ?case
  proof (cases "previous_entry s")
    case None
    let ?s = "s\<lparr>previous_entry := Some e\<rparr>"
    have "held ?s = [e]" "held s = []" using None by (simp_all add: held_def)
    then show ?thesis using Cons.IH [of ?s] Cons.prems None by (simp add: dedup_step_def)
  next
    case (Some p)
    have h: "held s = [p]" by (simp add: held_def Some)
    show ?thesis
    proof (cases "entry_block_id p = entry_block_id e")
      case True
      have "p \<in> set (held s @ e # es)" "e \<in> set (held s @ e # es)" by (simp_all add: h)
      then have pe: "p = e" using True Cons.prems unfolding conflicting_def by blast
      have step: "dedup_step disp s e = Ok s" by (simp add: dedup_step_def Some pe)
      have "set (held s @ es) \<subseteq> set (held s @ e # es)" by auto
      then have "\<not> conflicting (set (held s @ es))" using Cons.prems unfolding conflicting_def by blast
      from Cons.IH [OF this] show ?thesis by (simp add: step h pe)
    next
      case False
      let ?s = "\<lparr>previous_entry = Some e, written = written s @ write_to p, unique_entries = unique_entries s + 1\<rparr>"
      have "p \<noteq> e" using False by auto
      moreover have "held ?s = [e]" by (simp add: held_def)
      moreover have "\<not> conflicting (set (e # es))" using Cons.prems h by (auto simp: conflicting_def)
      ultimately show ?thesis using Cons.IH [of ?s] Some h False by (simp add: dedup_step_def)
    qed
  qed
qed

lemma dedup_fold_Err:
  assumes "conflicting (set (held s @ es))" and "in_order (held s @ es)"
  shows "\<exists>e. try_fold (dedup_step disp) s es = Err (conflict_error disp e)"
  using assms
proof (induction es arbitrary: s)
  case Nil
  then show ?case by (cases "previous_entry s") (auto simp: held_def conflicting_def)
next
  case (Cons e es)
  show ?case
  proof (cases "previous_entry s")
    case None
    let ?s = "s\<lparr>previous_entry := Some e\<rparr>"
    have "held ?s = [e]" "held s = []" using None by (simp_all add: held_def)
    then show ?thesis using Cons.IH [of ?s] Cons.prems None by (simp add: dedup_step_def)
  next
    case (Some p)
    have h: "held s = [p]" by (simp add: held_def Some)
    show ?thesis
    proof (cases "entry_block_id p = entry_block_id e")
      case True
      show ?thesis
      proof (cases "entry_digest p = entry_digest e")
        case same: True
        have pe: "p = e" by (rule same_id_equal [OF True same])
        have step: "dedup_step disp s e = Ok s" by (simp add: dedup_step_def Some pe)
        have "set (held s @ es) = set (held s @ e # es)" by (simp add: h pe)
        then have "conflicting (set (held s @ es))" using Cons.prems(1) by simp
        moreover have "in_order (held s @ es)" using Cons.prems(2) by (simp add: h)
        ultimately show ?thesis using Cons.IH [of s] by (simp add: step)
      next
        case False
        then show ?thesis using True Some by (auto simp: dedup_step_def)
      qed
    next
      case False
      let ?s = "\<lparr>previous_entry = Some e, written = written s @ write_to p, unique_entries = unique_entries s + 1\<rparr>"
      have hs: "held ?s = [e]" by (simp add: held_def)
      have ord: "entry_key p \<le> entry_key e" "\<forall>x \<in> set es. entry_key e \<le> entry_key x" "in_order (e # es)"
        using Cons.prems(2) h by auto
      have "entry_block_id p \<noteq> entry_block_id x" if "x \<in> set (e # es)" for x
        using id_order [OF ord(1)] ord(2) that False by auto
      moreover obtain a b where ab: "a \<in> set (p # e # es)" "b \<in> set (p # e # es)"
        "entry_block_id a = entry_block_id b" "a \<noteq> b" using Cons.prems(1) unfolding h conflicting_def by auto
      ultimately have "a \<in> set (e # es)" "b \<in> set (e # es)" by (metis set_ConsD)+
      then have "conflicting (set (e # es))" using ab(3,4) unfolding conflicting_def by blast
      then show ?thesis using Cons.IH [of ?s] ord(3) hs Some False by (simp add: dedup_step_def)
    qed
  qed
qed

section \<open>The reference order\<close>

definition replay_order :: "replay_order_entry set \<Rightarrow> replay_order_entry list \<Rightarrow> bool" where
  "replay_order A es \<longleftrightarrow> set es = A \<and> in_order es \<and> distinct es"

lemma replay_order_unique: "replay_order A es \<Longrightarrow> replay_order A fs \<Longrightarrow> es = fs"
proof -
  assume r: "replay_order A es" "replay_order A fs"
  have "map entry_key es = map entry_key fs"
    using r by (intro sorted_distinct_set_unique) (simp_all add: replay_order_def distinct_map inj_entry_key)
  then show ?thesis by (rule map_injective [OF _ injI]) (simp add: entry_key_inject)
qed

lemma distinct_remdups_adj: "sorted xs \<Longrightarrow> distinct (remdups_adj xs)"
  by (induction xs rule: remdups_adj.induct) (auto simp: le_less)

lemma replay_order_remdups: "in_order es \<Longrightarrow> replay_order (set es) (remdups_adj es)"
proof -
  assume s: "in_order es"
  have m: "map entry_key (remdups_adj es) = remdups_adj (map entry_key es)"
    by (rule remdups_adj_map_injective [OF injI, symmetric]) (simp add: entry_key_inject)
  have "in_order (remdups_adj es)" unfolding m using s by (rule sorted_remdups_adj)
  moreover have "distinct (map entry_key (remdups_adj es))" unfolding m using s by (rule distinct_remdups_adj)
  ultimately show ?thesis by (simp add: replay_order_def distinct_map)
qed

lemma replay_order_sort: "replay_order (set es) (sort_key entry_key (remdups es))"
  by (simp add: replay_order_def)


section \<open>Runs\<close>

definition entry_wf :: "replay_order_entry \<Rightarrow> bool" where
  "entry_wf e \<longleftrightarrow> length (entry_block_id e) = 32 \<and> length (entry_digest e) = 32"

lemma read_write: "entry_wf e \<Longrightarrow> read_from (write_to e @ rest) = Ok (Some (e, rest))"
  by (cases e) (auto simp: read_from_def write_to_def entry_wf_def REPLAY_ORDER_ENTRY_BYTES_def)

lemma read_encoded:
  "list_all entry_wf es \<Longrightarrow> read_from (encoded es) = Ok (case es of [] \<Rightarrow> None | e # es' \<Rightarrow> Some (e, encoded es'))"
proof (cases es)
  case Nil
  then show ?thesis by (simp add: read_from_def)
next
  case (Cons e es')
  assume "list_all entry_wf es"
  then show ?thesis using Cons read_write by simp
qed

text \<open>A run: entries in order, none twice, none conflicting.\<close>

definition run_ok :: "replay_order_entry list \<Rightarrow> bool" where
  "run_ok es \<longleftrightarrow> in_order es \<and> distinct es \<and> list_all entry_wf es \<and> \<not> conflicting (set es)"

definition no_faults :: "scratch_io \<Rightarrow> bool" where
  "no_faults io \<longleftrightarrow>
     (\<forall>p. create_root_fault io p = None \<and> probe_create_fault io p = None \<and> probe_write_fault io p = None \<and>
        tempdir_in io p \<in> range Ok \<and> create_fault io p = None \<and> finish_fault io p = None \<and> open_fault io p = None) \<and>
     (\<forall>c. \<not> interrupted_at io c)"

lemma no_fault_calls: "no_faults io \<Longrightarrow> scratch_call err p (create_fault io p) = Ok ()"
  "no_faults io \<Longrightarrow> scratch_call err p (finish_fault io p) = Ok ()"
  "no_faults io \<Longrightarrow> scratch_call err p (open_fault io p) = Ok ()"
  "no_faults io \<Longrightarrow> order_interrupt io c = Ok ()"
  "no_faults io \<Longrightarrow> \<not> interrupted_at io c"
  "no_faults io \<Longrightarrow> prepare_replay_order_scratch_root io p = Ok ()"
  by (simp_all add: no_faults_def scratch_call_def order_interrupt_def prepare_replay_order_scratch_root_def
      prepare_writable_directory_def)

text \<open>What a writer leaves: one run with the entries it was given, or the conflict among them.\<close>

lemma sorted_once:
  assumes "in_order es" and "list_all entry_wf es"
  shows "(\<exists>s run. \<not> conflicting (set es) \<and> try_fold (dedup_step disp) dedup_start es = Ok s \<and> run_ok run \<and>
      set run = set es \<and> dedup_finish s = (encoded run, length run)) \<or>
    (\<exists>e. conflicting (set es) \<and> try_fold (dedup_step disp) dedup_start es = Err (conflict_error disp e))"
proof (cases "conflicting (set es)")
  case True
  then show ?thesis using dedup_fold_Err [of dedup_start es disp] assms by simp
next
  case False
  obtain s where s: "try_fold (dedup_step disp) dedup_start es = Ok s"
    "dedup_finish s = (encoded (remdups_adj es), length (remdups_adj es))"
    using dedup_fold_Ok [of dedup_start es disp] False by auto
  have "run_ok (remdups_adj es)"
    using replay_order_remdups [OF assms(1)] assms(2) False by (simp add: run_ok_def replay_order_def list_all_iff)
  then show ?thesis using s False by (intro disjI1 exI [of _ s] exI [of _ "remdups_adj es"]) simp
qed

lemma flush_run:
  assumes io: "no_faults io" and wf: "list_all entry_wf es"
  shows "(\<exists>run. \<not> conflicting (set es) \<and> run_ok run \<and> set run = set es \<and>
      flush_sorted_replay_order_run io disp dir k es files = Ok (files(run_path dir k \<mapsto> encoded run), run_path dir k)) \<or>
    (\<exists>e. conflicting (set es) \<and> flush_sorted_replay_order_run io disp dir k es files = Err (conflict_error disp e))"
proof -
  let ?es = "sort_by replay_order_entry_cmp es"
  have "in_order ?es" by (rule sorted_sort_key) (rule entry_cmp_key)
  moreover have "list_all entry_wf ?es" using wf by (simp add: list_all_iff)
  ultimately show ?thesis using sorted_once [of ?es disp]
    by (auto simp: flush_sorted_replay_order_run_def no_fault_calls [OF io] Let_def)
qed

section \<open>Merging\<close>

text \<open>
  The heap has at most one cursor of each run, and it is at the front of what is left of the
  run; a run without a cursor is exhausted.
\<close>

definition heap_ok :: "replay_order_entry list list \<Rightarrow> replay_order_cursor list \<Rightarrow> bool" where
  "heap_ok runs heap \<longleftrightarrow> sorted (map cursor_key heap) \<and> distinct (map snd heap) \<and>
     (\<forall>i < length runs. in_order (runs ! i) \<and> list_all entry_wf (runs ! i)) \<and>
     (\<forall>(e, i) \<in> set heap. i < length runs \<and> (\<forall>x \<in> set (runs ! i). entry_key e \<le> entry_key x)) \<and>
     (\<forall>i < length runs. i \<notin> snd ` set heap \<longrightarrow> runs ! i = [])"

definition left_entries :: "replay_order_entry list list \<Rightarrow> replay_order_cursor list \<Rightarrow> replay_order_entry multiset" where
  "left_entries runs heap = mset (map fst heap) + mset (concat runs)"

lemma mset_concat_update:
  "i < length runs \<Longrightarrow> runs ! i = x # r \<Longrightarrow> mset (concat runs) = add_mset x (mset (concat (runs[i := r])))"
  by (induction runs arbitrary: i) (auto split: nat.splits)

lemma heap_least:
  assumes ok: "heap_ok runs ((e, i) # heap)" and x: "x \<in># left_entries runs heap"
  shows "entry_key e \<le> entry_key x"
proof -
  have least: "entry_key e \<le> entry_key (fst c)" if "c \<in> set ((e, i) # heap)" for c
    using ok that cursor_key_le [of "(e, i)" c] by (auto simp: heap_ok_def)
  from x consider c where "c \<in> set heap" "x = fst c" | j where "j < length runs" "x \<in> set (runs ! j)"
  proof -
    from x have "x \<in> fst ` set heap \<or> (\<exists>r \<in> set runs. x \<in> set r)" by (simp add: left_entries_def)
    then show thesis
    proof
      assume "\<exists>r \<in> set runs. x \<in> set r"
      then obtain r where "r \<in> set runs" "x \<in> set r" by blast
      then show thesis using that(2) unfolding in_set_conv_nth [of r] by blast
    qed (use that(1) in auto)
  qed
  then show ?thesis
  proof cases
    case 1
    then show ?thesis using least [of c] by simp
  next
    case (2 j)
    then have "runs ! j \<noteq> []" by auto
    then have "j \<in> snd ` set ((e, i) # heap)" using ok 2(1) unfolding heap_ok_def by blast
    then obtain c where c: "c \<in> set ((e, i) # heap)" "snd c = j" by blast
    then have "entry_key (fst c) \<le> entry_key x" using ok 2 unfolding heap_ok_def by (cases c) auto
    then show ?thesis using least [OF c(1)] by simp
  qed
qed


lemma heap_ok_drop:
  assumes ok: "heap_ok runs ((e, i) # heap)" and r: "runs ! i = []"
  shows "heap_ok runs heap"
  using ok r unfolding heap_ok_def by auto

lemma heap_ok_next:
  assumes ok: "heap_ok runs ((e, i) # heap)" and r: "runs ! i = x # xs"
  shows "heap_ok (runs[i := xs]) (insert_by cursor_cmp (x, i) heap)"
proof -
  have i: "i < length runs" "i \<notin> snd ` set heap" using ok by (auto simp: heap_ok_def)
  have xs: "in_order (x # xs)" "list_all entry_wf (x # xs)" using ok i(1) r by (metis heap_ok_def)+
  have "sorted (map cursor_key (insert_by cursor_cmp (x, i) heap))"
    using ok by (intro sorted_insert_key) (simp_all add: cursor_cmp_key heap_ok_def)
  moreover have "mset (map snd (insert_by cursor_cmp (x, i) heap)) = mset (i # map snd heap)"
    unfolding mset_map mset_insert_by by simp
  then have "distinct (map snd (insert_by cursor_cmp (x, i) heap))"
    using ok i(2) mset_eq_imp_distinct_iff unfolding heap_ok_def by (metis distinct.simps(2) list.simps(9) snd_conv)
  moreover have "in_order (runs[i := xs] ! j) \<and> list_all entry_wf (runs[i := xs] ! j)" if "j < length runs" for j
    using ok that xs i(1) by (cases "j = i") (simp_all add: heap_ok_def)
  moreover have "j < length runs \<and> (\<forall>y \<in> set (runs[i := xs] ! j). entry_key a \<le> entry_key y)"
    if "(a, j) \<in> set (insert_by cursor_cmp (x, i) heap)" for a j
  proof (cases "(a, j) = (x, i)")
    case True
    then show ?thesis using xs i(1) by simp
  next
    case False
    then have m: "(a, j) \<in> set heap" using that by (auto simp: set_insert_by)
    then have "j \<noteq> i" using i(2) by force
    then show ?thesis using ok m by (auto simp: heap_ok_def)
  qed
  moreover have "runs[i := xs] ! j = []" if "j < length runs" "j \<notin> snd ` set (insert_by cursor_cmp (x, i) heap)" for j
    using ok that by (auto simp: heap_ok_def set_insert_by)
  ultimately show ?thesis unfolding heap_ok_def by auto
qed

lemma merge_loop_fold:
  assumes quiet: "\<And>i. \<not> interrupted i"
  shows "heap_ok runs heap \<Longrightarrow>
   \<exists>seq. in_order seq \<and> mset seq = left_entries runs heap \<and>
     merge_loop interrupted k disp paths (map encoded runs) heap s = try_fold (dedup_step disp) s seq"
proof (induction "size (left_entries runs heap)" arbitrary: k runs heap s rule: less_induct)
  case less
  show ?case
  proof (cases heap)
    case Nil
    then have "\<forall>r \<in> set runs. r = []" using less.prems by (auto simp: heap_ok_def in_set_conv_nth)
    then have "concat runs = []" by simp
    then show ?thesis using Nil by (intro exI [of _ "[]"]) (simp add: left_entries_def)
  next
    case (Cons c heap')
    obtain e i where c: "c = (e, i)" by fastforce
    note ok = less.prems [unfolded Cons c]
    have i: "i < length runs" "list_all entry_wf (runs ! i)" using ok by (auto simp: heap_ok_def)
    obtain runs1 heap1 where nxt: "heap_ok runs1 heap1" "left_entries runs1 heap1 = left_entries runs heap'"
      and step: "\<And>s'. dedup_step disp s e = Ok s' \<Longrightarrow>
        merge_loop interrupted k disp paths (map encoded runs) heap s = merge_loop interrupted (Suc k) disp paths (map encoded runs1) heap1 s'"
    proof (cases "runs ! i")
      case Nil
      show thesis
        by (rule that [of runs heap']) (use heap_ok_drop [OF ok Nil] i Nil Cons c in \<open>simp_all add: read_from_def quiet\<close>)
    next
      case r: (Cons x xs)
      let ?heap = "insert_by cursor_cmp (x, i) heap'"
      have "left_entries (runs[i := xs]) ?heap = left_entries runs heap'"
        using mset_concat_update [OF i(1) r] by (simp add: left_entries_def)
      moreover have "read_from (map encoded runs ! i) = Ok (Some (x, encoded xs))"
        using read_encoded [OF i(2)] i(1) r by simp
      ultimately show thesis
        using that [of "runs[i := xs]" ?heap] heap_ok_next [OF ok r] i(1) Cons c by (simp add: map_update quiet)
    qed
    have all: "left_entries runs heap = add_mset e (left_entries runs heap')"
      by (simp add: left_entries_def Cons c)
    have "size (left_entries runs1 heap1) < size (left_entries runs heap)" by (simp add: nxt(2) all)
    note IH = less.hyps [OF this nxt(1)]
    show ?thesis
    proof (cases "dedup_step disp s e")
      case (Inl err)
      obtain seq where seq: "in_order seq" "mset seq = left_entries runs1 heap1" using IH by blast
      have "in_order (e # seq)" using seq heap_least [OF ok] nxt(2) by (auto simp flip: set_mset_mset)
      then show ?thesis using seq(2) nxt(2) all Inl
        by (intro exI [of _ "e # seq"]) (simp add: Cons c quiet)
    next
      case (Inr s')
      obtain seq where seq: "in_order seq" "mset seq = left_entries runs1 heap1"
        "merge_loop interrupted (Suc k) disp paths (map encoded runs1) heap1 s' = try_fold (dedup_step disp) s' seq" using IH by blast
      have "in_order (e # seq)" using seq heap_least [OF ok] nxt(2) by (auto simp flip: set_mset_mset)
      then show ?thesis using seq(2,3) nxt(2) all step [OF Inr]
        by (intro exI [of _ "e # seq"]) (simp add: Inr)
    qed
  qed
qed

end
