(* ===== verification/Replay_Order_Sort.thy ===== *)
theory Replay_Order_Sort
  imports Replay_Order_Laws
begin

text \<open>
  Scratch files that hold runs, the passes over them, and what a collection yields as a whole.
\<close>

section \<open>Names of the scratch files\<close>

lemma read_zeros: "read_digits 0 (replicate k 48 @ ds) = read_digits 0 ds"
  by (induction k) simp_all

lemma zero_padded_inject [simp]: "zero_padded w m = zero_padded w n \<longleftrightarrow> m = n"
proof
  assume "zero_padded w m = zero_padded w n"
  then have "read_digits 0 (zero_padded w m) = read_digits 0 (zero_padded w n)" by simp
  then show "m = n" by (simp add: zero_padded_def read_zeros read_show_nat)
qed simp

lemma zero_padded_no_dash: "45 \<notin> set (zero_padded w n)"
  using show_nat_digits [of 45 n] by (auto simp: zero_padded_def)

lemma split_at_dash: "45 \<notin> set a \<Longrightarrow> 45 \<notin> set b \<Longrightarrow> a @ 45 # x = b @ 45 # y \<longleftrightarrow> a = b \<and> x = y"
proof (rule iffI)
  assume d: "45 \<notin> set a" "45 \<notin> set b" and "a @ 45 # x = b @ 45 # y"
  then have "split_once 45 (a @ 45 # x) = split_once 45 (b @ 45 # y)" by (simp only:)
  then show "a = b \<and> x = y" using d by (simp add: split_once_append)
qed simp

lemma path_push_inject [simp]: "path_push d a = path_push d b \<longleftrightarrow> a = b"
  by (simp add: path_push_def)

lemma run_path_inject [simp]: "run_path dir i = run_path dir j \<longleftrightarrow> i = j"
  by (simp add: run_path_def)

lemma merge_path_inject [simp]: "merge_path dir k g = merge_path dir k' g' \<longleftrightarrow> k = k' \<and> g = g'"
proof
  assume "merge_path dir k g = merge_path dir k' g'"
  then have "zero_padded 2 k @ 45 # lit ''run-'' @ zero_padded 6 g @ lit ''.bin'' =
    zero_padded 2 k' @ 45 # lit ''run-'' @ zero_padded 6 g' @ lit ''.bin''"
    by (simp add: merge_path_def lit_def)
  then show "k = k' \<and> g = g'" unfolding split_at_dash [OF zero_padded_no_dash zero_padded_no_dash] by simp
qed simp

lemma scratch_paths_distinct [simp]:
  "run_path dir i \<noteq> merge_path dir k g" "merge_path dir k g \<noteq> run_path dir i"
  "ordered_path dir \<noteq> run_path dir i" "ordered_path dir \<noteq> merge_path dir k g"
  "run_path dir i \<noteq> ordered_path dir" "merge_path dir k g \<noteq> ordered_path dir"
  by (simp_all add: run_path_def merge_path_def ordered_path_def lit_def)

lemma parent_ordered_path [simp]: "path_parent (ordered_path dir) = Some dir"
  by (cases dir) (simp add: ordered_path_def path_parent_def path_push_def)

section \<open>Files that hold runs\<close>

definition runs_at :: "scratch_files \<Rightarrow> path list \<Rightarrow> replay_order_entry list list \<Rightarrow> bool" where
  "runs_at files ps runs \<longleftrightarrow> list_all2 (\<lambda>p run. files p = Some (encoded run) \<and> run_ok run) ps runs"

lemma runs_at_simps [simp]:
  "runs_at files [] runs \<longleftrightarrow> runs = []"
  "runs_at files (p # ps) (r # rs) \<longleftrightarrow> files p = Some (encoded r) \<and> run_ok r \<and> runs_at files ps rs"
  by (auto simp: runs_at_def)

lemma runs_at_Cons: "runs_at files (p # ps) runs \<longleftrightarrow>
    (\<exists>r rs. runs = r # rs \<and> files p = Some (encoded r) \<and> run_ok r \<and> runs_at files ps rs)"
  by (auto simp: runs_at_def list_all2_Cons1)

lemma runs_at_append: "runs_at files (ps @ qs) runs \<longleftrightarrow>
    (\<exists>rs ss. runs = rs @ ss \<and> runs_at files ps rs \<and> runs_at files qs ss)"
proof
  assume "runs_at files (ps @ qs) runs"
  then show "\<exists>rs ss. runs = rs @ ss \<and> runs_at files ps rs \<and> runs_at files qs ss"
    unfolding runs_at_def list_all2_append1 by blast
qed (auto simp: runs_at_def intro: list_all2_appendI)

lemma runs_at_same: "(\<And>p. p \<in> set ps \<Longrightarrow> files' p = files p) \<Longrightarrow> runs_at files' ps runs = runs_at files ps runs"
  by (auto simp: runs_at_def list_all2_conv_all_nth)

lemma runs_at_upd [simp]: "p \<notin> set ps \<Longrightarrow> runs_at (files(p \<mapsto> c)) ps runs = runs_at files ps runs"
  by (rule runs_at_same) auto

section \<open>Opening and merging a group\<close>

lemma heap_ok_open_empty:
  assumes "heap_ok runs heap"
  shows "heap_ok (runs @ [[]]) heap"
  using assms unfolding heap_ok_def by (auto simp: nth_append less_Suc_eq)

lemma heap_ok_open:
  assumes ok: "heap_ok runs heap" and r: "in_order (e # r)" "list_all entry_wf (e # r)"
  shows "heap_ok (runs @ [r]) (insert_by cursor_cmp (e, length runs) heap)"
proof -
  have fresh: "length runs \<notin> snd ` set heap" using ok by (force simp: heap_ok_def)
  have "sorted (map cursor_key (insert_by cursor_cmp (e, length runs) heap))"
    using ok by (intro sorted_insert_key) (simp_all add: cursor_cmp_key heap_ok_def)
  moreover have "mset (map snd (insert_by cursor_cmp (e, length runs) heap)) = mset (length runs # map snd heap)"
    unfolding mset_map mset_insert_by by simp
  then have "distinct (map snd (insert_by cursor_cmp (e, length runs) heap))"
    using ok fresh mset_eq_imp_distinct_iff unfolding heap_ok_def by (metis distinct.simps(2) list.set_map)
  ultimately show ?thesis using ok r
    unfolding heap_ok_def by (auto simp: nth_append less_Suc_eq set_insert_by)
qed

lemma open_runs_heap:
  assumes io: "no_faults io" and "runs_at files ps runs" and "heap_ok rests heap" and "k = length rests"
  shows "\<exists>rests' heap'. open_runs io merged files k ps (map encoded rests) heap = Ok (map encoded rests', heap') \<and>
    heap_ok rests' heap' \<and> left_entries rests' heap' = left_entries rests heap + mset (concat runs)"
  using assms(2-)
proof (induction ps arbitrary: runs rests heap k)
  case Nil
  then show ?case by auto
next
  case (Cons p ps)
  then obtain r rs where r: "runs = r # rs" "files p = Some (encoded r)" "run_ok r" "runs_at files ps rs"
    by (auto simp: runs_at_Cons)
  have wf: "list_all entry_wf r" "in_order r" using r(3) by (simp_all add: run_ok_def)
  show ?case
  proof (cases r)
    case Nil
    have "open_runs io merged files k (p # ps) (map encoded rests) heap = open_runs io merged files (Suc k) ps (map encoded (rests @ [[]])) heap"
      using Nil r(2) by (simp add: no_fault_calls [OF io] read_from_def)
    then show ?thesis
      using Cons.IH [OF r(4) heap_ok_open_empty [OF Cons.prems(2)], of "Suc k"] Cons.prems(3) r(1) Nil
      by (simp add: left_entries_def)
  next
    case e: (Cons e es)
    have "open_runs io merged files k (p # ps) (map encoded rests) heap =
      open_runs io merged files (Suc k) ps (map encoded (rests @ [es])) (insert_by cursor_cmp (e, length rests) heap)"
      using e r(2) read_encoded [OF wf(1)] Cons.prems(3) by (simp add: no_fault_calls [OF io])
    then show ?thesis
      using Cons.IH [OF r(4) heap_ok_open [OF Cons.prems(2) wf(2,1) [unfolded e]], of "Suc k"] Cons.prems(3) r(1) e
      by (simp add: left_entries_def ac_simps)
  qed
qed

lemma heap_ok_empty: "heap_ok [] []"
  by (simp add: heap_ok_def)

lemma merge_group:
  assumes io: "no_faults io" and r: "runs_at files ps runs" and m: "merged \<notin> set ps"
  shows "(\<exists>run. \<not> conflicting (set (concat runs)) \<and> run_ok run \<and> set run = set (concat runs) \<and>
      merge_sorted_replay_order_run_group io disp ps merged files = Ok (files(merged \<mapsto> encoded run), length run)) \<or>
    (\<exists>e. conflicting (set (concat runs)) \<and>
      merge_sorted_replay_order_run_group io disp ps merged files = Err (conflict_error disp e))"
proof -
  have "runs_at (files(merged \<mapsto> [])) ps runs" using r m by simp
  from open_runs_heap [OF io this heap_ok_empty refl, of merged] obtain rests heap where
    o: "open_runs io merged (files(merged \<mapsto> [])) 0 ps [] [] = Ok (map encoded rests, heap)" "heap_ok rests heap"
       "left_entries rests heap = mset (concat runs)"
    by (auto simp: left_entries_def)
  obtain seq where seq: "in_order seq" "mset seq = mset (concat runs)"
    "merge_loop (\<lambda>k. interrupted_at io (AtMergedEntry merged k)) 0 disp ps (map encoded rests) heap dedup_start = try_fold (dedup_step disp) dedup_start seq"
    using merge_loop_fold [OF _ o(2), of "\<lambda>k. interrupted_at io (AtMergedEntry merged k)" 0 disp ps dedup_start] o(3) no_fault_calls(5) [OF io] by auto
  have set: "set seq = set (concat runs)" using seq(2) by (rule mset_eq_setD)
  have "\<forall>run \<in> set runs. list_all entry_wf run"
    using r by (auto simp: runs_at_def run_ok_def list_all2_conv_all_nth in_set_conv_nth)
  then have wf: "list_all entry_wf seq" unfolding list_all_iff set by auto
  show ?thesis using sorted_once [OF seq(1) wf, of disp] unfolding set
    by (elim disjE exE conjE) (simp_all add: merge_sorted_replay_order_run_group_def no_fault_calls(1-4) [OF io] o(1) seq(3), blast+)
qed

section \<open>Passes\<close>

lemma conflicting_mono: "conflicting A \<Longrightarrow> A \<subseteq> B \<Longrightarrow> conflicting B"
  unfolding conflicting_def by blast

lemma merge_groups_runs:
  assumes io: "no_faults io" and "runs_at files (concat groups) runs"
    and "\<forall>g' \<ge> g. merge_path dir k g' \<notin> set (concat groups)"
  shows "(\<exists>files' runs'. merge_groups io disp dir k g groups files =
        Ok (files', map (merge_path dir k) [g..<g + length groups]) \<and>
      runs_at files' (map (merge_path dir k) [g..<g + length groups]) runs' \<and> set (concat runs') = set (concat runs) \<and>
      (\<forall>p. (\<forall>g' \<ge> g. p \<noteq> merge_path dir k g') \<longrightarrow> files' p = files p)) \<or>
    (\<exists>e. conflicting (set (concat runs)) \<and> merge_groups io disp dir k g groups files = Err (conflict_error disp e))"
  using assms(2,3)
proof (induction groups arbitrary: g files runs)
  case Nil
  then show ?case by simp
next
  case (Cons grp groups)
  let ?p = "merge_path dir k g"
  obtain rs ss where r: "runs = rs @ ss" "runs_at files grp rs" "runs_at files (concat groups) ss"
    using Cons.prems(1) by (auto simp: runs_at_append)
  have fresh: "?p \<notin> set grp" "?p \<notin> set (concat groups)" using Cons.prems(2) by simp_all
  from merge_group [OF io r(2) fresh(1), of disp] show ?case
  proof (elim disjE exE conjE)
    fix run assume run: "run_ok run" "set run = set (concat rs)"
      and m: "merge_sorted_replay_order_run_group io disp grp ?p files = Ok (files(?p \<mapsto> encoded run), length run)"
    let ?files = "files(?p \<mapsto> encoded run)"
    have rest: "runs_at ?files (concat groups) ss" using r(3) fresh(2) by simp
    have new: "\<forall>g' \<ge> Suc g. merge_path dir k g' \<notin> set (concat groups)" using Cons.prems(2) by simp
    from Cons.IH [OF rest new] show ?thesis
    proof (elim disjE exE conjE)
      fix files' runs' assume IH: "merge_groups io disp dir k (Suc g) groups ?files =
          Ok (files', map (merge_path dir k) [Suc g..<Suc g + length groups])"
        "runs_at files' (map (merge_path dir k) [Suc g..<Suc g + length groups]) runs'"
        "set (concat runs') = set (concat ss)" "\<forall>p. (\<forall>g' \<ge> Suc g. p \<noteq> merge_path dir k g') \<longrightarrow> files' p = ?files p"
      have p: "files' ?p = Some (encoded run)" using IH(4) by simp
      have up: "[g..<g + length (grp # groups)] = g # [Suc g..<Suc g + length groups]" by (rule trans [OF upt_conv_Cons]) simp_all
      have "\<forall>p. (\<forall>g' \<ge> g. p \<noteq> merge_path dir k g') \<longrightarrow> files' p = files p" using IH(4) by auto
      then show ?thesis using IH(1-3) m p run r(1) unfolding up
        by (intro disjI1 exI [of _ files'] exI [of _ "run # runs'"]) (simp add: Let_def no_fault_calls [OF io])
    next
      fix e assume "conflicting (set (concat ss))"
        "merge_groups io disp dir k (Suc g) groups ?files = Err (conflict_error disp e)"
      then show ?thesis using m r(1) conflicting_mono [of "set (concat ss)" "set (concat runs)"]
        by (intro disjI2 exI [of _ e]) (simp add: Let_def no_fault_calls [OF io])
    qed
  next
    fix e assume "conflicting (set (concat rs))"
      "merge_sorted_replay_order_run_group io disp grp ?p files = Err (conflict_error disp e)"
    then show ?thesis using r(1) conflicting_mono [of "set (concat rs)" "set (concat runs)"]
      by (intro disjI2 exI [of _ e]) (simp add: Let_def no_fault_calls [OF io])
  qed
qed

lemma concat_chunks: "0 < n \<Longrightarrow> concat (chunks n xs) = xs"
proof (induction n xs rule: chunks.induct)
  case (1 n xs)
  then show ?case by (cases "xs = []") (simp_all add: chunks.simps [of n xs] chunks.simps [of n "[]"])
qed

text \<open>The paths before pass \<open>k\<close>: none is written by it or by a later pass.\<close>

definition before_pass :: "path \<Rightarrow> nat \<Rightarrow> path list \<Rightarrow> bool" where
  "before_pass dir k ps \<longleftrightarrow> ordered_path dir \<notin> set ps \<and> (\<forall>k' \<ge> k. \<forall>g. merge_path dir k' g \<notin> set ps)"

lemma merge_passes_runs:
  assumes io: "no_faults io"
  shows "runs_at files ps runs \<Longrightarrow> before_pass dir k ps \<Longrightarrow>
    (\<exists>files' ps' runs'. merge_passes io disp dir k ps files = Ok (files', ps') \<and> runs_at files' ps' runs' \<and>
      ordered_path dir \<notin> set ps' \<and> set (concat runs') = set (concat runs)) \<or>
    (\<exists>e. conflicting (set (concat runs)) \<and> merge_passes io disp dir k ps files = Err (conflict_error disp e))"
proof (induction "length ps" arbitrary: ps files runs k rule: less_induct)
  case less
  let ?n = REPLAY_ORDER_MERGE_FAN_IN
  let ?groups = "chunks ?n ps"
  have n: "0 < ?n" by (simp add: REPLAY_ORDER_MERGE_FAN_IN_def)
  show ?case
  proof (cases "length ps > ?n")
    case False
    then have "merge_passes io disp dir k ps files = Ok (files, ps)" by (simp add: merge_passes.simps [of io disp dir k ps])
    then show ?thesis using less.prems unfolding before_pass_def by blast
  next
    case True
    have rest: "runs_at files (concat ?groups) runs" using less.prems(1) by (simp add: concat_chunks [OF n])
    have new: "\<forall>g \<ge> 0. merge_path dir k g \<notin> set (concat ?groups)"
      using less.prems(2) by (simp add: concat_chunks [OF n] before_pass_def)
    from merge_groups_runs [OF io rest new, of disp] show ?thesis
    proof (elim disjE exE conjE)
      fix files' runs' assume m: "merge_groups io disp dir k 0 ?groups files =
          Ok (files', map (merge_path dir k) [0..<0 + length ?groups])"
        "runs_at files' (map (merge_path dir k) [0..<0 + length ?groups]) runs'" "set (concat runs') = set (concat runs)"
      let ?ps = "map (merge_path dir k) [0..<0 + length ?groups]"
      have "length ?ps < length ps" using True chunks_shrink [of ps] by (simp add: REPLAY_ORDER_MERGE_FAN_IN_def)
      moreover have "before_pass dir (Suc k) ?ps" by (auto simp: before_pass_def)
      ultimately show ?thesis using less.hyps [of ?ps files' runs' "Suc k"] m True
        by (simp add: merge_passes.simps [of io disp dir k ps] no_fault_calls [OF io])
    next
      fix e assume "conflicting (set (concat runs))" "merge_groups io disp dir k 0 ?groups files = Err (conflict_error disp e)"
      then show ?thesis using True by (intro disjI2 exI [of _ e]) (simp add: merge_passes.simps [of io disp dir k ps] no_fault_calls [OF io])
    qed
  qed
qed

lemma merge_runs:
  assumes io: "no_faults io" and r: "runs_at files ps runs" and b: "before_pass dir 0 ps"
  shows "(\<exists>files' run. \<not> conflicting (set (concat runs)) \<and> run_ok run \<and> set run = set (concat runs) \<and>
      merge_sorted_replay_order_runs io disp ps (ordered_path dir) files = Ok (files', length run) \<and>
      files' (ordered_path dir) = Some (encoded run)) \<or>
    (\<exists>e. conflicting (set (concat runs)) \<and>
      merge_sorted_replay_order_runs io disp ps (ordered_path dir) files = Err (conflict_error disp e))"
proof (cases "length ps \<le> REPLAY_ORDER_MERGE_FAN_IN")
  case True
  have "ordered_path dir \<notin> set ps" using b by (simp add: before_pass_def)
  from merge_group [OF io r this, of disp] show ?thesis unfolding merge_sorted_replay_order_runs_def no_fault_calls [OF io] and_then.simps if_P [OF True]
    by (elim disjE exE conjE) (metis fun_upd_same, blast)
next
  case False
  from merge_passes_runs [OF io r b, of disp] show ?thesis
  proof (elim disjE exE conjE)
    fix files' ps' runs' assume p: "merge_passes io disp dir 0 ps files = Ok (files', ps')"
      "runs_at files' ps' runs'" "ordered_path dir \<notin> set ps'" "set (concat runs') = set (concat runs)"
    have m: "merge_sorted_replay_order_runs io disp ps (ordered_path dir) files =
      merge_sorted_replay_order_run_group io disp ps' (ordered_path dir) files'"
      using False p(1) by (simp add: merge_sorted_replay_order_runs_def no_fault_calls [OF io])
    from merge_group [OF io p(2,3), of disp] show ?thesis unfolding m p(4)
      by (elim disjE exE conjE) (metis fun_upd_same, blast)
  next
    fix e assume "conflicting (set (concat runs))" "merge_passes io disp dir 0 ps files = Err (conflict_error disp e)"
    then show ?thesis using False by (intro disjI2 exI [of _ e]) (simp add: merge_sorted_replay_order_runs_def no_fault_calls [OF io])
  qed
qed

section \<open>Reading a run back\<close>

lemma read_entries_run: "list_all entry_wf es \<Longrightarrow> read_entries p (length es) (encoded es) = Ok (es, [])"
  by (induction es) (simp_all add: read_write)

lemma read_all_run:
  assumes "no_faults io" and "run_ok run" and "storage_files storage (entries_path storage) = Some (encoded run)"
    and "total_items storage = length run"
  shows "read_all_entries io storage = Ok run"
  using assms read_entries_run [of run "entries_path storage"]
  by (simp add: read_all_entries_def open_reader_def read_next_entries_def no_fault_calls run_ok_def)

section \<open>Collecting\<close>

text \<open>The entries of the replay inputs among records, and what the collection needs of each input.\<close>

fun input_entries :: "(bytes \<Rightarrow> block_hash) \<Rightarrow> replay_journal_record list \<Rightarrow> replay_order_entry list" where
  "input_entries sha [] = []"
| "input_entries sha (r # rs) =
     (case r of
        OutcomeRecord _ _ _ _ _ \<Rightarrow> input_entries sha rs
      | InputRecord step block_id md content_ref \<Rightarrow>
          (case (parse_block_hash block_id, replay_journal_record_sort_key_digest sha r) of
             (Inr h, Some digest) \<Rightarrow> \<lparr>entry_block_id = h, entry_digest = digest\<rparr> # input_entries sha rs
           | _ \<Rightarrow> input_entries sha rs))"

fun input_id_parses :: "replay_journal_record \<Rightarrow> bool" where
  "input_id_parses (OutcomeRecord _ _ _ _ _) = True"
| "input_id_parses (InputRecord step block_id md content_ref) =
     (case parse_block_hash block_id of Inl _ \<Rightarrow> False | Inr _ \<Rightarrow> True)"

text \<open>
  While the journal is walked, the entries seen are those in the runs and those held back;
  the runs are the first run files.
\<close>

definition collected :: "path \<Rightarrow> collect_state \<Rightarrow> replay_order_entry set \<Rightarrow> bool" where
  "collected dir s A \<longleftrightarrow> list_all entry_wf (ordered_entries s) \<and>
     run_paths s = map (run_path dir) [0..<length (run_paths s)] \<and>
     (\<exists>runs. runs_at (scratch s) (run_paths s) runs \<and> (\<forall>run \<in> set runs. run \<noteq> []) \<and>
        set (concat runs) \<union> set (ordered_entries s) = A)"

lemma collected_flush:
  assumes io: "no_faults io" and c: "collected dir s A" and ne: "ordered_entries s \<noteq> []"
  shows "(\<exists>s'. flush_entries io disp dir s = Ok s' \<and> collected dir s' A \<and> ordered_entries s' = [] \<and> run_paths s' \<noteq> []) \<or>
    (\<exists>e. conflicting A \<and> flush_entries io disp dir s = Err (conflict_error disp e))"
proof -
  let ?k = "length (run_paths s)"
  from c obtain runs where runs: "runs_at (scratch s) (run_paths s) runs" "\<forall>run \<in> set runs. run \<noteq> []"
      "set (concat runs) \<union> set (ordered_entries s) = A"
    and wf: "list_all entry_wf (ordered_entries s)" and ps: "run_paths s = map (run_path dir) [0..<?k]"
    by (auto simp: collected_def)
  have fresh: "run_path dir ?k \<notin> set (run_paths s)" by (subst ps) auto
  have ps': "run_paths s @ [run_path dir ?k] = map (run_path dir) [0..<Suc ?k]" by (subst ps) simp
  from flush_run [OF io wf, of disp dir ?k "scratch s"] show ?thesis
  proof (elim disjE exE conjE)
    fix run assume run: "run_ok run" "set run = set (ordered_entries s)" and
      f: "flush_sorted_replay_order_run io disp dir ?k (ordered_entries s) (scratch s) =
        Ok ((scratch s)(run_path dir ?k \<mapsto> encoded run), run_path dir ?k)"
    let ?s = "\<lparr>ordered_entries = [], run_paths = run_paths s @ [run_path dir ?k],
      scratch = (scratch s)(run_path dir ?k \<mapsto> encoded run)\<rparr>"
    have "runs_at ((scratch s)(run_path dir ?k \<mapsto> encoded run)) (run_paths s @ [run_path dir ?k]) (runs @ [run])"
      using runs(1) run(1) fresh unfolding runs_at_append by (intro exI [of _ runs] exI [of _ "[run]"]) simp
    then have "runs_at (scratch ?s) (run_paths ?s) (runs @ [run])" by simp
    moreover have "run \<noteq> []" using run(2) ne by auto
    ultimately have "collected dir ?s A" using runs(2,3) run(2) ps' unfolding collected_def
      by (intro conjI exI [of _ "runs @ [run]"]) auto
    then show ?thesis using f by (simp add: flush_entries_def)
  next
    fix e assume "conflicting (set (ordered_entries s))"
      "flush_sorted_replay_order_run io disp dir ?k (ordered_entries s) (scratch s) = Err (conflict_error disp e)"
    then show ?thesis using runs(3) conflicting_mono [of "set (ordered_entries s)" A]
      by (intro disjI2 exI [of _ e]) (auto simp: flush_entries_def)
  qed
qed

lemma input_entries_append: "input_entries sha (rs @ ss) = input_entries sha rs @ input_entries sha ss"
  by (induction rs) (auto split: replay_journal_record.splits sum.splits option.splits)

lemma collected_input:
  assumes io: "no_faults io" and sha: "\<forall>bs. length (sha bs) = 32" and c: "collected dir s A" and p: "input_id_parses r"
  shows "(\<exists>s'. collect_input io disp sha dir limit s r = Ok s' \<and> collected dir s' (A \<union> set (input_entries sha [r]))) \<or>
    (\<exists>e. conflicting (A \<union> set (input_entries sha [r])) \<and> collect_input io disp sha dir limit s r = Err (conflict_error disp e))"
proof (cases r)
  case (OutcomeRecord a1 a2 a3 a4 a5)
  then show ?thesis using c by simp
next
  case (InputRecord step block_id md content_ref)
  obtain h where h: "parse_block_hash block_id = Ok h" using p InputRecord by (auto split: sum.splits)
  obtain d where d: "replay_journal_record_sort_key_digest sha r = Some d" "length d = 32"
    using sha by (simp add: InputRecord)
  let ?e = "\<lparr>entry_block_id = h, entry_digest = d\<rparr>"
  let ?s = "s\<lparr>ordered_entries := ordered_entries s @ [?e]\<rparr>"
  have es: "input_entries sha [r] = [?e]" using h d(1) by (simp add: InputRecord)
  have "length h = 32" using tree_hash.parse_sound [OF h] by (simp add: HASH_LEN_def)
  then have "collected dir ?s (A \<union> {?e})" using c d(2) unfolding collected_def by (auto simp: entry_wf_def)
  note c' = this and fl = collected_flush [OF io this, of disp]
  have "collect_input io disp sha dir limit s r =
    (if length (ordered_entries ?s) \<ge> max limit 1 then flush_entries io disp dir ?s else Ok ?s)"
    using h d(1) by (simp add: InputRecord Let_def)
  then show ?thesis using c' fl unfolding es by (cases "length (ordered_entries ?s) \<ge> max limit 1") auto
qed

lemma collected_fold:
  assumes io: "no_faults io" and sha: "\<forall>bs. length (sha bs) = 32" and "collected dir s A"
    and "list_all input_id_parses rs"
  shows "(\<exists>s'. try_fold (collect_input io disp sha dir limit) s rs = Ok s' \<and> collected dir s' (A \<union> set (input_entries sha rs))) \<or>
    (\<exists>e. conflicting (A \<union> set (input_entries sha rs)) \<and>
      try_fold (collect_input io disp sha dir limit) s rs = Err (conflict_error disp e))"
  using assms(3,4)
proof (induction rs arbitrary: s A)
  case Nil
  then show ?case by simp
next
  case (Cons r rs)
  let ?A = "A \<union> set (input_entries sha [r])"
  have all: "A \<union> set (input_entries sha (r # rs)) = ?A \<union> set (input_entries sha rs)"
    using input_entries_append [of sha "[r]" rs] by auto
  have p: "input_id_parses r" "list_all input_id_parses rs" using Cons.prems(2) by simp_all
  from collected_input [OF io sha Cons.prems(1) p(1), of disp limit] show ?case unfolding all
  proof (elim disjE exE conjE)
    fix s' assume s': "collect_input io disp sha dir limit s r = Ok s'" "collected dir s' ?A"
    from Cons.IH [OF s'(2) p(2)] show "(\<exists>s'. try_fold (collect_input io disp sha dir limit) s (r # rs) = Ok s' \<and>
        collected dir s' (?A \<union> set (input_entries sha rs))) \<or>
      (\<exists>e. conflicting (?A \<union> set (input_entries sha rs)) \<and>
        try_fold (collect_input io disp sha dir limit) s (r # rs) = Err (conflict_error disp e))" by (simp add: s'(1))
  next
    fix e assume "conflicting ?A" "collect_input io disp sha dir limit s r = Err (conflict_error disp e)"
    then show "(\<exists>s'. try_fold (collect_input io disp sha dir limit) s (r # rs) = Ok s' \<and>
        collected dir s' (?A \<union> set (input_entries sha rs))) \<or>
      (\<exists>e. conflicting (?A \<union> set (input_entries sha rs)) \<and>
        try_fold (collect_input io disp sha dir limit) s (r # rs) = Err (conflict_error disp e))"
      using conflicting_mono [of ?A "?A \<union> set (input_entries sha rs)"] by auto
  qed
qed

lemma collected_finish:
  assumes io: "no_faults io" and c: "collected dir s A"
  shows "(A = {} \<and> finish_collection io disp dir s = Err NoClusterableBlocks) \<or>
    (\<exists>storage run. A \<noteq> {} \<and> \<not> conflicting A \<and> replay_order A run \<and> finish_collection io disp dir s = Ok storage \<and>
      total_items storage = length run \<and> read_all_entries io storage = Ok run) \<or>
    (\<exists>e. conflicting A \<and> finish_collection io disp dir s = Err (conflict_error disp e))"
proof -
  have flushed: "(\<exists>s'. (if ordered_entries s \<noteq> [] then flush_entries io disp dir s else Ok s) = Ok s' \<and>
      collected dir s' A \<and> ordered_entries s' = []) \<or>
    (\<exists>e. conflicting A \<and> (if ordered_entries s \<noteq> [] then flush_entries io disp dir s else Ok s) = Err (conflict_error disp e))"
    using collected_flush [OF io c, of disp] c by (cases "ordered_entries s = []") auto
  then show ?thesis
  proof (elim disjE exE conjE)
    fix e assume "conflicting A" "(if ordered_entries s \<noteq> [] then flush_entries io disp dir s else Ok s) = Err (conflict_error disp e)"
    then show ?thesis by (intro disjI2 exI [of _ e]) (simp add: finish_collection_def del: if_split)
  next
    fix s' assume s': "(if ordered_entries s \<noteq> [] then flush_entries io disp dir s else Ok s) = Ok s'"
      "collected dir s' A" "ordered_entries s' = []"
    have fin: "finish_collection io disp dir s = (if run_paths s' = [] then Err NoClusterableBlocks
      else and_then (merge_sorted_replay_order_runs io disp (run_paths s') (ordered_path dir) (scratch s')) (\<lambda>(files, total_count).
        if total_count = 0 then Err NoClusterableBlocks
        else Ok \<lparr>storage_files = files, entries_path = ordered_path dir, total_items = total_count\<rparr>))"
      unfolding finish_collection_def s'(1) by (simp add: no_fault_calls [OF io])
    from s' obtain runs where runs: "runs_at (scratch s') (run_paths s') runs" "\<forall>run \<in> set runs. run \<noteq> []"
      "set (concat runs) = A" and ps: "run_paths s' = map (run_path dir) [0..<length (run_paths s')]"
      by (auto simp: collected_def)
    show ?thesis
    proof (cases "run_paths s' = []")
      case True
      then show ?thesis using runs fin by simp
    next
      case False
      then have "runs \<noteq> []" using runs(1) by (auto simp: runs_at_def)
      then have A: "A \<noteq> {}" using runs(2,3) by (cases runs) auto
      have "before_pass dir 0 (run_paths s')" by (subst ps) (auto simp: before_pass_def)
      from merge_runs [OF io runs(1) this, of disp] show ?thesis unfolding runs(3)
      proof (elim disjE exE conjE)
        fix files' run assume run: "\<not> conflicting A" "run_ok run" "set run = A"
          "merge_sorted_replay_order_runs io disp (run_paths s') (ordered_path dir) (scratch s') = Ok (files', length run)"
          "files' (ordered_path dir) = Some (encoded run)"
        let ?storage = "\<lparr>storage_files = files', entries_path = ordered_path dir, total_items = length run\<rparr>"
        have "finish_collection io disp dir s = Ok ?storage" using fin False run(3,4) A by auto
        moreover have "read_all_entries io ?storage = Ok run" by (rule read_all_run [OF io run(2)]) (simp_all add: run(5))
        moreover have "replay_order A run" using run(2,3) by (simp add: replay_order_def run_ok_def)
        ultimately show ?thesis using A run(1) by (intro disjI2 disjI1 exI [of _ ?storage] exI [of _ run]) simp
      next
        fix e assume "conflicting A"
          "merge_sorted_replay_order_runs io disp (run_paths s') (ordered_path dir) (scratch s') = Err (conflict_error disp e)"
        then show ?thesis using fin False by (intro disjI2 exI [of _ e]) simp
      qed
    qed
  qed
qed

section \<open>The whole collection\<close>

lemma walk_any_visitor:
  "journal_walk n lib (\<lambda>_. False) st collect_record visited h a = Some (Ok rs) \<Longrightarrow>
   \<exists>rs'. rs = a @ rs' \<and> journal_walk n lib (\<lambda>_. False) st visit visited h acc = Some (try_fold visit acc rs')"
proof (induction n arbitrary: visited h a acc)
  case (Suc n)
  then obtain body where b: "journal_block_at lib st visited h = Ok body" by (auto split: sum.splits)
  let ?es = "rev (body_entries body)"
  show ?case
  proof (cases "body_previous_block_id body")
    case None
    then show ?thesis using Suc.prems b by (auto simp: collect_fold split: sum.splits)
  next
    case (Some previous)
    then have w: "journal_walk n lib (\<lambda>_. False) st collect_record (h # visited) previous (a @ ?es) = Some (Ok rs)"
      using Suc.prems b by (simp add: collect_fold)
    show ?thesis
    proof (cases "try_fold visit acc ?es")
      case (Inl e)
      obtain rs' where "rs = (a @ ?es) @ rs'" using Suc.IH [OF w] by blast
      then show ?thesis using b Inl by (intro exI [of _ "?es @ rs'"]) (simp add: try_fold_append)
    next
      case (Inr acc')
      obtain rs' where "rs = (a @ ?es) @ rs'"
        "journal_walk n lib (\<lambda>_. False) st visit (h # visited) previous acc' = Some (try_fold visit acc' rs')"
        using Suc.IH [OF w, of acc'] by blast
      then show ?thesis using b Inr Some by (intro exI [of _ "?es @ rs'"]) (simp add: try_fold_append)
    qed
  qed
qed simp

lemma for_each_any_visitor:
  assumes "for_each_replay_journal_record_newest_first n lib (\<lambda>_. False) st ref collect_record [] = Some (Ok rs)"
  shows "for_each_replay_journal_record_newest_first n lib (\<lambda>_. False) st ref visit acc = Some (try_fold visit acc rs)"
  using assms walk_any_visitor [of n lib st "[]" _ "[]" rs visit acc]
  by (auto simp: for_each_replay_journal_record_newest_first_def split: sum.splits option.splits)

lemma collected_start: "collected dir \<lparr>ordered_entries = [], run_paths = [], scratch = Map.empty\<rparr> {}"
  by (simp add: collected_def)

lemma collect_cases:
  assumes io: "no_faults io" and sha: "\<forall>bs. length (sha bs) = 32"
    and w: "for_each_replay_journal_record_newest_first n lib (\<lambda>_. False) st ref collect_record [] = Some (Ok records)"
    and p: "list_all input_id_parses records"
  shows "\<exists>r. collect_ordered_replay_block_ids_from_journal_with_limit n lib io sha root limit st ref = Some r \<and>
    (let A = set (input_entries sha records) in
     A = {} \<and> r = Err NoClusterableBlocks \<or>
     (\<exists>storage run. A \<noteq> {} \<and> \<not> conflicting A \<and> replay_order A run \<and> r = Ok storage \<and>
        total_items storage = length run \<and> read_all_entries io storage = Ok run) \<or>
     (\<exists>e. conflicting A \<and> r = Err (conflict_error (jl_disp lib) e)))"
proof -
  obtain dir where dir: "tempdir_in io root = Ok dir" using io by (auto simp: no_faults_def)
  let ?A = "set (input_entries sha records)" and ?d = "jl_disp lib"
  let ?fold = "try_fold (collect_input io ?d sha dir limit) \<lparr>ordered_entries = [], run_paths = [], scratch = Map.empty\<rparr> records"
  have r: "collect_ordered_replay_block_ids_from_journal_with_limit n lib io sha root limit st ref =
    Some (and_then ?fold (finish_collection io ?d dir))"
    by (simp add: collect_ordered_replay_block_ids_from_journal_with_limit_def for_each_any_visitor [OF w] no_fault_calls [OF io] dir)
  have A: "{} \<union> ?A = ?A" by simp
  from collected_fold [where disp = ?d and dir = dir and limit = limit, OF io sha collected_start p] show ?thesis unfolding r A
  proof (elim disjE exE conjE)
    fix s assume s: "?fold = Ok s" "collected dir s ?A"
    from collected_finish [OF io s(2), of ?d] show "\<exists>r. Some (and_then ?fold (finish_collection io ?d dir)) = Some r \<and>
      (let A = ?A in A = {} \<and> r = Err NoClusterableBlocks \<or>
       (\<exists>storage run. A \<noteq> {} \<and> \<not> conflicting A \<and> replay_order A run \<and> r = Ok storage \<and>
          total_items storage = length run \<and> read_all_entries io storage = Ok run) \<or>
       (\<exists>e. conflicting A \<and> r = Err (conflict_error ?d e)))"
      unfolding s(1) by (simp add: Let_def no_fault_calls [OF io])
  next
    fix e assume "conflicting ?A" "?fold = Err (conflict_error ?d e)"
    then show "\<exists>r. Some (and_then ?fold (finish_collection io ?d dir)) = Some r \<and>
      (let A = ?A in A = {} \<and> r = Err NoClusterableBlocks \<or>
       (\<exists>storage run. A \<noteq> {} \<and> \<not> conflicting A \<and> replay_order A run \<and> r = Ok storage \<and>
          total_items storage = length run \<and> read_all_entries io storage = Ok run) \<or>
       (\<exists>e. conflicting A \<and> r = Err (conflict_error ?d e)))" by (auto simp: Let_def)
  qed
qed

text \<open>
  C9. The external merge sort of the replay inputs is a sort. Take a journal whose walk yields
  \<open>records\<close> with well-formed block ids, and a run without interrupts and without errors of the
  scratch files. For every limit on the size of a run, so for every number of runs and merge
  passes, collecting the inputs ends, and yields a storage whose entries are those of one sort of
  all inputs by block id and digest without duplicates. If two inputs have the same block id and
  different digests it is the error that reports a conflict, and if there are no inputs, the
  error that there is nothing to cluster.
\<close>

theorem replay_order_is_sorted_union:
  assumes "no_faults io" and "\<forall>bs. length (sha bs) = 32"
    and "for_each_replay_journal_record_newest_first n lib (\<lambda>_. False) st ref collect_record [] = Some (Ok records)"
    and "list_all input_id_parses records" and es: "es = input_entries sha records"
  shows "\<exists>r. collect_ordered_replay_block_ids_from_journal_with_limit n lib io sha root limit st ref = Some r \<and>
    (if es = [] then r = Err NoClusterableBlocks
     else if conflicting (set es) then \<exists>e. r = Err (conflict_error (jl_disp lib) e)
     else \<exists>storage. r = Ok storage \<and> total_items storage = length (remdups es) \<and>
       read_all_entries io storage = Ok (sort_key entry_key (remdups es)))"
proof -
  have uniq: "run = sort_key entry_key (remdups es)" if "replay_order (set es) run" for run
    using replay_order_unique [OF that replay_order_sort] .
  have ne: "\<not> conflicting {}" by (simp add: conflicting_def)
  show ?thesis using collect_cases [OF assms(1-4), of root limit] ne uniq unfolding es [symmetric] Let_def by fastforce
qed

text \<open>A journal of one block with the same input twice and another one.\<close>

definition demo_input :: "nat \<Rightarrow> replay_journal_record" where
  "demo_input i = InputRecord StepEmbedding (hex_encode (journal_hash i)) [] (JournalDocument [98])"

definition demo_order_lib :: "((rstring \<times> cbor) list, bytes option, rstring \<times> cbor) journal_lib" where
  "demo_order_lib = demo_journal_lib\<lparr>jl_read_body := \<lambda>_. Ok (journal_body [demo_input 2, demo_input 1, demo_input 2] None)\<rparr>"

definition demo_order_store :: "(rstring \<times> cbor) list" where
  "demo_order_store = [(REPLAY_JOURNAL_BLOCK_TYPE, artifact_content REPLAY_JOURNAL_MEDIA_TYPE [1])]"

definition demo_scratch_io :: scratch_io where
  "demo_scratch_io =
     \<lparr>create_root_fault = \<lambda>_. None, probe_create_fault = \<lambda>_. None, probe_write_fault = \<lambda>_. None,
      tempdir_in = \<lambda>root. Ok (path_push root (lit ''replay-order-a'')),
      create_fault = \<lambda>_. None, finish_fault = \<lambda>_. None, open_fault = \<lambda>_. None, interrupted_at = \<lambda>_. False\<rparr>"

lemma parse_journal_hash: "parse_block_hash (hex_encode (journal_hash i)) = Ok (journal_hash i)"
  by (rule parse_shown) (simp add: journal_hash_def HASH_LEN_def)

lemma demo_order_walk:
  "for_each_replay_journal_record_newest_first 1 demo_order_lib (\<lambda>_. False) demo_order_store (Some [2]) collect_record [] =
     Some (Ok [demo_input 2, demo_input 1, demo_input 2])"
  by (simp add: for_each_replay_journal_record_newest_first_def load_mutable_ref_store_def demo_order_lib_def
      demo_journal_lib_def single_record_lib_def demo_refs_def journal_block_at_def parse_journal_hash demo_order_store_def
      replay_journal_block_body_from_decoded_def text_field_artifact journal_body_def collect_record_def)

theorem replay_order_is_sorted_union_witness:
  "\<exists>storage. collect_ordered_replay_block_ids_from_journal_with_limit 1 demo_order_lib demo_scratch_io
      (\<lambda>_. journal_hash 0) (Path True []) 1 demo_order_store (Some [2]) = Some (Ok storage) \<and>
    total_items storage = 2"
proof -
  let ?sha = "\<lambda>_ :: bytes. journal_hash 0"
  let ?rs = "[demo_input 2, demo_input 1, demo_input 2]"
  have d: "journal_hash 2 \<noteq> journal_hash 1" by (simp add: journal_hash_def)
  let ?es = "map (\<lambda>i. \<lparr>entry_block_id = journal_hash i, entry_digest = journal_hash 0\<rparr>) [2, 1, 2]"
  have es: "input_entries ?sha ?rs = map (\<lambda>i. \<lparr>entry_block_id = journal_hash i, entry_digest = journal_hash 0\<rparr>) [2, 1, 2]"
    by (simp add: demo_input_def parse_journal_hash)
  have "no_faults demo_scratch_io" by (simp add: no_faults_def demo_scratch_io_def)
  moreover have "\<forall>bs. length (?sha bs) = 32" by (simp add: journal_hash_def)
  moreover have "list_all input_id_parses ?rs" by (simp add: demo_input_def parse_journal_hash)
  ultimately have "\<exists>r. collect_ordered_replay_block_ids_from_journal_with_limit 1 demo_order_lib demo_scratch_io
      ?sha (Path True []) 1 demo_order_store (Some [2]) = Some r \<and>
    (if conflicting (set ?es) then \<exists>e. r = Err (conflict_error (jl_disp demo_order_lib) e)
     else \<exists>storage. r = Ok storage \<and> total_items storage = length (remdups ?es))"
    using replay_order_is_sorted_union [OF _ _ demo_order_walk _ es [symmetric], of demo_scratch_io "Path True []" 1]
    by (fastforce split: if_splits)
  moreover have "\<not> conflicting (set ?es)" "length (remdups ?es) = 2" using d by (auto simp: conflicting_def)
  ultimately show ?thesis by auto
qed

end
