(* ===== verification/Gateway.thy ===== *)
theory Gateway
  imports Block_Model Rust_Path
begin

text \<open>
  The block gateway (\<^verbatim>\<open>block-gateway/src/lib.rs\<close>) and its client
  (\<^verbatim>\<open>block-store-http3/src/lib.rs\<close>): the routes and handlers of the server, its storage
  profiles, and a read-only block store that fetches blocks over HTTP/3.

  The HTTP and QUIC libraries are parameters: \<open>router_lib\<close> for what the server uses of them
  and \<open>network\<close> for the client's connection. A \<^verbatim>\<open>HeaderMap\<close> is the list of its entries in
  the order it is iterated; names are in lower case, as the library keeps them.
\<close>

section \<open>Messages\<close>

type_synonym header_map = "(rstring \<times> bytes) list"

definition header_get_all :: "rstring \<Rightarrow> header_map \<Rightarrow> bytes list" where
  "header_get_all name hs = map snd (filter (\<lambda>h. fst h = name) hs)"

definition header_insert :: "rstring \<Rightarrow> bytes \<Rightarrow> header_map \<Rightarrow> header_map" where
  "header_insert name v hs = filter (\<lambda>h. fst h \<noteq> name) hs @ [(name, v)]"

definition header_append :: "rstring \<Rightarrow> bytes \<Rightarrow> header_map \<Rightarrow> header_map" where
  "header_append name v hs = hs @ [(name, v)]"

datatype http_method = GET | HEAD | OPTIONS | PUT | DELETE | TRACE | POST | OtherMethod rstring

record gateway_request =
  req_method :: http_method
  req_path :: rstring
  req_headers :: header_map
  req_body :: bytes

record gateway_response =
  resp_status :: nat
  resp_headers :: header_map
  resp_body :: bytes

definition CACHE_CONTROL_VALUE :: rstring where
  "CACHE_CONTROL_VALUE = lit ''public, max-age=31536000, immutable''"

definition NO_STORE_CACHE_CONTROL_VALUE :: rstring where
  "NO_STORE_CACHE_CONTROL_VALUE = lit ''no-store''"

definition MAX_EMBEDDING_REQUEST_BODY_BYTES :: nat where
  "MAX_EMBEDDING_REQUEST_BODY_BYTES = 1024 * 1024"

text \<open>\<^verbatim>\<open>StatusCode::into_response\<close>: a response with an empty body and no headers.\<close>

definition status_response :: "nat \<Rightarrow> gateway_response" where
  "status_response s = \<lparr>resp_status = s, resp_headers = [], resp_body = []\<rparr>"

definition not_found_response :: gateway_response where
  "not_found_response = (status_response 404)
     \<lparr>resp_headers := header_insert (lit ''cache-control'') (utf8 NO_STORE_CACHE_CONTROL_VALUE) []\<rparr>"

section \<open>Serving blocks\<close>

type_synonym lookup = "block_hash \<Rightarrow> block_store_error + bytes option"

definition get_block :: "lookup \<Rightarrow> rstring \<Rightarrow> gateway_response" where
  "get_block store block_id =
     (case parse_block_hash block_id of
        Inl _ \<Rightarrow> not_found_response
      | Inr h \<Rightarrow> (case store h of
          Inr (Some block_bytes) \<Rightarrow>
            \<lparr>resp_status = 200,
             resp_headers = header_insert (lit ''cache-control'') (utf8 CACHE_CONTROL_VALUE)
               (header_insert (lit ''content-type'') (utf8 (lit ''application/octet-stream'')) []),
             resp_body = block_bytes\<rparr>
        | Inr None \<Rightarrow> not_found_response
        | Inl _ \<Rightarrow> not_found_response))"

section \<open>The embedding proxy\<close>

definition is_hop_by_hop_or_framing_header :: "rstring \<Rightarrow> bool" where
  "is_hop_by_hop_or_framing_header name \<longleftrightarrow>
     name \<in> set [lit ''connection'', lit ''content-length'', lit ''host'', lit ''keep-alive'', lit ''proxy-authenticate'',
       lit ''proxy-authorization'', lit ''te'', lit ''trailer'', lit ''transfer-encoding'', lit ''upgrade'']"

text \<open>
  What the server uses of its libraries: the text of a header value, header names, the body a
  request is read into (an error if it exceeds the limit or breaks off), the decoding of a path
  segment, the responses of routes that do not match, and the upstream service.
\<close>

record router_lib =
  rl_to_str :: "bytes \<Rightarrow> rstring option"
  rl_header_name :: "bytes \<Rightarrow> rstring option"
  rl_read_body :: "nat \<Rightarrow> bytes \<Rightarrow> rstring + bytes"
  rl_decode_segment :: "rstring \<Rightarrow> rstring option"
  rl_fallback :: "gateway_request \<Rightarrow> gateway_response"
  rl_parse_url :: "rstring \<Rightarrow> rstring + rstring"
  rl_upstream :: "rstring \<Rightarrow> header_map \<Rightarrow> bytes \<Rightarrow> rstring + nat \<times> header_map \<times> (rstring + bytes)"

definition nominated_names :: "router_lib \<Rightarrow> header_map \<Rightarrow> rstring list" where
  "nominated_names lib headers =
     List.map_filter (\<lambda>name. rl_header_name lib (utf8 (trim name)))
       (concat (map (split_on 44) (List.map_filter (rl_to_str lib) (header_get_all (lit ''connection'') headers))))"

definition is_connection_nominated_header :: "router_lib \<Rightarrow> header_map \<Rightarrow> rstring \<Rightarrow> bool" where
  "is_connection_nominated_header lib headers candidate \<longleftrightarrow> list_ex (\<lambda>name. name = candidate) (nominated_names lib headers)"

fun copy_headers_loop :: "router_lib \<Rightarrow> header_map \<Rightarrow> header_map \<Rightarrow> header_map \<Rightarrow> header_map" where
  "copy_headers_loop lib source destination [] = destination"
| "copy_headers_loop lib source destination ((name, v) # rest) =
     copy_headers_loop lib source
       (if \<not> is_hop_by_hop_or_framing_header name \<and> \<not> is_connection_nominated_header lib source name
        then header_append name v destination else destination) rest"

definition copy_end_to_end_headers_into :: "router_lib \<Rightarrow> header_map \<Rightarrow> header_map \<Rightarrow> header_map" where
  "copy_end_to_end_headers_into lib destination source = copy_headers_loop lib source destination source"

definition copy_end_to_end_headers :: "router_lib \<Rightarrow> header_map \<Rightarrow> header_map" where
  "copy_end_to_end_headers lib source = copy_end_to_end_headers_into lib [] source"

record embedding_proxy =
  proxy_endpoint :: rstring

definition embedding_proxy_new :: "router_lib \<Rightarrow> rstring \<Rightarrow> rstring + embedding_proxy" where
  "embedding_proxy_new lib base_url =
     and_then (rl_parse_url lib (trim_end_matches 47 base_url @ lit ''/v1/embeddings'')) (\<lambda>endpoint.
       Ok \<lparr>proxy_endpoint = endpoint\<rparr>)"

definition proxy_embeddings :: "router_lib \<Rightarrow> embedding_proxy option \<Rightarrow> gateway_request \<Rightarrow> gateway_response" where
  "proxy_embeddings lib proxy request =
     (case proxy of
        None \<Rightarrow> not_found_response
      | Some p \<Rightarrow> (case rl_read_body lib MAX_EMBEDDING_REQUEST_BODY_BYTES (req_body request) of
          Inl _ \<Rightarrow> status_response 413
        | Inr body \<Rightarrow> (case rl_upstream lib (proxy_endpoint p) (copy_end_to_end_headers lib (req_headers request)) body of
            Inl _ \<Rightarrow> status_response 502
          | Inr (status, headers, response_body) \<Rightarrow> (case response_body of
              Inl _ \<Rightarrow> status_response 502
            | Inr bs \<Rightarrow> \<lparr>resp_status = status, resp_headers = copy_end_to_end_headers_into lib [] headers, resp_body = bs\<rparr>))))"

record gateway_state =
  state_store :: lookup
  state_embedding_proxy :: "embedding_proxy option"

definition with_embedding_base_url :: "router_lib \<Rightarrow> lookup \<Rightarrow> rstring option \<Rightarrow> rstring + gateway_state" where
  "with_embedding_base_url lib store base_url =
     (case base_url of
        None \<Rightarrow> Ok \<lparr>state_store = store, state_embedding_proxy = None\<rparr>
      | Some url \<Rightarrow> and_then (embedding_proxy_new lib url) (\<lambda>p.
          Ok \<lparr>state_store = store, state_embedding_proxy = Some p\<rparr>))"

text \<open>The two routes; \<^verbatim>\<open>{block_id}\<close> is one non-empty segment of the path.\<close>

definition block_route :: "rstring \<Rightarrow> rstring option" where
  "block_route p =
     (if starts_with p (lit ''/block/'') then
        let segment = drop (length (lit ''/block/'')) p
        in if segment \<noteq> [] \<and> 47 \<notin> set segment then Some segment else None
      else None)"

text \<open>\<^verbatim>\<open>get(..)\<close> also serves HEAD: the same handler runs and the body of its response is removed.\<close>

definition serve_block :: "router_lib \<Rightarrow> gateway_state \<Rightarrow> gateway_request \<Rightarrow> rstring \<Rightarrow> gateway_response" where
  "serve_block lib st request segment =
     (case rl_decode_segment lib segment of
        Some block_id \<Rightarrow> get_block (state_store st) block_id
      | None \<Rightarrow> rl_fallback lib request)"

definition gateway_serve :: "router_lib \<Rightarrow> gateway_state \<Rightarrow> gateway_request \<Rightarrow> gateway_response" where
  "gateway_serve lib st request =
     (case (req_method request, block_route (req_path request)) of
        (GET, Some segment) \<Rightarrow> serve_block lib st request segment
      | (HEAD, Some segment) \<Rightarrow> (serve_block lib st request segment)\<lparr>resp_body := []\<rparr>
      | (POST, None) \<Rightarrow>
          if req_path request = lit ''/v1/embeddings'' then proxy_embeddings lib (state_embedding_proxy st) request
          else rl_fallback lib request
      | _ \<Rightarrow> rl_fallback lib request)"

section \<open>Storage profiles\<close>

datatype gateway_storage_profile = GatewayLocalRedb | GatewayProduction | GatewayProductionV2

record gateway_config =
  storage_profile :: gateway_storage_profile
  gw_block_store_root :: "path option"
  gw_container_sas_url :: rstring
  gw_filesystem_cache_root :: "path option"
  gw_memory_cache_max_resident_blocks :: "nat option"
  gw_block_store_prefix :: "rstring option"

datatype gateway_error =
    EmptyContainerSasUrl
  | PrefixNotSupported
  | RootRequired
  | RootNotSupported gateway_storage_profile
  | CacheRootRequired
  | CacheRootNotSupported
  | MemoryCacheTooSmall
  | MemoryCacheRequired
  | MemoryCacheNotSupported
  | StoreInitialization rstring
  | GatewayPanic

definition missing_path :: "path option \<Rightarrow> bool" where
  "missing_path p = (case p of None \<Rightarrow> True | Some q \<Rightarrow> path_is_empty q)"

definition validate_storage_profile_config :: "gateway_config \<Rightarrow> gateway_error + unit" where
  "validate_storage_profile_config c =
     (if storage_profile c \<in> {GatewayProduction, GatewayProductionV2} \<and> trim (gw_container_sas_url c) = []
      then Err EmptyContainerSasUrl
      else if (case gw_block_store_prefix c of None \<Rightarrow> False | Some px \<Rightarrow> trim px \<noteq> []) then Err PrefixNotSupported
      else case storage_profile c of
        GatewayLocalRedb \<Rightarrow> if missing_path (gw_block_store_root c) then Err RootRequired else Ok ()
      | GatewayProduction \<Rightarrow>
          if gw_block_store_root c \<noteq> None then Err (RootNotSupported GatewayProduction)
          else if missing_path (gw_filesystem_cache_root c) then Err CacheRootRequired
          else (case gw_memory_cache_max_resident_blocks c of
             Some n \<Rightarrow> if n = 0 then Err MemoryCacheTooSmall else Ok ()
           | None \<Rightarrow> Err MemoryCacheRequired)
      | GatewayProductionV2 \<Rightarrow>
          if gw_block_store_root c \<noteq> None then Err (RootNotSupported GatewayProductionV2)
          else if gw_filesystem_cache_root c \<noteq> None then Err CacheRootNotSupported
          else if gw_memory_cache_max_resident_blocks c \<noteq> None then Err MemoryCacheNotSupported
          else Ok ())"

text \<open>The constructors of the library's stores; an \<^verbatim>\<open>expect\<close> that fails is \<open>GatewayPanic\<close>.\<close>

record 'st store_builders =
  sb_redb_read_only :: "path \<Rightarrow> rstring + 'st"
  sb_azure_table :: "rstring \<Rightarrow> rstring + 'st"
  sb_memory :: "nat \<Rightarrow> rstring + 'st"
  sb_filesystem :: "path \<Rightarrow> rstring + 'st"
  sb_overlay :: "'st list \<Rightarrow> rstring + 'st"

definition expect_some :: "'a option \<Rightarrow> gateway_error + 'a" where
  "expect_some x = ok_or GatewayPanic x"

definition build_local_redb_store :: "'st store_builders \<Rightarrow> gateway_config \<Rightarrow> gateway_error + 'st" where
  "build_local_redb_store sb c =
     and_then (expect_some (gw_block_store_root c)) (\<lambda>root. map_err StoreInitialization (sb_redb_read_only sb root))"

definition build_direct_azure_table_store :: "'st store_builders \<Rightarrow> gateway_config \<Rightarrow> gateway_error + 'st" where
  "build_direct_azure_table_store sb c = map_err StoreInitialization (sb_azure_table sb (gw_container_sas_url c))"

definition build_overlay_store :: "'st store_builders \<Rightarrow> gateway_config \<Rightarrow> gateway_error + 'st" where
  "build_overlay_store sb c =
     and_then (build_direct_azure_table_store sb c) (\<lambda>azure_backing_store.
     and_then (expect_some (gw_memory_cache_max_resident_blocks c)) (\<lambda>capacity.
     and_then (map_err StoreInitialization (sb_memory sb capacity)) (\<lambda>memory_cache.
     and_then (expect_some (gw_filesystem_cache_root c)) (\<lambda>root.
     and_then (map_err StoreInitialization (sb_filesystem sb root)) (\<lambda>filesystem_cache.
       map_err StoreInitialization (sb_overlay sb [memory_cache, filesystem_cache, azure_backing_store]))))))"

definition build_store :: "'st store_builders \<Rightarrow> gateway_config \<Rightarrow> gateway_error + 'st" where
  "build_store sb c =
     and_then (validate_storage_profile_config c) (\<lambda>_.
       case storage_profile c of
         GatewayLocalRedb \<Rightarrow> build_local_redb_store sb c
       | GatewayProduction \<Rightarrow> build_overlay_store sb c
       | GatewayProductionV2 \<Rightarrow> build_direct_azure_table_store sb c)"

section \<open>The client\<close>

definition dns_error :: "string \<Rightarrow> block_store_error" where
  "dns_error m = BackendFailure (lit m)"

definition validate_dns_name :: "rstring \<Rightarrow> block_store_error + rstring" where
  "validate_dns_name dns_name =
     (let trimmed = trim dns_name in
      if trimmed = [] then Err (dns_error ''gateway dns name must not be empty'')
      else if contains_str trimmed (lit ''://'') \<or> 47 \<in> set trimmed \<or> 58 \<in> set trimmed \<or>
        list_ex (\<lambda>c. \<not> (is_ascii_alphanumeric c \<or> c = 46 \<or> c = 45)) trimmed
      then Err (dns_error ''gateway dns name must be a bare host name containing only ASCII letters, digits, dots, and hyphens'')
      else if starts_with trimmed [46] \<or> ends_with trimmed [46] \<or> starts_with trimmed [45] \<or> ends_with trimmed [45]
      then Err (dns_error ''gateway dns name must not start or end with a dot or hyphen'')
      else if list_ex (\<lambda>label. label = [] \<or> starts_with label [45] \<or> ends_with label [45]) (split_on 46 trimmed)
      then Err (dns_error ''gateway dns name labels must be non-empty and must not start or end with a hyphen'')
      else Ok trimmed)"

text \<open>
  The network, by the index of the attempt: host lookup, connecting, the exchange of one
  request, whether the attempt runs into its timeout and whether it had stored its connection
  by then, and what other tasks did to the shared state while this one was connecting.
\<close>

datatype timeout_point = BeforeConnected | AfterConnected

record ('a, 'c) h3_state =
  resolved_address :: "'a option"
  send_request :: "'c option"

record ('a, 'c) network =
  nw_is_ipv4 :: "'a \<Rightarrow> bool"
  nw_parse_uri :: "rstring \<Rightarrow> rstring + unit"
  nw_lookup_host :: "nat \<Rightarrow> rstring \<Rightarrow> rstring + 'a list"
  nw_connect :: "nat \<Rightarrow> 'a \<Rightarrow> rstring \<Rightarrow> rstring + 'c"
  nw_exchange :: "nat \<Rightarrow> 'c \<Rightarrow> gateway_request \<Rightarrow> rstring + gateway_response"
  nw_timeout :: "nat \<Rightarrow> timeout_point option"
  nw_meanwhile :: "nat \<Rightarrow> ('a, 'c) h3_state \<Rightarrow> ('a, 'c) h3_state"

definition preferred_resolved_address :: "('a \<Rightarrow> bool) \<Rightarrow> 'a list \<Rightarrow> rstring + 'a" where
  "preferred_resolved_address is_ipv4 addresses =
     ok_or (lit ''gateway host did not resolve to an address'')
       (case find is_ipv4 addresses of Some a \<Rightarrow> Some a | None \<Rightarrow> (case addresses of [] \<Rightarrow> None | a # _ \<Rightarrow> Some a))"

definition get_or_connect ::
  "('a, 'c) network \<Rightarrow> nat \<Rightarrow> rstring \<Rightarrow> ('a, 'c) h3_state \<Rightarrow> (('a, 'c) h3_state, rstring, 'c) fallible" where
  "get_or_connect nw k dns_name st =
     (case send_request st of
        Some c \<Rightarrow> (st, Ok c)
      | None \<Rightarrow>
          (case and_then (case resolved_address st of
                    Some a \<Rightarrow> Ok a
                  | None \<Rightarrow> map_err (\<lambda>e. lit ''failed to resolve gateway host '' @ dns_name @ lit '': '' @ e)
                      (and_then (nw_lookup_host nw k dns_name) (preferred_resolved_address (nw_is_ipv4 nw))))
                  (\<lambda>a. and_then (nw_connect nw k a dns_name) (\<lambda>c. Ok (a, c))) of
             Inl e \<Rightarrow> (nw_meanwhile nw k st, Err e)
           | Inr (a, c) \<Rightarrow>
               let st' = nw_meanwhile nw k st in
               case send_request st' of
                 Some existing \<Rightarrow> (st', Ok existing)
               | None \<Rightarrow> (\<lparr>resolved_address = Some a, send_request = Some c\<rparr>, Ok c)))"

definition request_once ::
  "('a, 'c) network \<Rightarrow> nat \<Rightarrow> rstring \<Rightarrow> gateway_request \<Rightarrow> ('a, 'c) h3_state \<Rightarrow> (('a, 'c) h3_state, rstring, gateway_response) fallible" where
  "request_once nw k dns_name request st =
     (case nw_parse_uri nw (lit ''https://'' @ dns_name @ req_path request) of
        Inl e \<Rightarrow> (st, Err (lit ''failed to build gateway URI: '' @ e))
      | Inr _ \<Rightarrow> then_do (get_or_connect nw k dns_name st) (\<lambda>st' c. (st', nw_exchange nw k c request)))"

definition timeout_error :: "rstring \<Rightarrow> nat \<Rightarrow> rstring" where
  "timeout_error dns_name secs =
     lit ''gateway request exceeded '' @ show_nat secs @ lit ''s timeout for host '' @ dns_name"

definition request_with_timeout ::
  "('a, 'c) network \<Rightarrow> nat \<Rightarrow> nat \<Rightarrow> rstring \<Rightarrow> gateway_request \<Rightarrow> ('a, 'c) h3_state
     \<Rightarrow> (('a, 'c) h3_state, rstring, gateway_response) fallible" where
  "request_with_timeout nw k secs dns_name request st =
     (case nw_timeout nw k of
        None \<Rightarrow> request_once nw k dns_name request st
      | Some BeforeConnected \<Rightarrow> (nw_meanwhile nw k st, Err (timeout_error dns_name secs))
      | Some AfterConnected \<Rightarrow> (fst (request_once nw k dns_name request st), Err (timeout_error dns_name secs)))"

definition reset_connection :: "('a, 'c) h3_state \<Rightarrow> ('a, 'c) h3_state" where
  "reset_connection st = st\<lparr>resolved_address := None, send_request := None\<rparr>"

fun allows_transport_retry :: "http_method \<Rightarrow> bool" where
  "allows_transport_retry POST = False"
| "allows_transport_retry (OtherMethod _) = False"
| "allows_transport_retry _ = True"

text \<open>The first component of the result is the number of attempts.\<close>

definition transport_request ::
  "('a, 'c) network \<Rightarrow> nat \<Rightarrow> rstring \<Rightarrow> gateway_request \<Rightarrow> ('a, 'c) h3_state
     \<Rightarrow> nat \<times> (('a, 'c) h3_state, rstring, gateway_response) fallible" where
  "transport_request nw secs dns_name request st =
     (case request_with_timeout nw 0 secs dns_name request st of
        (st', Inr response) \<Rightarrow> (1, st', Ok response)
      | (st', Inl e) \<Rightarrow>
          let st'' = reset_connection st' in
          if \<not> allows_transport_retry (req_method request) then (1, st'', Err e)
          else case request_with_timeout nw 1 secs dns_name request st'' of
            (st3, Inr response) \<Rightarrow> (2, st3, Ok response)
          | (st3, Inl retry_error) \<Rightarrow> (2, st3, Err (e @ lit ''; retry failed: '' @ retry_error)))"

definition build_block_path :: "(block_hash \<Rightarrow> rstring) \<Rightarrow> block_hash \<Rightarrow> rstring" where
  "build_block_path disp h = lit ''/block/'' @ disp h"

definition DEFAULT_GATEWAY_TIMEOUT :: nat where
  "DEFAULT_GATEWAY_TIMEOUT = 30"

definition http3_get_block_bytes ::
  "(block_hash \<Rightarrow> rstring) \<Rightarrow> ('a, 'c) network \<Rightarrow> rstring \<Rightarrow> block_hash \<Rightarrow> ('a, 'c) h3_state
     \<Rightarrow> (('a, 'c) h3_state, block_store_error, bytes option) fallible" where
  "http3_get_block_bytes disp nw dns_name h st =
     (case snd (transport_request nw DEFAULT_GATEWAY_TIMEOUT dns_name
         \<lparr>req_method = GET, req_path = build_block_path disp h, req_headers = [], req_body = []\<rparr> st) of
        (st', Inl e) \<Rightarrow> (st', Err (BackendFailure e))
      | (st', Inr response) \<Rightarrow>
          (st', if resp_status response = 200 then Ok (Some (resp_body response))
                else if resp_status response = 404 then Ok None
                else Err (BackendFailure (lit ''gateway returned unexpected HTTP status '' @
                  show_nat (resp_status response) @ lit '' for block '' @ disp h))))"

definition http3_put_block_bytes :: "block_hash \<Rightarrow> bytes \<Rightarrow> block_store_error + unit" where
  "http3_put_block_bytes h bs =
     Err (BackendFailure (lit ''gateway-http3 block store is read-only and does not support writes''))"

definition http3_iter_block_ids :: "block_store_error + block_hash list" where
  "http3_iter_block_ids =
     Err (BackendFailure (lit ''gateway-http3 block store is read-only and does not support whole-store iteration''))"

end
