(* ===== verification/Embedding.thy ===== *)
theory Embedding
  imports Replay_Batches Gateway
begin

text \<open>
  Embedding providers (\<^verbatim>\<open>embedding.rs\<close>): requests with retries to a local service or through the
  gateway, batches whose requests complete in any order, and the byte encoding of vectors. A
  float is its bit pattern; the conversion to half precision is a parameter, as are the HTTP
  client and JSON.
\<close>

section \<open>Vectors\<close>

type_synonym f32 = "32 word"
type_synonym f16 = "16 word"

definition f32_to_le_bytes :: "f32 \<Rightarrow> bytes" where
  "f32_to_le_bytes w = map (\<lambda>i. ucast (drop_bit (8 * i) w)) [0, 1, 2, 3]"

definition f16_to_le_bytes :: "f16 \<Rightarrow> bytes" where
  "f16_to_le_bytes w = map (\<lambda>i. ucast (drop_bit (8 * i) w)) [0, 1]"

text \<open>\<^verbatim>\<open>from_le_bytes\<close> of both widths: the least byte comes first.\<close>

fun from_le_bytes :: "bytes \<Rightarrow> 'a :: len word" where
  "from_le_bytes [] = 0"
| "from_le_bytes (b # bs) = ucast b OR push_bit 8 (from_le_bytes bs)"

text \<open>\<^verbatim>\<open>chunks_exact\<close>: what is left over at the end is not visited.\<close>

function chunks_exact :: "nat \<Rightarrow> 'a list \<Rightarrow> 'a list list" where
  "chunks_exact n xs = (if n = 0 \<or> length xs < n then [] else take n xs # chunks_exact n (drop n xs))"
  by pat_completeness auto
termination
  by (relation "measure (\<lambda>(n, xs). length xs)") auto

declare chunks_exact.simps [simp del]

datatype embedding_error =
    MissingApiKey rstring
  | ClientBuild rstring
  | MissingVector
  | InvalidDimensions u64 u64
  | InvalidLogicalF32Bytes nat nat
  | UnsupportedEncoding rstring
  | RequestFailed nat rstring
  | UnsupportedProduction

definition encode_embedding :: "(f32 \<Rightarrow> f16) \<Rightarrow> f32 list \<Rightarrow> embedding_spec \<Rightarrow> embedding_error + bytes" where
  "encode_embedding to_f16 vector spec =
     (let actual = of_nat (length vector) in
      if actual \<noteq> spec_dims spec then Err (InvalidDimensions (spec_dims spec) actual)
      else if spec_encoding spec = lit ''f32le'' then Ok (concat (map f32_to_le_bytes vector))
      else if spec_encoding spec = lit ''f16le'' then Ok (concat (map (\<lambda>v. f16_to_le_bytes (to_f16 v)) vector))
      else Err (UnsupportedEncoding (spec_encoding spec)))"

definition logical_f32_embedding_spec :: "u64 \<Rightarrow> embedding_spec" where
  "logical_f32_embedding_spec dims = \<lparr>spec_dims = dims, spec_encoding = lit ''f32le''\<rparr>"

text \<open>\<^verbatim>\<open>checked_mul\<close> of 64-bit sizes.\<close>

definition checked_mul :: "nat \<Rightarrow> nat \<Rightarrow> nat option" where
  "checked_mul a b = (if a * b < 2 ^ 64 then Some (a * b) else None)"

definition decode_logical_f32_embedding :: "bytes \<Rightarrow> u64 \<Rightarrow> embedding_error + f32 list" where
  "decode_logical_f32_embedding bs dims =
     and_then (ok_or (RequestFailed 0 (lit ''logical embedding byte length overflowed'')) (checked_mul (unat dims) 4)) (\<lambda>expected.
       if length bs \<noteq> expected then Err (InvalidLogicalF32Bytes expected (length bs))
       else Ok (map from_le_bytes (chunks_exact 4 bs)))"

definition decode_embedding_values :: "(f16 \<Rightarrow> f32) \<Rightarrow> bytes \<Rightarrow> embedding_spec \<Rightarrow> f32 list option" where
  "decode_embedding_values to_f32 bs spec =
     (if spec_encoding spec = lit ''f32le'' then
        (case checked_mul (unat (spec_dims spec)) 4 of
           Some n \<Rightarrow> if length bs \<noteq> n then None else Some (map from_le_bytes (chunks_exact 4 bs))
         | None \<Rightarrow> None)
      else if spec_encoding spec = lit ''f16le'' then
        (case checked_mul (unat (spec_dims spec)) 2 of
           Some n \<Rightarrow> if length bs \<noteq> n then None else Some (map (\<lambda>c. to_f32 (from_le_bytes c)) (chunks_exact 2 bs))
         | None \<Rightarrow> None)
      else None)"

section \<open>Requests\<close>

definition should_retry :: "nat option \<Rightarrow> nat \<Rightarrow> nat \<Rightarrow> bool" where
  "should_retry status attempt max_attempts \<longleftrightarrow>
     attempt < max_attempts \<and> status \<in> set [Some 429, Some 502, Some 503, Some 504, None]"

text \<open>
  The answer to one request: a transport error, an error status, or a body that was parsed
  into vectors or not. The result of a provider has the number of requests it sent first.
\<close>

datatype embedding_answer =
    TransportError rstring
  | ErrorStatus "nat option" rstring
  | AnswerBody "rstring + f32 list list"

definition first_vector ::
  "(f32 \<Rightarrow> f16) \<Rightarrow> embedding_spec \<Rightarrow> nat \<Rightarrow> rstring + f32 list list \<Rightarrow> embedding_error + bytes" where
  "first_vector to_f16 spec attempt parsed =
     and_then (map_err (RequestFailed attempt) parsed) (\<lambda>vectors.
       case vectors of
         [] \<Rightarrow> Err MissingVector
       | v # _ \<Rightarrow> encode_embedding to_f16 v spec)"

function local_embed_loop ::
  "(f32 \<Rightarrow> f16) \<Rightarrow> (nat \<Rightarrow> embedding_answer) \<Rightarrow> embedding_spec \<Rightarrow> nat \<Rightarrow> nat \<Rightarrow> nat \<Rightarrow> rstring
     \<Rightarrow> nat \<times> (embedding_error + bytes)" where
  "local_embed_loop to_f16 send spec max_attempts attempt attempts_made last_error =
     (if attempt \<le> max_attempts then
        case send attempt of
          AnswerBody parsed \<Rightarrow> (attempt, first_vector to_f16 spec attempt parsed)
        | ErrorStatus status e \<Rightarrow>
            if \<not> should_retry status attempt max_attempts then (attempt, Err (RequestFailed attempt e))
            else local_embed_loop to_f16 send spec max_attempts (attempt + 1) attempt e
        | TransportError e \<Rightarrow>
            if attempt \<ge> max_attempts then (attempt, Err (RequestFailed attempt e))
            else local_embed_loop to_f16 send spec max_attempts (attempt + 1) attempt e
      else (attempts_made, Err (RequestFailed attempts_made last_error)))"
  by pat_completeness auto
termination
  by (relation "measure (\<lambda>(to_f16, send, spec, max_attempts, attempt, _). Suc max_attempts - attempt)") auto

declare local_embed_loop.simps [simp del]

text \<open>\<^verbatim>\<open>max_retries + 1\<close> is 32-bit arithmetic, which wraps in a release build.\<close>

definition max_attempts_of :: "u32 \<Rightarrow> nat" where
  "max_attempts_of max_retries = unat (max_retries + 1)"

record local_provider =
  lp_base_url :: rstring
  lp_model :: rstring
  lp_api_key :: "rstring option"
  lp_max_retries :: u32

definition local_provider_from_config ::
  "(rstring \<Rightarrow> rstring option) \<Rightarrow> rstring + unit \<Rightarrow> local_embedding_config \<Rightarrow> embedding_error + local_provider" where
  "local_provider_from_config env_var client_build config =
     and_then (case le_api_key_env config of
                 None \<Rightarrow> Ok None
               | Some var \<Rightarrow> and_then (ok_or (MissingApiKey var) (env_var var)) (\<lambda>key. Ok (Some key))) (\<lambda>api_key.
     and_then (map_err ClientBuild client_build) (\<lambda>_.
       Ok \<lparr>lp_base_url = trim_end_matches 47 (le_base_url config), lp_model = le_model config, lp_api_key = api_key,
         lp_max_retries = le_max_retries config\<rparr>))"

text \<open>\<open>post\<close> sends one request: endpoint, API key, model, text and the number of the attempt.\<close>

definition local_embed_impl ::
  "(f32 \<Rightarrow> f16) \<Rightarrow> (rstring \<Rightarrow> rstring option \<Rightarrow> rstring \<Rightarrow> rstring \<Rightarrow> nat \<Rightarrow> embedding_answer) \<Rightarrow> local_provider
     \<Rightarrow> content \<Rightarrow> embedding_spec \<Rightarrow> nat \<times> (embedding_error + bytes)" where
  "local_embed_impl to_f16 post p input spec =
     local_embed_loop to_f16
       (post (lp_base_url p @ lit ''/v1/embeddings'') (lp_api_key p) (lp_model p) (from_utf8_lossy (content_body input)))
       spec (max_attempts_of (lp_max_retries p)) 1 0 []"

record gateway_provider =
  gp_dns_name :: rstring
  gp_model :: rstring
  gp_max_retries :: u32

function gateway_embed_loop ::
  "(f32 \<Rightarrow> f16) \<Rightarrow> (nat \<Rightarrow> rstring + gateway_response) \<Rightarrow> (bytes \<Rightarrow> rstring + f32 list list) \<Rightarrow> (nat \<Rightarrow> nat option)
     \<Rightarrow> embedding_spec \<Rightarrow> nat \<Rightarrow> nat \<Rightarrow> rstring \<Rightarrow> nat \<times> (embedding_error + bytes)" where
  "gateway_embed_loop to_f16 request from_slice status_of spec max_attempts attempt last_error =
     (if attempt \<le> max_attempts then
        case request attempt of
          Inr response \<Rightarrow>
            if resp_status response = 200 then (attempt, first_vector to_f16 spec attempt (from_slice (resp_body response)))
            else
              let e = lit ''embedding gateway returned HTTP '' @ show_nat (resp_status response) in
              if \<not> should_retry (status_of (resp_status response)) attempt max_attempts
              then (attempt, Err (RequestFailed max_attempts e))
              else gateway_embed_loop to_f16 request from_slice status_of spec max_attempts (attempt + 1) e
        | Inl e \<Rightarrow>
            if attempt \<ge> max_attempts then (attempt, Err (RequestFailed max_attempts e))
            else gateway_embed_loop to_f16 request from_slice status_of spec max_attempts (attempt + 1) e
      else (attempt - 1, Err (RequestFailed max_attempts last_error)))"
  by pat_completeness auto
termination
  by (relation "measure (\<lambda>(to_f16, request, from_slice, status_of, spec, max_attempts, attempt, _). Suc max_attempts - attempt)") auto

declare gateway_embed_loop.simps [simp del]

definition gateway_embed_impl ::
  "(f32 \<Rightarrow> f16) \<Rightarrow> (rstring \<Rightarrow> gateway_request \<Rightarrow> nat \<Rightarrow> rstring + gateway_response) \<Rightarrow> (rstring \<Rightarrow> rstring \<Rightarrow> rstring + bytes)
     \<Rightarrow> (bytes \<Rightarrow> rstring + f32 list list) \<Rightarrow> (nat \<Rightarrow> nat option) \<Rightarrow> gateway_provider \<Rightarrow> content \<Rightarrow> embedding_spec
     \<Rightarrow> nat \<times> (embedding_error + bytes)" where
  "gateway_embed_impl to_f16 request to_json from_slice status_of p input spec =
     (case to_json (from_utf8_lossy (content_body input)) (gp_model p) of
        Inl e \<Rightarrow> (0, Err (RequestFailed 0 e))
      | Inr body \<Rightarrow>
          gateway_embed_loop to_f16
            (request (gp_dns_name p)
              \<lparr>req_method = POST, req_path = lit ''/v1/embeddings'',
               req_headers = [(lit ''content-type'', utf8 (lit ''application/json''))], req_body = body\<rparr>)
            from_slice status_of spec (max_attempts_of (gp_max_retries p)) 1 [])"

section \<open>Batches\<close>

text \<open>
  One task per input; \<open>order\<close> is the order in which the tasks are joined, and a join may report
  that its task did not end (\<open>Inl\<close>).
\<close>

fun join_loop ::
  "(nat \<Rightarrow> embedding_error + bytes) \<Rightarrow> (rstring + nat) list \<Rightarrow> bytes option list \<Rightarrow> embedding_error + bytes option list" where
  "join_loop emb [] results = Ok results"
| "join_loop emb (Inl e # order) results = Err (RequestFailed 1 e)"
| "join_loop emb (Inr i # order) results =
     and_then (emb i) (\<lambda>embedding. join_loop emb order (results[i := Some embedding]))"

definition embed_batch ::
  "(content \<Rightarrow> embedding_error + bytes) \<Rightarrow> (rstring + nat) list \<Rightarrow> content list \<Rightarrow> embedding_error + bytes list" where
  "embed_batch emb order inputs =
     and_then (join_loop (\<lambda>i. emb (inputs ! i)) order (replicate (length inputs) None)) (\<lambda>results.
       try_map (ok_or (RequestFailed 1 (lit ''embedding batch worker did not return a result''))) results)"

end
