(* ===== verification/Replay_Stream.thy ===== *)
theory Replay_Stream
  imports Replay_Order
begin

text \<open>
  Replay batches (\<^verbatim>\<open>runtime.rs\<close>): cutting items and ordered entries into batches, iterating over
  the batches of an externalised replay order, the messages that go with them, and the
  embedding providers that serve stored embeddings to the clustering library.

  The cell \<^verbatim>\<open>current_batch_embeddings\<close>, which the iterator and the provider share, is passed
  explicitly. The threads that load a batch are those of \<open>parallel_load_step\<close>; a schedule says
  in which order they take their steps.
\<close>

section \<open>Progress messages\<close>

datatype submission_progress_kind = EmbeddingProgress | ReplayProgress

definition delegated_of :: "nat \<Rightarrow> nat \<Rightarrow> rstring" where
  "delegated_of completed_items all_items =
     lit ''completed '' @ show_nat completed_items @ lit '' of '' @ show_nat all_items @ lit '' delegated item(s)''"

fun started_message :: "submission_progress_kind \<Rightarrow> nat \<Rightarrow> nat \<Rightarrow> nat \<Rightarrow> nat \<Rightarrow> nat \<Rightarrow> rstring" where
  "started_message EmbeddingProgress batch_number total_batches item_count completed_items all_items =
     lit ''Embedding batch '' @ show_nat batch_number @ lit '' of '' @ show_nat total_batches @
     lit '' started for '' @ show_nat item_count @ lit '' delegated item(s); '' @ delegated_of completed_items all_items"
| "started_message ReplayProgress batch_number total_batches item_count completed_items all_items =
     lit ''Submitting replay batch '' @ show_nat batch_number @ lit '' of '' @ show_nat total_batches @
     lit '' for '' @ show_nat item_count @ lit '' delegated item(s); '' @ delegated_of completed_items all_items"

fun heartbeat_message :: "submission_progress_kind \<Rightarrow> nat \<Rightarrow> nat \<Rightarrow> nat \<Rightarrow> nat \<Rightarrow> nat \<Rightarrow> nat \<Rightarrow> rstring" where
  "heartbeat_message kind batch_number total_batches item_count completed_items all_items elapsed_ms =
     (case kind of EmbeddingProgress \<Rightarrow> lit ''Embedding batch '' | ReplayProgress \<Rightarrow> lit ''Submitting replay batch '') @
     show_nat batch_number @ lit '' of '' @ show_nat total_batches @
     lit '' still running after '' @ show_nat elapsed_ms @ lit '' ms for '' @ show_nat item_count @
     lit '' delegated item(s); '' @ delegated_of completed_items all_items"

fun batch_completion_message :: "submission_progress_kind \<Rightarrow> nat \<Rightarrow> nat \<Rightarrow> nat \<Rightarrow> nat \<Rightarrow> rstring" where
  "batch_completion_message kind batch_number total_batches completed_items all_items =
     (case kind of EmbeddingProgress \<Rightarrow> lit ''Embedded batch '' | ReplayProgress \<Rightarrow> lit ''Submitted replay batch '') @
     show_nat batch_number @ lit '' of '' @ show_nat total_batches @ lit ''; '' @ delegated_of completed_items all_items"

fun handoff_message :: "submission_progress_kind \<Rightarrow> nat \<Rightarrow> nat \<Rightarrow> rstring" where
  "handoff_message kind total_batches all_items =
     lit ''Submitted all '' @ show_nat total_batches @
     (case kind of EmbeddingProgress \<Rightarrow> lit '' embedding batch(es)'' | ReplayProgress \<Rightarrow> lit '' replay batch(es)'') @
     lit ''; waiting for planning pass completion over '' @ show_nat all_items @ lit '' delegated item(s)''"

section \<open>Batches\<close>

record replay_batch =
  batch_items :: "index_item list"
  audit_records :: "replay_journal_record list"
  completion_message :: "rstring option"

definition chunk_replay_items :: "index_item list \<Rightarrow> nat \<Rightarrow> replay_batch list" where
  "chunk_replay_items its limit =
     map (\<lambda>chunk. \<lparr>batch_items = chunk, audit_records = [], completion_message = None\<rparr>)
       (chunks (max limit 1) its)"

fun annotate_loop :: "submission_progress_kind \<Rightarrow> nat \<Rightarrow> nat \<Rightarrow> nat \<Rightarrow> nat \<Rightarrow> replay_batch list \<Rightarrow> replay_batch list" where
  "annotate_loop kind total_batches all_items batch_index completed_items [] = []"
| "annotate_loop kind total_batches all_items batch_index completed_items (b # bs) =
     (let completed' = completed_items + length (batch_items b) in
      b\<lparr>completion_message := Some (batch_completion_message kind (batch_index + 1) total_batches completed' all_items)\<rparr> #
      annotate_loop kind total_batches all_items (batch_index + 1) completed' bs)"

definition annotate_submission_progress_batches :: "submission_progress_kind \<Rightarrow> replay_batch list \<Rightarrow> replay_batch list" where
  "annotate_submission_progress_batches kind bs =
     annotate_loop kind (length bs) (sum_list (map (length \<circ> batch_items) bs)) 0 0 bs"

section \<open>Loading a batch\<close>

record replay_batch_load =
  load_batch :: replay_batch
  embeddings_by_input_hash :: "(block_hash \<times> bytes) list"

text \<open>A schedule names, step by step, the worker that moves; a worker that has ended does not.\<close>

fun schedule_loads ::
  "replay_lib \<Rightarrow> embedding_spec \<Rightarrow> replay_order_entry list \<Rightarrow> nat list \<Rightarrow> parallel_load \<Rightarrow> parallel_load" where
  "schedule_loads lib spec entries [] s = s"
| "schedule_loads lib spec entries (w # ws) s =
     schedule_loads lib spec entries ws
       (if w < length (load_workers s)
        then (case load_worker_step lib spec entries w s of Some t \<Rightarrow> t | None \<Rightarrow> s) else s)"

definition load_replay_batch_entries_in_parallel ::
  "(nat \<Rightarrow> replay_order_entry list \<Rightarrow> nat list) \<Rightarrow> replay_lib \<Rightarrow> embedding_spec \<Rightarrow> nat \<Rightarrow> replay_order_entry list
     \<Rightarrow> runtime_error + loaded_entry list" where
  "load_replay_batch_entries_in_parallel sched lib spec worker_count entries =
     ordered_loads 0 (completed_loads
       (schedule_loads lib spec entries (sched worker_count entries) (parallel_load_start worker_count entries)))"

definition replay_batch_from_loads :: "loaded_entry list \<Rightarrow> replay_batch_load" where
  "replay_batch_from_loads loads =
     \<lparr>load_batch = \<lparr>batch_items = map loaded_item loads, audit_records = map loaded_record loads, completion_message = None\<rparr>,
      embeddings_by_input_hash = map (\<lambda>l. (loaded_input_hash l, loaded_embedding l)) loads\<rparr>"

record replay_env =
  env_lib :: replay_lib
  env_spec :: embedding_spec
  env_parallelism :: nat
  env_schedule :: "nat \<Rightarrow> replay_order_entry list \<Rightarrow> nat list"

definition replay_batch_from_entries ::
  "replay_env \<Rightarrow> nat \<Rightarrow> replay_order_entry list \<Rightarrow> runtime_error + replay_batch_load" where
  "replay_batch_from_entries env limit entries =
     (let worker_count = replay_batch_materialization_worker_count (env_parallelism env) (length entries) limit in
      and_then
        (if worker_count \<le> 1 then load_replay_batch_entries (env_lib env) (env_spec env) entries
         else load_replay_batch_entries_in_parallel (env_schedule env) (env_lib env) (env_spec env) worker_count entries)
        (\<lambda>loads. Ok (replay_batch_from_loads loads)))"

section \<open>Externalised replay\<close>

type_synonym embedding_cache = "block_hash \<Rightarrow> bytes option"

record externalized_replay_state =
  rs_replay_order :: replay_order_storage
  rs_total_items :: nat
  rs_batch_size :: nat
  rs_max_concurrency :: nat

definition total_batches :: "externalized_replay_state \<Rightarrow> nat" where
  "total_batches s =
     (if rs_total_items s = 0 then 0 else (rs_total_items s + rs_batch_size s - 1) div rs_batch_size s)"

record replay_batch_iterator =
  it_reader :: replay_order_reader
  it_path :: path
  it_batch_size :: nat
  it_max_concurrency :: nat

definition batch_iterator :: "scratch_io \<Rightarrow> externalized_replay_state \<Rightarrow> runtime_error + replay_batch_iterator" where
  "batch_iterator io s =
     and_then (open_reader io (rs_replay_order s)) (\<lambda>reader.
       Ok \<lparr>it_reader = reader, it_path = entries_path (rs_replay_order s), it_batch_size = rs_batch_size s,
           it_max_concurrency = rs_max_concurrency s\<rparr>)"

definition clear_externalized_replay_batch_embeddings :: "embedding_cache \<Rightarrow> embedding_cache" where
  "clear_externalized_replay_batch_embeddings cache = Map.empty"

definition publish_externalized_replay_batch_embeddings ::
  "embedding_cache \<Rightarrow> (block_hash \<times> bytes) list \<Rightarrow> embedding_cache" where
  "publish_externalized_replay_batch_embeddings cache es = fold (\<lambda>(h, e) m. m(h \<mapsto> e)) es Map.empty"

definition load_next_batch ::
  "replay_env \<Rightarrow> replay_batch_iterator \<Rightarrow> runtime_error + replay_batch_load option \<times> replay_batch_iterator" where
  "load_next_batch env it =
     and_then (read_next_entries (it_path it) (it_reader it) (it_batch_size it)) (\<lambda>(entries, reader).
       if entries = [] then Ok (None, it\<lparr>it_reader := reader\<rparr>)
       else and_then (replay_batch_from_entries env (it_max_concurrency it) entries) (\<lambda>batch.
         Ok (Some batch, it\<lparr>it_reader := reader\<rparr>)))"

definition next_batch ::
  "replay_env \<Rightarrow> replay_batch_iterator \<Rightarrow> embedding_cache
     \<Rightarrow> (embedding_cache, runtime_error, replay_batch option \<times> replay_batch_iterator) fallible" where
  "next_batch env it cache =
     (case load_next_batch env it of
        Inl e \<Rightarrow> (cache, Err e)
      | Inr (None, it') \<Rightarrow> (clear_externalized_replay_batch_embeddings cache, Ok (None, it'))
      | Inr (Some batch, it') \<Rightarrow>
          (publish_externalized_replay_batch_embeddings cache (embeddings_by_input_hash batch),
           Ok (Some (load_batch batch), it')))"

lemma read_entries_length: "read_entries p n rest = Ok (es, rest') \<Longrightarrow> length es = n"
  by (induction p n rest arbitrary: es rest' rule: read_entries.induct)
    (auto simp: result_simps split: option.splits prod.splits)

lemma next_batch_decreases:
  assumes "next_batch env it cache = (cache', Inr (Some b, it'))"
  shows "remaining_items (it_reader it') < remaining_items (it_reader it)"
proof -
  obtain batch where l: "load_next_batch env it = Ok (Some batch, it')"
    using assms by (auto simp: next_batch_def split: sum.splits option.splits prod.splits)
  then obtain es rest where es: "read_entries (it_path it) (min (remaining_items (it_reader it)) (it_batch_size it))
      (reader_rest (it_reader it)) = Ok (es, rest)" "es \<noteq> []"
    and r: "it_reader it' = \<lparr>reader_rest = rest, remaining_items = remaining_items (it_reader it) - length es\<rparr>"
    by (auto simp: load_next_batch_def read_next_entries_def result_simps split: if_splits prod.splits)
  have "length es \<le> remaining_items (it_reader it)" using read_entries_length [OF es(1)] by simp
  then show ?thesis using es(2) r by (cases es) auto
qed

function collect_batches_loop ::
  "replay_env \<Rightarrow> replay_batch_iterator \<Rightarrow> replay_batch list \<Rightarrow> embedding_cache
     \<Rightarrow> (embedding_cache, runtime_error, replay_batch list) fallible" where
  "collect_batches_loop env it batches cache =
     (case next_batch env it cache of
        (cache', Inl e) \<Rightarrow> (cache', Err e)
      | (cache', Inr (None, it')) \<Rightarrow> (cache', Ok batches)
      | (cache', Inr (Some batch, it')) \<Rightarrow> collect_batches_loop env it' (batches @ [batch]) cache')"
  by pat_completeness auto
termination
  by (relation "measure (\<lambda>(env, it, batches, cache). remaining_items (it_reader it))")
    (auto dest: next_batch_decreases [OF sym])

declare collect_batches_loop.simps [simp del]

definition collect_replay_batches ::
  "replay_env \<Rightarrow> scratch_io \<Rightarrow> externalized_replay_state \<Rightarrow> embedding_cache
     \<Rightarrow> (embedding_cache, runtime_error, replay_batch list) fallible" where
  "collect_replay_batches env io s cache =
     (case batch_iterator io s of
        Inl e \<Rightarrow> (cache, Err e)
      | Inr it \<Rightarrow>
          then_do (collect_batches_loop env it [] cache) (\<lambda>cache' batches.
            (cache', Ok (annotate_submission_progress_batches ReplayProgress batches))))"

definition externalize_replay_batches_from_journal ::
  "nat \<Rightarrow> ('s, 'r, 'v) journal_lib \<Rightarrow> scratch_io \<Rightarrow> (bytes \<Rightarrow> block_hash) \<Rightarrow> path \<Rightarrow> nat \<Rightarrow> nat \<Rightarrow> 's \<Rightarrow> 'r
     \<Rightarrow> (runtime_error + externalized_replay_state) option" where
  "externalize_replay_batches_from_journal n lib io sha scratch_root batch_limit limit st ref =
     map_option (\<lambda>r. and_then r (\<lambda>replay_order.
       Ok \<lparr>rs_replay_order = replay_order, rs_total_items = total_items replay_order,
           rs_batch_size = max batch_limit 1, rs_max_concurrency = max limit 1\<rparr>))
       (collect_ordered_replay_block_ids_from_journal n lib io sha scratch_root st ref)"

section \<open>Loading everything at once\<close>

lemma read_next_decreases:
  assumes "read_next_entries p reader m = Ok (es, reader')" "es \<noteq> []"
  shows "remaining_items reader' < remaining_items reader"
proof -
  obtain rest where es: "read_entries p (min (remaining_items reader) m) (reader_rest reader) = Ok (es, rest)"
    and r: "reader' = \<lparr>reader_rest = rest, remaining_items = remaining_items reader - length es\<rparr>"
    using assms by (auto simp: read_next_entries_def result_simps split: prod.splits)
  have "length es \<le> remaining_items reader" using read_entries_length [OF es] by simp
  then show ?thesis using assms(2) r by (cases es) auto
qed

function load_batches_loop ::
  "replay_env \<Rightarrow> nat \<Rightarrow> path \<Rightarrow> nat \<Rightarrow> replay_order_reader \<Rightarrow> embedding_cache \<Rightarrow> replay_batch list
     \<Rightarrow> runtime_error + embedding_cache \<times> replay_batch list" where
  "load_batches_loop env limit p batch_size reader cache batches =
     (case read_next_entries p reader batch_size of
        Inl e \<Rightarrow> Err e
      | Inr (entries, reader') \<Rightarrow>
          if entries = [] then Ok (cache, batches)
          else case replay_batch_from_entries env limit entries of
            Inl e \<Rightarrow> Err e
          | Inr batch \<Rightarrow> load_batches_loop env limit p batch_size reader'
              (fold (\<lambda>(h, e) m. m(h \<mapsto> e)) (embeddings_by_input_hash batch) cache) (batches @ [load_batch batch]))"
  by pat_completeness auto
termination
  by (relation "measure (\<lambda>(env, limit, p, batch_size, reader, cache, batches). remaining_items reader)")
    (auto dest: read_next_decreases)

declare load_batches_loop.simps [simp del]

definition load_replay_batches_from_order ::
  "replay_env \<Rightarrow> scratch_io \<Rightarrow> nat \<Rightarrow> nat \<Rightarrow> replay_order_storage
     \<Rightarrow> runtime_error + replay_batch list \<times> embedding_cache" where
  "load_replay_batches_from_order env io batch_limit limit replay_order =
     and_then (open_reader io replay_order) (\<lambda>reader.
     and_then (load_batches_loop env limit (entries_path replay_order) (max batch_limit 1) reader Map.empty [])
       (\<lambda>(cache, batches).
         if sum_list (map (length \<circ> batch_items) batches) = 0 then Err NoClusterableBlocks
         else Ok (annotate_submission_progress_batches ReplayProgress batches, cache)))"

definition load_replay_batches_from_journal ::
  "nat \<Rightarrow> ('s, 'r, 'v) journal_lib \<Rightarrow> replay_env \<Rightarrow> scratch_io \<Rightarrow> path \<Rightarrow> nat \<Rightarrow> nat \<Rightarrow> 's \<Rightarrow> 'r
     \<Rightarrow> (runtime_error + replay_batch list \<times> embedding_cache) option" where
  "load_replay_batches_from_journal n lib env io scratch_root batch_limit limit st ref =
     map_option (\<lambda>r. and_then r (load_replay_batches_from_order env io batch_limit limit))
       (collect_ordered_replay_block_ids_from_journal n lib io (rl_sha256 (env_lib env)) scratch_root st ref)"

section \<open>Providers of stored embeddings\<close>

datatype stored_embedding_error =
    MissingStoredEmbedding
  | ReadStoredEmbeddingBlock rstring block_store_error
  | InvalidStoredEmbeddingBlock rstring rstring
  | ReadProviderOrderScratch rstring io_error

definition EXTERNALIZED_CLUSTERING_DIAGNOSTIC_INPUT_LIMIT :: nat where
  "EXTERNALIZED_CLUSTERING_DIAGNOSTIC_INPUT_LIMIT = 1024"

definition stored_embed :: "(bytes \<Rightarrow> block_hash) \<Rightarrow> embedding_cache \<Rightarrow> content \<Rightarrow> stored_embedding_error + bytes" where
  "stored_embed sha cache input = ok_or MissingStoredEmbedding (cache (hash_embedding_input sha input))"

fun map_replay_order_runtime_error_to_provider_error ::
  "(runtime_error \<Rightarrow> rstring) \<Rightarrow> runtime_error \<Rightarrow> stored_embedding_error" where
  "map_replay_order_runtime_error_to_provider_error text (ReadReplayOrderScratch p e) = ReadProviderOrderScratch p e"
| "map_replay_order_runtime_error_to_provider_error text e = InvalidStoredEmbeddingBlock (lit ''<replay-order>'') (text e)"

text \<open>One entry of the fallback: a block that is not in the store is passed over.\<close>

definition fallback_entry ::
  "replay_env \<Rightarrow> (runtime_error \<Rightarrow> rstring) \<Rightarrow> embedding_cache \<Rightarrow> replay_order_entry
     \<Rightarrow> stored_embedding_error + embedding_cache" where
  "fallback_entry env text cache entry =
     (let lib = env_lib env; block_id = rl_disp lib (entry_block_id entry);
          not_a_leaf = InvalidStoredEmbeddingBlock block_id
            (lit ''stored block does not contain a replayable leaf embedding'') in
      and_then (map_err (ReadStoredEmbeddingBlock block_id) (rl_get lib (entry_block_id entry))) (\<lambda>found.
        case found of
          None \<Rightarrow> Ok cache
        | Some validated \<Rightarrow>
            and_then (ok_or not_a_leaf (replay_embedding_input_hash (rl_sha256 lib) (env_spec env) validated)) (\<lambda>h.
            and_then (map_err (\<lambda>e. InvalidStoredEmbeddingBlock block_id (text e))
                        (replay_item_from_validated_block (rl_disp lib) (env_spec env) validated)) (\<lambda>replayed.
            and_then (ok_or not_a_leaf replayed) (\<lambda>(_, embedding). Ok (cache(h \<mapsto> embedding)))))))"

definition load_embedding_for_hash ::
  "replay_env \<Rightarrow> scratch_io \<Rightarrow> (runtime_error \<Rightarrow> rstring) \<Rightarrow> replay_order_storage \<Rightarrow> embedding_cache
     \<Rightarrow> embedding_cache option \<Rightarrow> block_hash \<Rightarrow> (embedding_cache option, stored_embedding_error, bytes option) fallible" where
  "load_embedding_for_hash env io text replay_order current fallback input_hash =
     (case current input_hash of
        Some embedding \<Rightarrow> (fallback, Ok (Some embedding))
      | None \<Rightarrow>
          if total_items replay_order > EXTERNALIZED_CLUSTERING_DIAGNOSTIC_INPUT_LIMIT then (fallback, Ok None)
          else case fallback of
            Some cache \<Rightarrow> (fallback, Ok (cache input_hash))
          | None \<Rightarrow>
              (case and_then (map_err (map_replay_order_runtime_error_to_provider_error text) (read_all_entries io replay_order))
                      (try_fold (fallback_entry env text) Map.empty) of
                 Inl e \<Rightarrow> (None, Err e)
               | Inr cache \<Rightarrow> (Some cache, Ok (cache input_hash))))"

definition externalized_embed ::
  "replay_env \<Rightarrow> scratch_io \<Rightarrow> (runtime_error \<Rightarrow> rstring) \<Rightarrow> replay_order_storage \<Rightarrow> embedding_cache
     \<Rightarrow> embedding_cache option \<Rightarrow> content \<Rightarrow> (embedding_cache option, stored_embedding_error, bytes) fallible" where
  "externalized_embed env io text replay_order current fallback input =
     then_do (load_embedding_for_hash env io text replay_order current fallback
               (hash_embedding_input (rl_sha256 (env_lib env)) input)) (\<lambda>fallback' found.
       (fallback', ok_or MissingStoredEmbedding found))"

section \<open>A provider that records\<close>

definition recording_embed ::
  "(bytes \<Rightarrow> block_hash) \<Rightarrow> (content \<Rightarrow> 'e + bytes) \<Rightarrow> embedding_cache \<Rightarrow> content \<Rightarrow> (embedding_cache, 'e, bytes) fallible" where
  "recording_embed sha inner cache input =
     (let key = hash_embedding_input sha input in
      case cache key of
        Some embedding \<Rightarrow> (cache, Ok embedding)
      | None \<Rightarrow> (case inner input of
          Inl e \<Rightarrow> (cache, Err e)
        | Inr embedding \<Rightarrow> (cache(key \<mapsto> embedding), Ok embedding)))"

end
