(* ===== verification/Ingestion.thy ===== *)
theory Ingestion
  imports Embedding Replay_Stream
begin

text \<open>
  Ingestion (\<^verbatim>\<open>runtime.rs\<close>): the items of a request, one leaf block per item built by concurrent
  tasks, storing the blocks and publishing their journal records, batch by batch, either after
  sorting all items (\<^verbatim>\<open>run_ingestion_only_stage\<close>) or while they are produced
  (\<^verbatim>\<open>stream_request_ingestion_to_store\<close>).

  The block library, the store and the embedding service are arguments (\<open>ingest_env\<close>). Tasks
  are joined in an order that is an argument too: the limit on concurrent tasks restricts the
  orders, not what a task does. The flag of the interrupt handler is read at every check: the
  \<open>n\<close>-th check sees \<open>ie_interrupted env n\<close>. Messages of progress are left out.
\<close>

section \<open>Data\<close>

text \<open>What ingestion adds to the errors of replaying.\<close>

datatype ingestion_error =
    IngestRuntime runtime_error
  | IngestMailbox mailbox_expansion_error
  | IngestResolver resolver_error
  | IngestProvider embedding_error
  | ConstructLeafBlock rstring rstring
  | SerializeIteratedBlock rstring rstring
  | DeserializeStagedBlock rstring rstring
  | StagedBlockHashMismatch rstring rstring
  | LeafTaskJoin rstring

record serialized_block =
  ser_hash :: block_hash
  ser_bytes :: bytes

record constructed_blocks =
  con_ids :: "block_hash list"
  con_blocks :: "serialized_block list"

record batch_summary =
  sum_root_id :: rstring
  sum_block_ids :: "rstring list"
  sum_block_count :: nat

record ('s, 'r, 'v) ingest_env =
  ie_journal :: "('s, 'r, 'v) journal_lib"
  ie_mail :: "('s, 'v) mail_lib"
  ie_resolver :: "('s, 'v) resolver_lib"
  ie_fs :: file_system
  ie_embed :: "embedding_spec \<Rightarrow> content \<Rightarrow> embedding_error + bytes"
  ie_embed_order :: "content list \<Rightarrow> (rstring + nat) list"
  ie_build_leaf_block :: "embedding_spec \<Rightarrow> stored_entry list \<Rightarrow> rstring + stored_leaf"
  ie_serialize_block :: "stored_block \<Rightarrow> rstring + serialized_block"
  ie_deserialize_block :: "bytes \<Rightarrow> block_hash \<Rightarrow> rstring + validated_block"
  ie_put :: "'s \<Rightarrow> stored_block \<Rightarrow> ('s, block_store_error, block_hash) fallible"
  ie_get :: "'s \<Rightarrow> block_hash \<Rightarrow> block_store_error + validated_block option"
  ie_join_order :: "index_item list \<Rightarrow> (rstring + nat) list"
  ie_interrupted :: "nat \<Rightarrow> bool"

text \<open>The mutable ref is optional: without a location nothing is published.\<close>

record ('s, 'r) ingest_state =
  in_store :: 's
  in_ref :: "'r option"
  in_cache :: chunk_cache
  in_checks :: nat

section \<open>Staged blocks\<close>

definition no_blocks :: constructed_blocks where
  "no_blocks = \<lparr>con_ids = [], con_blocks = []\<rparr>"

definition extend_constructed :: "constructed_blocks \<Rightarrow> constructed_blocks \<Rightarrow> constructed_blocks" where
  "extend_constructed staged c =
     \<lparr>con_ids = con_ids staged @ con_ids c, con_blocks = con_blocks staged @ con_blocks c\<rparr>"

definition into_summary :: "(block_hash \<Rightarrow> rstring) \<Rightarrow> constructed_blocks \<Rightarrow> rstring \<Rightarrow> batch_summary" where
  "into_summary disp staged root_id =
     (let block_ids = remdups_adj (sort (map disp (con_ids staged))) in
      \<lparr>sum_root_id = root_id, sum_block_ids = block_ids, sum_block_count = length block_ids\<rparr>)"

definition placeholder_root_id :: rstring where
  "placeholder_root_id = replicate 64 48"

fun persist_staged_blocks ::
  "('s, 'r, 'v) ingest_env \<Rightarrow> 's \<Rightarrow> serialized_block list \<Rightarrow> ('s, ingestion_error, unit) fallible" where
  "persist_staged_blocks env st [] = (st, Ok ())"
| "persist_staged_blocks env st (block # blocks) =
     (let shown = jl_disp (ie_journal env) in
      case ie_deserialize_block env (ser_bytes block) (ser_hash block) of
        Inl e \<Rightarrow> (st, Err (DeserializeStagedBlock (shown (ser_hash block)) e))
      | Inr validated \<Rightarrow> (case ie_put env st (validated_body validated) of
          (st', Inl e) \<Rightarrow> (st', Err (IngestRuntime (RuntimeBlockStore e)))
        | (st', Inr persisted) \<Rightarrow>
            if persisted \<noteq> ser_hash block
            then (st', Err (StagedBlockHashMismatch (shown (ser_hash block)) (shown persisted)))
            else persist_staged_blocks env st' blocks))"

section \<open>Leaf blocks\<close>

fun resolve_contents ::
  "('s, 'r, 'v) ingest_env \<Rightarrow> 's \<Rightarrow> chunk_cache \<Rightarrow> index_item list
     \<Rightarrow> (chunk_cache, ingestion_error, content list) fallible" where
  "resolve_contents env st cache [] = (cache, Ok [])"
| "resolve_contents env st cache (item # its) =
     (case resolve (ie_resolver env) (ie_fs env) st cache cache (item_content_ref item) of
        (cache', Inl e) \<Rightarrow> (cache', Err (IngestResolver e))
      | (cache', Inr c) \<Rightarrow>
          then_do (resolve_contents env st cache' its) (\<lambda>cache'' cs. (cache'', Ok (c # cs))))"

definition build_serialized_leaf ::
  "('s, 'r, 'v) ingest_env \<Rightarrow> embedding_spec \<Rightarrow> (index_item \<times> content) \<times> bytes \<Rightarrow> ingestion_error + serialized_block" where
  "build_serialized_leaf env spec x =
     (case x of ((item, c), embedding) \<Rightarrow>
        and_then (map_err (ConstructLeafBlock (lit ''<leaf>''))
          (ie_build_leaf_block env spec
            [\<lparr>stored_metadata = item_metadata item, stored_embedding = embedding, stored_content = c\<rparr>])) (\<lambda>leaf.
        map_err (SerializeIteratedBlock (lit ''<leaf>'')) (ie_serialize_block env (StoredLeaf leaf))))"

definition construct_leaf_block_batch ::
  "('s, 'r, 'v) ingest_env \<Rightarrow> embedding_spec \<Rightarrow> 's \<Rightarrow> chunk_cache \<Rightarrow> index_item list
     \<Rightarrow> (chunk_cache, ingestion_error, constructed_blocks) fallible" where
  "construct_leaf_block_batch env spec st cache its =
     then_do (resolve_contents env st cache its) (\<lambda>cache' contents.
       (cache',
        and_then (map_err IngestProvider (embed_batch (ie_embed env spec) (ie_embed_order env contents) contents)) (\<lambda>embeddings.
        and_then (try_map (build_serialized_leaf env spec) (zip (zip its contents) embeddings)) (\<lambda>blocks.
          Ok \<lparr>con_ids = map ser_hash blocks, con_blocks = blocks\<rparr>))))"

fun leaf_join_loop ::
  "('s, 'r, 'v) ingest_env \<Rightarrow> embedding_spec \<Rightarrow> 's \<Rightarrow> index_item list \<Rightarrow> (rstring + nat) list
     \<Rightarrow> constructed_blocks option list \<Rightarrow> chunk_cache
     \<Rightarrow> (chunk_cache, ingestion_error, constructed_blocks option list) fallible" where
  "leaf_join_loop env spec st its [] completed cache = (cache, Ok completed)"
| "leaf_join_loop env spec st its (Inl e # order) completed cache = (cache, Err (LeafTaskJoin e))"
| "leaf_join_loop env spec st its (Inr i # order) completed cache =
     then_do (construct_leaf_block_batch env spec st cache [its ! i]) (\<lambda>cache' constructed.
       leaf_join_loop env spec st its order (completed[i := Some constructed]) cache')"

definition build_leaf_blocks_concurrently ::
  "('s, 'r, 'v) ingest_env \<Rightarrow> embedding_spec \<Rightarrow> 's \<Rightarrow> chunk_cache \<Rightarrow> index_item list
     \<Rightarrow> (chunk_cache, ingestion_error, constructed_blocks) fallible" where
  "build_leaf_blocks_concurrently env spec st cache its =
     (if its = [] then (cache, Ok no_blocks)
      else then_do (leaf_join_loop env spec st its (ie_join_order env its) (replicate (length its) None) cache)
        (\<lambda>cache' completed. (cache', Ok (fold (\<lambda>c acc. extend_constructed acc c) (List.map_filter id completed) no_blocks))))"

section \<open>A batch\<close>

definition check_for_interrupt ::
  "('s, 'r, 'v) ingest_env \<Rightarrow> ('s, 'r) ingest_state \<Rightarrow> (('s, 'r) ingest_state, ingestion_error, unit) fallible" where
  "check_for_interrupt env s =
     (s\<lparr>in_checks := Suc (in_checks s)\<rparr>,
      if ie_interrupted env (in_checks s) then Err (IngestRuntime Interrupted) else Ok ())"

text \<open>
  An operation is awaited together with the interrupt, which is polled first: an interrupt that
  is seen before the operation has completed drops it. What a dropped operation has put into the
  cache of chunks is left out, since the cache ends with the run.
\<close>

definition await_with_periodic_progress ::
  "('s, 'r, 'v) ingest_env \<Rightarrow> (('s, 'r) ingest_state \<Rightarrow> (('s, 'r) ingest_state, ingestion_error, 'a) fallible)
     \<Rightarrow> ('s, 'r) ingest_state \<Rightarrow> (('s, 'r) ingest_state, ingestion_error, 'a) fallible" where
  "await_with_periodic_progress env operation s = then_do (check_for_interrupt env s) (\<lambda>s' _. operation s')"

definition build_leaf_blocks ::
  "('s, 'r, 'v) ingest_env \<Rightarrow> embedding_spec \<Rightarrow> index_item list \<Rightarrow> ('s, 'r) ingest_state
     \<Rightarrow> (('s, 'r) ingest_state, ingestion_error, constructed_blocks) fallible" where
  "build_leaf_blocks env spec its s =
     (case build_leaf_blocks_concurrently env spec (in_store s) (in_cache s) its of
        (cache, r) \<Rightarrow> (s\<lparr>in_cache := cache\<rparr>, r))"

definition batch_records ::
  "('s, 'r, 'v) ingest_env \<Rightarrow> index_item list \<Rightarrow> block_hash list \<Rightarrow> replay_journal_record list" where
  "batch_records env its ids =
     map (\<lambda>(item, block_id). replay_journal_record_from_item (jl_disp (ie_journal env)) block_id item) (zip its ids)"

definition publish_batch ::
  "('s, 'r, 'v) ingest_env \<Rightarrow> bmap option \<Rightarrow> ('s, 'r) ingest_state \<Rightarrow> replay_journal_record list
     \<Rightarrow> (('s, 'r) ingest_state, ingestion_error, unit) fallible" where
  "publish_batch env md s records =
     (case in_ref s of
        None \<Rightarrow> (s, Ok ())
      | Some ref \<Rightarrow>
          (case publish_replay_journal_and_mutable_refs (ie_journal env) (ie_interrupted env (in_checks s))
                  (ie_interrupted env (in_checks s + 1)) (in_store s, ref) records None md of
             ((st', ref'), r) \<Rightarrow>
               (s\<lparr>in_store := st', in_ref := Some ref', in_checks := in_checks s + 2\<rparr>, map_err IngestRuntime r)))"

definition ingest_replay_batch_to_store ::
  "('s, 'r, 'v) ingest_env \<Rightarrow> embedding_spec \<Rightarrow> bmap option \<Rightarrow> ('s, 'r) ingest_state \<Rightarrow> index_item list
     \<Rightarrow> (('s, 'r) ingest_state, ingestion_error, constructed_blocks) fallible" where
  "ingest_replay_batch_to_store env spec md s its =
     then_do (await_with_periodic_progress env (build_leaf_blocks env spec its) s) (\<lambda>s1 constructed.
       case persist_staged_blocks env (in_store s1) (con_blocks constructed) of
         (st, Inl e) \<Rightarrow> (s1\<lparr>in_store := st\<rparr>, Err e)
       | (st, Inr u) \<Rightarrow>
           then_do (publish_batch env md (s1\<lparr>in_store := st\<rparr>) (batch_records env its (con_ids constructed)))
             (\<lambda>s' _. (s', Ok constructed)))"

section \<open>Sorted batches\<close>

fun ingest_batches ::
  "('s, 'r, 'v) ingest_env \<Rightarrow> embedding_spec \<Rightarrow> bmap option \<Rightarrow> constructed_blocks \<Rightarrow> replay_batch list \<Rightarrow> ('s, 'r) ingest_state
     \<Rightarrow> (('s, 'r) ingest_state, ingestion_error, constructed_blocks) fallible" where
  "ingest_batches env spec md staged [] s = (s, Ok staged)"
| "ingest_batches env spec md staged (batch # batches) s =
     then_do (check_for_interrupt env s) (\<lambda>s1 _.
     then_do (ingest_replay_batch_to_store env spec md s1 (batch_items batch)) (\<lambda>s2 constructed.
       ingest_batches env spec md (extend_constructed staged constructed) batches s2))"

definition run_ingestion_only_stage ::
  "('s, 'r, 'v) ingest_env \<Rightarrow> embedding_spec \<Rightarrow> bmap option \<Rightarrow> replay_batch list \<Rightarrow> ('s, 'r) ingest_state
     \<Rightarrow> (('s, 'r) ingest_state, ingestion_error, batch_summary) fallible" where
  "run_ingestion_only_stage env spec md replay_batches s =
     then_do (ingest_batches env spec md no_blocks replay_batches s) (\<lambda>s' staged.
       (s', Ok (into_summary (jl_disp (ie_journal env)) staged placeholder_root_id)))"

section \<open>The items of a request\<close>

text \<open>
  Both callers visit the documents first and then the items of each mailbox, with a check for
  interrupts before each item. An empty mailbox is passed over. The visitor has a state of its own.
\<close>

type_synonym ('s, 'r, 'p) visitor =
  "('s, 'r) ingest_state \<times> 'p \<Rightarrow> index_item \<Rightarrow> (('s, 'r) ingest_state \<times> 'p, ingestion_error, unit) fallible"

fun visit_items ::
  "('s, 'r, 'v) ingest_env \<Rightarrow> ('s, 'r, 'p) visitor \<Rightarrow> index_item list \<Rightarrow> ('s, 'r) ingest_state \<times> 'p
     \<Rightarrow> (('s, 'r) ingest_state \<times> 'p, ingestion_error, unit) fallible" where
  "visit_items env visit [] x = (x, Ok ())"
| "visit_items env visit (item # its) (s, p) =
     (case check_for_interrupt env s of
        (s', Inl e) \<Rightarrow> ((s', p), Err e)
      | (s', Inr u) \<Rightarrow> then_do (visit (s', p) item) (\<lambda>x _. visit_items env visit its x))"

fun visit_mailboxes ::
  "('s, 'r, 'v) ingest_env \<Rightarrow> path \<Rightarrow> ('s, 'r, 'p) visitor \<Rightarrow> batch_item_config list \<Rightarrow> ('s, 'r) ingest_state \<times> 'p
     \<Rightarrow> (('s, 'r) ingest_state \<times> 'p, ingestion_error, unit) fallible" where
  "visit_mailboxes env dir visit [] x = (x, Ok ())"
| "visit_mailboxes env dir visit (config # configs) (s, p) =
     (case check_for_interrupt env s of
        (s1, Inl e) \<Rightarrow> ((s1, p), Err e)
      | (s1, Inr u) \<Rightarrow>
          (case config of
             DocumentItem q m \<Rightarrow> visit_mailboxes env dir visit configs (s1, p)
           | MailboxItem q m \<Rightarrow>
               (case expand_mailbox_item_with_stats (ie_mail env) (ie_fs env) (in_store s1) (resolve_path dir q) m of
                  (st, Inr expansion) \<Rightarrow>
                    then_do (visit_items env visit (exp_items expansion) (s1\<lparr>in_store := st\<rparr>, p)) (\<lambda>x _.
                      visit_mailboxes env dir visit configs x)
                | (st, Inl (EmptyMailbox r)) \<Rightarrow> visit_mailboxes env dir visit configs (s1\<lparr>in_store := st\<rparr>, p)
                | (st, Inl e) \<Rightarrow> ((s1\<lparr>in_store := st\<rparr>, p), Err (IngestMailbox e)))))"

definition for_each_request_replay_item ::
  "('s, 'r, 'v) ingest_env \<Rightarrow> path \<Rightarrow> batch_request \<Rightarrow> ('s, 'r, 'p) visitor \<Rightarrow> ('s, 'r) ingest_state \<times> 'p
     \<Rightarrow> (('s, 'r) ingest_state \<times> 'p, ingestion_error, unit) fallible" where
  "for_each_request_replay_item env dir request visit x =
     then_do (visit_items env visit (to_document_index_items request dir) x) (\<lambda>x' _.
       visit_mailboxes env dir visit (items request) x')"

definition prepare_request_replay_batches ::
  "('s, 'r, 'v) ingest_env \<Rightarrow> path \<Rightarrow> batch_request \<Rightarrow> nat \<Rightarrow> ('s, 'r) ingest_state
     \<Rightarrow> (('s, 'r) ingest_state, ingestion_error, replay_batch list) fallible" where
  "prepare_request_replay_batches env dir request limit s =
     (case for_each_request_replay_item env dir request (\<lambda>(s, its) item. ((s, its @ [item]), Ok ())) (s, []) of
        ((s', its), Inl e) \<Rightarrow> (s', Err e)
      | ((s', its), Inr u) \<Rightarrow>
          (s', Ok (annotate_submission_progress_batches EmbeddingProgress
                     (chunk_replay_items (sort_replay_items its) limit))))"

section \<open>Streaming\<close>

record stream_progress =
  buffered_items :: "index_item list"
  completed_items :: nat
  batch_number :: nat
  seen_items :: nat
  staged_blocks :: constructed_blocks

definition stream_start :: stream_progress where
  "stream_start = \<lparr>buffered_items = [], completed_items = 0, batch_number = 0, seen_items = 0, staged_blocks = no_blocks\<rparr>"

definition stream_flush ::
  "('s, 'r, 'v) ingest_env \<Rightarrow> embedding_spec \<Rightarrow> bmap option \<Rightarrow> ('s, 'r) ingest_state \<times> stream_progress
     \<Rightarrow> (('s, 'r) ingest_state \<times> stream_progress, ingestion_error, unit) fallible" where
  "stream_flush env spec md x =
     (case x of (s, p) \<Rightarrow>
        let its = buffered_items p; p1 = p\<lparr>buffered_items := [], batch_number := batch_number p + 1\<rparr> in
        case ingest_replay_batch_to_store env spec md s its of
          (s', Inl e) \<Rightarrow> ((s', p1), Err e)
        | (s', Inr constructed) \<Rightarrow>
            ((s', p1\<lparr>completed_items := completed_items p + length its,
                     staged_blocks := extend_constructed (staged_blocks p) constructed\<rparr>), Ok ()))"

definition stream_item ::
  "('s, 'r, 'v) ingest_env \<Rightarrow> embedding_spec \<Rightarrow> bmap option \<Rightarrow> nat \<Rightarrow> ('s, 'r, stream_progress) visitor" where
  "stream_item env spec md chunk_size x item =
     (case x of (s, p) \<Rightarrow>
        let p' = p\<lparr>buffered_items := buffered_items p @ [item], seen_items := seen_items p + 1\<rparr> in
        if length (buffered_items p') < chunk_size then ((s, p'), Ok ())
        else stream_flush env spec md (s, p'))"

definition stream_request_ingestion_to_store ::
  "('s, 'r, 'v) ingest_env \<Rightarrow> path \<Rightarrow> batch_request \<Rightarrow> embedding_spec \<Rightarrow> bmap option \<Rightarrow> nat \<Rightarrow> ('s, 'r) ingest_state
     \<Rightarrow> (('s, 'r) ingest_state \<times> stream_progress, ingestion_error, unit) fallible" where
  "stream_request_ingestion_to_store env dir request spec md limit s =
     then_do (for_each_request_replay_item env dir request (stream_item env spec md (max limit 1)) (s, stream_start))
       (\<lambda>x _. if buffered_items (snd x) \<noteq> [] then stream_flush env spec md x else (x, Ok ()))"

end
