(* ===== verification/Ingestion_Laws.thy ===== *)
theory Ingestion_Laws
  imports Ingestion Replay_Journal_Laws Resolver_Laws
begin

text \<open>
  What one batch of an ingestion leaves behind: the leaf blocks are those of the items in the
  order of the items, whatever order the tasks complete in; storing and publishing keep every
  block; and every record in the journal has its leaf block in the store.
\<close>

section \<open>Contract of the libraries\<close>

text \<open>
  Stores keep the blocks they have; a leaf that was put is found under the id that was
  returned; a serialised block reads back as the block; a built leaf has the given entries.
\<close>

definition keeps :: "('s, 'r, 'v) ingest_env \<Rightarrow> 's \<Rightarrow> 's \<Rightarrow> bool" where
  "keeps env st st' \<longleftrightarrow>
     (\<forall>h d. jl_get_decoded (ie_journal env) st h = Ok (Some d) \<longrightarrow> jl_get_decoded (ie_journal env) st' h = Ok (Some d)) \<and>
     (\<forall>h v. ie_get env st h = Ok (Some v) \<longrightarrow> ie_get env st' h = Ok (Some v)) \<and>
     (\<forall>h d. get_decoded (ie_resolver env) st h = Ok (Some d) \<longrightarrow> get_decoded (ie_resolver env) st' h = Ok (Some d))"

definition ingest_contract :: "('s, 'r, 'v) ingest_env \<Rightarrow> bool" where
  "ingest_contract env \<longleftrightarrow> journal_contract (ie_journal env) \<and>
     (\<forall>st v st' r. put_versioned (ie_mail env) st v = (st', r) \<longrightarrow> keeps env st st') \<and>
     (\<forall>st v st' r. jl_put_versioned (ie_journal env) st v = (st', r) \<longrightarrow> keeps env st st') \<and>
     (\<forall>st b st' r. ie_put env st b = (st', r) \<longrightarrow> keeps env st st') \<and>
     (\<forall>st b st' h. ie_put env st b = (st', Ok h) \<longrightarrow> ie_get env st' h = Ok (Some \<lparr>validated_hash = h, validated_body = b\<rparr>)) \<and>
     (\<forall>b s. ie_serialize_block env b = Ok s \<longrightarrow>
        ie_deserialize_block env (ser_bytes s) (ser_hash s) = Ok \<lparr>validated_hash = ser_hash s, validated_body = b\<rparr>) \<and>
     (\<forall>spec es leaf. ie_build_leaf_block env spec es = Ok leaf \<longrightarrow>
        leaf = \<lparr>leaf_level = 0, leaf_embedding_spec = spec, leaf_entries = es\<rparr>)"

text \<open>Every task that was spawned is joined.\<close>

definition joins_all :: "('s, 'r, 'v) ingest_env \<Rightarrow> bool" where
  "joins_all env \<longleftrightarrow> (\<forall>its i. i < length its \<longrightarrow> Inr i \<in> set (ie_join_order env its))"

lemma ingestD:
  assumes "ingest_contract env"
  shows ingest_journal: "journal_contract (ie_journal env)"
    and mail_put_keeps: "put_versioned (ie_mail env) st v = (st', r) \<Longrightarrow> keeps env st st'"
    and journal_put_keeps: "jl_put_versioned (ie_journal env) st v = (st', r') \<Longrightarrow> keeps env st st'"
    and leaf_put_keeps: "ie_put env st b = (st', r'') \<Longrightarrow> keeps env st st'"
    and leaf_put_found: "ie_put env st b = (st', Ok h) \<Longrightarrow> ie_get env st' h = Ok (Some \<lparr>validated_hash = h, validated_body = b\<rparr>)"
    and leaf_reads_back: "ie_serialize_block env b = Ok s \<Longrightarrow>
      ie_deserialize_block env (ser_bytes s) (ser_hash s) = Ok \<lparr>validated_hash = ser_hash s, validated_body = b\<rparr>"
    and leaf_built: "ie_build_leaf_block env spec es = Ok leaf \<Longrightarrow>
      leaf = \<lparr>leaf_level = 0, leaf_embedding_spec = spec, leaf_entries = es\<rparr>"
proof -
  note c = assms [unfolded ingest_contract_def]
  note c1 = c [THEN conjunct2]
  note c2 = c1 [THEN conjunct2]
  note c3 = c2 [THEN conjunct2]
  note c4 = c3 [THEN conjunct2]
  note c5 = c4 [THEN conjunct2]
  show "journal_contract (ie_journal env)" using c by (rule conjunct1)
  show "put_versioned (ie_mail env) st v = (st', r) \<Longrightarrow> keeps env st st'" using c1 [THEN conjunct1] by blast
  show "jl_put_versioned (ie_journal env) st v = (st', r') \<Longrightarrow> keeps env st st'" using c2 [THEN conjunct1] by blast
  show "ie_put env st b = (st', r'') \<Longrightarrow> keeps env st st'" using c3 [THEN conjunct1] by blast
  show "ie_put env st b = (st', Ok h) \<Longrightarrow> ie_get env st' h = Ok (Some \<lparr>validated_hash = h, validated_body = b\<rparr>)"
    using c4 [THEN conjunct1] by blast
  show "ie_serialize_block env b = Ok s \<Longrightarrow>
    ie_deserialize_block env (ser_bytes s) (ser_hash s) = Ok \<lparr>validated_hash = ser_hash s, validated_body = b\<rparr>"
    using c5 [THEN conjunct1] by blast
  show "ie_build_leaf_block env spec es = Ok leaf \<Longrightarrow>
    leaf = \<lparr>leaf_level = 0, leaf_embedding_spec = spec, leaf_entries = es\<rparr>"
    using c5 [THEN conjunct2] by blast
qed

lemma keeps_refl [simp]: "keeps env st st"
  by (simp add: keeps_def)

lemma keeps_trans: "keeps env a b \<Longrightarrow> keeps env b c \<Longrightarrow> keeps env a c"
  unfolding keeps_def by blast

section \<open>Everything ingestion does keeps blocks\<close>

lemma expand_keeps:
  assumes c: "ingest_contract env"
    and e: "expand_mailbox_item_with_stats (ie_mail env) fs st p base = (st', r)"
  shows "keeps env st st'"
proof -
  let ?m = "ie_mail env"
  have store: "keeps env st st'" if "store_artifact_block ?m st q mt bs = (st', r)" for st st' q mt bs r
    using that by (auto simp: store_artifact_block_def intro: mail_put_keeps [OF c] split: sum.splits prod.splits)
  have message: "keeps env st st'" if "expand_message ?m st q base' mref i msg = (st', r)" for st st' q base' mref i msg r
  proof -
    have "st' = st \<or> (\<exists>bs r'. store_artifact_block ?m st q NORMALIZED_EMAIL_MEDIA_TYPE bs = (st', r'))"
      using that unfolding expand_message_def Let_def
      by (cases "parse_mail ?m msg"; cases r) (auto simp: result_simps split: sum.splits)
    then show ?thesis using store by auto
  qed
  have messages: "keeps env st st'" if "expand_messages ?m st q base' mref i msgs = (st', r)" for st st' q base' mref i msgs r
    using that
  proof (induction msgs arbitrary: st st' i r)
    case (Cons msg msgs)
    obtain st1 r1 where m: "expand_message ?m st q base' mref i msg = (st1, r1)" by fastforce
    show ?case
    proof (cases r1)
      case (Inl e)
      then show ?thesis using Cons.prems m message [OF m] by simp
    next
      case (Inr first)
      obtain st2 r2 where ms: "expand_messages ?m st1 q base' mref (Suc i) msgs = (st2, r2)" by fastforce
      then have "st' = st2" using Cons.prems m Inr by (cases r2) auto
      then show ?thesis using keeps_trans [OF message [OF m] Cons.IH [OF ms]] by simp
    qed
  qed simp
  show ?thesis
  proof (cases "and_then (validate_mailbox_path fs p) (\<lambda>_. map_err (ReadMailbox p) (fs_read fs p))")
    case (Inl e')
    then show ?thesis using e by (simp add: expand_mailbox_item_with_stats_def)
  next
    case (Inr raw)
    obtain st1 r1 where s: "store_artifact_block ?m st p ARTIFACT_MEDIA_TYPE_MAILBOX raw = (st1, r1)" by fastforce
    show ?thesis
    proof (cases "split_mbox_messages raw = [] \<or> (\<exists>e. r1 = Err e)")
      case True
      then show ?thesis using e Inr s store [OF s] by (auto simp: expand_mailbox_item_with_stats_def Let_def split: if_splits)
    next
      case False
      then obtain h where h: "r1 = Ok h" by (cases r1) auto
      obtain st2 r2 where ms: "expand_messages ?m st1 p base (show_hash ?m h) 0 (split_mbox_messages raw) = (st2, r2)" by fastforce
      then have "st' = st2" using e Inr s False h by (cases r2) (auto simp: expand_mailbox_item_with_stats_def)
      then show ?thesis using keeps_trans [OF store [OF s] messages [OF ms]] by simp
    qed
  qed
qed

lemma persist_spec:
  assumes c: "ingest_contract env" and p: "persist_staged_blocks env st blocks = (st', r)"
  shows "keeps env st st' \<and> (r = Ok () \<longrightarrow> (\<forall>b \<in> set blocks. \<exists>v.
    ie_deserialize_block env (ser_bytes b) (ser_hash b) = Ok v \<and>
    ie_get env st' (ser_hash b) = Ok (Some \<lparr>validated_hash = ser_hash b, validated_body = validated_body v\<rparr>)))"
  using p
proof (induction blocks arbitrary: st)
  case (Cons block blocks)
  show ?case
  proof (cases "ie_deserialize_block env (ser_bytes block) (ser_hash block)")
    case (Inl e)
    then show ?thesis using Cons.prems by auto
  next
    case (Inr v)
    obtain st1 r1 where put: "ie_put env st (validated_body v) = (st1, r1)" by fastforce
    have k: "keeps env st st1" by (rule leaf_put_keeps [OF c put])
    show ?thesis
    proof (cases "r1 = Ok (ser_hash block)")
      case True
      then have rest: "persist_staged_blocks env st1 blocks = (st', r)" using Cons.prems Inr put by simp
      have found: "ie_get env st1 (ser_hash block) = Ok (Some \<lparr>validated_hash = ser_hash block, validated_body = validated_body v\<rparr>)"
        using leaf_put_found [OF c] put True by simp
      note ih = Cons.IH [OF rest]
      have "ie_get env st' (ser_hash block) = Ok (Some \<lparr>validated_hash = ser_hash block, validated_body = validated_body v\<rparr>)"
        using ih found unfolding keeps_def by blast
      then show ?thesis using ih Inr k keeps_trans by auto
    next
      case False
      then show ?thesis using Cons.prems Inr put k by (cases r1) (auto simp: Let_def)
    qed
  qed
qed simp

section \<open>Leaf blocks\<close>

lemma load_kept:
  assumes "keeps env st st'" "load_email_chunks (ie_resolver env) st ref = Ok found"
  shows "load_email_chunks (ie_resolver env) st' ref = Ok found"
proof -
  obtain h d where h: "resolver_parse_block_hash ref = Ok h" "get_decoded (ie_resolver env) st h = Ok (Some d)"
    using assms(2) by (auto simp: load_email_chunks_def result_simps)
  then have "get_decoded (ie_resolver env) st' h = Ok (Some d)" using assms(1) by (simp add: keeps_def)
  then show ?thesis using assms(2) h by (simp add: load_email_chunks_def)
qed

lemma coherent_kept: "keeps env st st' \<Longrightarrow> cache_coherent (ie_resolver env) st cache \<Longrightarrow> cache_coherent (ie_resolver env) st' cache"
  unfolding cache_coherent_def by (auto intro: load_kept)

text \<open>What an item resolves to without a cache.\<close>

definition resolved :: "('s, 'r, 'v) ingest_env \<Rightarrow> 's \<Rightarrow> index_item \<Rightarrow> content \<Rightarrow> bool" where
  "resolved env st item c \<longleftrightarrow>
     snd (resolve (ie_resolver env) (ie_fs env) st Map.empty Map.empty (item_content_ref item)) = Ok c"

lemma resolved_kept:
  assumes k: "keeps env st st'" and r: "resolved env st item c"
  shows "resolved env st' item c"
proof (cases "item_content_ref item")
  case (EmailChunkRef ref i)
  then obtain found where "load_email_chunks (ie_resolver env) st ref = Ok found" "i < length found"
    "c = \<lparr>media_type = CHUNK_MEDIA_TYPE, content_body = utf8 (found ! i)\<rparr>"
    using r by (auto simp: resolved_def snd_resolve_email_chunk cached_load [OF coherent_empty coherent_empty] result_simps split: if_splits)
  then show ?thesis using load_kept [OF k] EmailChunkRef
    by (simp add: resolved_def snd_resolve_email_chunk cached_load [OF coherent_empty coherent_empty])
qed (use r in \<open>simp_all add: resolved_def\<close>)

lemma resolve_coherent:
  assumes "cache_coherent lib st cache"
  shows "snd (resolve lib fs st cache cache r) = snd (resolve lib fs st Map.empty Map.empty r)"
    and "cache_coherent lib st (fst (resolve lib fs st cache cache r))"
  using assms cached_load [OF assms assms] cached_load [of lib st Map.empty Map.empty] cached_coherent [OF assms]
  by (cases r; simp add: snd_resolve_email_chunk fst_resolve_email_chunk)+

text \<open>The serialised leaf of an item.\<close>

definition leaf_of :: "('s, 'r, 'v) ingest_env \<Rightarrow> embedding_spec \<Rightarrow> 's \<Rightarrow> index_item \<Rightarrow> serialized_block \<Rightarrow> bool" where
  "leaf_of env spec st item block \<longleftrightarrow> (\<exists>c e leaf. resolved env st item c \<and> ie_embed env spec c = Ok e \<and>
     ie_build_leaf_block env spec [\<lparr>stored_metadata = item_metadata item, stored_embedding = e, stored_content = c\<rparr>] = Ok leaf \<and>
     ie_serialize_block env (StoredLeaf leaf) = Ok block)"

lemma join_loop_single:
  assumes "join_loop (\<lambda>i. emb ([c] ! i)) order results = Ok results'"
    "results = [None] \<or> (\<exists>e. results = [Some e] \<and> emb c = Ok e)"
  shows "results' = [None] \<or> (\<exists>e. results' = [Some e] \<and> emb c = Ok e)"
  using assms
proof (induction "\<lambda>i. emb ([c] ! i)" order results rule: join_loop.induct)
  case (3 i order results)
  obtain e where e: "emb ([c] ! i) = Ok e" "join_loop (\<lambda>i. emb ([c] ! i)) order (results[i := Some e]) = Ok results'"
    using 3(2) by (auto simp: result_simps)
  show ?case by (rule 3(1) [OF e(2)]) (use 3(3) e(1) in \<open>cases i; auto\<close>)
qed auto

lemma embed_batch_single: "embed_batch emb order [c] = Ok es \<Longrightarrow> \<exists>e. es = [e] \<and> emb c = Ok e"
  using join_loop_single [of emb c order "[None]"] by (auto simp: embed_batch_def result_simps)

lemma construct_single:
  assumes "cache_coherent (ie_resolver env) st cache"
    and "construct_leaf_block_batch env spec st cache [item] = (cache', r)"
  shows "cache_coherent (ie_resolver env) st cache'"
    and "r = Ok constructed \<Longrightarrow> \<exists>block. constructed = \<lparr>con_ids = [ser_hash block], con_blocks = [block]\<rparr> \<and> leaf_of env spec st item block"
proof -
  obtain cache1 r1 where r1: "resolve (ie_resolver env) (ie_fs env) st cache cache (item_content_ref item) = (cache1, r1)" by fastforce
  note co = resolve_coherent [OF assms(1), of "ie_fs env" "item_content_ref item", unfolded r1]
  have cache': "cache' = cache1" using assms(2) r1 by (cases r1) (auto simp: construct_leaf_block_batch_def)
  then show "cache_coherent (ie_resolver env) st cache'" using co(2) by simp
  show "\<exists>block. constructed = \<lparr>con_ids = [ser_hash block], con_blocks = [block]\<rparr> \<and> leaf_of env spec st item block"
    if ok: "r = Ok constructed"
  proof -
    obtain c where c: "r1 = Ok c" using assms(2) r1 ok by (cases r1) (auto simp: construct_leaf_block_batch_def)
    obtain es blocks where es: "embed_batch (ie_embed env spec) (ie_embed_order env [c]) [c] = Ok es"
      and b: "try_map (build_serialized_leaf env spec) (zip (zip [item] [c]) es) = Ok blocks"
      "constructed = \<lparr>con_ids = map ser_hash blocks, con_blocks = blocks\<rparr>"
      using assms(2) r1 ok c by (auto simp: construct_leaf_block_batch_def result_simps)
    obtain e where e: "es = [e]" "ie_embed env spec c = Ok e" using embed_batch_single [OF es] by blast
    obtain block where block: "build_serialized_leaf env spec ((item, c), e) = Ok block" "blocks = [block]"
      using b(1) e(1) by (auto simp: result_simps)
    have "leaf_of env spec st item block"
      using block(1) e(2) co(1) [symmetric] c
      unfolding leaf_of_def resolved_def build_serialized_leaf_def
      by (intro exI [of _ c] exI [of _ e]) (auto simp: result_simps)
    then show ?thesis using b(2) block(2) by auto
  qed
qed

lemma leaf_join_loop_spec:
  assumes "leaf_join_loop env spec st its order completed cache = (cache', r)"
    and "cache_coherent (ie_resolver env) st cache"
    and "\<forall>i < length its. \<forall>x. completed ! i = Some x \<longrightarrow>
      (\<exists>block. x = \<lparr>con_ids = [ser_hash block], con_blocks = [block]\<rparr> \<and> leaf_of env spec st (its ! i) block)"
    and "length completed = length its"
  shows "cache_coherent (ie_resolver env) st cache' \<and>
    (\<forall>done'. r = Ok done' \<longrightarrow> length done' = length its \<and>
      (\<forall>i < length its. (Inr i \<in> set order \<longrightarrow> done' ! i \<noteq> None) \<and> (completed ! i \<noteq> None \<longrightarrow> done' ! i \<noteq> None) \<and>
        (\<forall>x. done' ! i = Some x \<longrightarrow> (\<exists>block. x = \<lparr>con_ids = [ser_hash block], con_blocks = [block]\<rparr> \<and> leaf_of env spec st (its ! i) block))))"
  using assms
proof (induction env spec st its order completed cache rule: leaf_join_loop.induct)
  case (3 env spec st its i order completed cache)
  obtain cache1 r1 where c1: "construct_leaf_block_batch env spec st cache [its ! i] = (cache1, r1)" by fastforce
  note cs = construct_single [OF 3(3) c1]
  show ?case
  proof (cases r1)
    case (Inl e)
    then show ?thesis using 3(2) c1 cs(1) by auto
  next
    case (Inr con)
    obtain block where b: "con = \<lparr>con_ids = [ser_hash block], con_blocks = [block]\<rparr>" "leaf_of env spec st (its ! i) block"
      using cs(2) [OF Inr] by blast
    have loop: "leaf_join_loop env spec st its order (completed[i := Some con]) cache1 = (cache', r)" using 3(2) c1 Inr by simp
    have "\<exists>block. x = \<lparr>con_ids = [ser_hash block], con_blocks = [block]\<rparr> \<and> leaf_of env spec st (its ! k) block"
      if "k < length its" "completed[i := Some con] ! k = Some x" for k x
      using that 3(4,5) b by (cases "k = i") auto
    then have "\<forall>k < length its. \<forall>x. completed[i := Some con] ! k = Some x \<longrightarrow>
        (\<exists>block. x = \<lparr>con_ids = [ser_hash block], con_blocks = [block]\<rparr> \<and> leaf_of env spec st (its ! k) block)" by blast
    note A = 3(1) [OF loop cs(1) this, unfolded length_list_update, OF 3(5)]
    have B: "k = i \<or> completed ! k \<noteq> None \<Longrightarrow> completed[i := Some con] ! k \<noteq> None" if "k < length its" for k
      using 3(5) that by (cases "k = i") auto
    have "(Inr k \<in> set (Inr i # order) \<longrightarrow> done' ! k \<noteq> None) \<and> (completed ! k \<noteq> None \<longrightarrow> done' ! k \<noteq> None) \<and>
        (\<forall>x. done' ! k = Some x \<longrightarrow> (\<exists>block. x = \<lparr>con_ids = [ser_hash block], con_blocks = [block]\<rparr> \<and> leaf_of env spec st (its ! k) block))"
      if r: "r = Ok done'" and k: "k < length its" for done' k
    proof -
      from A r k have "(Inr k \<in> set order \<longrightarrow> done' ! k \<noteq> None) \<and> (completed[i := Some con] ! k \<noteq> None \<longrightarrow> done' ! k \<noteq> None) \<and>
          (\<forall>x. done' ! k = Some x \<longrightarrow> (\<exists>block. x = \<lparr>con_ids = [ser_hash block], con_blocks = [block]\<rparr> \<and> leaf_of env spec st (its ! k) block))"
        by simp
      then show ?thesis using B [OF k] by (elim conjE, intro conjI) auto
    qed
    then show ?thesis using A by (elim conjE, intro conjI) simp_all
  qed
qed auto

lemma map_filter_id_Some: "List.map_filter id (map Some xs) = xs"
  by (induction xs) simp_all

lemma flatten_blocks:
  assumes "\<forall>x \<in> set xs. \<exists>b. x = \<lparr>con_ids = [ser_hash b], con_blocks = [b]\<rparr>"
  shows "fold (\<lambda>c acc. extend_constructed acc c) xs acc =
    \<lparr>con_ids = con_ids acc @ map ser_hash (map (hd \<circ> con_blocks) xs), con_blocks = con_blocks acc @ map (hd \<circ> con_blocks) xs\<rparr>"
  using assms by (induction xs arbitrary: acc) (auto simp: extend_constructed_def)

lemma build_leaf_blocks_spec:
  assumes j: "joins_all env" and co: "cache_coherent (ie_resolver env) st cache"
    and b: "build_leaf_blocks_concurrently env spec st cache its = (cache', r)"
  shows "cache_coherent (ie_resolver env) st cache' \<and>
    (\<forall>constructed. r = Ok constructed \<longrightarrow> con_ids constructed = map ser_hash (con_blocks constructed) \<and>
       list_all2 (leaf_of env spec st) its (con_blocks constructed))"
proof (cases "its = []")
  case True
  then show ?thesis using b co by (auto simp: build_leaf_blocks_concurrently_def no_blocks_def)
next
  case False
  obtain cache1 r1 where l: "leaf_join_loop env spec st its (ie_join_order env its) (replicate (length its) None) cache = (cache1, r1)"
    by fastforce
  note spec = leaf_join_loop_spec [OF l co]
  show ?thesis
  proof (cases r1)
    case (Inl e)
    then show ?thesis using spec l b False by (auto simp: build_leaf_blocks_concurrently_def)
  next
    case (Inr completed)
    have len: "length completed = length its"
      and at: "\<forall>i \<in> {..<length its}. \<exists>block. completed ! i = Some \<lparr>con_ids = [ser_hash block], con_blocks = [block]\<rparr> \<and>
        leaf_of env spec st (its ! i) block"
      using spec Inr j by (auto simp: joins_all_def)
    obtain f where f: "\<And>i. i < length its \<Longrightarrow> completed ! i = Some \<lparr>con_ids = [ser_hash (f i)], con_blocks = [f i]\<rparr> \<and>
        leaf_of env spec st (its ! i) (f i)"
      using bchoice [OF at] by auto
    let ?one = "\<lambda>block. \<lparr>con_ids = [ser_hash block], con_blocks = [block]\<rparr>" and ?blocks = "map f [0..<length its]"
    have "completed = map Some (map ?one ?blocks)" by (rule nth_equalityI) (use f len in auto)
    then have "List.map_filter id completed = map ?one ?blocks"
      by (simp only: map_filter_id_Some)
    moreover have "fold (\<lambda>c acc. extend_constructed acc c) (map ?one ?blocks) no_blocks =
        \<lparr>con_ids = map ser_hash ?blocks, con_blocks = ?blocks\<rparr>"
      by (subst flatten_blocks) (auto simp: no_blocks_def)
    ultimately have "r = Ok \<lparr>con_ids = map ser_hash ?blocks, con_blocks = ?blocks\<rparr>" "cache' = cache1"
      using b False l Inr by (simp_all add: build_leaf_blocks_concurrently_def)
    then show ?thesis using spec f by (auto simp: list_all2_conv_all_nth)
  qed
qed

section \<open>A batch\<close>

text \<open>An item whose leaf is in the store, with the content it resolves to and its embedding.\<close>

definition leaf_stored :: "('s, 'r, 'v) ingest_env \<Rightarrow> embedding_spec \<Rightarrow> 's \<Rightarrow> index_item \<Rightarrow> block_hash \<Rightarrow> bool" where
  "leaf_stored env spec st item block_id \<longleftrightarrow> (\<exists>c e. resolved env st item c \<and> ie_embed env spec c = Ok e \<and>
     ie_get env st block_id = Ok (Some \<lparr>validated_hash = block_id, validated_body = StoredLeaf
       \<lparr>leaf_level = 0, leaf_embedding_spec = spec,
        leaf_entries = [\<lparr>stored_metadata = item_metadata item, stored_embedding = e, stored_content = c\<rparr>]\<rparr>\<rparr>))"

lemma leaf_stored_kept: "keeps env st st' \<Longrightarrow> leaf_stored env spec st item block_id \<Longrightarrow> leaf_stored env spec st' item block_id"
  unfolding leaf_stored_def using resolved_kept [of env st st' item] unfolding keeps_def by blast

lemma persisted_leaf:
  assumes c: "ingest_contract env" and l: "leaf_of env spec st item block" and k: "keeps env st st'"
    and "ie_deserialize_block env (ser_bytes block) (ser_hash block) = Ok v"
    and "ie_get env st' (ser_hash block) = Ok (Some \<lparr>validated_hash = ser_hash block, validated_body = validated_body v\<rparr>)"
  shows "leaf_stored env spec st' item (ser_hash block)"
proof -
  obtain x e leaf where x: "resolved env st item x" "ie_embed env spec x = Ok e"
    "ie_build_leaf_block env spec [\<lparr>stored_metadata = item_metadata item, stored_embedding = e, stored_content = x\<rparr>] = Ok leaf"
    "ie_serialize_block env (StoredLeaf leaf) = Ok block"
    using l unfolding leaf_of_def by blast
  have "validated_body v = StoredLeaf leaf" using leaf_reads_back [OF c x(4)] assms(4) by simp
  then show ?thesis using leaf_built [OF c x(3)] resolved_kept [OF k x(1)] x(2) assms(5)
    unfolding leaf_stored_def by auto
qed

text \<open>
  The journal of a state: the records of \<open>its\<close> with the blocks \<open>ids\<close>, newest first, on top of
  \<open>old\<close>, each with its leaf in the store.
\<close>

definition journalled ::
  "('s, 'r, 'v) ingest_env \<Rightarrow> embedding_spec \<Rightarrow> replay_journal_record list \<Rightarrow> ('s, 'r) ingest_state
     \<Rightarrow> index_item list \<Rightarrow> block_hash list \<Rightarrow> bool" where
  "journalled env spec old s its ids \<longleftrightarrow> cache_coherent (ie_resolver env) (in_store s) (in_cache s) \<and>
     list_all2 (leaf_stored env spec (in_store s)) its ids \<and>
     (\<forall>ref. in_ref s = Some ref \<longrightarrow>
        journal_replays (ie_journal env) (in_store s) ref (rev (batch_records env its ids) @ old))"

lemma journal_replays_kept:
  assumes "keeps env st st'" "journal_replays (ie_journal env) st ref rs"
  shows "journal_replays (ie_journal env) st' ref rs"
  using assms journal_at_mono [of "ie_journal env" st st'] unfolding journal_replays_iff keeps_def by blast

lemma journalled_kept:
  assumes "keeps env (in_store s) (in_store s')" "in_ref s' = in_ref s" "in_cache s' = in_cache s" "journalled env spec old s its ids"
  shows "journalled env spec old s' its ids"
  using assms journal_replays_kept [OF assms(1)] coherent_kept [OF assms(1)]
    list_all2_mono [of "leaf_stored env spec (in_store s)" its ids "leaf_stored env spec (in_store s')"] leaf_stored_kept [OF assms(1)]
  unfolding journalled_def by auto

lemma batch_records_append:
  "length its = length ids \<Longrightarrow> batch_records env (its @ its') (ids @ ids') = batch_records env its ids @ batch_records env its' ids'"
  by (simp add: batch_records_def)

lemma publish_keeps:
  assumes c: "ingest_contract env"
    and p: "publish_replay_journal_and_mutable_refs (ie_journal env) i1 i2 (st, ref) records root md = ((st', ref'), r)"
  shows "keeps env st st'"
proof -
  let ?j = "ie_journal env"
  have store: "keeps env st st'" if "store_replay_journal_block ?j st head es = (st', r)" for st head es st' r
    using that by (auto simp: store_replay_journal_block_def intro: journal_put_keeps [OF c] split: sum.splits if_splits prod.splits)
  have loop: "keeps env st st'" if "append_loop ?j st head pending sizes total_len rs = (st', r)" for st head pending sizes total_len rs st' r
    using that
  proof (induction rs arbitrary: st head pending sizes total_len)
    case (Cons rec rs)
    from Cons.prems show ?case
    proof (cases rule: append_loop_cases)
      case (3 e)
      show ?thesis by (rule store [OF 3(1)])
    next
      case (4 st1 h n)
      show ?thesis by (rule keeps_trans [OF store [OF 4(1)] Cons.IH [OF 4(2)]])
    qed (use Cons in auto)
  qed simp
  have append: "keeps env st st'" if a: "append_replay_journal_records ?j st ref records = (st', r)" for st' r
  proof (cases "\<exists>refs. load_mutable_ref_store ?j ref = Ok refs \<and> records \<noteq> []")
    case True
    then obtain refs where refs: "load_mutable_ref_store ?j ref = Ok refs" "records \<noteq> []" by blast
    obtain st1 r1 where l: "append_loop ?j st (replay_journal_head_block_id refs) [] [] 0 records = (st1, r1)" by fastforce
    show ?thesis
    proof (cases r1)
      case (Inl e)
      then show ?thesis using a refs l loop [OF l] by (simp add: append_replay_journal_records_def)
    next
      case (Inr hp)
      obtain head pending where hp: "hp = (head, pending)" by fastforce
      obtain st2 r2 where s: "store_replay_journal_block ?j st1 head pending = (st2, r2)" by fastforce
      have "st' = st1 \<or> st' = st2" using a refs l Inr hp s
        by (auto simp: append_replay_journal_records_def split: if_splits sum.splits)
      then show ?thesis using loop [OF l] keeps_trans [OF loop [OF l] store [OF s]] by auto
    qed
  next
    case False
    then have "st' = st" using a by (auto simp: append_replay_journal_records_def split: sum.splits)
    then show ?thesis by simp
  qed
  obtain st1 r1 where a: "append_replay_journal_records ?j st ref records = (st1, r1)" by fastforce
  have "st' = st \<or> st' = st1" using p a
    by (auto simp: publish_replay_journal_and_mutable_refs_def split: if_splits sum.splits prod.splits)
  then show ?thesis using append [OF a] by auto
qed

text \<open>
  A batch: whatever happens, the journal holds the records from before or those and all of the
  batch, and every record has its leaf.
\<close>

lemma publish_batch_journalled:
  assumes c: "ingest_contract env" and s: "journalled env spec old s its ids"
    and l: "list_all2 (leaf_stored env spec (in_store s)) batch bids"
    and p: "publish_batch env md s (batch_records env batch bids) = (s', r)"
  shows "journalled env spec old s' (its @ batch) (ids @ bids) \<or> r \<noteq> Ok () \<and> journalled env spec old s' its ids"
proof -
  have both: "list_all2 (leaf_stored env spec (in_store s)) (its @ batch) (ids @ bids)"
    using s l by (auto simp: journalled_def intro: list_all2_appendI)
  show ?thesis
  proof (cases "in_ref s")
    case None
    then have "s' = s" using p by (simp add: publish_batch_def)
    then show ?thesis using s both None by (simp add: journalled_def)
  next
    case (Some ref)
    let ?rs = "batch_records env batch bids" and ?old = "rev (batch_records env its ids) @ old"
    obtain st' ref' r1 where pub: "publish_replay_journal_and_mutable_refs (ie_journal env) (ie_interrupted env (in_checks s))
        (ie_interrupted env (in_checks s + 1)) (in_store s, ref) ?rs None md = ((st', ref'), r1)" by (metis surj_pair)
    have s': "s' = s\<lparr>in_store := st', in_ref := Some ref', in_checks := in_checks s + 2\<rparr>" "r = map_err IngestRuntime r1"
      using p Some pub by (auto simp: publish_batch_def)
    note k = publish_keeps [OF c pub]
    have "journal_replays (ie_journal env) (in_store s) ref ?old" using s Some by (simp add: journalled_def)
    then obtain refs ch where ch: "load_mutable_ref_store (ie_journal env) ref = Ok refs"
        "journal_at (ie_journal env) (in_store s) (replay_journal_head_block_id refs) ch" "?old = chain_records ch"
      unfolding journal_replays_iff by blast
    have j: "journal_replays (ie_journal env) st' ref' (rev ?rs @ ?old) \<or>
        r1 \<noteq> Ok () \<and> journal_replays (ie_journal env) st' ref' ?old"
      using publish_cases [OF ingest_journal [OF c] ch(1,2) pub] unfolding ch(3) .
    have len: "length its = length ids" using s by (auto simp: journalled_def dest: list_all2_lengthD)
    have "list_all2 (leaf_stored env spec st') (its @ batch) (ids @ bids)" "list_all2 (leaf_stored env spec st') its ids"
      using both s leaf_stored_kept [OF k] by (auto simp: journalled_def elim!: list_all2_mono)
    moreover have "cache_coherent (ie_resolver env) st' (in_cache s)" using coherent_kept [OF k] s by (simp add: journalled_def)
    moreover have "r1 \<noteq> Ok () \<Longrightarrow> r \<noteq> Ok ()" using s'(2) by (cases r1) auto
    ultimately show ?thesis using j s'(1) by (auto simp: journalled_def batch_records_append [OF len])
  qed
qed

text \<open>The rest of a batch, once its leaf blocks are awaited and no interrupt was seen.\<close>

definition store_batch ::
  "('s, 'r, 'v) ingest_env \<Rightarrow> embedding_spec \<Rightarrow> bmap option \<Rightarrow> index_item list \<Rightarrow> ('s, 'r) ingest_state
     \<Rightarrow> (('s, 'r) ingest_state, ingestion_error, constructed_blocks) fallible" where
  "store_batch env spec md its s =
     then_do (build_leaf_blocks env spec its s) (\<lambda>s1 constructed.
       case persist_staged_blocks env (in_store s1) (con_blocks constructed) of
         (st, Inl e) \<Rightarrow> (s1\<lparr>in_store := st\<rparr>, Err e)
       | (st, Inr u) \<Rightarrow>
           then_do (publish_batch env md (s1\<lparr>in_store := st\<rparr>) (batch_records env its (con_ids constructed)))
             (\<lambda>s' _. (s', Ok constructed)))"

lemma ingest_batch_unless_interrupted:
  "ingest_replay_batch_to_store env spec md s its =
     (let s0 = s\<lparr>in_checks := Suc (in_checks s)\<rparr> in
      if ie_interrupted env (in_checks s) then (s0, Err (IngestRuntime Interrupted)) else store_batch env spec md its s0)"
  by (simp add: ingest_replay_batch_to_store_def store_batch_def await_with_periodic_progress_def check_for_interrupt_def Let_def)

lemma store_batch_journalled:
  assumes c: "ingest_contract env" and j: "joins_all env" and s: "journalled env spec old s its ids"
    and i: "store_batch env spec md batch s = (s', r)"
  shows "\<exists>its' ids'. journalled env spec old s' its' ids' \<and>
    (\<forall>constructed. r = Ok constructed \<longrightarrow> its' = its @ batch \<and> ids' = ids @ con_ids constructed)"
proof -
  obtain cache r1 where b: "build_leaf_blocks_concurrently env spec (in_store s) (in_cache s) batch = (cache, r1)" by fastforce
  have co: "cache_coherent (ie_resolver env) (in_store s) (in_cache s)" using s by (simp add: journalled_def)
  note built = build_leaf_blocks_spec [OF j co b]
  have cached: "journalled env spec old (s\<lparr>in_cache := cache\<rparr>) its ids" using s built by (simp add: journalled_def)
  show ?thesis
  proof (cases r1)
    case (Inl e)
    then show ?thesis using i b cached by (auto simp: store_batch_def build_leaf_blocks_def)
  next
    case (Inr con)
    obtain st r2 where p: "persist_staged_blocks env (in_store s) (con_blocks con) = (st, r2)" by fastforce
    note per = persist_spec [OF c p]
    let ?s = "s\<lparr>in_cache := cache, in_store := st\<rparr>"
    have s1: "journalled env spec old ?s its ids" by (rule journalled_kept [OF _ _ _ cached]) (use per in simp_all)
    show ?thesis
    proof (cases r2)
      case (Inl e)
      then show ?thesis using i b Inr p s1 by (auto simp: store_batch_def build_leaf_blocks_def)
    next
      case ok: (Inr u)
      have ids: "con_ids con = map ser_hash (con_blocks con)" and leaves: "list_all2 (leaf_of env spec (in_store s)) batch (con_blocks con)"
        using built Inr by auto
      have "leaf_stored env spec st item (ser_hash block)"
        if "leaf_of env spec (in_store s) item block" "block \<in> set (con_blocks con)" for item block
        using persisted_leaf [OF c that(1)] per ok that(2) by auto
      then have "list_all2 (leaf_stored env spec (in_store ?s)) batch (con_ids con)"
        using leaves unfolding ids list_all2_conv_all_nth by auto
      moreover obtain s2 r3 where pub: "publish_batch env md ?s (batch_records env batch (con_ids con)) = (s2, r3)" by fastforce
      ultimately have "journalled env spec old s2 (its @ batch) (ids @ con_ids con) \<or> r3 \<noteq> Ok () \<and> journalled env spec old s2 its ids"
        using publish_batch_journalled [OF c s1] by blast
      moreover have "s' = s2" "\<And>x. r = Ok x \<Longrightarrow> x = con \<and> r3 = Ok ()"
        using i b Inr p ok pub by (cases r3; auto simp: store_batch_def build_leaf_blocks_def)+
      ultimately show ?thesis by blast
    qed
  qed
qed

lemma ingest_batch_journalled:
  assumes "ingest_contract env" and "joins_all env" and s: "journalled env spec old s its ids"
    and i: "ingest_replay_batch_to_store env spec md s batch = (s', r)"
  shows "\<exists>its' ids'. journalled env spec old s' its' ids' \<and>
    (\<forall>constructed. r = Ok constructed \<longrightarrow> its' = its @ batch \<and> ids' = ids @ con_ids constructed)"
proof -
  have s0: "journalled env spec old (s\<lparr>in_checks := n\<rparr>) its ids" for n by (rule journalled_kept [OF _ _ _ s]) simp_all
  show ?thesis
  proof (cases "ie_interrupted env (in_checks s)")
    case True
    then show ?thesis using i s0 by (auto simp: ingest_batch_unless_interrupted Let_def)
  next
    case False
    then show ?thesis using i store_batch_journalled [OF assms(1,2) s0] by (simp add: ingest_batch_unless_interrupted Let_def)
  qed
qed

end
