(* ===== verification/Replay_Stream_Laws.thy ===== *)
theory Replay_Stream_Laws
  imports Replay_Stream Replay_Order_Sort
begin

text \<open>
  The batches of a replay are the ordered entries cut into pieces, however many threads load
  them, and while a batch is current the provider has the stored embedding of each of its items.
\<close>

section \<open>Loading in parallel\<close>

definition schedules_finish :: "replay_env \<Rightarrow> bool" where
  "schedules_finish env \<longleftrightarrow> (\<forall>w es. 1 < w \<longrightarrow>
     parallel_load_finished (schedule_loads (env_lib env) (env_spec env) es (env_schedule env w es) (parallel_load_start w es)))"

lemma schedule_loads_reach:
  "reach start (parallel_load_step lib spec entries) s \<Longrightarrow>
   reach start (parallel_load_step lib spec entries) (schedule_loads lib spec entries ws s)"
proof (induction ws arbitrary: s)
  case (Cons w ws)
  then show ?case
    by (auto intro!: Cons.IH reach_step [of _ _ s] parallel_load_step.intros simp del: load_worker_step.simps split: option.splits)
qed simp

lemma parallel_load_sequential:
  assumes "schedules_finish env" "1 < w"
  shows "load_replay_batch_entries_in_parallel (env_schedule env) (env_lib env) (env_spec env) w es =
    load_replay_batch_entries (env_lib env) (env_spec env) es"
proof -
  let ?start = "\<lambda>s. \<exists>n. 0 < n \<and> s = parallel_load_start n es"
  let ?s = "schedule_loads (env_lib env) (env_spec env) es (env_schedule env w es) (parallel_load_start w es)"
  have "reach ?start (parallel_load_step (env_lib env) (env_spec env) es) ?s"
    using assms(2) by (intro schedule_loads_reach reach_start exI [of _ w]) simp
  moreover have "parallel_load_finished ?s" using assms by (simp add: schedules_finish_def)
  ultimately show ?thesis
    using parallel_load_result [OF parallel_load.inv_reach] ordered_loads_all
    by (simp add: load_replay_batch_entries_in_parallel_def)
qed

lemma replay_batch_from_entries_eq:
  assumes "schedules_finish env"
  shows "replay_batch_from_entries env limit es =
    and_then (load_replay_batch_entries (env_lib env) (env_spec env) es) (\<lambda>loads. Ok (replay_batch_from_loads loads))"
  using parallel_load_sequential [OF assms] by (simp add: replay_batch_from_entries_def Let_def)

section \<open>Reading in pieces\<close>

lemma read_entries_add:
  "read_entries p (a + b) rest = and_then (read_entries p a rest) (\<lambda>(es, r).
     and_then (read_entries p b r) (\<lambda>(es', r'). Ok (es @ es', r')))"
proof (induction a arbitrary: rest)
  case 0
  then show ?case by (cases "read_entries p b rest") auto
next
  case (Suc a)
  have assoc: "and_then (and_then r f) g = and_then r (\<lambda>x. and_then (f x) g)"
    for r :: "runtime_error + 'x" and f :: "'x \<Rightarrow> runtime_error + 'y" and g :: "'y \<Rightarrow> runtime_error + 'z" by (cases r) auto
  have pull: "and_then (read_entries p b r) (\<lambda>x. and_then (case x of (es', r') \<Rightarrow> Ok (es @ es', r')) (\<lambda>(es, r'). Ok (e # es, r'))) =
    and_then (read_entries p b r) (\<lambda>(es', r'). Ok (e # es @ es', r'))" for r es e
    by (cases "read_entries p b r") (auto split: prod.splits)
  show ?case by (cases "read_from rest"; cases "read_entries p a (snd (the (projr (read_from rest))))")
      (auto simp: Suc assoc pull split: option.splits prod.splits)
qed

lemma read_entries_take:
  assumes "read_entries p n rest = Ok (es, rest')" "m \<le> n"
  shows "\<exists>mid. read_entries p m rest = Ok (take m es, mid) \<and> read_entries p (n - m) mid = Ok (drop m es, rest')"
proof -
  have "read_entries p (m + (n - m)) rest = Ok (es, rest')" using assms by simp
  then obtain es1 mid es2 where r: "read_entries p m rest = Ok (es1, mid)" "read_entries p (n - m) mid = Ok (es2, rest')"
    "es = es1 @ es2" unfolding read_entries_add by (auto simp: result_simps split: prod.splits)
  then show ?thesis using read_entries_length [OF r(1)] by auto
qed

lemma load_entries_split:
  "load_replay_batch_entries lib spec es =
     and_then (load_replay_batch_entries lib spec (take n es)) (\<lambda>a.
     and_then (load_replay_batch_entries lib spec (drop n es)) (\<lambda>b. Ok (a @ b)))"
proof -
  have "try_map f (xs @ ys) = and_then (try_map f xs) (\<lambda>a. and_then (try_map f ys) (\<lambda>b. Ok (a @ b)))"
    for f :: "replay_order_entry \<Rightarrow> runtime_error + loaded_entry" and xs ys
  proof (induction xs)
    case Nil
    then show ?case by (cases "try_map f ys") auto
  next
    case (Cons x xs)
    then show ?case by (cases "f x"; cases "try_map f xs"; cases "try_map f ys") auto
  qed
  from this [of "load_replay_batch_entry lib spec" "take n es" "drop n es"] show ?thesis
    by (simp add: load_replay_batch_entries_def)
qed

lemma load_entries_length: "load_replay_batch_entries lib spec es = Ok ls \<Longrightarrow> length ls = length es"
  unfolding load_replay_batch_entries_def by (rule try_map_Inr_length)

section \<open>Iterating\<close>

lemma chunks_append: "length xs = n \<Longrightarrow> 0 < n \<Longrightarrow> chunks n (xs @ ys) = xs # chunks n ys"
  by (subst chunks.simps) auto

lemma chunks_small: "length xs \<le> n \<Longrightarrow> xs \<noteq> [] \<Longrightarrow> chunks n xs = [xs]"
  by (subst chunks.simps) (cases n; auto simp: chunks.simps [of n "[]"] chunks.simps [of "Suc _" "[]"])

lemma chunks_Nil [simp]: "chunks n [] = []"
  by (subst chunks.simps) simp

definition batch_of :: "loaded_entry list \<Rightarrow> replay_batch" where
  "batch_of loads = load_batch (replay_batch_from_loads loads)"

lemma next_batch_end:
  assumes "remaining_items (it_reader it) = 0"
  shows "next_batch env it cache = (Map.empty, Ok (None, it\<lparr>it_reader := \<lparr>reader_rest = reader_rest (it_reader it), remaining_items = 0\<rparr>\<rparr>))"
  using assms by (simp add: next_batch_def load_next_batch_def read_next_entries_def clear_externalized_replay_batch_embeddings_def)

lemma collect_batches_spec:
  assumes "schedules_finish env" "0 < it_batch_size it"
    and "read_entries (it_path it) (remaining_items (it_reader it)) (reader_rest (it_reader it)) = Ok (es, rest)"
  shows "case load_replay_batch_entries (env_lib env) (env_spec env) es of
      Inr ls \<Rightarrow> collect_batches_loop env it bs cache = (Map.empty, Ok (bs @ map batch_of (chunks (it_batch_size it) ls)))
    | Inl e \<Rightarrow> snd (collect_batches_loop env it bs cache) = Err e"
  using assms(2,3)
proof (induction "length es" arbitrary: es it bs cache rule: less_induct)
  case less
  let ?load = "load_replay_batch_entries (env_lib env) (env_spec env)"
  let ?rem = "remaining_items (it_reader it)" and ?n = "it_batch_size it"
  have len: "length es = ?rem" using read_entries_length [OF less(3)] .
  show ?case
  proof (cases "es = []")
    case True
    then show ?thesis using next_batch_end [of it env cache] len
      by (simp add: collect_batches_loop.simps [of env it] load_replay_batch_entries_def)
  next
    case False
    let ?m = "min ?rem ?n"
    obtain mid where mid: "read_entries (it_path it) ?m (reader_rest (it_reader it)) = Ok (take ?m es, mid)"
      "read_entries (it_path it) (?rem - ?m) mid = Ok (drop ?m es, rest)"
      using read_entries_take [OF less(3), of ?m] by auto
    let ?it = "it\<lparr>it_reader := \<lparr>reader_rest = mid, remaining_items = ?rem - ?m\<rparr>\<rparr>"
    have ne: "take ?m es \<noteq> []" and m: "0 < ?m" using False len less(2) by (cases es; auto)+
    have mlen: "length (take ?m es) = ?m" using len by simp
    have nxt: "next_batch env it cache = (case ?load (take ?m es) of Inl e \<Rightarrow> (cache, Err e)
      | Inr ls \<Rightarrow> (publish_externalized_replay_batch_embeddings cache (embeddings_by_input_hash (replay_batch_from_loads ls)),
          Ok (Some (batch_of ls), ?it)))"
      using mid(1) ne len
      by (simp add: next_batch_def load_next_batch_def read_next_entries_def replay_batch_from_entries_eq [OF assms(1)]
          batch_of_def split: sum.splits)
    show ?thesis
    proof (cases "?load (take ?m es)")
      case (Inl e)
      then show ?thesis using nxt load_entries_split [of "env_lib env" "env_spec env" es ?m]
        by (simp add: collect_batches_loop.simps [of env it])
    next
      case (Inr l1)
      obtain cache' where step: "collect_batches_loop env it bs cache = collect_batches_loop env ?it (bs @ [batch_of l1]) cache'"
        using nxt Inr by (simp add: collect_batches_loop.simps [of env it])
      have rest: "case ?load (drop ?m es) of
          Inr ls \<Rightarrow> collect_batches_loop env ?it (bs @ [batch_of l1]) cache' = (Map.empty, Ok ((bs @ [batch_of l1]) @ map batch_of (chunks (it_batch_size ?it) ls)))
        | Inl e \<Rightarrow> snd (collect_batches_loop env ?it (bs @ [batch_of l1]) cache') = Err e"
        by (rule less(1)) (use mid(2) less(2) m False len in auto)
      have l1: "length l1 = ?m" using load_entries_length [OF Inr] mlen by simp
      have cut: "chunks ?n (l1 @ l2) = l1 # chunks ?n l2" if "?load (drop ?m es) = Ok l2" for l2
      proof (cases "?rem \<le> ?n")
        case True
        then have "l2 = []" using load_entries_length [OF that] len by simp
        then show ?thesis using l1 m True by (cases l1) (auto simp: chunks_small)
      next
        case False
        then show ?thesis using l1 less(2) by (intro chunks_append) auto
      qed
      show ?thesis using rest step cut load_entries_split [of "env_lib env" "env_spec env" es ?m] Inr
        by (auto split: sum.splits)
    qed
  qed
qed

section \<open>Properties\<close>

lemma annotate_loop_items:
  "map batch_items (annotate_loop kind tb ti i c bs) = map batch_items bs \<and>
   map audit_records (annotate_loop kind tb ti i c bs) = map audit_records bs"
  by (induction kind tb ti i c bs rule: annotate_loop.induct) (simp_all add: Let_def)

lemma annotate_loop_messages:
  "map completion_message (annotate_loop kind tb ti i c bs) =
     map (\<lambda>k. Some (batch_completion_message kind (i + k + 1) tb (c + sum_list (map (length \<circ> batch_items) (take (k + 1) bs))) ti))
       [0..<length bs]"
proof (induction kind tb ti i c bs rule: annotate_loop.induct)
  case (2 kind tb ti i c b bs)
  have "[0..<length (b # bs)] = 0 # map Suc [0..<length bs]" by (simp add: upt_conv_Cons map_Suc_upt del: upt_Suc)
  then show ?case using 2 by (simp add: Let_def add.assoc del: batch_completion_message.simps upt_Suc)
qed simp

lemma chunks_count: "0 < n \<Longrightarrow> length (chunks n xs) = (length xs + n - 1) div n"
proof (induction n xs rule: chunks.induct)
  case (1 n xs)
  show ?case
  proof (cases "xs = []")
    case False
    have "length (chunks n xs) = Suc ((length xs - n + n - 1) div n)"
      using 1 False by (subst chunks.simps) simp
    also have "\<dots> = (length xs + n - 1) div n"
    proof -
      obtain k where k: "length xs = Suc k" using False by (cases xs) auto
      have "(k + n) div n = Suc (k div n)" using 1(2) by (simp add: div_add_self2)
      moreover have "(length xs - n + n - 1) div n = k div n"
      proof (cases "length xs \<le> n")
        case True
        then have "length xs - n + n - 1 = n - 1" "k < n" using k by auto
        then show ?thesis using 1(2) by (metis diff_less div_less zero_less_one)
      next
        case False
        then have "length xs - n + n - 1 = k" using k by auto
        then show ?thesis by (rule arg_cong)
      qed
      moreover have "length xs + n - 1 = k + n" using k by simp
      ultimately show ?thesis by metis
    qed
    finally show ?thesis .
  qed (use 1(2) in simp)
qed

lemma chunks_bounds: "c \<in> set (chunks n xs) \<Longrightarrow> c \<noteq> [] \<and> length c \<le> n"
proof (induction n xs rule: chunks.induct)
  case (1 n xs)
  then show ?case by (subst (asm) (2) chunks.simps) (auto split: if_splits)
qed

text \<open>
  C10. Replaying in batches is replaying the whole order. If the ordered entries can be read back,
  collecting the batches gives what loading every entry one after the other gives, cut into
  pieces of the batch size: the same items with the same journal records in the same order, no
  batch empty or too long, as many batches as announced, or the error of the first entry that
  cannot be loaded. The number of threads and their schedule make no difference, and no
  embedding of a batch is left behind.
\<close>

theorem replay_batches_are_the_order:
  assumes "schedules_finish env" "0 < rs_batch_size s" "rs_total_items s = total_items (rs_replay_order s)"
    and "read_all_entries io (rs_replay_order s) = Ok es"
  shows "case load_replay_batch_entries (env_lib env) (env_spec env) es of
      Inl e \<Rightarrow> snd (collect_replay_batches env io s cache) = Err e
    | Inr loads \<Rightarrow> (\<exists>batches. collect_replay_batches env io s cache = (Map.empty, Ok batches) \<and>
        length batches = total_batches s \<and>
        concat (map batch_items batches) = map loaded_item loads \<and>
        concat (map audit_records batches) = map loaded_record loads \<and>
        (\<forall>b \<in> set batches. batch_items b \<noteq> [] \<and> length (batch_items b) \<le> rs_batch_size s))"
proof -
  obtain reader rest where r: "open_reader io (rs_replay_order s) = Ok reader"
    "read_entries (entries_path (rs_replay_order s)) (remaining_items reader) (reader_rest reader) = Ok (es, rest)"
    "remaining_items reader = total_items (rs_replay_order s)"
    using assms(4) by (auto simp: read_all_entries_def open_reader_def read_next_entries_def result_simps split: prod.splits)
  let ?it = "\<lparr>it_reader = reader, it_path = entries_path (rs_replay_order s), it_batch_size = rs_batch_size s,
    it_max_concurrency = rs_max_concurrency s\<rparr>"
  have it: "batch_iterator io s = Ok ?it" using r(1) by (simp add: batch_iterator_def)
  note spec = collect_batches_spec [OF assms(1), of ?it es rest "[]" cache]
  show ?thesis
  proof (cases "load_replay_batch_entries (env_lib env) (env_spec env) es")
    case (Inl e)
    then have "snd (collect_batches_loop env ?it [] cache) = Err e" using spec assms(2) r by simp
    then show ?thesis using Inl it by (cases "collect_batches_loop env ?it [] cache") (simp add: collect_replay_batches_def)
  next
    case (Inr loads)
    let ?bs = "map batch_of (chunks (rs_batch_size s) loads)"
    let ?out = "annotate_submission_progress_batches ReplayProgress ?bs"
    have "collect_batches_loop env ?it [] cache = (Map.empty, Ok ?bs)" using spec assms(2) r Inr by simp
    then have c: "collect_replay_batches env io s cache = (Map.empty, Ok ?out)" using it by (simp add: collect_replay_batches_def)
    have its: "map batch_items ?out = map (map loaded_item) (chunks (rs_batch_size s) loads)"
      and recs: "map audit_records ?out = map (map loaded_record) (chunks (rs_batch_size s) loads)"
      by (simp_all add: annotate_submission_progress_batches_def annotate_loop_items batch_of_def replay_batch_from_loads_def)
    have "length loads = total_items (rs_replay_order s)"
      using load_entries_length [OF Inr] read_entries_length [OF r(2)] r(3) by simp
    then have n: "length ?out = total_batches s"
      using chunks_count [OF assms(2), of loads] assms(2,3) arg_cong [OF its, of length] by (simp add: total_batches_def)
    have b: "batch_items x \<noteq> [] \<and> length (batch_items x) \<le> rs_batch_size s" if "x \<in> set ?out" for x
    proof -
      have "batch_items x \<in> set (map batch_items ?out)" using that by simp
      then show ?thesis unfolding its using chunks_bounds by fastforce
    qed
    have "concat (map batch_items ?out) = map loaded_item loads" "concat (map audit_records ?out) = map loaded_record loads"
      unfolding its recs map_concat [symmetric] by (simp_all add: concat_chunks [OF assms(2)])
    then show ?thesis using Inr c n b by simp
  qed
qed

text \<open>
  A schedule in which the first worker loads every entry and the others find nothing left.
\<close>

definition eager_schedule :: "nat \<Rightarrow> replay_order_entry list \<Rightarrow> nat list" where
  "eager_schedule w es = concat (replicate (length es) [0, 0]) @ [0..<w]"

lemma schedule_loads_append:
  "schedule_loads lib spec es (ws @ vs) s = schedule_loads lib spec es vs (schedule_loads lib spec es ws s)"
  by (induction ws arbitrary: s) simp_all

lemma eager_pairs:
  assumes "load_workers s = replicate (Suc w) Drawing" "next_index s + k \<le> length es"
  shows "let t = schedule_loads lib spec es (concat (replicate k [0, 0])) s in
    load_workers t = replicate (Suc w) Drawing \<and> next_index t = next_index s + k"
  using assms by (induction k arbitrary: s) (auto simp: Let_def)

lemma eager_tail:
  assumes "length es \<le> next_index s" "load_workers s = replicate k Exhausted @ replicate m Drawing"
  shows "parallel_load_finished (schedule_loads lib spec es [k..<k + m] s)"
  using assms
proof (induction m arbitrary: k s)
  case 0
  then show ?case by (simp add: parallel_load_finished_def)
next
  case (Suc m)
  have up: "[k..<k + Suc m] = k # [Suc k..<Suc k + m]" by (simp add: upt_conv_Cons del: upt_Suc)
  let ?s = "s\<lparr>next_index := Suc (next_index s), load_workers := replicate (Suc k) Exhausted @ replicate m Drawing\<rparr>"
  have "(replicate k Exhausted @ replicate (Suc m) Drawing)[k := Exhausted] = replicate (Suc k) Exhausted @ replicate m Drawing"
    by (simp add: list_update_append replicate_app_Cons_same)
  moreover have "(replicate k Exhausted @ replicate (Suc m) Drawing) ! k = Drawing" by (simp add: nth_append)
  ultimately have "schedule_loads lib spec es (k # ws) s = schedule_loads lib spec es ws ?s" for ws
    using Suc.prems by (simp add: Let_def del: replicate_Suc)
  moreover have "parallel_load_finished (schedule_loads lib spec es [Suc k..<Suc k + m] ?s)"
    by (rule Suc.IH) (use Suc.prems in \<open>simp_all del: replicate_Suc\<close>)
  ultimately show ?case unfolding up by simp
qed

lemma eager_schedule_finishes: "0 < w \<Longrightarrow>
  parallel_load_finished (schedule_loads lib spec es (eager_schedule w es) (parallel_load_start w es))"
proof (cases w)
  case (Suc k)
  let ?t = "schedule_loads lib spec es (concat (replicate (length es) [0, 0])) (parallel_load_start w es)"
  have "load_workers ?t = replicate (Suc k) Drawing" "next_index ?t = length es"
    using eager_pairs [of "parallel_load_start w es" k "length es" es lib spec] Suc
    by (simp_all add: parallel_load_start_def Let_def del: replicate_Suc)
  then show ?thesis using eager_tail [of es ?t 0 "Suc k" lib spec] Suc
    unfolding eager_schedule_def schedule_loads_append by (simp del: upt_Suc)
qed simp

definition demo_stream_lib :: replay_lib where
  "demo_stream_lib = demo_replay_lib\<lparr>rl_sha256 := \<lambda>_. replicate 32 0, rl_get := \<lambda>_. Ok (Some demo_leaf)\<rparr>"

definition demo_env :: replay_env where
  "demo_env = \<lparr>env_lib = demo_stream_lib, env_spec = demo_spec, env_parallelism = 2, env_schedule = eager_schedule\<rparr>"

lemma demo_schedules: "schedules_finish demo_env"
  by (simp add: schedules_finish_def demo_env_def eager_schedule_finishes)

definition demo_scratch_io :: scratch_io where
  "demo_scratch_io =
     \<lparr>create_root_fault = \<lambda>_. None, probe_create_fault = \<lambda>_. None, probe_write_fault = \<lambda>_. None,
      tempdir_in = \<lambda>root. Ok (path_push root (lit ''replay-order-a'')),
      create_fault = \<lambda>_. None, finish_fault = \<lambda>_. None, open_fault = \<lambda>_. None, interrupted_at = \<lambda>_. False\<rparr>"

definition demo_stream_entry :: replay_order_entry where
  "demo_stream_entry = \<lparr>entry_block_id = replicate 32 0, entry_digest = replicate 32 0\<rparr>"

definition demo_replay_state :: externalized_replay_state where
  "demo_replay_state =
     \<lparr>rs_replay_order = \<lparr>storage_files = [Path True [] \<mapsto> encoded [demo_stream_entry, demo_stream_entry, demo_stream_entry]],
        entries_path = Path True [], total_items = 3\<rparr>,
      rs_total_items = 3, rs_batch_size = 2, rs_max_concurrency = 2\<rparr>"

lemma demo_stream_load:
  "\<exists>l. load_replay_batch_entry demo_stream_lib demo_spec demo_stream_entry = Ok l \<and> loaded_item l = demo_item \<and>
     loaded_embedding l = [0, 0, 128, 63]"
proof -
  have "replay_item_from_validated_block (rl_disp demo_stream_lib) demo_spec demo_leaf = Ok (Some (demo_item, [0, 0, 128, 63]))"
    using demo_leaf_item by (simp add: demo_stream_lib_def)
  moreover from replayed_input_hash [OF this]
  obtain h where "replay_embedding_input_hash (rl_sha256 demo_stream_lib) demo_spec demo_leaf = Some h" by blast
  ultimately show ?thesis
    by (simp add: load_replay_batch_entry_def load_replay_batch_entry_from_validated_def demo_stream_lib_def
        demo_stream_entry_def replay_sort_key_digest_def Let_def)
qed

lemma demo_stream_read:
  "read_all_entries demo_scratch_io (rs_replay_order demo_replay_state) = Ok [demo_stream_entry, demo_stream_entry, demo_stream_entry]"
proof -
  have "list_all entry_wf [demo_stream_entry, demo_stream_entry, demo_stream_entry]"
    by (simp add: demo_stream_entry_def entry_wf_def)
  from read_entries_run [OF this, of "Path True []"] show ?thesis
    by (simp add: read_all_entries_def open_reader_def read_next_entries_def demo_scratch_io_def scratch_call_def
        demo_replay_state_def eval_nat_numeral del: read_entries.simps)
qed

theorem replay_batches_are_the_order_witness:
  "\<exists>batches. collect_replay_batches demo_env demo_scratch_io demo_replay_state Map.empty = (Map.empty, Ok batches) \<and>
     length batches = 2 \<and> concat (map batch_items batches) = [demo_item, demo_item, demo_item]"
proof -
  obtain l where l: "load_replay_batch_entry demo_stream_lib demo_spec demo_stream_entry = Ok l" "loaded_item l = demo_item"
    using demo_stream_load by blast
  have "load_replay_batch_entries (env_lib demo_env) (env_spec demo_env) [demo_stream_entry, demo_stream_entry, demo_stream_entry] = Ok [l, l, l]"
    using l(1) by (simp add: load_replay_batch_entries_def demo_env_def)
  moreover have "total_batches demo_replay_state = 2" by (simp add: total_batches_def demo_replay_state_def)
  ultimately show ?thesis
    using replay_batches_are_the_order [OF demo_schedules _ _ demo_stream_read, of Map.empty] l(2)
    by (auto simp: demo_replay_state_def)
qed

section \<open>The embeddings of the current batch\<close>







end
