(* ===== verification/Ingestion_Run.thy ===== *)
theory Ingestion_Run
  imports Ingestion_Laws Replay_Stream_Laws Batch_Config_Laws
begin

text \<open>
  Whole runs of an ingestion: a run that succeeds has journalled every item of the request,
  in the order of the items when it streams, whatever the batch size; a run that fails leaves
  a journal whose records all have their leaf.
\<close>

section \<open>Visiting the items of a request\<close>

text \<open>
  The items of a request: its documents, then what each mailbox expands to, at the state of
  the store when its turn comes; an empty mailbox expands to nothing.
\<close>

definition expansion :: "('s, 'r, 'v) ingest_env \<Rightarrow> path \<Rightarrow> batch_item_config \<Rightarrow> index_item list \<Rightarrow> bool" where
  "expansion env dir config found \<longleftrightarrow>
     (case config of
        DocumentItem q m \<Rightarrow> found = []
      | MailboxItem q m \<Rightarrow> \<exists>st st' r. expand_mailbox_item_with_stats (ie_mail env) (ie_fs env) st (resolve_path dir q) m = (st', r) \<and>
          ((\<exists>e. r = Ok e \<and> found = exp_items e) \<or> (\<exists>q'. r = Err (EmptyMailbox q') \<and> found = [])))"

definition delegated :: "('s, 'r, 'v) ingest_env \<Rightarrow> path \<Rightarrow> batch_request \<Rightarrow> index_item list \<Rightarrow> bool" where
  "delegated env dir request its \<longleftrightarrow>
     (\<exists>found. list_all2 (expansion env dir) (items request) found \<and> its = to_document_index_items request dir @ concat found)"

text \<open>
  What a visitor promises: it does not mind checks for interrupts and a store that grows, and
  after a visit that succeeds it has taken the item in.
\<close>

locale item_visitor =
  fixes env :: "('s, 'r, 'v) ingest_env" and visit :: "('s, 'r, 'p) visitor"
    and taken :: "('s, 'r) ingest_state \<times> 'p \<Rightarrow> index_item list \<Rightarrow> bool" and safe :: "('s, 'r) ingest_state \<Rightarrow> bool"
  assumes taken_contract: "taken x its \<Longrightarrow> ingest_contract env"
    and taken_safe: "taken (s, p) its \<Longrightarrow> safe s"
    and taken_grows: "taken (s, p) its \<Longrightarrow> keeps env (in_store s) st \<Longrightarrow> taken (s\<lparr>in_store := st, in_checks := n\<rparr>, p) its"
    and visit_taken: "taken x its \<Longrightarrow> visit x item = (x', Ok ()) \<Longrightarrow> taken x' (its @ [item])"
    and visit_safe: "taken x its \<Longrightarrow> visit x item = (x', r) \<Longrightarrow> safe (fst x')"
begin

lemma taken_checks: "taken (s, p) its \<Longrightarrow> taken (s\<lparr>in_checks := n\<rparr>, p) its"
  using taken_grows [of s p its "in_store s" n] by simp

lemma visit_items_taken:
  assumes "taken x its" "visit_items env visit rest x = (x', r)"
  shows "safe (fst x') \<and> (r = Ok () \<longrightarrow> taken x' (its @ rest))"
  using assms
proof (induction rest arbitrary: x its)
  case Nil
  then show ?case using taken_safe [of "fst x" "snd x" its] by auto
next
  case (Cons item rest)
  obtain s p where x: "x = (s, p)" by fastforce
  let ?s = "s\<lparr>in_checks := Suc (in_checks s)\<rparr>"
  have t: "taken (?s, p) its" using Cons.prems(1) taken_checks x by simp
  show ?case
  proof (cases "ie_interrupted env (in_checks s)")
    case True
    then show ?thesis using Cons.prems(2) x taken_safe [OF t] by (auto simp: check_for_interrupt_def)
  next
    case False
    obtain x1 r1 where v: "visit (?s, p) item = (x1, r1)" by fastforce
    show ?thesis
    proof (cases r1)
      case (Inl e)
      then show ?thesis using Cons.prems(2) x False v visit_safe [OF t v] by (auto simp: check_for_interrupt_def)
    next
      case (Inr u)
      have "visit_items env visit rest x1 = (x', r)" using Cons.prems(2) x False v Inr by (simp add: check_for_interrupt_def)
      then show ?thesis using Cons.IH [OF visit_taken [OF t]] v Inr by simp
    qed
  qed
qed

lemma visit_mailboxes_taken:
  assumes "taken x its" "visit_mailboxes env dir visit configs x = (x', r)"
  shows "safe (fst x') \<and> (r = Ok () \<longrightarrow>
    (\<exists>found. list_all2 (expansion env dir) configs found \<and> taken x' (its @ concat found)))"
  using assms
proof (induction configs arbitrary: x its)
  case Nil
  then show ?case using taken_safe [of "fst x" "snd x" its] by auto
next
  case (Cons config configs)
  obtain s p where x: "x = (s, p)" by fastforce
  let ?s = "s\<lparr>in_checks := Suc (in_checks s)\<rparr>"
  have t: "taken (?s, p) its" using Cons.prems(1) taken_checks x by simp
  have skip: "safe (fst x') \<and> (r = Ok () \<longrightarrow> (\<exists>found. list_all2 (expansion env dir) (config # configs) found \<and> taken x' (its @ concat found)))"
    if "taken y (its @ f)" "visit_mailboxes env dir visit configs y = (x', r)" "expansion env dir config f" for y f
  proof -
    from Cons.IH [OF that(1,2)] obtain found where "safe (fst x')"
      "r = Ok () \<longrightarrow> list_all2 (expansion env dir) configs found \<and> taken x' ((its @ f) @ concat found)" by blast
    then show ?thesis using that(3) by (intro conjI impI exI [of _ "f # found"]) simp_all
  qed
  show ?case
  proof (cases "ie_interrupted env (in_checks s)")
    case True
    then show ?thesis using Cons.prems(2) x taken_safe [OF t] by (auto simp: check_for_interrupt_def)
  next
    case False
    show ?thesis
    proof (cases config)
      case (DocumentItem q m)
      moreover from this have "expansion env dir config []" by (simp add: expansion_def)
      ultimately show ?thesis using skip [of "(?s, p)" "[]"] Cons.prems(2) x False t by (simp add: check_for_interrupt_def)
    next
      case (MailboxItem q m)
      obtain st r1 where e: "expand_mailbox_item_with_stats (ie_mail env) (ie_fs env) (in_store s) (resolve_path dir q) m = (st, r1)"
        by fastforce
      let ?s1 = "?s\<lparr>in_store := st\<rparr>"
      have k: "keeps env (in_store s) st" by (rule expand_keeps [OF taken_contract [OF t] e])
      have "?s1 = s\<lparr>in_store := st, in_checks := Suc (in_checks s)\<rparr>" by (cases s) simp
      moreover have "taken (s, p) its" using Cons.prems(1) x by simp
      ultimately have t1: "taken (?s1, p) its" by (simp only: taken_grows [OF _ k])
      consider (found) ex where "r1 = Ok ex" | (empty) q' where "r1 = Err (EmptyMailbox q')"
        | (failed) err where "r1 = Err err" "\<nexists>q'. err = EmptyMailbox q'" by (cases r1) auto
      then show ?thesis
      proof cases
        case found
        obtain x1 r2 where v: "visit_items env visit (exp_items ex) (?s1, p) = (x1, r2)" by fastforce
        note vt = visit_items_taken [OF t1 v]
        have ex: "expansion env dir config (exp_items ex)" using e found MailboxItem
          by (simp add: expansion_def) (rule exI [of _ "in_store s"], rule exI [of _ st], rule exI [of _ "Ok ex"], simp)
        show ?thesis
        proof (cases r2)
          case (Inl err)
          then show ?thesis using Cons.prems(2) x False MailboxItem e found v vt by (auto simp: check_for_interrupt_def)
        next
          case (Inr u)
          have "visit_mailboxes env dir visit configs x1 = (x', r)"
            using Cons.prems(2) x False MailboxItem e found v Inr by (simp add: check_for_interrupt_def)
          then show ?thesis using skip [of x1, OF _ _ ex] vt Inr by simp
        qed
      next
        case empty
        have "expansion env dir config []" using e empty MailboxItem
          by (simp add: expansion_def) (rule exI [of _ "in_store s"], rule exI [of _ st], rule exI [of _ "Err (EmptyMailbox q')"], simp)
        moreover have "visit_mailboxes env dir visit configs (?s1, p) = (x', r)"
          using Cons.prems(2) x False MailboxItem e empty by (simp add: check_for_interrupt_def)
        ultimately show ?thesis using skip [of "(?s1, p)" "[]"] t1 by simp
      next
        case failed
        have "x' = (?s1, p) \<and> r \<noteq> Ok ()" using Cons.prems(2) x False MailboxItem e failed
          by (cases err) (auto simp: check_for_interrupt_def)
        then show ?thesis using taken_safe [OF t1] by auto
      qed
    qed
  qed
qed

lemma for_each_taken:
  assumes "taken x []" "for_each_request_replay_item env dir request visit x = (x', r)"
  shows "safe (fst x') \<and> (r = Ok () \<longrightarrow> (\<exists>its. delegated env dir request its \<and> taken x' its))"
proof -
  obtain x1 r1 where v: "visit_items env visit (to_document_index_items request dir) x = (x1, r1)" by fastforce
  note vt = visit_items_taken [OF assms(1) v]
  show ?thesis
  proof (cases r1)
    case (Inl e)
    then show ?thesis using assms(2) v vt by (auto simp: for_each_request_replay_item_def)
  next
    case (Inr u)
    then have "visit_mailboxes env dir visit (items request) x1 = (x', r)"
      using assms(2) v by (simp add: for_each_request_replay_item_def)
    from visit_mailboxes_taken [OF _ this] vt Inr show ?thesis by (fastforce simp: delegated_def)
  qed
qed

end

section \<open>The visitors\<close>

text \<open>Streaming: what was flushed is journalled, the rest is in the buffer, and the counts agree.\<close>

definition streamed ::
  "('s, 'r, 'v) ingest_env \<Rightarrow> embedding_spec \<Rightarrow> replay_journal_record list \<Rightarrow> ('s, 'r) ingest_state \<times> stream_progress
     \<Rightarrow> index_item list \<Rightarrow> bool" where
  "streamed env spec old x its \<longleftrightarrow>
     (case x of (s, p) \<Rightarrow> \<exists>flushed. its = flushed @ buffered_items p \<and>
        journalled env spec old s flushed (con_ids (staged_blocks p)) \<and>
        completed_items p = length flushed \<and> seen_items p = length its)"

definition some_journalled ::
  "('s, 'r, 'v) ingest_env \<Rightarrow> embedding_spec \<Rightarrow> replay_journal_record list \<Rightarrow> ('s, 'r) ingest_state \<Rightarrow> bool" where
  "some_journalled env spec old s \<longleftrightarrow> (\<exists>its ids. journalled env spec old s its ids)"

lemma stream_flush_streamed:
  assumes c: "ingest_contract env" "joins_all env" and t: "streamed env spec old x its"
    and f: "stream_flush env spec md x = (x', r)"
  shows "some_journalled env spec old (fst x')"
    and "r = Ok () \<Longrightarrow> streamed env spec old x' its \<and> buffered_items (snd x') = []"
proof -
  obtain s p where x: "x = (s, p)" by fastforce
  obtain flushed where fl: "its = flushed @ buffered_items p" "journalled env spec old s flushed (con_ids (staged_blocks p))"
    "completed_items p = length flushed" "seen_items p = length its" using t by (auto simp: streamed_def x)
  obtain s1 r1 where i: "ingest_replay_batch_to_store env spec md s (buffered_items p) = (s1, r1)" by fastforce
  obtain its' ids' where j: "journalled env spec old s1 its' ids'"
    "\<And>con. r1 = Ok con \<Longrightarrow> its' = its \<and> ids' = con_ids (staged_blocks p) @ con_ids con"
    using ingest_batch_journalled [OF c fl(2) i] fl(1) by metis
  have s1: "fst x' = s1" using f i by (cases r1) (auto simp: stream_flush_def x)
  then show "some_journalled env spec old (fst x')" using j(1) by (auto simp: some_journalled_def)
  assume ok: "r = Ok ()"
  then obtain con where con: "r1 = Ok con" using f i by (cases r1) (auto simp: stream_flush_def x)
  then have "x' = (s1, p\<lparr>buffered_items := [], batch_number := batch_number p + 1,
      completed_items := completed_items p + length (buffered_items p),
      staged_blocks := extend_constructed (staged_blocks p) con\<rparr>)"
    using f i by (simp add: stream_flush_def x Let_def)
  then show "streamed env spec old x' its \<and> buffered_items (snd x') = []"
    using j(1) j(2) [OF con] fl by (simp add: streamed_def extend_constructed_def)
qed

lemma streamed_safe: "streamed env spec old (s, p) its \<Longrightarrow> some_journalled env spec old s"
  by (auto simp: streamed_def some_journalled_def)

lemma stream_item_streamed:
  assumes c: "ingest_contract env" "joins_all env" and t: "streamed env spec old x its"
    and v: "stream_item env spec md n x item = (x', r)"
  shows "some_journalled env spec old (fst x')" and "r = Ok () \<Longrightarrow> streamed env spec old x' (its @ [item])"
proof -
  obtain s p where x: "x = (s, p)" by fastforce
  let ?p = "p\<lparr>buffered_items := buffered_items p @ [item], seen_items := seen_items p + 1\<rparr>"
  have t1: "streamed env spec old (s, ?p) (its @ [item])" using t by (auto simp: streamed_def x)
  consider "x' = (s, ?p)" | "stream_flush env spec md (s, ?p) = (x', r)"
    using v by (auto simp: stream_item_def x Let_def split: if_splits)
  then show "some_journalled env spec old (fst x')"
    by cases (use streamed_safe [OF t1] stream_flush_streamed(1) [OF c t1] in auto)
  assume ok: "r = Ok ()"
  consider "x' = (s, ?p)" | "stream_flush env spec md (s, ?p) = (x', r)"
    using v by (auto simp: stream_item_def x Let_def split: if_splits)
  then show "streamed env spec old x' (its @ [item])"
    by cases (use t1 stream_flush_streamed(2) [OF c t1] ok in auto)
qed

lemma streamed_grows:
  "streamed env spec old (s, p) its \<Longrightarrow> keeps env (in_store s) st \<Longrightarrow> streamed env spec old (s\<lparr>in_store := st, in_checks := n\<rparr>, p) its"
  unfolding streamed_def by (auto intro!: journalled_kept [of env s])

text \<open>Collecting: the items so far, with the journal as it was.\<close>

definition collected ::
  "('s, 'r, 'v) ingest_env \<Rightarrow> embedding_spec \<Rightarrow> replay_journal_record list \<Rightarrow> ('s, 'r) ingest_state \<times> index_item list
     \<Rightarrow> index_item list \<Rightarrow> bool" where
  "collected env spec old x its \<longleftrightarrow> snd x = its \<and> journalled env spec old (fst x) [] []"

definition lawful :: "('s, 'r, 'v) ingest_env \<Rightarrow> bool" where
  "lawful env \<longleftrightarrow> ingest_contract env \<and> joins_all env"

interpretation streaming: item_visitor env "stream_item env spec md n"
  "\<lambda>x its. lawful env \<and> streamed env spec old x its" "some_journalled env spec old"
  for env :: "('s, 'r, 'v) ingest_env" and spec md n old
proof unfold_locales
  show "ingest_contract env" if "lawful env \<and> streamed env spec old x its" for x its
    using that by (simp add: lawful_def)
  show "some_journalled env spec old s" if "lawful env \<and> streamed env spec old (s, p) its" for s p its
    using that streamed_safe by blast
  show "lawful env \<and> streamed env spec old (s\<lparr>in_store := st, in_checks := k\<rparr>, p) its"
    if "lawful env \<and> streamed env spec old (s, p) its" "keeps env (in_store s) st" for s p its st k
    using that streamed_grows [of env spec old s p its st k] by simp
  show "lawful env \<and> streamed env spec old x' (its @ [item])"
    if "lawful env \<and> streamed env spec old x its" "stream_item env spec md n x item = (x', Ok ())" for x its item x'
    using that stream_item_streamed(2) unfolding lawful_def by blast
  show "some_journalled env spec old (fst x')"
    if "lawful env \<and> streamed env spec old x its" "stream_item env spec md n x item = (x', r)" for x its item x' r
    using that stream_item_streamed(1) unfolding lawful_def by blast
qed

interpretation collecting: item_visitor env "\<lambda>(s, its) item. ((s, its @ [item]), Ok ())"
  "\<lambda>x its. lawful env \<and> collected env spec old x its" "some_journalled env spec old"
  for env :: "('s, 'r, 'v) ingest_env" and spec old
proof unfold_locales
  show "lawful env \<and> collected env spec old (s\<lparr>in_store := st, in_checks := k\<rparr>, p) its"
    if "lawful env \<and> collected env spec old (s, p) its" "keeps env (in_store s) st" for s p its st k
    using that journalled_kept [of env s "s\<lparr>in_store := st, in_checks := k\<rparr>"] by (auto simp: collected_def)
  show "some_journalled env spec old s" if "lawful env \<and> collected env spec old (s, p) its" for s p its
    using that unfolding collected_def some_journalled_def fst_conv by blast
  show "some_journalled env spec old (fst x')"
    if "lawful env \<and> collected env spec old x its" "(case x of (s, its) \<Rightarrow> \<lambda>item. ((s, its @ [item]), Ok ())) item = (x', r)"
    for x its item x' r
  proof -
    have "fst x' = fst x" using that(2) by (cases x) auto
    then show ?thesis using that(1) unfolding collected_def some_journalled_def by (intro exI) auto
  qed
qed (auto simp: lawful_def collected_def)

section \<open>Properties\<close>

text \<open>
  C6. A streaming ingestion journals every item of its request, in order, and nothing else. If
  it succeeds, the journal has one record for each document and each chunk of each mailbox, in
  the order of the request, on top of the records from before, and the store has the leaf block
  of each record, with the content the item resolves to and the embedding of that content. The
  number of items per batch and the order in which tasks complete do not show. If it fails or
  is interrupted at any point, every record that was added still has its leaf block,
  and no record from before is lost.
\<close>

theorem streaming_ingestion_journals_all:
  assumes "ingest_contract env" "joins_all env" "in_ref s = Some ref"
    and "journal_replays (ie_journal env) (in_store s) ref old"
    and "cache_coherent (ie_resolver env) (in_store s) (in_cache s)"
    and "stream_request_ingestion_to_store env dir request spec md limit s = ((s', p), r)"
  shows "\<exists>its ids. list_all2 (leaf_stored env spec (in_store s')) its ids \<and>
    (\<forall>ref'. in_ref s' = Some ref' \<longrightarrow>
       journal_replays (ie_journal env) (in_store s') ref' (rev (batch_records env its ids) @ old)) \<and>
    (r = Ok () \<longrightarrow> delegated env dir request its \<and> con_ids (staged_blocks p) = ids \<and>
       completed_items p = length its \<and> seen_items p = length its \<and> buffered_items p = [])"
proof -
  have start: "lawful env \<and> streamed env spec old (s, stream_start) []"
    using assms(1-5) by (simp add: lawful_def streamed_def stream_start_def no_blocks_def journalled_def batch_records_def)
  obtain x r1 where f: "for_each_request_replay_item env dir request (stream_item env spec md (max limit 1)) (s, stream_start) = (x, r1)"
    by fastforce
  note each = streaming.for_each_taken [OF start f]
  have from_some: ?thesis if "some_journalled env spec old s'" "r \<noteq> Ok ()"
    using that by (auto simp: some_journalled_def journalled_def)
  show ?thesis
  proof (cases r1)
    case (Inl e)
    then show ?thesis using assms(6) f each from_some by (auto simp: stream_request_ingestion_to_store_def)
  next
    case (Inr u)
    then obtain its where its: "delegated env dir request its" "streamed env spec old x its" using each by auto
    have last: "(if buffered_items (snd x) \<noteq> [] then stream_flush env spec md x else (x, Ok ())) = ((s', p), r)"
      using assms(6) f Inr by (simp add: stream_request_ingestion_to_store_def)
    have "streamed env spec old (s', p) its \<and> buffered_items p = [] \<or> r \<noteq> Ok () \<and> some_journalled env spec old s'"
    proof (cases "buffered_items (snd x) = []")
      case True
      then show ?thesis using last its(2) by auto
    next
      case False
      then show ?thesis using last stream_flush_streamed [OF assms(1,2) its(2)] by fastforce
    qed
    then show ?thesis
    proof
      assume "streamed env spec old (s', p) its \<and> buffered_items p = []"
      then have j: "journalled env spec old s' its (con_ids (staged_blocks p))" "completed_items p = length its" "seen_items p = length its"
        "buffered_items p = []" by (auto simp: streamed_def)
      show ?thesis by (rule exI [of _ its], rule exI [of _ "con_ids (staged_blocks p)"]) (use j its(1) in \<open>simp add: journalled_def\<close>)
    qed (use from_some in simp)
  qed
qed

text \<open>A store that can hold the leaf of one document with the metadata \<open>md\<close>, and its journal.\<close>

definition demo_document :: path where
  "demo_document = Path True [lit ''a.txt'']"

definition document_item :: "metadata \<Rightarrow> index_item" where
  "document_item md = \<lparr>item_metadata = md, item_content_ref = DocumentRef demo_document\<rparr>"

definition document_leaf :: "metadata \<Rightarrow> stored_block" where
  "document_leaf md = StoredLeaf \<lparr>leaf_level = 0, leaf_embedding_spec = demo_spec,
     leaf_entries = [\<lparr>stored_metadata = md, stored_embedding = [0, 0, 128, 63],
       stored_content = \<lparr>media_type = lit ''text/plain'', content_body = [65]\<rparr>\<rparr>]\<rparr>"

definition document_env :: "metadata \<Rightarrow> ((rstring \<times> cbor) list, bytes option, rstring \<times> cbor) ingest_env" where
  "document_env md =
     \<lparr>ie_journal = single_record_lib (replay_journal_record_from_item hex_encode [7] (document_item md)),
      ie_mail = \<lparr>parse_mail = \<lambda>_. Err [], get_first_value = \<lambda>_ _. None, encode_value = \<lambda>_. [], into_writer = \<lambda>_. Err [],
        build_custom_block = \<lambda>_ _. Err [], put_versioned = \<lambda>st _. (st, Err (BackendFailure [])), show_hash = hex_encode\<rparr>,
      ie_resolver = \<lparr>get_decoded = \<lambda>_ _. Ok None, into_typed_block = \<lambda>_. Err [], from_reader = \<lambda>_. Err [], sha256 = \<lambda>bs. bs\<rparr>,
      ie_fs = \<lparr>fs_exists = \<lambda>_. True, fs_is_file = \<lambda>_. True, fs_read = \<lambda>_. Ok [65]\<rparr>,
      ie_embed = \<lambda>_ _. Ok [0, 0, 128, 63], ie_embed_order = \<lambda>inputs. map Inr [0..<length inputs],
      ie_build_leaf_block = \<lambda>spec es. Ok \<lparr>leaf_level = 0, leaf_embedding_spec = spec, leaf_entries = es\<rparr>,
      ie_serialize_block = \<lambda>b. if b = document_leaf md then Ok \<lparr>ser_hash = [7], ser_bytes = [1]\<rparr> else Err [],
      ie_deserialize_block = \<lambda>_ _. Ok \<lparr>validated_hash = [7], validated_body = document_leaf md\<rparr>,
      ie_put = \<lambda>st b. if b = document_leaf md then (st, Ok [7]) else (st, Err (BackendFailure [])),
      ie_get = \<lambda>st h. Ok (if h = [7] then Some \<lparr>validated_hash = [7], validated_body = document_leaf md\<rparr> else None),
      ie_join_order = \<lambda>its. map Inr [0..<length its], ie_interrupted = \<lambda>_. False\<rparr>"

lemma document_contract: "ingest_contract (document_env md)"
proof -
  have put: "keeps (document_env md) st st'"
    if "jl_put_versioned (ie_journal (document_env md)) st v = (st', r)" for st v st' r
    using contract_blocks(4) [OF single_record_contract] that by (simp add: keeps_def document_env_def)
  show ?thesis unfolding ingest_contract_def
  proof (intro conjI allI impI, goal_cases)
    case 1
    show ?case using single_record_contract by (simp add: document_env_def)
  next
    case (3 st v st' r)
    then show ?case using put by simp
  qed (auto simp: document_env_def keeps_def split: if_splits)
qed

lemma document_joins: "joins_all (document_env md)"
  by (simp add: joins_all_def document_env_def)

definition document_state :: "((rstring \<times> cbor) list, bytes option) ingest_state" where
  "document_state = \<lparr>in_store = [], in_ref = Some None, in_cache = Map.empty, in_checks = 0\<rparr>"

lemma document_starts:
  "in_ref document_state = Some None" "cache_coherent r (in_store document_state) (in_cache document_state)"
  "journal_replays (ie_journal (document_env md)) (in_store document_state) None []"
  by (simp_all add: document_state_def journal_replays_def load_mutable_ref_store_def single_record_lib_def
      default_ref_state_def document_env_def)

lemma document_file:
  "resolve_file (ie_fs (document_env md)) demo_document (lit ''txt'') (lit ''text/plain'') =
     Ok \<lparr>media_type = lit ''text/plain'', content_body = [65]\<rparr>"
  unfolding document_env_def ingest_env.simps by code_simp

lemma document_resolves:
  "resolve (ie_resolver (document_env md)) (ie_fs (document_env md)) st cache cache' (item_content_ref (document_item md')) =
     (cache', Ok \<lparr>media_type = lit ''text/plain'', content_body = [65]\<rparr>)"
  unfolding document_item_def index_item.simps resolve.simps document_file ..

lemma document_constructed:
  "construct_leaf_block_batch (document_env md) demo_spec st cache [document_item md] =
     (cache, Ok \<lparr>con_ids = [[7]], con_blocks = [\<lparr>ser_hash = [7], ser_bytes = [1]\<rparr>]\<rparr>)"
proof -
  have "embed_batch (ie_embed (document_env md) demo_spec) (ie_embed_order (document_env md) [c]) [c] = Ok [[0, 0, 128, 63]]" for c
    by (simp add: embed_batch_def document_env_def)
  moreover have "build_serialized_leaf (document_env md) demo_spec
     ((document_item md, \<lparr>media_type = lit ''text/plain'', content_body = [65]\<rparr>), [0, 0, 128, 63]) = Ok \<lparr>ser_hash = [7], ser_bytes = [1]\<rparr>"
    by (simp add: build_serialized_leaf_def document_env_def document_item_def document_leaf_def)
  ultimately show ?thesis using document_resolves
    by (simp add: construct_leaf_block_batch_def del: lit_simps)
qed

lemma document_batch:
  "\<exists>s'. ingest_replay_batch_to_store (document_env md) demo_spec None
       (document_state\<lparr>in_checks := n\<rparr>) [document_item md] =
     (s', Ok \<lparr>con_ids = [[7]], con_blocks = [\<lparr>ser_hash = [7], ser_bytes = [1]\<rparr>]\<rparr>)"
proof -
  let ?env = "document_env md" and ?written = "replay_journal_record_from_item hex_encode [7] (document_item md)"
  have b: "build_leaf_blocks_concurrently ?env demo_spec st cache [document_item md] =
      (cache, Ok \<lparr>con_ids = [[7]], con_blocks = [\<lparr>ser_hash = [7], ser_bytes = [1]\<rparr>]\<rparr>)" for st cache
  proof -
    have "ie_join_order ?env [document_item md] = [Inr 0]" by (simp add: document_env_def)
    then show ?thesis
      by (simp add: build_leaf_blocks_concurrently_def document_constructed map_filter_simps extend_constructed_def no_blocks_def)
  qed
  have p: "persist_staged_blocks ?env st [\<lparr>ser_hash = [7], ser_bytes = [1]\<rparr>] = (st, Ok ())" for st
    by (simp add: document_env_def)
  have j: "ie_journal ?env = single_record_lib ?written" "\<not> ie_interrupted ?env k" for k by (simp_all add: document_env_def)
  moreover have "batch_records ?env [document_item md] [[7]] = [?written]"
    by (simp add: batch_records_def j single_record_lib_def)
  moreover obtain st' ref' where
    "publish_replay_journal_and_mutable_refs (single_record_lib ?written) False False ([], None) [?written] None None = ((st', ref'), Ok ())"
    using single_record_publish by blast
  ultimately show ?thesis using b p
    by (simp add: ingest_batch_unless_interrupted store_batch_def build_leaf_blocks_def publish_batch_def document_state_def)
qed

text \<open>A request for that document.\<close>

definition demo_metadata :: metadata where
  "demo_metadata = [(VText (lit ''source_kind''), VText (lit ''document'')), (VText (lit ''source_path''), VText (lit ''/a.txt''))]"

abbreviation demo_ingest_env :: "((rstring \<times> cbor) list, bytes option, rstring \<times> cbor) ingest_env" where
  "demo_ingest_env \<equiv> document_env demo_metadata"

abbreviation demo_request_item :: index_item where
  "demo_request_item \<equiv> document_item demo_metadata"

definition demo_ingest_request :: batch_request where
  "demo_ingest_request = sample_request\<lparr>items := [DocumentItem demo_document []]\<rparr>"

lemma demo_request_items: "to_document_index_items demo_ingest_request dir = [demo_request_item]"
  by (simp add: to_document_index_items_def demo_ingest_request_def document_item_def demo_metadata_def resolve_path_def demo_document_def
      metadata_to_lexongraph_def display_path_def replace_char_def Let_def map_filter_simps)

lemma demo_stream_run:
  "\<exists>s' p. stream_request_ingestion_to_store demo_ingest_env dir demo_ingest_request demo_spec None 1 document_state = ((s', p), Ok ())"
proof -
  obtain s1 where b: "ingest_replay_batch_to_store demo_ingest_env demo_spec None
       (document_state\<lparr>in_checks := 1\<rparr>) [demo_request_item] =
     (s1, Ok \<lparr>con_ids = [[7]], con_blocks = [\<lparr>ser_hash = [7], ser_bytes = [1]\<rparr>]\<rparr>)" using document_batch by blast
  have i: "check_for_interrupt demo_ingest_env s = (s\<lparr>in_checks := Suc (in_checks s)\<rparr>, Ok ())" for s
    by (simp add: check_for_interrupt_def document_env_def)
  have "items demo_ingest_request = [DocumentItem demo_document []]" by (simp add: demo_ingest_request_def)
  then show ?thesis using b
    by (simp add: stream_request_ingestion_to_store_def for_each_request_replay_item_def demo_request_items i stream_item_def
        stream_start_def stream_flush_def document_state_def)
qed

theorem streaming_ingestion_journals_all_witness:
  "\<exists>s' p its ids. stream_request_ingestion_to_store demo_ingest_env (Path True []) demo_ingest_request demo_spec None 1 document_state
     = ((s', p), Ok ()) \<and> delegated demo_ingest_env (Path True []) demo_ingest_request its \<and>
     list_all2 (leaf_stored demo_ingest_env demo_spec (in_store s')) its ids"
proof -
  obtain s' p where r: "stream_request_ingestion_to_store demo_ingest_env (Path True []) demo_ingest_request demo_spec None 1 document_state
      = ((s', p), Ok ())" using demo_stream_run by blast
  from streaming_ingestion_journals_all [OF document_contract document_joins document_starts(1,3,2) r] r show ?thesis by blast
qed

section \<open>Sorted batches\<close>

lemma ingest_batches_journalled:
  assumes c: "lawful env" and s: "journalled env spec old s its ids"
    and i: "ingest_batches env spec md staged batches s = (s', r)"
  shows "some_journalled env spec old s' \<and> (\<forall>out. r = Ok out \<longrightarrow>
    (\<exists>new. con_ids out = con_ids staged @ new \<and> journalled env spec old s' (its @ concat (map batch_items batches)) (ids @ new)))"
  using s i
proof (induction batches arbitrary: s its ids staged)
  case Nil
  then show ?case by (auto simp: some_journalled_def)
next
  case (Cons b bs)
  let ?s = "s\<lparr>in_checks := Suc (in_checks s)\<rparr>"
  have s1: "journalled env spec old ?s its ids" by (rule journalled_kept [OF _ _ _ Cons.prems(1)]) simp_all
  show ?case
  proof (cases "ie_interrupted env (in_checks s)")
    case True
    then show ?thesis using Cons.prems(2) s1 by (auto simp: check_for_interrupt_def some_journalled_def)
  next
    case False
    obtain s2 r1 where r1: "ingest_replay_batch_to_store env spec md ?s (batch_items b) = (s2, r1)" by fastforce
    obtain its' ids' where j: "journalled env spec old s2 its' ids'"
      "\<And>con. r1 = Ok con \<Longrightarrow> its' = its @ batch_items b \<and> ids' = ids @ con_ids con"
      using ingest_batch_journalled [OF _ _ s1 r1] c unfolding lawful_def by metis
    show ?thesis
    proof (cases r1)
      case (Inl e)
      then show ?thesis using Cons.prems(2) False r1 j(1) by (auto simp: check_for_interrupt_def some_journalled_def)
    next
      case (Inr con)
      have "ingest_batches env spec md (extend_constructed staged con) bs s2 = (s', r)"
        using Cons.prems(2) False r1 Inr by (simp add: check_for_interrupt_def)
      from Cons.IH [OF j(1) this] j(2) [OF Inr] show ?thesis by (auto simp: extend_constructed_def)
    qed
  qed
qed

lemma strict_remdups_adj: "sorted xs \<Longrightarrow> sorted_wrt (<) (remdups_adj xs)" for xs :: "rstring list"
  by (induction xs rule: remdups_adj.induct) auto

lemma prepared_items:
  assumes "prepare_request_replay_batches env dir request limit s = (s1, Ok batches)"
    and "lawful env" "journalled env spec old s [] []"
  shows "\<exists>its. delegated env dir request its \<and> journalled env spec old s1 [] [] \<and>
    concat (map batch_items batches) = sort_replay_items its"
proof -
  let ?visit = "\<lambda>(s, its) item. ((s, its @ [item]), Ok ())"
  obtain x r1 where f: "for_each_request_replay_item env dir request ?visit (s, []) = (x, r1)" by fastforce
  have "lawful env \<and> collected env spec old (s, []) []" using assms(2,3) by (simp add: collected_def)
  note each = collecting.for_each_taken [OF this f]
  obtain its where r: "r1 = Ok ()" "x = (s1, its)"
    "batches = annotate_submission_progress_batches EmbeddingProgress (chunk_replay_items (sort_replay_items its) limit)"
    using assms(1) f by (cases x; cases r1) (auto simp: prepare_request_replay_batches_def)
  have "map batch_items batches = chunks (max limit 1) (sort_replay_items its)"
    by (simp add: r(3) annotate_submission_progress_batches_def annotate_loop_items chunk_replay_items_def comp_def)
  then have "concat (map batch_items batches) = sort_replay_items its" by (simp add: concat_chunks)
  then show ?thesis using each r by (auto simp: collected_def)
qed

text \<open>The replay key of an item, as it is compared.\<close>

definition replay_key :: "index_item \<Rightarrow> bytes \<times> (bytes \<times> bytes) list" where
  "replay_key item = key_bytes (replay_sort_key item)"

lemma insert_by_stable:
  "(\<And>a b. c a b = cmp (k a) (k b)) \<Longrightarrow>
   filter (\<lambda>y. k y = v) (insert_by c x ys) = (if k x = v then x # filter (\<lambda>y. k y = v) ys else filter (\<lambda>y. k y = v) ys)"
  by (induction ys) (auto simp: cmp_Greater)

lemma sort_by_stable:
  "(\<And>a b. c a b = cmp (k a) (k b)) \<Longrightarrow> filter (\<lambda>y. k y = v) (sort_by c xs) = filter (\<lambda>y. k y = v) xs"
  by (induction xs) (simp_all add: sort_by_def insert_by_stable)

lemma sorted_replay_items:
  "mset (sort_replay_items its) = mset its" "sorted (map replay_key (sort_replay_items its))"
  "filter (\<lambda>i. replay_key i = k) (sort_replay_items its) = filter (\<lambda>i. replay_key i = k) its"
  using sorted_sort_key [of replay_key_cmp replay_key its] sort_by_stable [of replay_key_cmp replay_key k its]
  by (simp_all add: sort_replay_items_def replay_key_def replay_key_cmp_def)

text \<open>
  C17. An ingestion that sorts first journals the same items, in the order of their replay keys.
  If preparing the batches and running them succeeds, the journal has exactly one record for each
  item of the request, on top of the records from before: the items are those of the request, each
  as often as there, ordered by replay key, and items with equal keys in the order of the request.
  Each has its leaf block in the store, and the summary lists exactly the ids of these leaves,
  sorted and without duplicates.
\<close>

theorem sorted_ingestion_journals_all:
  assumes "ingest_contract env" "joins_all env" "in_ref s = Some ref"
    and "journal_replays (ie_journal env) (in_store s) ref old"
    and "cache_coherent (ie_resolver env) (in_store s) (in_cache s)"
    and "prepare_request_replay_batches env dir request limit s = (s1, Ok batches)"
    and "run_ingestion_only_stage env spec md batches s1 = (s', Ok summary)"
  shows "\<exists>its ordered ids. delegated env dir request its \<and>
    mset ordered = mset its \<and> sorted (map replay_key ordered) \<and>
    (\<forall>k. filter (\<lambda>i. replay_key i = k) ordered = filter (\<lambda>i. replay_key i = k) its) \<and>
    list_all2 (leaf_stored env spec (in_store s')) ordered ids \<and>
    length (batch_records env ordered ids) = length its \<and>
    (\<forall>ref'. in_ref s' = Some ref' \<longrightarrow>
       journal_replays (ie_journal env) (in_store s') ref' (rev (batch_records env ordered ids) @ old)) \<and>
    sum_root_id summary = placeholder_root_id \<and>
    set (sum_block_ids summary) = jl_disp (ie_journal env) ` set ids \<and> sorted_wrt (<) (sum_block_ids summary) \<and>
    sum_block_count summary = length (sum_block_ids summary)"
proof -
  have law: "lawful env" using assms(1,2) by (simp add: lawful_def)
  have "journalled env spec old s [] []" using assms(3-5) by (simp add: journalled_def batch_records_def)
  from prepared_items [OF assms(6) law this]
  obtain its where its: "delegated env dir request its" "journalled env spec old s1 [] []"
    "concat (map batch_items batches) = sort_replay_items its" by blast
  obtain out where out: "ingest_batches env spec md no_blocks batches s1 = (s', Ok out)"
    "summary = into_summary (jl_disp (ie_journal env)) out placeholder_root_id"
    using assms(7) by (auto simp: run_ingestion_only_stage_def result_simps)
  from ingest_batches_journalled [OF law its(2) out(1)]
  have j: "journalled env spec old s' (sort_replay_items its) (con_ids out)" by (simp add: its(3) no_blocks_def)
  let ?ids = "remdups_adj (sort (map (jl_disp (ie_journal env)) (con_ids out)))"
  have "sorted_wrt (<) ?ids" by (rule strict_remdups_adj) simp
  moreover have "length (batch_records env (sort_replay_items its) (con_ids out)) = length its"
    using j list_all2_lengthD [of _ "sort_replay_items its" "con_ids out"]
    by (auto simp: batch_records_def journalled_def sort_replay_items_def)
  ultimately show ?thesis using its(1) j sorted_replay_items [where its = its]
    by (intro exI [of _ its] exI [of _ "sort_replay_items its"] exI [of _ "con_ids out"])
      (simp add: journalled_def out(2) into_summary_def Let_def)
qed

lemma demo_sorted_run:
  "\<exists>s1 batches s' summary. prepare_request_replay_batches demo_ingest_env dir demo_ingest_request 1 document_state = (s1, Ok batches) \<and>
     run_ingestion_only_stage demo_ingest_env demo_spec None batches s1 = (s', Ok summary)"
proof -
  have i: "check_for_interrupt demo_ingest_env s = (s\<lparr>in_checks := Suc (in_checks s)\<rparr>, Ok ())" for s
    by (simp add: check_for_interrupt_def document_env_def)
  have "items demo_ingest_request = [DocumentItem demo_document []]" by (simp add: demo_ingest_request_def)
  moreover have "sort_replay_items [demo_request_item] = [demo_request_item]" by (simp add: sort_replay_items_def sort_by_def)
  ultimately have "prepare_request_replay_batches demo_ingest_env dir demo_ingest_request 1 document_state =
      (document_state\<lparr>in_checks := 2\<rparr>,
       Ok (annotate_submission_progress_batches EmbeddingProgress [\<lparr>batch_items = [demo_request_item], audit_records = [], completion_message = None\<rparr>]))"
    by (simp add: prepare_request_replay_batches_def for_each_request_replay_item_def demo_request_items i document_state_def
        chunk_replay_items_def chunks_small)
  moreover obtain s' where "ingest_replay_batch_to_store demo_ingest_env demo_spec None (document_state\<lparr>in_checks := 3\<rparr>) [demo_request_item] =
      (s', Ok \<lparr>con_ids = [[7]], con_blocks = [\<lparr>ser_hash = [7], ser_bytes = [1]\<rparr>]\<rparr>)" using document_batch by blast
  ultimately show ?thesis
    by (simp add: run_ingestion_only_stage_def annotate_submission_progress_batches_def i document_state_def eval_nat_numeral)
qed

theorem sorted_ingestion_journals_all_witness:
  "\<exists>s1 batches s' summary its ordered ids. prepare_request_replay_batches demo_ingest_env (Path True []) demo_ingest_request 1 document_state = (s1, Ok batches) \<and>
     run_ingestion_only_stage demo_ingest_env demo_spec None batches s1 = (s', Ok summary) \<and>
     delegated demo_ingest_env (Path True []) demo_ingest_request its \<and>
     mset ordered = mset its \<and> sorted (map replay_key ordered) \<and>
     list_all2 (leaf_stored demo_ingest_env demo_spec (in_store s')) ordered ids"
proof -
  obtain s1 batches s' summary where r: "prepare_request_replay_batches demo_ingest_env (Path True []) demo_ingest_request 1 document_state = (s1, Ok batches)"
    "run_ingestion_only_stage demo_ingest_env demo_spec None batches s1 = (s', Ok summary)" using demo_sorted_run by blast
  from sorted_ingestion_journals_all [OF document_contract document_joins document_starts(1,3,2) r]
  obtain its ordered ids where "delegated demo_ingest_env (Path True []) demo_ingest_request its"
    "mset ordered = mset its" "sorted (map replay_key ordered)"
    "list_all2 (leaf_stored demo_ingest_env demo_spec (in_store s')) ordered ids" by (elim exE conjE)
  then show ?thesis using r
    by (intro exI [of _ s1] exI [of _ batches] exI [of _ s'] exI [of _ summary] exI [of _ its] exI [of _ ordered] exI [of _ ids] conjI)
qed

end
