(* ===== verification/Ingestion_Replay.thy ===== *)
theory Ingestion_Replay
  imports Ingestion_Run
begin

text \<open>
  From ingestion to replay: what was ingested loads again with its metadata, its record and
  its embedding, and the metadata of a request under which it does not.
\<close>

section \<open>Metadata\<close>

lemma map_of_bmap_collect: "map_of (bmap_collect kvs) = map_of (rev kvs)"
  unfolding bmap_collect_def
  by (induction kvs rule: rev_induct) (auto simp: map_of_bmap_insert)

lemma lexongraph_fields:
  "map_of (metadata_to_text_map (metadata_to_lexongraph m source_kind p)) k =
     (case map_of (rev m) k of
        Some v \<Rightarrow> Some v
      | None \<Rightarrow> if k = lit ''source_path'' then Some (normalize_replay_journal_path p)
                else if k = lit ''source_kind'' then Some source_kind else None)"
proof -
  have "List.map_filter text_pair (map (\<lambda>(k, v). (VText k, VText v)) m) = m"
    by (induction m) auto
  then have "List.map_filter text_pair (metadata_to_lexongraph m source_kind p) =
      (lit ''source_kind'', source_kind) # (lit ''source_path'', normalize_replay_journal_path p) # m"
    by (simp add: metadata_to_lexongraph_def normalize_replay_journal_path_def)
  then show ?thesis
    by (simp add: metadata_to_text_map_def metadata_values_to_text_map_collect map_of_bmap_collect map_add_def split: option.splits)
qed

section \<open>Loading what was stored\<close>

text \<open>The identity a leaf replays with, from its metadata.\<close>

definition replays_as :: "index_item \<Rightarrow> replay_identity \<Rightarrow> bool" where
  "replays_as item identity \<longleftrightarrow>
     (let f = map_of (metadata_to_text_map (item_metadata item)) in
      case identity of
        DocumentIdentity p \<Rightarrow> f (lit ''source_kind'') = Some (lit ''document'') \<and> f (lit ''source_path'') = Some p
      | EmailChunkIdentity r i \<Rightarrow> f (lit ''source_kind'') = Some (lit ''email'') \<and> f (lit ''email_artifact_ref'') = Some r \<and>
          (\<exists>n. Option.bind (f (lit ''chunk_index'')) parse_u64 = Some n \<and> unat n = i))"

lemma stored_item_replays:
  assumes "leaf_stored env spec st item block_id" "spec_dims spec \<noteq> 0" "\<forall>c e. ie_embed env spec c = Ok e \<longrightarrow> e \<noteq> []"
    and "replays_as item identity"
  shows "\<exists>c e. resolved env st item c \<and> ie_embed env spec c = Ok e \<and>
    (\<exists>v. ie_get env st block_id = Ok (Some v) \<and> validated_hash v = block_id \<and>
      replay_item_from_validated_block disp spec v = Ok (Some (\<lparr>item_metadata = item_metadata item,
        item_content_ref = StoredReplay (media_type c) (content_body c) identity\<rparr>, e)))"
proof -
  obtain c e where ce: "resolved env st item c" "ie_embed env spec c = Ok e"
    and g: "ie_get env st block_id = Ok (Some \<lparr>validated_hash = block_id, validated_body = StoredLeaf
       \<lparr>leaf_level = 0, leaf_embedding_spec = spec,
        leaf_entries = [\<lparr>stored_metadata = item_metadata item, stored_embedding = e, stored_content = c\<rparr>]\<rparr>\<rparr>)"
    using assms(1) by (auto simp: leaf_stored_def)
  have "e \<noteq> []" using assms(3) ce(2) by blast
  then have "replay_item_from_validated_block disp spec \<lparr>validated_hash = block_id, validated_body = StoredLeaf
       \<lparr>leaf_level = 0, leaf_embedding_spec = spec,
        leaf_entries = [\<lparr>stored_metadata = item_metadata item, stored_embedding = e, stored_content = c\<rparr>]\<rparr>\<rparr> =
      Ok (Some (\<lparr>item_metadata = item_metadata item,
        item_content_ref = StoredReplay (media_type c) (content_body c) identity\<rparr>, e))"
    using assms(2,4)
    by (cases identity) (auto simp: replay_item_from_validated_block_def replayable_entry_def replays_as_def Let_def)
  then show ?thesis using ce g by auto
qed

lemma ingested_loads:
  assumes "leaf_stored env spec st item block_id" "spec_dims spec \<noteq> 0" "\<forall>c e. ie_embed env spec c = Ok e \<longrightarrow> e \<noteq> []"
    and "rl_get lib = ie_get env st"
    and "replays_as item identity" "\<And>mt body. item_text_ok (StoredReplay mt body identity)"
    and "\<And>mt body. journal_content_ref (StoredReplay mt body identity) = journal_content_ref (item_content_ref item)"
    and "replay_journal_record_sort_key_digest (rl_sha256 lib) (replay_journal_record_from_item (rl_disp lib) block_id item) = Some digest"
  shows "\<exists>c l. load_replay_batch_entry lib spec \<lparr>entry_block_id = block_id, entry_digest = digest\<rparr> = Ok l \<and>
    resolved env st item c \<and> ie_embed env spec c = Ok (loaded_embedding l) \<and>
    loaded_item l = \<lparr>item_metadata = item_metadata item, item_content_ref = StoredReplay (media_type c) (content_body c) identity\<rparr> \<and>
    loaded_record l = replay_journal_record_from_item (rl_disp lib) block_id item"
proof -
  obtain c e v where ce: "resolved env st item c" "ie_embed env spec c = Ok e"
    and v: "ie_get env st block_id = Ok (Some v)" "validated_hash v = block_id"
    and i: "replay_item_from_validated_block (rl_disp lib) spec v = Ok (Some (\<lparr>item_metadata = item_metadata item,
        item_content_ref = StoredReplay (media_type c) (content_body c) identity\<rparr>, e))"
    using stored_item_replays [OF assms(1-3,5), of "rl_disp lib"] by blast
  let ?item = "\<lparr>item_metadata = item_metadata item, item_content_ref = StoredReplay (media_type c) (content_body c) identity\<rparr>"
  have rec: "replay_journal_record_from_item (rl_disp lib) block_id ?item = replay_journal_record_from_item (rl_disp lib) block_id item"
    using assms(7) by (simp add: replay_journal_record_from_item_def)
  have "Some digest = Some (replay_sort_key_digest (rl_sha256 lib) ?item)"
    using record_digest [of ?item "rl_sha256 lib" "rl_disp lib" block_id] assms(6,8) unfolding rec by simp
  moreover obtain h where "replay_embedding_input_hash (rl_sha256 lib) spec v = Some h" using replayed_input_hash [OF i] by blast
  ultimately have "load_replay_batch_entry lib spec \<lparr>entry_block_id = block_id, entry_digest = digest\<rparr> =
      Ok \<lparr>loaded_item = ?item, loaded_record = replay_journal_record_from_item (rl_disp lib) block_id item,
          loaded_input_hash = h, loaded_embedding = e\<rparr>"
    using v i assms(4) rec
    by (simp add: load_replay_batch_entry_def load_replay_batch_entry_from_validated_def Let_def del: lit_simps)
  then show ?thesis using ce by auto
qed

section \<open>Items of a request\<close>

lemma map_of_rev_None: "k \<notin> fst ` set m \<Longrightarrow> map_of (rev m) k = None"
  by (auto simp: map_of_eq_None_iff)

lemma document_replays_as:
  assumes "to_document_index_item dir (DocumentItem q m) = Some item"
    and "lit ''source_kind'' \<notin> fst ` set m" "lit ''source_path'' \<notin> fst ` set m"
  shows "replays_as item (DocumentIdentity (normalize_replay_journal_path (resolve_path dir q)))"
    and "item_content_ref item = DocumentRef (resolve_path dir q)"
  using assms map_of_rev_None [OF assms(2)] map_of_rev_None [OF assms(3)]
  by (auto simp: replays_as_def Let_def lexongraph_fields simp del: lit_simps) (simp_all)

text \<open>The metadata of a mailbox item is a sorted map, so the order of lookup does not matter.\<close>

lemma map_of_rev_sorted: "sorted_wrt (<) (map fst m) \<Longrightarrow> map_of (rev m) = map_of m" for m :: bmap
proof -
  assume "sorted_wrt (<) (map fst m)"
  then have "distinct (map fst m)" by (simp add: strict_sorted_iff)
  then show ?thesis by (intro map_of_inject_set [THEN iffD2]) (simp_all add: rev_map [symmetric])
qed

lemma opt_insert_props:
  "sorted_wrt (<) (map fst m) \<Longrightarrow> sorted_wrt (<) (map fst (opt_insert k v m))"
  "map_of (opt_insert k v m) = (case v of Some t \<Rightarrow> (map_of m)(k \<mapsto> t) | None \<Rightarrow> map_of m)"
  by (auto simp: opt_insert_def sorted_bmap_insert map_of_bmap_insert split: option.splits)

lemma chunk_item_replays_as:
  assumes "sorted_wrt (<) (map fst base)" "lit ''source_kind'' \<notin> fst ` set base" "i < 2 ^ 64"
  shows "replays_as (chunk_item base p mailbox_ref email_ref a i) (EmailChunkIdentity email_ref i)"
proof -
  have none: "map_of base (lit ''source_kind'') = None" using assms(2) by (simp add: map_of_eq_None_iff)
  have "unat (of_nat i :: u64) = i" using assms(3) by (simp add: unat_of_nat)
  then show ?thesis using assms(1) none parse_u64_show_nat [OF assms(3)]
    by (simp add: replays_as_def chunk_item_def build_chunk_metadata_def Let_def lexongraph_fields map_of_rev_sorted
        opt_insert_props sorted_bmap_insert map_of_bmap_insert split: option.splits)
qed

lemma expanded_are_chunks:
  assumes "expand_mailbox_item_with_stats m fs st p base = (st', Ok e)" "item \<in> set (exp_items e)"
  shows "\<exists>mailbox_ref email_ref a i. item = chunk_item base p mailbox_ref email_ref a i"
proof -
  have message: "\<exists>mref eref a i. x = chunk_item base p mref eref a i"
    if "expand_message m st p base mref k msg = (st', Ok found)" "x \<in> set found" for st mref k msg st' found x
    using that by (auto simp: expand_message_def Let_def result_simps split: sum.splits) blast
  have "\<exists>mref eref a i. x = chunk_item base p mref eref a i"
    if "expand_messages m st p base mref k msgs = (st', Ok found)" "x \<in> set found" for st mref k msgs st' found x
    using that
  proof (induction msgs arbitrary: st k found)
    case (Cons msg msgs)
    obtain st1 first rest where "expand_message m st p base mref k msg = (st1, Ok first)"
      "expand_messages m st1 p base mref (Suc k) msgs = (st', Ok rest)" "found = first @ rest"
      using Cons.prems(1) by (auto simp: result_simps)
    then show ?case using Cons.IH Cons.prems(2) message by auto
  qed simp
  then show ?thesis using assms
    by (auto simp: expand_mailbox_item_with_stats_def Let_def result_simps split: sum.splits if_splits)
qed

text \<open>Metadata of a request that does not use the two keys the indexer adds.\<close>

fun own_metadata :: "batch_item_config \<Rightarrow> bmap" where
  "own_metadata (DocumentItem q m) = m"
| "own_metadata (MailboxItem q m) = m"

definition metadata_unreserved :: "batch_item_config \<Rightarrow> bool" where
  "metadata_unreserved config \<longleftrightarrow> sorted_wrt (<) (map fst (own_metadata config)) \<and>
     lit ''source_kind'' \<notin> fst ` set (own_metadata config) \<and> lit ''source_path'' \<notin> fst ` set (own_metadata config)"

fun index_fits :: "content_ref \<Rightarrow> bool" where
  "index_fits (EmailChunkRef r i) = (i < 2 ^ 64)"
| "index_fits _ = True"

lemma delegated_identity:
  assumes d: "delegated env dir request its" and u: "\<forall>config \<in> set (items request). metadata_unreserved config"
    and i: "item \<in> set its" "item_text_ok (item_content_ref item)" "index_fits (item_content_ref item)"
  shows "\<exists>identity. replays_as item identity \<and> (\<forall>mt body. item_text_ok (StoredReplay mt body identity) \<and>
    journal_content_ref (StoredReplay mt body identity) = journal_content_ref (item_content_ref item))"
proof -
  obtain found where f: "list_all2 (expansion env dir) (items request) found"
    "its = to_document_index_items request dir @ concat found" using d by (auto simp: delegated_def)
  consider config where "config \<in> set (items request)" "to_document_index_item dir config = Some item"
    | config xs where "config \<in> set (items request)" "expansion env dir config xs" "item \<in> set xs"
  proof -
    assume doc: "\<And>config. config \<in> set (items request) \<Longrightarrow> to_document_index_item dir config = Some item \<Longrightarrow> thesis"
      and mail: "\<And>config xs. config \<in> set (items request) \<Longrightarrow> expansion env dir config xs \<Longrightarrow> item \<in> set xs \<Longrightarrow> thesis"
    show thesis
    proof (cases "item \<in> set (to_document_index_items request dir)")
      case True
      then show thesis using doc by (auto simp: to_document_index_items_def map_filter_def)
    next
      case False
      then obtain xs where "xs \<in> set found" "item \<in> set xs" using i(1) f(2) by auto
      then obtain n where "n < length found" "item \<in> set (found ! n)" using in_set_conv_nth [of xs found] by blast
      then show thesis using mail [of "items request ! n" "found ! n"] f(1) by (auto simp: list_all2_conv_all_nth)
    qed
  qed
  then show ?thesis
  proof cases
    case 1
    obtain q m where q: "config = DocumentItem q m" using 1(2) by (cases config rule: batch_item_config.exhaust) auto
    note doc = document_replays_as [of dir q m item, OF 1(2) [unfolded q]]
    have "replays_as item (DocumentIdentity (normalize_replay_journal_path (resolve_path dir q)))"
      "item_content_ref item = DocumentRef (resolve_path dir q)"
      using doc u 1(1) q by (auto simp: metadata_unreserved_def simp del: lit_simps)
    moreover have "item_text_ok (StoredReplay mt body (DocumentIdentity (normalize_replay_journal_path (resolve_path dir q))))" for mt body
      using i(2) calculation(2) by (auto simp: normalize_replay_journal_path_def replace_char_def is_scalar_def split: if_splits)
    moreover have "normalize_document_identity_path (normalize_replay_journal_path x) = normalize_replay_journal_path x" for x
      using normalize_idem [of "display_path x"] by (simp add: normalize_replay_journal_path_def normalize_document_identity_path_def)
    ultimately show ?thesis by (intro exI [of _ "DocumentIdentity (normalize_replay_journal_path (resolve_path dir q))"]) simp
  next
    case 2
    obtain q m where q: "config = MailboxItem q m" using 2(2,3) by (cases config rule: batch_item_config.exhaust) (auto simp: expansion_def)
    then obtain st st' e where x: "expand_mailbox_item_with_stats (ie_mail env) (ie_fs env) st (resolve_path dir q) m = (st', Ok e)" "xs = exp_items e"
      using 2(2,3) by (auto simp: expansion_def)
    then obtain mref eref a n where n: "item = chunk_item m (resolve_path dir q) mref eref a n"
      using expanded_are_chunks [OF x(1)] 2(3) x(2) by blast
    then have c: "item_content_ref item = EmailChunkRef eref n" by (simp add: chunk_item_def)
    have "metadata_unreserved (MailboxItem q m)" using u 2(1) q by simp
    then have "replays_as item (EmailChunkIdentity eref n)"
      unfolding n using i(3) c by (intro chunk_item_replays_as) (simp_all add: metadata_unreserved_def del: lit_simps)
    then show ?thesis using c by (intro exI [of _ "EmailChunkIdentity eref n"]) simp
  qed
qed

section \<open>Properties\<close>

text \<open>
  C7. What was ingested replays. Take the items of a request and their leaf blocks as an
  ingestion leaves them, and requests whose own metadata leaves the keys \<^verbatim>\<open>source_kind\<close> and
  \<^verbatim>\<open>source_path\<close> alone; embeddings have at least one dimension and are not empty, text is well
  formed and chunk indices fit a \<^verbatim>\<open>u64\<close>. Then the entry made from the journal record of any item
  loads again: it passes the check against its block and gives the metadata and the record of the
  item, the content the item resolves to, and the embedding of that content.
\<close>

theorem ingested_items_replay:
  assumes "delegated env dir request its" "list_all2 (leaf_stored env spec st) its ids"
    and "spec_dims spec \<noteq> 0" "\<forall>c e. ie_embed env spec c = Ok e \<longrightarrow> e \<noteq> []" "rl_get lib = ie_get env st"
    and "\<forall>config \<in> set (items request). metadata_unreserved config"
    and "(item, block_id) \<in> set (zip its ids)" "item_text_ok (item_content_ref item)" "index_fits (item_content_ref item)"
    and "replay_journal_record_sort_key_digest (rl_sha256 lib) (replay_journal_record_from_item (rl_disp lib) block_id item) = Some digest"
  shows "\<exists>c l identity. load_replay_batch_entry lib spec \<lparr>entry_block_id = block_id, entry_digest = digest\<rparr> = Ok l \<and>
    resolved env st item c \<and> ie_embed env spec c = Ok (loaded_embedding l) \<and>
    loaded_item l = \<lparr>item_metadata = item_metadata item, item_content_ref = StoredReplay (media_type c) (content_body c) identity\<rparr> \<and>
    loaded_record l = replay_journal_record_from_item (rl_disp lib) block_id item"
proof -
  have item: "item \<in> set its" using assms(7) by (rule set_zip_leftD)
  have "leaf_stored env spec st item block_id" using assms(2,7) by (auto simp: list_all2_iff)
  moreover obtain identity where "replays_as item identity" "\<And>mt body. item_text_ok (StoredReplay mt body identity)"
    "\<And>mt body. journal_content_ref (StoredReplay mt body identity) = journal_content_ref (item_content_ref item)"
    using delegated_identity [OF assms(1,6) item assms(8,9)] by blast
  ultimately show ?thesis using ingested_loads [OF _ assms(3,4,5) _ _ _ assms(10)] by blast
qed

definition demo_ingested_lib :: replay_lib where
  "demo_ingested_lib = \<lparr>rl_disp = hex_encode, rl_sha256 = \<lambda>bs. bs, rl_get = ie_get demo_ingest_env []\<rparr>"

lemma document_leaf_stored: "leaf_stored (document_env md) demo_spec st (document_item md) [7]"
proof -
  let ?c = "\<lparr>media_type = lit ''text/plain'', content_body = [65]\<rparr>"
  have "resolved (document_env md) st (document_item md) ?c" unfolding resolved_def document_resolves by simp
  then show ?thesis unfolding leaf_stored_def
    by (intro exI [of _ ?c] exI [of _ "[0, 0, 128, 63]"]) (simp add: document_env_def document_leaf_def document_item_def)
qed

lemma demo_delegated: "delegated demo_ingest_env dir demo_ingest_request [demo_request_item]"
  by (simp add: delegated_def demo_request_items) (simp add: demo_ingest_request_def expansion_def list_all2_Cons1)

theorem ingested_items_replay_witness:
  "\<exists>digest l. replay_journal_record_sort_key_digest (rl_sha256 demo_ingested_lib)
       (replay_journal_record_from_item (rl_disp demo_ingested_lib) [7] demo_request_item) = Some digest \<and>
     load_replay_batch_entry demo_ingested_lib demo_spec \<lparr>entry_block_id = [7], entry_digest = digest\<rparr> = Ok l \<and>
     item_metadata (loaded_item l) = item_metadata demo_request_item"
proof -
  have t: "item_text_ok (item_content_ref demo_request_item)" "index_fits (item_content_ref demo_request_item)"
    by (simp_all add: document_item_def demo_document_def display_path_def is_scalar_def)
  obtain digest where d: "replay_journal_record_sort_key_digest (rl_sha256 demo_ingested_lib)
      (replay_journal_record_from_item (rl_disp demo_ingested_lib) [7] demo_request_item) = Some digest"
    using record_digest [OF t(1)] by blast
  have u: "\<forall>config \<in> set (items demo_ingest_request). metadata_unreserved config"
    by (simp add: demo_ingest_request_def metadata_unreserved_def)
  have "list_all2 (leaf_stored demo_ingest_env demo_spec []) [demo_request_item] [[7]]" using document_leaf_stored by simp
  from ingested_items_replay [OF demo_delegated [of "Path True []"] this _ _ _ u _ t d]
  have "\<exists>c l identity. load_replay_batch_entry demo_ingested_lib demo_spec \<lparr>entry_block_id = [7], entry_digest = digest\<rparr> = Ok l \<and>
    resolved demo_ingest_env [] demo_request_item c \<and> ie_embed demo_ingest_env demo_spec c = Ok (loaded_embedding l) \<and>
    loaded_item l = \<lparr>item_metadata = item_metadata demo_request_item, item_content_ref = StoredReplay (media_type c) (content_body c) identity\<rparr> \<and>
    loaded_record l = replay_journal_record_from_item (rl_disp demo_ingested_lib) [7] demo_request_item"
    by (simp add: demo_ingested_lib_def demo_spec_def document_env_def del: lit_simps)
  then show ?thesis using d by fastforce
qed

text \<open>An entry of a leaf whose kind is not one the indexer knows.\<close>

lemma unknown_kind_never_loads:
  assumes "to_document_index_item dir (DocumentItem q m) = Some item" "sorted_wrt (<) (map fst m)"
    and "(lit ''source_kind'', kind) \<in> set m" "kind \<noteq> lit ''document''" "kind \<noteq> lit ''email''"
    and "leaf_stored env spec st item block_id" "rl_get lib = ie_get env st"
  shows "load_replay_batch_entry lib spec \<lparr>entry_block_id = block_id, entry_digest = digest\<rparr> =
    Err (MissingReplayMetadata (rl_disp lib block_id))"
proof -
  obtain c e where g: "ie_get env st block_id = Ok (Some \<lparr>validated_hash = block_id, validated_body = StoredLeaf
       \<lparr>leaf_level = 0, leaf_embedding_spec = spec,
        leaf_entries = [\<lparr>stored_metadata = item_metadata item, stored_embedding = e, stored_content = c\<rparr>]\<rparr>\<rparr>)"
    (is "_ = Ok (Some ?v)") using assms(6) by (auto simp: leaf_stored_def)
  have "map_of (rev m) (lit ''source_kind'') = Some kind"
    using assms(2,3) by (simp add: map_of_rev_sorted strict_sorted_iff map_of_is_SomeI del: lit_simps)
  then have k: "map_of (metadata_to_text_map (item_metadata item)) (lit ''source_kind'') = Some kind"
    using assms(1) by (auto simp: Let_def lexongraph_fields simp del: lit_simps)
  have "replay_item_from_validated_block (rl_disp lib) spec ?v = Ok None"
    using k assms(4,5) by (simp add: replay_item_from_validated_block_def replayable_entry_def Let_def del: lit_simps)
  then show ?thesis using g assms(7)
    by (cases "replay_embedding_input_hash (rl_sha256 lib) spec ?v")
      (simp_all add: load_replay_batch_entry_def load_replay_batch_entry_from_validated_def Let_def del: lit_simps)
qed

lemma batch_with_unloadable:
  assumes "schedules_finish renv" "e \<in> set entries" "load_replay_batch_entry (env_lib renv) (env_spec renv) e = Err err"
  shows "\<exists>err. replay_batch_from_entries renv limit entries = Err err"
proof -
  have "load_replay_batch_entries (env_lib renv) (env_spec renv) entries \<noteq> Ok loads" for loads
    using assms(2,3) try_map_Inr_nth [of "load_replay_batch_entry (env_lib renv) (env_spec renv)" entries loads]
    by (auto simp: load_replay_batch_entries_def in_set_conv_nth)
  then show ?thesis using replay_batch_from_entries_eq [OF assms(1), of limit entries]
    by (cases "load_replay_batch_entries (env_lib renv) (env_spec renv) entries") auto
qed

text \<open>
  C34. Metadata of a request can poison its journal. Nothing reserves the key \<^verbatim>\<open>source_kind\<close>. Take
  a document whose metadata sets it to anything but the two kinds the indexer knows, and a batch
  with it that was ingested. Its leaf block is in the store and the records of the batch, its own
  among them, are in the journal, as for any other batch; but every entry with the id of its block
  fails to load, whatever its digest, and so does every batch of entries that contains one.
\<close>

theorem reserved_metadata_blocks_replay:
  assumes "to_document_index_item dir (DocumentItem q m) = Some item" "sorted_wrt (<) (map fst m)"
    and "(lit ''source_kind'', kind) \<in> set m" "kind \<noteq> lit ''document''" "kind \<noteq> lit ''email''"
    and "ingest_contract env" "joins_all env" "in_ref s = Some ref"
    and "journal_replays (ie_journal env) (in_store s) ref old"
    and "cache_coherent (ie_resolver env) (in_store s) (in_cache s)"
    and "item \<in> set its" "ingest_replay_batch_to_store env spec md s its = (s', Ok constructed)"
    and "rl_get (env_lib renv) = ie_get env (in_store s')" "env_spec renv = spec" "schedules_finish renv"
  shows "\<exists>block_id. (item, block_id) \<in> set (zip its (con_ids constructed)) \<and>
    leaf_stored env spec (in_store s') item block_id \<and>
    (\<forall>ref'. in_ref s' = Some ref' \<longrightarrow>
       journal_replays (ie_journal env) (in_store s') ref' (rev (batch_records env its (con_ids constructed)) @ old)) \<and>
    (\<forall>digest. load_replay_batch_entry (env_lib renv) spec \<lparr>entry_block_id = block_id, entry_digest = digest\<rparr> =
       Err (MissingReplayMetadata (rl_disp (env_lib renv) block_id))) \<and>
    (\<forall>limit entries. block_id \<in> entry_block_id ` set entries \<longrightarrow>
       (\<exists>err. replay_batch_from_entries renv limit entries = Err err))"
proof -
  have "journalled env spec old s [] []" using assms(8-10) by (simp add: journalled_def batch_records_def)
  from ingest_batch_journalled [OF assms(6,7) this assms(12)]
  have j: "journalled env spec old s' its (con_ids constructed)" by auto
  then have l: "list_all2 (leaf_stored env spec (in_store s')) its (con_ids constructed)" by (simp add: journalled_def)
  obtain i where i: "i < length its" "its ! i = item" using assms(11) by (auto simp: in_set_conv_nth)
  let ?id = "con_ids constructed ! i"
  have leaf: "leaf_stored env spec (in_store s') item ?id" "(item, ?id) \<in> set (zip its (con_ids constructed))"
    using l i by (auto simp: list_all2_conv_all_nth in_set_zip)
  note never = unknown_kind_never_loads [OF assms(1-5) leaf(1) assms(13)]
  have "\<exists>err. replay_batch_from_entries renv limit entries = Err err" if entry: "?id \<in> entry_block_id ` set entries" for limit entries
  proof -
    obtain e where "e \<in> set entries" "entry_block_id e = ?id" using entry by force
    moreover have "\<lparr>entry_block_id = entry_block_id e, entry_digest = entry_digest e\<rparr> = e" by simp
    ultimately have "load_replay_batch_entry (env_lib renv) (env_spec renv) e = Err (MissingReplayMetadata (rl_disp (env_lib renv) ?id))"
      using never [of "entry_digest e"] assms(14) by metis
    from batch_with_unloadable [OF assms(15) \<open>e \<in> set entries\<close> this] show ?thesis .
  qed
  then show ?thesis using leaf never j by (intro exI [of _ ?id]) (auto simp: journalled_def)
qed

definition memo_metadata :: metadata where
  "memo_metadata = demo_metadata @ [(VText (lit ''source_kind''), VText (lit ''memo''))]"

definition memo_replay_env :: "(rstring \<times> cbor) list \<Rightarrow> replay_env" where
  "memo_replay_env st = \<lparr>env_lib = \<lparr>rl_disp = hex_encode, rl_sha256 = \<lambda>bs. bs, rl_get = ie_get (document_env memo_metadata) st\<rparr>,
     env_spec = demo_spec, env_parallelism = 2, env_schedule = eager_schedule\<rparr>"

theorem reserved_metadata_blocks_replay_witness:
  "\<exists>s' constructed block_id. ingest_replay_batch_to_store (document_env memo_metadata) demo_spec None
       (document_state\<lparr>in_checks := 0\<rparr>) [document_item memo_metadata] = (s', Ok constructed) \<and>
     block_id \<in> set (con_ids constructed) \<and>
     (\<exists>err. replay_batch_from_entries (memo_replay_env (in_store s')) 1
        [\<lparr>entry_block_id = block_id, entry_digest = []\<rparr>] = Err err)"
proof -
  let ?env = "document_env memo_metadata" and ?s = "document_state\<lparr>in_checks := 0\<rparr>"
  let ?con = "\<lparr>con_ids = [[7]], con_blocks = [\<lparr>ser_hash = [7], ser_bytes = [1]\<rparr>]\<rparr>"
  obtain s' where r: "ingest_replay_batch_to_store ?env demo_spec None ?s [document_item memo_metadata] = (s', Ok ?con)"
    using document_batch by blast
  have i: "to_document_index_item (Path True []) (DocumentItem demo_document [(lit ''source_kind'', lit ''memo'')]) =
      Some (document_item memo_metadata)"
    by (simp add: document_item_def memo_metadata_def demo_metadata_def resolve_path_def demo_document_def
        metadata_to_lexongraph_def display_path_def replace_char_def Let_def)
  have s: "in_ref ?s = Some None" "journal_replays (ie_journal ?env) (in_store ?s) None []"
    "cache_coherent (ie_resolver ?env) (in_store ?s) (in_cache ?s)" using document_starts by simp_all
  have f: "schedules_finish (memo_replay_env st)" for st
    by (simp add: schedules_finish_def memo_replay_env_def eager_schedule_finishes)
  obtain block_id where "block_id \<in> set (con_ids ?con)"
    "\<And>limit entries. block_id \<in> entry_block_id ` set entries \<Longrightarrow>
       \<exists>err. replay_batch_from_entries (memo_replay_env (in_store s')) limit entries = Err err"
    using reserved_metadata_blocks_replay [OF i _ _ _ _ document_contract document_joins s _ r _ _ f, of "lit ''memo''" "in_store s'"]
    by (auto simp: memo_replay_env_def dest!: set_zip_rightD)
  then show ?thesis using r by (intro exI [of _ s'] exI [of _ ?con] exI [of _ block_id]) simp
qed

end
