(* ===== verification/Ref_Store.thy ===== *)
theory Ref_Store
  imports Replay_Journal
begin

text \<open>
  The storage of a mutable ref (\<^verbatim>\<open>runtime.rs\<close>, \<^verbatim>\<open>read_mutable_ref_store_bytes\<close>,
  \<^verbatim>\<open>write_mutable_ref_store_bytes\<close> and \<^verbatim>\<open>prepare_mutable_ref_store\<close>): a local file, an Azure blob
  or a row of an Azure table.

  A local directory is a map from paths to file contents, together with the maps it went
  through: a process that dies leaves one of these. The HTTP client and the table client are
  parameters.
\<close>

section \<open>Local files\<close>

text \<open>\<^verbatim>\<open>Path::with_extension\<close>: a leading dot of the file name does not start an extension.\<close>

definition file_stem :: "rstring \<Rightarrow> rstring" where
  "file_stem name =
     (if name = lit ''..'' then name
      else case rsplit_dot name of
        None \<Rightarrow> name
      | Some (b, e) \<Rightarrow> if b = [] then name else b)"

definition path_with_extension :: "path \<Rightarrow> rstring \<Rightarrow> path" where
  "path_with_extension p ext =
     (if components p = [] \<or> last (components p) = lit ''..'' then p
      else Path (is_absolute p) (butlast (components p) @ [file_stem (last (components p)) @ [46] @ ext]))"

type_synonym ref_files = "path \<Rightarrow> bytes option"

record ref_fs =
  now :: ref_files
  past :: "ref_files list"

definition moments :: "ref_fs \<Rightarrow> ref_files set" where
  "moments fs = insert (now fs) (set (past fs))"

definition change :: "ref_files \<Rightarrow> ref_fs \<Rightarrow> ref_fs" where
  "change files fs = \<lparr>now = files, past = now fs # past fs\<rparr>"

text \<open>
  What the calls of one read or write answer: \<open>None\<close> is success. A write that fails may leave
  anything in the file it was writing.
\<close>

record ref_io =
  create_dir_fault :: "io_error option"
  read_fault :: "io_error option"
  write_fault :: "(io_error \<times> bytes option) option"
  remove_stale_fault :: "io_error option"
  backup_fault :: "io_error option"
  replace_fault :: "io_error option"
  restore_fault :: "io_error option"
  remove_backup_fault :: "io_error option"

definition ref_io_fine :: ref_io where
  "ref_io_fine = \<lparr>create_dir_fault = None, read_fault = None, write_fault = None, remove_stale_fault = None,
     backup_fault = None, replace_fault = None, restore_fault = None, remove_backup_fault = None\<rparr>"

definition fs_write :: "(io_error \<times> bytes option) option \<Rightarrow> path \<Rightarrow> bytes \<Rightarrow> ref_fs \<Rightarrow> (ref_fs, io_error, unit) fallible" where
  "fs_write fault p content fs =
     (case fault of
        Some (e, left_over) \<Rightarrow> (change ((now fs)(p := left_over)) fs, Err e)
      | None \<Rightarrow> (change ((now fs)(p \<mapsto> content)) fs, Ok ()))"

definition fs_rename :: "io_error option \<Rightarrow> path \<Rightarrow> path \<Rightarrow> ref_fs \<Rightarrow> (ref_fs, io_error, unit) fallible" where
  "fs_rename fault src dst fs =
     (case fault of
        Some e \<Rightarrow> (fs, Err e)
      | None \<Rightarrow> (case now fs src of
          None \<Rightarrow> (fs, Err IoNotFound)
        | Some content \<Rightarrow> (change ((now fs)(src := None, dst \<mapsto> content)) fs, Ok ())))"

definition fs_remove_file :: "io_error option \<Rightarrow> path \<Rightarrow> ref_fs \<Rightarrow> (ref_fs, io_error, unit) fallible" where
  "fs_remove_file fault p fs =
     (case fault of
        Some e \<Rightarrow> (fs, Err e)
      | None \<Rightarrow> if now fs p = None then (fs, Err IoNotFound) else (change ((now fs)(p := None)) fs, Ok ()))"

definition map_fail :: "('e \<Rightarrow> 'f) \<Rightarrow> ('s, 'e, 'a) fallible \<Rightarrow> ('s, 'f, 'a) fallible" where
  "map_fail f r = (fst r, map_err f (snd r))"

definition create_ref_dir :: "ref_io \<Rightarrow> path \<Rightarrow> runtime_error + unit" where
  "create_ref_dir io p =
     (case path_parent p of
        None \<Rightarrow> Ok ()
      | Some parent \<Rightarrow> (case create_dir_fault io of
          None \<Rightarrow> Ok ()
        | Some e \<Rightarrow> Err (PrepareMutableRefStore (display_path parent) e)))"

definition write_local_ref :: "ref_io \<Rightarrow> path \<Rightarrow> ref_fs \<Rightarrow> bytes \<Rightarrow> (ref_fs, runtime_error, unit) fallible" where
  "write_local_ref io p fs encoded =
     then_do (fs, create_ref_dir io p) (\<lambda>fs1 _.
     let temp = path_with_extension p (lit ''tmp'');
         backup = path_with_extension p (lit ''bak'');
         failed = (\<lambda>q. WriteMutableRefStore (display_path q))
     in then_do (map_fail (failed temp) (fs_write (write_fault io) temp encoded fs1)) (\<lambda>fs2 _.
        let had_existing_file = (now fs2 p \<noteq> None) in
        then_do
          (if had_existing_file then
             then_do (if now fs2 backup \<noteq> None then map_fail (failed backup) (fs_remove_file (remove_stale_fault io) backup fs2)
                      else (fs2, Ok ()))
               (\<lambda>fs3 _. map_fail (failed p) (fs_rename (backup_fault io) p backup fs3))
           else (fs2, Ok ())) (\<lambda>fs4 _.
        case fs_rename (replace_fault io) temp p fs4 of
          (fs5, Inl e) \<Rightarrow>
            (if had_existing_file then fst (fs_rename (restore_fault io) backup p fs5) else fs5, Err (failed p e))
        | (fs5, Inr _) \<Rightarrow>
            if had_existing_file \<and> now fs5 backup \<noteq> None
            then map_fail (failed backup) (fs_remove_file (remove_backup_fault io) backup fs5)
            else (fs5, Ok ()))))"

definition read_local_ref :: "ref_io \<Rightarrow> path \<Rightarrow> ref_fs \<Rightarrow> runtime_error + bytes option" where
  "read_local_ref io p fs =
     (case now fs p of
        None \<Rightarrow> Ok None
      | Some content \<Rightarrow> (case read_fault io of
          None \<Rightarrow> Ok (Some content)
        | Some e \<Rightarrow> Err (ReadMutableRefStore (display_path p) e)))"

section \<open>Requests with retries\<close>

record http_response =
  http_status :: nat
  http_body :: "rstring + bytes"

definition MUTABLE_REF_STORE_HTTP_RETRY_ATTEMPTS :: nat where
  "MUTABLE_REF_STORE_HTTP_RETRY_ATTEMPTS = 3"

definition retryable_status :: "nat \<Rightarrow> bool" where
  "retryable_status s \<longleftrightarrow> (500 \<le> s \<and> s < 600) \<or> s = 408 \<or> s = 429"

definition is_success :: "nat \<Rightarrow> bool" where
  "is_success s \<longleftrightarrow> 200 \<le> s \<and> s < 300"

text \<open>
  \<open>send k\<close> is the answer to the attempt with index \<open>k\<close>, an error with its text or a response.
  The first component of the result is the number of requests sent.
\<close>

function retry_loop ::
  "(nat \<Rightarrow> rstring + http_response) \<Rightarrow> (nat \<Rightarrow> rstring) \<Rightarrow> nat \<Rightarrow> io_error option \<Rightarrow> nat \<times> (io_error + http_response)" where
  "retry_loop send show_status attempt last_error =
     (if attempt < MUTABLE_REF_STORE_HTTP_RETRY_ATTEMPTS then
        case send attempt of
          Inr response \<Rightarrow>
            if attempt + 1 < MUTABLE_REF_STORE_HTTP_RETRY_ATTEMPTS \<and> retryable_status (http_status response)
            then retry_loop send show_status (attempt + 1)
                   (Some (IoOther (lit ''retryable HTTP status '' @ show_status (http_status response) @
                     lit '' while accessing mutable ref store'')))
            else (attempt + 1, Ok response)
        | Inl e \<Rightarrow>
            if attempt + 1 < MUTABLE_REF_STORE_HTTP_RETRY_ATTEMPTS
            then retry_loop send show_status (attempt + 1) (Some (IoOther e))
            else (attempt + 1, Err (IoOther e))
      else (attempt, Err (case last_error of Some e \<Rightarrow> e | None \<Rightarrow> IoOther (lit ''mutable ref request failed''))))"
  by pat_completeness auto
termination
  by (relation "measure (\<lambda>(send, show_status, attempt, last_error). MUTABLE_REF_STORE_HTTP_RETRY_ATTEMPTS - attempt)") auto

declare retry_loop.simps [simp del]

record http_client =
  client_build :: "rstring + unit"
  client_get :: "rstring \<Rightarrow> nat \<Rightarrow> rstring + http_response"
  client_put :: "rstring \<Rightarrow> bytes \<Rightarrow> nat \<Rightarrow> rstring + http_response"
  show_http_status :: "nat \<Rightarrow> rstring"

definition mutable_ref_store_request_with_retry ::
  "http_client \<Rightarrow> (nat \<Rightarrow> rstring + http_response) \<Rightarrow> nat \<times> (io_error + http_response)" where
  "mutable_ref_store_request_with_retry client send =
     (case client_build client of
        Inl e \<Rightarrow> (0, Err (IoOther e))
      | Inr _ \<Rightarrow> retry_loop send (show_http_status client) 0 None)"

definition read_blob_ref :: "http_client \<Rightarrow> rstring \<Rightarrow> rstring \<Rightarrow> runtime_error + bytes option" where
  "read_blob_ref client url display =
     and_then (map_err (ReadMutableRefStore display) (snd (mutable_ref_store_request_with_retry client (client_get client url))))
       (\<lambda>response.
         if http_status response = 404 then Ok None
         else if is_success (http_status response) then
           map_err (\<lambda>e. ReadMutableRefStore display (IoOther e)) (and_then (http_body response) (\<lambda>bs. Ok (Some bs)))
         else Err (ReadMutableRefStore display (IoOther (lit ''unexpected HTTP status '' @
           show_http_status client (http_status response) @ lit '' while reading mutable ref store''))))"

definition write_blob_ref :: "http_client \<Rightarrow> rstring \<Rightarrow> rstring \<Rightarrow> bytes \<Rightarrow> runtime_error + unit" where
  "write_blob_ref client url display encoded =
     and_then (map_err (WriteMutableRefStore display) (snd (mutable_ref_store_request_with_retry client (client_put client url encoded))))
       (\<lambda>response.
         if is_success (http_status response) then Ok ()
         else Err (WriteMutableRefStore display (IoOther (lit ''unexpected HTTP status '' @
           show_http_status client (http_status response) @ lit '' while writing mutable ref store''))))"

section \<open>Table rows\<close>

definition MUTABLE_REF_TABLE_SCHEMA_VERSION :: int where
  "MUTABLE_REF_TABLE_SCHEMA_VERSION = 1"

text \<open>What the endpoint reads of a parsed URL.\<close>

record table_url =
  url_query :: "rstring option"
  url_query_pairs :: "(rstring \<times> rstring) list"
  url_host :: "rstring option"
  url_path_segments :: "rstring list option"
  url_path :: rstring

record mutable_ref_table_endpoint =
  table_account :: rstring
  table_name :: rstring
  sas_token :: rstring

definition not_a_table_root :: "table_url \<Rightarrow> io_error" where
  "not_a_table_root url = IoOther (lit ''Azure Table SAS URL must address a table root, got path '' @ url_path url)"

definition parse_table_endpoint :: "(rstring \<Rightarrow> rstring + table_url) \<Rightarrow> rstring \<Rightarrow> io_error + mutable_ref_table_endpoint" where
  "parse_table_endpoint parse_url text =
     and_then (map_err IoOther (parse_url text)) (\<lambda>url.
       if (case url_query url of None \<Rightarrow> True | Some q \<Rightarrow> q = [])
       then Err (IoOther (lit ''Azure Table SAS URL must include SAS query parameters''))
       else if \<not> list_ex (\<lambda>(key, v). key = lit ''sig'' \<and> v \<noteq> []) (url_query_pairs url)
       then Err (IoOther (lit ''Azure Table SAS URL must include a non-empty SAS signature parameter''))
       else
         and_then (ok_or (IoOther (lit ''Azure Table SAS URL must include a host'')) (url_host url)) (\<lambda>host.
         let account = hd (split_on 46 host) in
         if account = [] then Err (IoOther (lit ''Azure Table SAS URL must include an account host''))
         else
           and_then (ok_or (IoOther (lit ''Azure Table SAS URL must be hierarchical'')) (url_path_segments url)) (\<lambda>all_segments.
             case filter (\<lambda>s. s \<noteq> []) all_segments of
               [name] \<Rightarrow>
                 if 40 \<in> set name \<or> 41 \<in> set name then Err (not_a_table_root url)
                 else Ok \<lparr>table_account = account, table_name = name,
                   sas_token = (case url_query url of None \<Rightarrow> [] | Some q \<Rightarrow> q)\<rparr>
             | _ \<Rightarrow> Err (not_a_table_root url))))"

record mutable_ref_table_entity =
  entity_partition_key :: rstring
  entity_row_key :: rstring
  entity_schema_version :: int
  entity_ref_path :: rstring
  entity_state_json :: rstring

definition escape_odata_string_literal :: "rstring \<Rightarrow> rstring" where
  "escape_odata_string_literal v = replace_char 39 [39, 39] v"

definition mutable_ref_table_lookup_filter :: "rstring \<Rightarrow> rstring \<Rightarrow> rstring" where
  "mutable_ref_table_lookup_filter partition_key row_key =
     lit ''PartitionKey eq '' @ [39] @ escape_odata_string_literal partition_key @ [39] @
     lit '' and RowKey eq '' @ [39] @ escape_odata_string_literal row_key @ [39]"

text \<open>
  The table client: its construction from an endpoint may fail; a query answers with the
  first page of the rows a filter selects, at most two; a row is inserted or replaced.
\<close>

record 't table_client =
  tc_parse_url :: "rstring \<Rightarrow> rstring + table_url"
  tc_connect :: "mutable_ref_table_endpoint \<Rightarrow> rstring + unit"
  tc_query :: "'t \<Rightarrow> mutable_ref_table_endpoint \<Rightarrow> rstring \<Rightarrow> rstring + mutable_ref_table_entity list option"
  tc_insert_or_replace :: "'t \<Rightarrow> mutable_ref_table_endpoint \<Rightarrow> mutable_ref_table_entity \<Rightarrow> ('t, rstring, unit) fallible"

definition mutable_ref_table_client :: "'t table_client \<Rightarrow> rstring \<Rightarrow> io_error + mutable_ref_table_endpoint" where
  "mutable_ref_table_client tc table_sas_url =
     and_then (parse_table_endpoint (tc_parse_url tc) table_sas_url) (\<lambda>endpoint.
     and_then (map_err IoOther (tc_connect tc endpoint)) (\<lambda>_. Ok endpoint))"

definition read_mutable_ref_table_entity ::
  "'t table_client \<Rightarrow> 't \<Rightarrow> rstring \<Rightarrow> rstring \<Rightarrow> rstring \<Rightarrow> io_error + mutable_ref_table_entity option" where
  "read_mutable_ref_table_entity tc t table_sas_url partition_key row_key =
     and_then (mutable_ref_table_client tc table_sas_url) (\<lambda>endpoint.
     and_then (map_err IoOther (tc_query tc t endpoint (mutable_ref_table_lookup_filter partition_key row_key))) (\<lambda>page.
     and_then (ok_or (IoOther (lit ''Azure Table query returned no response pages'')) page) (\<lambda>rows.
       case rows of
         [] \<Rightarrow> Ok None
       | [entity] \<Rightarrow> Ok (Some entity)
       | _ \<Rightarrow> Err (IoOther (lit ''lookup for PartitionKey='' @ partition_key @ lit '' RowKey='' @ row_key @
           lit '' returned '' @ show_nat (length rows) @ lit '' entities'')))))"

definition write_mutable_ref_table_entity ::
  "'t table_client \<Rightarrow> 't \<Rightarrow> rstring \<Rightarrow> mutable_ref_table_entity \<Rightarrow> ('t, io_error, unit) fallible" where
  "write_mutable_ref_table_entity tc t table_sas_url entity =
     (case mutable_ref_table_client tc table_sas_url of
        Inl e \<Rightarrow> (t, Err e)
      | Inr endpoint \<Rightarrow> map_fail IoOther (tc_insert_or_replace tc t endpoint entity))"

definition show_int :: "int \<Rightarrow> rstring" where
  "show_int i = (if i < 0 then [45] else []) @ show_nat (nat \<bar>i\<bar>)"

definition read_table_ref ::
  "'t table_client \<Rightarrow> 't \<Rightarrow> rstring \<Rightarrow> rstring \<Rightarrow> rstring \<Rightarrow> rstring \<Rightarrow> runtime_error + bytes option" where
  "read_table_ref tc t table_sas_url display partition_key row_key =
     and_then (map_err (ReadMutableRefStore display)
                (read_mutable_ref_table_entity tc t table_sas_url partition_key row_key)) (\<lambda>found.
       case found of
         None \<Rightarrow> Ok None
       | Some entity \<Rightarrow>
           if entity_schema_version entity \<noteq> MUTABLE_REF_TABLE_SCHEMA_VERSION
           then Err (ReadMutableRefStore display (IoOther (lit ''unsupported mutable ref table schema version '' @
             show_int (entity_schema_version entity))))
           else Ok (Some (utf8 (entity_state_json entity))))"

definition write_table_ref ::
  "'t table_client \<Rightarrow> (bytes \<Rightarrow> rstring) \<Rightarrow> rstring \<Rightarrow> rstring \<Rightarrow> rstring \<Rightarrow> rstring \<Rightarrow> 't \<Rightarrow> bytes
     \<Rightarrow> ('t, runtime_error, unit) fallible" where
  "write_table_ref tc utf8_error table_sas_url display partition_key row_key t encoded =
     (case from_utf8 encoded of
        None \<Rightarrow> (t, Err (WriteMutableRefStore display (IoOther (utf8_error encoded))))
      | Some state_json \<Rightarrow>
          map_fail (WriteMutableRefStore display)
            (write_mutable_ref_table_entity tc t table_sas_url
              \<lparr>entity_partition_key = partition_key, entity_row_key = row_key,
               entity_schema_version = MUTABLE_REF_TABLE_SCHEMA_VERSION, entity_ref_path = display,
               entity_state_json = state_json\<rparr>))"

section \<open>Any location\<close>

text \<open>The world a ref can be stored in: the local files and the table; a blob is behind the HTTP client.\<close>

record 't ref_world =
  world_fs :: ref_fs
  world_table :: 't

record 't ref_env =
  env_io :: ref_io
  env_http :: http_client
  env_table :: "'t table_client"
  env_utf8_error :: "bytes \<Rightarrow> rstring"

fun mutable_ref_store_label :: "mutable_ref_store_location \<Rightarrow> rstring" where
  "mutable_ref_store_label (LocalFile p) = display_path p"
| "mutable_ref_store_label (AzureBlob url display) = display"
| "mutable_ref_store_label (AzureTable table_sas_url display partition_key row_key) = display"

fun read_mutable_ref_store_bytes ::
  "'t ref_env \<Rightarrow> mutable_ref_store_location \<Rightarrow> 't ref_world \<Rightarrow> runtime_error + bytes option" where
  "read_mutable_ref_store_bytes env (LocalFile p) w = read_local_ref (env_io env) p (world_fs w)"
| "read_mutable_ref_store_bytes env (AzureBlob url display) w = read_blob_ref (env_http env) url display"
| "read_mutable_ref_store_bytes env (AzureTable table_sas_url display partition_key row_key) w =
     read_table_ref (env_table env) (world_table w) table_sas_url display partition_key row_key"

fun write_mutable_ref_store_bytes ::
  "'t ref_env \<Rightarrow> mutable_ref_store_location \<Rightarrow> 't ref_world \<Rightarrow> bytes \<Rightarrow> ('t ref_world, runtime_error, unit) fallible" where
  "write_mutable_ref_store_bytes env (LocalFile p) w encoded =
     (case write_local_ref (env_io env) p (world_fs w) encoded of (fs, r) \<Rightarrow> (w\<lparr>world_fs := fs\<rparr>, r))"
| "write_mutable_ref_store_bytes env (AzureBlob url display) w encoded =
     (w, write_blob_ref (env_http env) url display encoded)"
| "write_mutable_ref_store_bytes env (AzureTable table_sas_url display partition_key row_key) w encoded =
     (case write_table_ref (env_table env) (env_utf8_error env) table_sas_url display partition_key row_key (world_table w) encoded of
        (t, r) \<Rightarrow> (w\<lparr>world_table := t\<rparr>, r))"

fun prepare_mutable_ref_store :: "'t ref_env \<Rightarrow> mutable_ref_store_location \<Rightarrow> runtime_error + unit" where
  "prepare_mutable_ref_store env (LocalFile p) = create_ref_dir (env_io env) p"
| "prepare_mutable_ref_store env (AzureBlob url display) = Ok ()"
| "prepare_mutable_ref_store env (AzureTable table_sas_url display partition_key row_key) =
     and_then (map_err (PrepareMutableRefStore display) (mutable_ref_table_client (env_table env) table_sas_url)) (\<lambda>_. Ok ())"

section \<open>Where the ref of a request is, and what it records\<close>

fun execution_stage_label :: "execution_stage \<Rightarrow> rstring" where
  "execution_stage_label FullPipeline = lit ''full-pipeline''"
| "execution_stage_label IngestionAndEmbedding = lit ''ingestion-and-embedding''"
| "execution_stage_label ClusteringAndBlockAssembly = lit ''clustering-and-block-assembly''"

definition mutable_ref_store_metadata :: "execution_stage \<Rightarrow> rstring \<Rightarrow> bmap" where
  "mutable_ref_store_metadata exec_stage profile_version_text =
     bmap_collect [(lit ''profile_version'', profile_version_text), (lit ''stage'', execution_stage_label exec_stage)]"

end
