(* ===== verification/Ref_Store_Laws.thy ===== *)
theory Ref_Store_Laws
  imports Ref_Store Replay_Journal_Laws
begin

text \<open>
  What a write of a mutable ref leaves behind, at every moment and for every fault; when the
  local file satisfies the contract that the journal relies on; retries of requests; and lookup
  filters of table rows.
\<close>

section \<open>Local writes\<close>

text \<open>The path of a ref, its temporary file and its backup are three files.\<close>

definition ref_paths_distinct :: "path \<Rightarrow> bool" where
  "ref_paths_distinct p \<longleftrightarrow> path_with_extension p (lit ''tmp'') \<noteq> p \<and> path_with_extension p (lit ''bak'') \<noteq> p \<and>
     path_with_extension p (lit ''tmp'') \<noteq> path_with_extension p (lit ''bak'')"

lemma ref_name_distinct:
  assumes "name \<noteq> lit ''..''" "\<not> ends_with name (lit ''.tmp'')" "\<not> ends_with name (lit ''.bak'')"
  shows "ref_paths_distinct (Path absolute (dirs @ [name]))"
proof -
  have "file_stem name @ lit ''.tmp'' \<noteq> name" "file_stem name @ lit ''.bak'' \<noteq> name"
    using assms(2,3) by (metis ends_with_iff)+
  then show ?thesis using assms(1) by (simp add: ref_paths_distinct_def path_with_extension_def)
qed

lemma moments_change [simp]: "moments (change files fs) = insert files (moments fs)"
  by (auto simp: moments_def change_def)

lemma now_change [simp]: "now (change files fs) = files"
  by (simp add: change_def)

lemma now_moment [simp]: "now fs \<in> moments fs"
  by (simp add: moments_def)

lemma ref_io_fine_simps [simp]:
  "create_dir_fault ref_io_fine = None" "read_fault ref_io_fine = None" "write_fault ref_io_fine = None"
  "remove_stale_fault ref_io_fine = None" "backup_fault ref_io_fine = None" "replace_fault ref_io_fine = None"
  "restore_fault ref_io_fine = None" "remove_backup_fault ref_io_fine = None"
  by (simp_all add: ref_io_fine_def)

lemma map_fail_simps [simp]: "map_fail f (s, Inl e) = (s, Inl (f e))" "map_fail f (s, Inr x) = (s, Inr x)"
  by (simp_all add: map_fail_def)

lemma then_do_cases:
  assumes "then_do r f = out"
  obtains s e where "r = (s, Inl e)" "out = (s, Inl e)" | s x where "r = (s, Inr x)" "out = f s x"
  using assms by (cases "(r, f)" rule: then_do.cases) auto

text \<open>
  What may be in the directory at any moment of a write, relative to the files \<open>f\<close> before it:
  the ref is as before, or new, or absent while its old content is in the backup; other files
  are as before.
\<close>

definition write_moment :: "path \<Rightarrow> bytes \<Rightarrow> ref_files \<Rightarrow> ref_files \<Rightarrow> bool" where
  "write_moment p encoded f g \<longleftrightarrow>
     (let temp = path_with_extension p (lit ''tmp''); backup = path_with_extension p (lit ''bak'') in
      (g p = f p \<or> g p = Some encoded \<or> g p = None \<and> f p \<noteq> None \<and> g backup = f p) \<and>
      (\<forall>q. q \<noteq> p \<and> q \<noteq> temp \<and> q \<noteq> backup \<longrightarrow> g q = f q))"

text \<open>
  The three stages of a write that got as far as its temporary file: the old file is put
  aside, the temporary file takes its place, the backup is removed.
\<close>

definition set_aside :: "ref_io \<Rightarrow> path \<Rightarrow> path \<Rightarrow> ref_fs \<Rightarrow> (ref_fs, runtime_error, unit) fallible" where
  "set_aside io p backup fs =
     (if now fs p \<noteq> None then
        then_do (if now fs backup \<noteq> None
                 then map_fail (WriteMutableRefStore (display_path backup)) (fs_remove_file (remove_stale_fault io) backup fs)
                 else (fs, Ok ()))
          (\<lambda>fs3 _. map_fail (WriteMutableRefStore (display_path p)) (fs_rename (backup_fault io) p backup fs3))
      else (fs, Ok ()))"

definition put_in_place :: "ref_io \<Rightarrow> path \<Rightarrow> path \<Rightarrow> path \<Rightarrow> bool \<Rightarrow> ref_fs \<Rightarrow> (ref_fs, runtime_error, unit) fallible" where
  "put_in_place io p temp backup had_existing_file fs4 =
     (case fs_rename (replace_fault io) temp p fs4 of
        (fs5, Inl e) \<Rightarrow>
          (if had_existing_file then fst (fs_rename (restore_fault io) backup p fs5) else fs5,
           Err (WriteMutableRefStore (display_path p) e))
      | (fs5, Inr _) \<Rightarrow>
          if had_existing_file \<and> now fs5 backup \<noteq> None
          then map_fail (WriteMutableRefStore (display_path backup)) (fs_remove_file (remove_backup_fault io) backup fs5)
          else (fs5, Ok ()))"

lemma write_local_ref_stages:
  "write_local_ref io p fs encoded =
     (let temp = path_with_extension p (lit ''tmp''); backup = path_with_extension p (lit ''bak'') in
      then_do (fs, create_ref_dir io p) (\<lambda>fs1 _.
      then_do (map_fail (WriteMutableRefStore (display_path temp)) (fs_write (write_fault io) temp encoded fs1)) (\<lambda>fs2 _.
      then_do (set_aside io p backup fs2) (\<lambda>fs4 _. put_in_place io p temp backup (now fs2 p \<noteq> None) fs4))))"
  by (simp add: write_local_ref_def set_aside_def put_in_place_def Let_def)

text \<open>Files other than the three are not touched; a stage keeps the moments before it.\<close>

definition elsewhere :: "path \<Rightarrow> path \<Rightarrow> path \<Rightarrow> ref_files \<Rightarrow> ref_files \<Rightarrow> bool" where
  "elsewhere p t b f g \<longleftrightarrow> (\<forall>q. q \<noteq> p \<and> q \<noteq> t \<and> q \<noteq> b \<longrightarrow> g q = f q)"

definition aside_moment :: "path \<Rightarrow> path \<Rightarrow> path \<Rightarrow> ref_files \<Rightarrow> ref_files \<Rightarrow> bool" where
  "aside_moment p t b f g \<longleftrightarrow> elsewhere p t b f g \<and> g t = f t \<and> (g p = f p \<or> f p \<noteq> None \<and> g p = None \<and> g b = f p)"

lemma set_aside_moments:
  assumes "t \<noteq> p" "b \<noteq> p" "t \<noteq> b" and "set_aside io p b fs = (fs', r)"
  shows "\<forall>g \<in> moments fs'. g \<in> moments fs \<or> aside_moment p t b (now fs) g"
    and "aside_moment p t b (now fs) (now fs')"
    and "r = Ok () \<Longrightarrow> now fs p \<noteq> None \<Longrightarrow> now fs' p = None \<and> now fs' b = now fs p"
    and "r \<noteq> Ok () \<or> now fs p = None \<Longrightarrow> now fs' p = now fs p"
  using assms
  by (auto simp: set_aside_def fs_remove_file_def fs_rename_def aside_moment_def elsewhere_def
      split: option.splits if_splits)

lemma put_in_place_moments:
  assumes "t \<noteq> p" "b \<noteq> p" "t \<noteq> b" and "put_in_place io p t b had fs = (fs', r)" and "now fs t = Some encoded"
    and "had = (f p \<noteq> None)" and "now fs p = None" and "f p \<noteq> None \<Longrightarrow> now fs b = f p"
  shows "\<forall>g \<in> moments fs'. g \<in> moments fs \<or> elsewhere p t b (now fs) g \<and> (g p = f p \<or> g p = Some encoded)"
    and "elsewhere p t b (now fs) (now fs')"
    and "r = Ok () \<Longrightarrow> now fs' p = Some encoded \<and> now fs' t = None"
    and "restore_fault io = None \<Longrightarrow> now fs' p = Some encoded \<or> now fs' p = f p"
  using assms
  by (auto simp: put_in_place_def fs_remove_file_def fs_rename_def elsewhere_def split: option.splits if_splits)

lemma write_local_ref_moments:
  assumes d: "ref_paths_distinct p" and w: "write_local_ref io p \<lparr>now = f, past = []\<rparr> encoded = (fs', r)"
  shows "(\<forall>g \<in> moments fs'. write_moment p encoded f g) \<and> (r = Ok () \<longrightarrow> now fs' p = Some encoded) \<and>
    (restore_fault io = None \<longrightarrow> now fs' p = Some encoded \<or> now fs' p = f p)"
proof -
  let ?fs = "\<lparr>now = f, past = []\<rparr>"
  define t where "t = path_with_extension p (lit ''tmp'')"
  define b where "b = path_with_extension p (lit ''bak'')"
  have d: "t \<noteq> p" "b \<noteq> p" "t \<noteq> b" using d by (simp_all add: t_def b_def ref_paths_distinct_def)
  have wm: "write_moment p encoded f g \<longleftrightarrow> elsewhere p t b f g \<and>
    (g p = f p \<or> g p = Some encoded \<or> g p = None \<and> f p \<noteq> None \<and> g b = f p)" for g
    by (auto simp: write_moment_def elsewhere_def t_def b_def Let_def)
  have start: "moments ?fs = {f}" by (simp add: moments_def)
  have w: "then_do (?fs, create_ref_dir io p) (\<lambda>fs1 _.
      then_do (map_fail (WriteMutableRefStore (display_path t)) (fs_write (write_fault io) t encoded fs1)) (\<lambda>fs2 _.
      then_do (set_aside io p b fs2) (\<lambda>fs4 _. put_in_place io p t b (now fs2 p \<noteq> None) fs4))) = (fs', r)"
    using w by (simp only: write_local_ref_stages t_def b_def Let_def)
  show ?thesis
  proof (cases "create_ref_dir io p")
    case (Inl e)
    then show ?thesis using w by (auto simp: wm start elsewhere_def moments_def)
  next
    case (Inr u)
    show ?thesis
    proof (cases "write_fault io")
      case (Some el)
      then show ?thesis using w Inr d by (cases el) (auto simp: wm fs_write_def start elsewhere_def)
    next
      case None
      let ?f2 = "f(t \<mapsto> encoded)"
      let ?fs2 = "change ?f2 ?fs"
      have f2: "?f2 p = f p" using d by simp
      obtain fs4 r4 where a: "set_aside io p b ?fs2 = (fs4, r4)" by fastforce
      note sa = set_aside_moments [OF d a]
      have ml: "g = f \<or> g = ?f2 \<or> aside_moment p t b ?f2 g" if "g \<in> moments fs4" for g
        using sa(1) that by (auto simp: start)
      have early: "write_moment p encoded f g" if "g \<in> moments fs4" for g
        using ml [OF that] d by (auto simp: wm elsewhere_def aside_moment_def)
      show ?thesis
      proof (cases r4)
        case (Inl e)
        then have "fs' = fs4" "r \<noteq> Ok ()" using w Inr None a d by (auto simp: fs_write_def)
        moreover have "now fs4 p = f p" using sa(4) Inl f2 by simp
        ultimately show ?thesis using early by auto
      next
        case r4: (Inr u')
        have pp: "put_in_place io p t b (f p \<noteq> None) fs4 = (fs', r)" using w Inr None a r4 d by (simp add: fs_write_def)
        have t4: "now fs4 t = Some encoded" "elsewhere p t b ?f2 (now fs4)" using sa(2) d by (simp_all add: aside_moment_def)
        have p4: "now fs4 p = None" "f p \<noteq> None \<Longrightarrow> now fs4 b = f p"
          using sa(3,4) r4 f2 d by (cases "f p"; simp)+
        note pl = put_in_place_moments [where f = f, OF d pp t4(1) refl p4]
        have "write_moment p encoded f g" if "g \<in> moments fs'" for g
          using pl(1) that early t4(2) by (auto simp: wm elsewhere_def)
        then show ?thesis using pl(3,4) by blast
      qed
    qed
  qed
qed

text \<open>
  C12. A write of a local mutable ref whose file name does not end in \<^verbatim>\<open>.tmp\<close> or \<^verbatim>\<open>.bak\<close> is as atomic
  as its renames allow. At every moment, so also when the process dies, the ref has its old content
  or the new one, or is absent with its old content in the backup file; no file changes but these
  two and the temporary one, the file name with \<^verbatim>\<open>.tmp\<close> in place of its extension. If the write
  succeeds the ref has the new content; if it fails, and putting the backup back does not fail as
  well, the ref has the old or the new content.
\<close>

theorem local_ref_write_safe:
  assumes "p = Path absolute (dirs @ [name])" and "name \<noteq> lit ''..''"
    and "\<not> ends_with name (lit ''.tmp'')" and "\<not> ends_with name (lit ''.bak'')"
    and "write_local_ref io p \<lparr>now = f, past = []\<rparr> encoded = (fs', r)"
  shows "(\<forall>g \<in> moments fs'.
       (g p = f p \<or> g p = Some encoded \<or>
        g p = None \<and> f p \<noteq> None \<and> g (Path absolute (dirs @ [file_stem name @ lit ''.bak''])) = f p) \<and>
       (\<forall>q. q \<notin> {p, Path absolute (dirs @ [file_stem name @ lit ''.tmp'']), Path absolute (dirs @ [file_stem name @ lit ''.bak''])}
          \<longrightarrow> g q = f q)) \<and>
    (r = Ok () \<longrightarrow> now fs' p = Some encoded) \<and>
    (restore_fault io = None \<longrightarrow> now fs' p = Some encoded \<or> now fs' p = f p)"
proof -
  have "ref_paths_distinct p" using ref_name_distinct assms(1-4) by simp
  from write_local_ref_moments [OF this assms(5)] show ?thesis
    using assms(2) unfolding write_moment_def assms(1) by (simp add: path_with_extension_def Let_def)
qed

definition demo_ref :: path where
  "demo_ref = Path True [lit ''refs'', lit ''main'']"

lemma demo_ref_distinct: "ref_paths_distinct demo_ref"
  by (simp add: ref_paths_distinct_def demo_ref_def path_with_extension_def file_stem_def)

theorem local_ref_write_safe_witness:
  "\<exists>fs' r. write_local_ref ref_io_fine demo_ref \<lparr>now = [demo_ref \<mapsto> [1]], past = []\<rparr> [2] = (fs', r) \<and>
     (now fs' demo_ref = Some [2] \<or> now fs' demo_ref = Some [1])"
proof -
  obtain fs' r where w: "write_local_ref ref_io_fine demo_ref \<lparr>now = [demo_ref \<mapsto> [1]], past = []\<rparr> [2] = (fs', r)" by fastforce
  show ?thesis
    using local_ref_write_safe [OF _ _ _ _ w, of True "[lit ''refs'']" "lit ''main''"] w
    by (simp add: demo_ref_def ends_with_def)
qed

section \<open>The contract of the journal\<close>

text \<open>The storage of the journal's ref in a local file, beside the other functions of a library.\<close>

definition with_local_ref :: "ref_io \<Rightarrow> path \<Rightarrow> ('s, 'r, 'v) journal_lib \<Rightarrow> ('s, ref_files, 'v) journal_lib" where
  "with_local_ref io p lib =
     \<lparr>jl_disp = jl_disp lib, jl_ref_label = display_path p,
      jl_ref_read = \<lambda>f. read_local_ref io p \<lparr>now = f, past = []\<rparr>,
      jl_ref_write = \<lambda>f encoded. (case write_local_ref io p \<lparr>now = f, past = []\<rparr> encoded of (fs, r) \<Rightarrow> (now fs, r)),
      jl_refs_from_slice = jl_refs_from_slice lib, jl_refs_to_vec_pretty = jl_refs_to_vec_pretty lib,
      jl_write_record = jl_write_record lib, jl_write_body = jl_write_body lib, jl_read_body = jl_read_body lib,
      jl_build_custom_block = jl_build_custom_block lib, jl_into_typed_block = jl_into_typed_block lib,
      jl_debug_block = jl_debug_block lib, jl_put_versioned = jl_put_versioned lib, jl_get_decoded = jl_get_decoded lib\<rparr>"

lemma local_ref_write_then_read:
  assumes "ref_paths_distinct p" "read_fault io = None" "restore_fault io = None"
    and "jl_ref_write (with_local_ref io p lib) f encoded = (f', r)"
  shows "jl_ref_read (with_local_ref io p lib) f' = Ok (Some encoded) \<or>
    r \<noteq> Ok () \<and> jl_ref_read (with_local_ref io p lib) f' = jl_ref_read (with_local_ref io p lib) f"
proof -
  obtain fs where w: "write_local_ref io p \<lparr>now = f, past = []\<rparr> encoded = (fs, r)" "f' = now fs"
    using assms(4) by (auto simp: with_local_ref_def split: prod.splits)
  from write_local_ref_moments [OF assms(1) w(1)] show ?thesis using assms(2,3) w(2)
    by (auto simp: with_local_ref_def read_local_ref_def split: option.splits)
qed

text \<open>
  C13. The local file implements the ref storage that the replay journal is proved against:
  a library that satisfies the journal's contract satisfies it with its ref in a local file,
  provided that the path, its temporary file and its backup are three files, that reads do not
  fail, and that putting the backup back never fails. What is proved of publishing then holds
  of refs in files.
\<close>

theorem local_ref_implements_contract:
  assumes "journal_contract lib" and "ref_paths_distinct p" "read_fault io = None" "restore_fault io = None"
  shows "journal_contract (with_local_ref io p lib)"
proof -
  let ?lib = "with_local_ref io p lib"
  have same: "jl_disp ?lib = jl_disp lib" "jl_refs_from_slice ?lib = jl_refs_from_slice lib"
    "jl_refs_to_vec_pretty ?lib = jl_refs_to_vec_pretty lib" "jl_write_body ?lib = jl_write_body lib"
    "jl_read_body ?lib = jl_read_body lib" "jl_build_custom_block ?lib = jl_build_custom_block lib"
    "jl_into_typed_block ?lib = jl_into_typed_block lib" "jl_put_versioned ?lib = jl_put_versioned lib"
    "jl_get_decoded ?lib = jl_get_decoded lib"
    by (simp_all add: with_local_ref_def)
  have "\<forall>f bs f' r. jl_ref_write ?lib f bs = (f', r) \<longrightarrow>
      jl_ref_read ?lib f' = Ok (Some bs) \<or> r \<noteq> Ok () \<and> jl_ref_read ?lib f' = jl_ref_read ?lib f"
    using local_ref_write_then_read [OF assms(2-4), of lib] by blast
  then show ?thesis using assms(1) unfolding journal_contract_def same by (elim conjE) (intro conjI; assumption)
qed

theorem local_ref_implements_contract_witness:
  "journal_contract (with_local_ref ref_io_fine demo_ref demo_journal_lib)"
  by (rule local_ref_implements_contract [OF demo_journal_contract demo_ref_distinct]) (simp_all add: ref_io_fine_def)

section \<open>Where the writes fall short\<close>

text \<open>
  C33. A ref can disappear and be taken for one that was never written. Replacing an existing
  ref goes through a moment in which the ref file does not exist although every call succeeds;
  a process that dies there, or a write in which both the replacing rename and the restoring
  one fail, leaves a ref that loads as the default state: without root and without journal.
\<close>

theorem local_ref_write_window:
  assumes "ref_paths_distinct p" and "f p = Some old"
  shows "(\<exists>fs'. write_local_ref ref_io_fine p \<lparr>now = f, past = []\<rparr> encoded = (fs', Ok ()) \<and>
      (\<exists>g \<in> moments fs'. load_mutable_ref_store (with_local_ref ref_io_fine p lib) g = Ok default_ref_state)) \<and>
    (\<exists>fs' r. write_local_ref (ref_io_fine\<lparr>replace_fault := Some e, restore_fault := Some e'\<rparr>) p \<lparr>now = f, past = []\<rparr> encoded
        = (fs', r) \<and> r \<noteq> Ok () \<and> load_mutable_ref_store (with_local_ref ref_io_fine p lib) (now fs') = Ok default_ref_state)"
proof -
  define t where "t = path_with_extension p (lit ''tmp'')"
  define b where "b = path_with_extension p (lit ''bak'')"
  have d: "t \<noteq> p" "b \<noteq> p" "t \<noteq> b" using assms(1) by (simp_all add: t_def b_def ref_paths_distinct_def)
  have dir: "create_ref_dir ref_io_fine p = Ok ()" "create_ref_dir (ref_io_fine\<lparr>replace_fault := x, restore_fault := y\<rparr>) p = Ok ()" for x y
    by (simp_all add: create_ref_dir_def split: option.splits)
  have gone: "load_mutable_ref_store (with_local_ref ref_io_fine p lib) g = Ok default_ref_state" if "g p = None" for g
    using that by (simp add: load_mutable_ref_store_def with_local_ref_def read_local_ref_def)
  show ?thesis
    unfolding write_local_ref_stages Let_def t_def [symmetric] b_def [symmetric] using d assms(2) gone
    by (auto simp: dir fs_write_def set_aside_def fs_remove_file_def fs_rename_def put_in_place_def)
qed

theorem local_ref_write_window_witness:
  "\<exists>fs'. write_local_ref ref_io_fine demo_ref \<lparr>now = [demo_ref \<mapsto> [1]], past = []\<rparr> [2] = (fs', Ok ()) \<and>
     (\<exists>g \<in> moments fs'. load_mutable_ref_store (with_local_ref ref_io_fine demo_ref demo_journal_lib) g = Ok default_ref_state)"
  using local_ref_write_window [OF demo_ref_distinct, of "[demo_ref \<mapsto> [1]]" "[1]" "[2]" demo_journal_lib] by simp

definition backup_ref :: path where
  "backup_ref = Path True [lit ''refs'', lit ''main.bak'']"

text \<open>
  C35. Refs whose names differ only in an ending \<^verbatim>\<open>.bak\<close> are not independent, although the
  names are valid and distinct: writing the ref \<^verbatim>\<open>main\<close> deletes the ref \<^verbatim>\<open>main.bak\<close>, and the second
  write of \<^verbatim>\<open>main.bak\<close> fails and deletes it, without any fault of the file system.
\<close>

theorem local_ref_backup_name_clash:
  "normalized_ref_name_segments (lit ''main.bak'') = Ok [lit ''main.bak''] \<and>
   (\<exists>fs'. write_local_ref ref_io_fine demo_ref \<lparr>now = [demo_ref \<mapsto> a, backup_ref \<mapsto> b], past = []\<rparr> c = (fs', Ok ()) \<and>
      now fs' backup_ref = None) \<and>
   (\<exists>fs' r. write_local_ref ref_io_fine backup_ref \<lparr>now = [backup_ref \<mapsto> b], past = []\<rparr> c = (fs', r) \<and>
      r \<noteq> Ok () \<and> now fs' backup_ref = None)"
proof -
  let ?t = "Path True [lit ''refs'', lit ''main.tmp'']"
  have paths: "path_with_extension demo_ref (lit ''tmp'') = ?t" "path_with_extension demo_ref (lit ''bak'') = backup_ref"
    "path_with_extension backup_ref (lit ''tmp'') = ?t" "path_with_extension backup_ref (lit ''bak'') = backup_ref"
    by (simp_all add: demo_ref_def backup_ref_def path_with_extension_def file_stem_def)
  have d: "demo_ref \<noteq> backup_ref" "backup_ref \<noteq> ?t" "demo_ref \<noteq> ?t" by (simp_all add: demo_ref_def backup_ref_def)
  have dir: "create_ref_dir ref_io_fine p = Ok ()" for p by (simp add: create_ref_dir_def split: option.splits)
  have seg: "normalized_ref_name_segments (lit ''main.bak'') = Ok [lit ''main.bak'']"
    by (simp add: normalized_ref_name_segments_def is_valid_ref_name_segment_def trim_def trim_start_def trim_end_def is_whitespace_def
        is_control_def reserved_ref_chars_def starts_with_def ends_with_def replace_char_def Let_def)
  show ?thesis unfolding write_local_ref_stages paths Let_def using d seg
    by (auto simp: dir fs_write_def set_aside_def fs_remove_file_def fs_rename_def put_in_place_def)
qed

section \<open>Retries\<close>

definition settled :: "rstring + http_response \<Rightarrow> bool" where
  "settled answer = (case answer of Inl _ \<Rightarrow> False | Inr response \<Rightarrow> \<not> retryable_status (http_status response))"

text \<open>
  A request to the ref store is sent at most three times. Its result is the first answer
  that is a response with a status that does not ask for a retry, and the third answer,
  whatever it is, if the first two are not; no further request is sent after the one whose
  answer is returned.
\<close>

theorem ref_request_retries:
  assumes "client_build client = Ok ()"
  shows "mutable_ref_store_request_with_retry client send =
    (case find (\<lambda>k. settled (send k)) [0, 1] of
       Some k \<Rightarrow> (k + 1, map_err IoOther (send k))
     | None \<Rightarrow> (3, map_err IoOther (send 2)))"
  using assms
  by (cases "send 0"; cases "send 1"; cases "send 2")
    (simp_all add: mutable_ref_store_request_with_retry_def retry_loop.simps MUTABLE_REF_STORE_HTTP_RETRY_ATTEMPTS_def
      settled_def numeral_2_eq_2)

definition demo_http :: http_client where
  "demo_http = \<lparr>client_build = Ok (), client_get = \<lambda>url k. if k = 0 then Err [] else Ok \<lparr>http_status = 503 - k, http_body = Ok [7]\<rparr>,
     client_put = \<lambda>url bs k. Err [], show_http_status = show_nat\<rparr>"

theorem ref_request_retries_witness:
  "fst (mutable_ref_store_request_with_retry demo_http (client_get demo_http [])) = 3"
  by (subst ref_request_retries) (simp_all add: demo_http_def settled_def retryable_status_def)

section \<open>Lookup filters\<close>

lemma escape_Cons: "escape_odata_string_literal (c # v) = (if c = 39 then [39, 39] else [c]) @ escape_odata_string_literal v"
  "escape_odata_string_literal [] = []"
  by (simp_all add: escape_odata_string_literal_def replace_char_def)

text \<open>The closing quote of a literal is the first one that is not doubled.\<close>

lemma escape_prefix:
  assumes "escape_odata_string_literal v @ 39 # s = escape_odata_string_literal v' @ 39 # s'"
    and "take 1 s \<noteq> [39]" and "take 1 s' \<noteq> [39]"
  shows "v = v' \<and> s = s'"
  using assms
proof (induction v arbitrary: v')
  case Nil
  then show ?case by (cases v') (auto simp: escape_Cons split: if_splits)
next
  case (Cons c v)
  then show ?case by (cases v') (auto simp: escape_Cons split: if_splits)
qed

text \<open>
  The filter that looks up a row is injective: whatever characters the keys contain,
  quotes included, filters for different pairs of keys are different, so a key cannot change
  the query it is put into.
\<close>

theorem lookup_filter_injective:
  "mutable_ref_table_lookup_filter pk rk = mutable_ref_table_lookup_filter pk' rk' \<longleftrightarrow> pk = pk' \<and> rk = rk'"
proof
  assume "mutable_ref_table_lookup_filter pk rk = mutable_ref_table_lookup_filter pk' rk'"
  then have eq: "escape_odata_string_literal pk @ 39 # lit '' and RowKey eq '' @ 39 # escape_odata_string_literal rk @ 39 # [] =
    escape_odata_string_literal pk' @ 39 # lit '' and RowKey eq '' @ 39 # escape_odata_string_literal rk' @ 39 # []"
    by (simp add: mutable_ref_table_lookup_filter_def)
  have pk: "pk = pk'" and rest: "lit '' and RowKey eq '' @ 39 # escape_odata_string_literal rk @ 39 # [] =
    lit '' and RowKey eq '' @ 39 # escape_odata_string_literal rk' @ 39 # []"
    using escape_prefix [OF eq] by simp_all
  have "rk = rk'" using escape_prefix [of rk "[]" rk' "[]"] rest by simp
  with pk show "pk = pk' \<and> rk = rk'" by simp
qed simp

end
