(* ===== verification/Gateway_Laws.thy ===== *)
theory Gateway_Laws
  imports Gateway
begin

text \<open>
  What the gateway and its client guarantee: the client over the gateway reads what the
  server's store has, only blocks that were found may be cached, connection headers stay on
  their connection, requests that are not idempotent are sent once, and a validated
  configuration can be built.
\<close>

section \<open>Serving blocks\<close>

definition found :: "block_store_error + bytes option \<Rightarrow> bytes option" where
  "found r = (case r of Inl _ \<Rightarrow> None | Inr x \<Rightarrow> x)"

lemma get_block_shown:
  assumes "length h = HASH_LEN"
  shows "get_block store (hex_encode h) =
    (case found (store h) of
       None \<Rightarrow> not_found_response
     | Some bs \<Rightarrow> \<lparr>resp_status = 200,
         resp_headers = [(lit ''content-type'', utf8 (lit ''application/octet-stream'')), (lit ''cache-control'', utf8 CACHE_CONTROL_VALUE)],
         resp_body = bs\<rparr>)"
proof -
  have "parse_block_hash (hex_encode h) = Ok h"
    by (rule tree_hash.parse_accepts) (simp_all add: assms lower_hex_encode)
  then show ?thesis by (simp add: get_block_def found_def header_insert_def split: sum.splits option.splits)
qed

lemma hex_no_slash: "47 \<notin> set (hex_encode bs)"
  by (induction bs) (auto simp: hex_encode_def hex_digit_def)

lemma block_route_hex:
  assumes "length h = HASH_LEN"
  shows "block_route (lit ''/block/'' @ hex_encode h) = Some (hex_encode h)"
proof -
  have "hex_encode h \<noteq> []" using assms by (simp add: HASH_LEN_def flip: length_0_conv)
  then show ?thesis using hex_no_slash by (simp add: block_route_def starts_with_def)
qed

text \<open>What the client relies on: ids are shown in hexadecimal, and hexadecimal segments decode to themselves.\<close>

definition router_contract :: "(block_hash \<Rightarrow> rstring) \<Rightarrow> router_lib \<Rightarrow> bool" where
  "router_contract disp lib \<longleftrightarrow>
     (\<forall>h. length h = HASH_LEN \<longrightarrow> disp h = hex_encode h \<and> rl_decode_segment lib (hex_encode h) = Some (hex_encode h))"

text \<open>Attempt \<open>k\<close> reaches the gateway, whichever connection it uses.\<close>

definition delivers :: "router_lib \<Rightarrow> gateway_state \<Rightarrow> ('a, 'c) network \<Rightarrow> nat \<Rightarrow> rstring \<Rightarrow> gateway_request \<Rightarrow> bool" where
  "delivers lib gw nw k dns_name request \<longleftrightarrow>
     nw_timeout nw k = None \<and> (\<forall>st. \<exists>st'. request_once nw k dns_name request st = (st', Ok (gateway_serve lib gw request)))"

lemma attempt_delivers:
  "delivers lib gw nw k dns_name request \<Longrightarrow>
   \<exists>st'. request_with_timeout nw k secs dns_name request st = (st', Ok (gateway_serve lib gw request))"
  by (auto simp: delivers_def request_with_timeout_def)

text \<open>The state after an attempt does not matter for what a client gets, so only the answer is followed.\<close>

definition answer :: "nat \<times> 's \<times> 'r \<Rightarrow> 'r" where
  "answer x = snd (snd x)"

lemma transport_cases:
  "answer (transport_request nw secs dns_name request st) =
     (case snd (request_with_timeout nw 0 secs dns_name request st) of
        Inr response \<Rightarrow> Ok response
      | Inl e \<Rightarrow>
          if allows_transport_retry (req_method request) then
            (case snd (request_with_timeout nw 1 secs dns_name request
                (reset_connection (fst (request_with_timeout nw 0 secs dns_name request st)))) of
               Inr response \<Rightarrow> Ok response
             | Inl retry_error \<Rightarrow> Err (e @ lit ''; retry failed: '' @ retry_error))
          else Err e)"
  by (simp add: transport_request_def answer_def Let_def split: prod.splits sum.splits)

text \<open>
  C11. Reading a block through the gateway is reading the gateway's store. If the first attempt
  reaches the gateway, or fails and the second one reaches it, the client's lookup of a block
  returns exactly what the store of the gateway has under its id; a lookup that fails in that
  store is reported as absent, the only difference.
\<close>

theorem gateway_lookup_refines_store:
  assumes "router_contract disp lib" and "length h = HASH_LEN"
    and req: "req = \<lparr>req_method = GET, req_path = build_block_path disp h, req_headers = [], req_body = []\<rparr>"
    and "delivers lib gw nw 0 dns_name req \<or>
      (\<exists>e. snd (request_with_timeout nw 0 DEFAULT_GATEWAY_TIMEOUT dns_name req st) = Err e) \<and> delivers lib gw nw 1 dns_name req"
  shows "snd (http3_get_block_bytes disp nw dns_name h st) = Ok (found (state_store gw h))"
proof -
  have d: "disp h = hex_encode h" "rl_decode_segment lib (hex_encode h) = Some (hex_encode h)"
    using assms(1,2) by (simp_all add: router_contract_def)
  have r: "block_route (req_path req) = Some (hex_encode h)"
    using block_route_hex [OF assms(2)] d(1) by (simp add: req build_block_path_def)
  have serve: "gateway_serve lib gw req = get_block (state_store gw) (hex_encode h)"
    using r d(2) by (simp add: gateway_serve_def serve_block_def req)
  have m: "req_method req = GET" by (simp add: req)
  have once: "\<exists>st'. request_with_timeout nw k DEFAULT_GATEWAY_TIMEOUT dns_name req st0 = (st', Ok (gateway_serve lib gw req))"
    if "delivers lib gw nw k dns_name req" for k st0
    using attempt_delivers [OF that] .
  have "answer (transport_request nw DEFAULT_GATEWAY_TIMEOUT dns_name req st) = Ok (get_block (state_store gw) (hex_encode h))"
    using assms(4)
  proof
    assume "delivers lib gw nw 0 dns_name req"
    from once [OF this, of st] show ?thesis by (auto simp: transport_cases serve)
  next
    assume "(\<exists>e. snd (request_with_timeout nw 0 DEFAULT_GATEWAY_TIMEOUT dns_name req st) = Err e) \<and> delivers lib gw nw 1 dns_name req"
    then show ?thesis
      using once [of 1 "reset_connection (fst (request_with_timeout nw 0 DEFAULT_GATEWAY_TIMEOUT dns_name req st))"]
      by (auto simp: transport_cases serve m)
  qed
  then show ?thesis
    by (auto simp: http3_get_block_bytes_def answer_def req get_block_shown [OF assms(2)] not_found_response_def status_response_def
        split: prod.splits option.splits)
qed

definition demo_router :: router_lib where
  "demo_router = \<lparr>rl_to_str = \<lambda>bs. Some (map unat bs), rl_header_name = \<lambda>bs. Some (map unat bs), rl_read_body = \<lambda>n bs. Ok bs,
     rl_decode_segment = Some, rl_fallback = \<lambda>_. status_response 404, rl_parse_url = Ok, rl_upstream = \<lambda>u hs b. Err []\<rparr>"

definition demo_gateway :: gateway_state where
  "demo_gateway = \<lparr>state_store = \<lambda>h. Ok (Some h), state_embedding_proxy = None\<rparr>"

text \<open>The first attempt times out, the second one is answered.\<close>

definition demo_network :: "(unit, unit) network" where
  "demo_network = \<lparr>nw_is_ipv4 = \<lambda>_. True, nw_parse_uri = \<lambda>_. Ok (), nw_lookup_host = \<lambda>_ _. Ok [()], nw_connect = \<lambda>_ _ _. Ok (),
     nw_exchange = \<lambda>k c r. Ok (gateway_serve demo_router demo_gateway r),
     nw_timeout = \<lambda>k. if k = 0 then Some BeforeConnected else None, nw_meanwhile = \<lambda>_ st. st\<rparr>"

theorem gateway_lookup_refines_store_witness:
  "snd (http3_get_block_bytes hex_encode demo_network (lit ''gw'') (replicate 32 7) \<lparr>resolved_address = None, send_request = None\<rparr>)
     = Ok (Some (replicate 32 7))"
proof -
  have "router_contract hex_encode demo_router" by (simp add: router_contract_def demo_router_def)
  moreover have "delivers demo_router demo_gateway demo_network 1 (lit ''gw'') r" for r
    by (auto simp: delivers_def demo_network_def request_once_def get_or_connect_def preferred_resolved_address_def split: option.splits)
  moreover have "\<exists>e. snd (request_with_timeout demo_network 0 DEFAULT_GATEWAY_TIMEOUT (lit ''gw'') r st) = Err e" for r st
    by (simp add: request_with_timeout_def demo_network_def)
  ultimately show ?thesis
    using gateway_lookup_refines_store [of hex_encode demo_router "replicate 32 7" _ demo_gateway demo_network "lit ''gw''"
      "\<lparr>resolved_address = None, send_request = None\<rparr>"]
    by (simp add: HASH_LEN_def demo_gateway_def found_def)
qed

text \<open>
  Only what was found may be cached. A response to a block request allows caching exactly
  if the store has the block, and then the body is its bytes; every other answer, a failing
  store included, says that it must not be stored, so a block that appears later is seen.
\<close>

theorem gateway_caches_only_found:
  "(header_get_all (lit ''cache-control'') (resp_headers (get_block store block_id)) = [utf8 CACHE_CONTROL_VALUE] \<longleftrightarrow>
      (\<exists>h bs. parse_block_hash block_id = Ok h \<and> store h = Ok (Some bs) \<and> resp_body (get_block store block_id) = bs)) \<and>
    (resp_status (get_block store block_id) = 200 \<or>
      get_block store block_id = \<lparr>resp_status = 404, resp_headers = [(lit ''cache-control'', utf8 (lit ''no-store''))], resp_body = []\<rparr>)"
proof -
  have ne: "utf8 (lit ''no-store'') \<noteq> utf8 CACHE_CONTROL_VALUE"
    by (simp add: CACHE_CONTROL_VALUE_def utf8_def utf8_char_def)
  show ?thesis using ne
    by (auto simp: get_block_def not_found_response_def status_response_def header_insert_def header_get_all_def
        NO_STORE_CACHE_CONTROL_VALUE_def split: sum.splits option.splits)
qed

section \<open>Headers\<close>

lemma copy_loop_filter:
  "copy_headers_loop lib source d hs = d @ filter (\<lambda>h. \<not> is_hop_by_hop_or_framing_header (fst h) \<and>
     \<not> is_connection_nominated_header lib source (fst h)) hs"
  by (induction lib source d hs rule: copy_headers_loop.induct) (simp_all add: header_append_def)

lemma map_filter_mem: "y \<in> set (List.map_filter f xs) \<longleftrightarrow> (\<exists>x \<in> set xs. f x = Some y)"
  by (auto simp: List.map_filter_def image_iff)

text \<open>
  C26. The embedding proxy passes on end-to-end headers only, and all of them. Of each header
  name it forwards either no value, if the name describes the connection or is named in one of
  the \<^verbatim>\<open>Connection\<close> headers, or all its values in their order; no header is added.
\<close>

theorem proxy_headers_end_to_end:
  "header_get_all name (copy_end_to_end_headers lib hs) =
     (if is_hop_by_hop_or_framing_header name \<or>
         (\<exists>v t part. v \<in> set (header_get_all (lit ''connection'') hs) \<and> rl_to_str lib v = Some t \<and>
            part \<in> set (split_on 44 t) \<and> rl_header_name lib (utf8 (trim part)) = Some name)
      then [] else header_get_all name hs)"
proof -
  have "is_connection_nominated_header lib hs name \<longleftrightarrow>
      (\<exists>v t part. v \<in> set (header_get_all (lit ''connection'') hs) \<and> rl_to_str lib v = Some t \<and>
         part \<in> set (split_on 44 t) \<and> rl_header_name lib (utf8 (trim part)) = Some name)"
    unfolding is_connection_nominated_header_def nominated_names_def list_ex_iff map_filter_mem set_concat set_map
    using map_filter_mem [of _ "rl_to_str lib"] by (simp add: Bex_def map_filter_mem) blast
  moreover have "header_get_all name (copy_end_to_end_headers lib hs) =
    (if is_hop_by_hop_or_framing_header name \<or> is_connection_nominated_header lib hs name then [] else header_get_all name hs)"
    by (induction hs rule: rev_induct; auto simp: copy_end_to_end_headers_def copy_end_to_end_headers_into_def copy_loop_filter
        header_get_all_def filter_empty_conv intro!: arg_cong [where f = "map snd"] filter_cong)
  ultimately show ?thesis by simp
qed

section \<open>Retries\<close>

text \<open>
  C27. A request is attempted at most twice, and a second time only if the first attempt failed
  and its method may be repeated; in particular an embedding request is sent once. Before a
  second attempt the shared connection is dropped.
\<close>

theorem transport_retries_idempotent_only:
  assumes "transport_request nw secs dns_name request st = (n, st', r)"
  shows "n \<le> 2 \<and> (n = 2 \<longrightarrow> allows_transport_retry (req_method request) \<and>
      (\<exists>e. snd (request_with_timeout nw 0 secs dns_name request st) = Err e) \<and>
      (\<exists>st1. send_request st1 = None \<and> st' = fst (request_with_timeout nw 1 secs dns_name request st1))) \<and>
    (req_method request = POST \<longrightarrow> n = 1 \<and> r = snd (request_with_timeout nw 0 secs dns_name request st))"
proof (cases "request_with_timeout nw 0 secs dns_name request st")
  case (Pair st1 r1)
  have closed: "send_request (reset_connection st1) = None" by (simp add: reset_connection_def)
  show ?thesis using assms closed Pair
    by (cases r1; cases "request_with_timeout nw 1 secs dns_name request (reset_connection st1)";
        cases "snd (request_with_timeout nw 1 secs dns_name request (reset_connection st1))")
      (auto simp: transport_request_def Let_def split: if_splits intro!: exI [of _ "reset_connection st1"])
qed

definition demo_post :: gateway_request where
  "demo_post = \<lparr>req_method = POST, req_path = lit ''/v1/embeddings'', req_headers = [], req_body = [1]\<rparr>"

theorem transport_retries_idempotent_only_witness:
  "fst (transport_request demo_network 30 (lit ''gw'') demo_post \<lparr>resolved_address = None, send_request = None\<rparr>) = 1"
proof -
  obtain n st' r where t: "transport_request demo_network 30 (lit ''gw'') demo_post
    \<lparr>resolved_address = None, send_request = None\<rparr> = (n, st', r)" by (metis prod_cases3)
  have "req_method demo_post = POST" by (simp add: demo_post_def)
  with transport_retries_idempotent_only [OF t] show ?thesis unfolding t by simp
qed

section \<open>Configurations\<close>

lemma store_init_no_panic: "map_err StoreInitialization r \<noteq> Err GatewayPanic"
  by (cases r) auto

text \<open>
  Building the store of a gateway never panics: what validation accepts has every value
  that the construction of the selected store takes for granted, whatever the libraries answer;
  a memory cache is only built with room for a block.
\<close>

theorem gateway_build_store_no_panic:
  "build_store sb c \<noteq> Err GatewayPanic \<and>
   (\<forall>st. build_store sb c = Ok st \<longrightarrow> storage_profile c = GatewayProduction \<longrightarrow>
      (\<exists>capacity memory_cache. 0 < capacity \<and> gw_memory_cache_max_resident_blocks c = Some capacity \<and>
         sb_memory sb capacity = Ok memory_cache))"
  by (cases "storage_profile c")
    (auto simp: build_store_def validate_storage_profile_config_def build_local_redb_store_def build_overlay_store_def
      build_direct_azure_table_store_def expect_some_def missing_path_def result_simps store_init_no_panic
      split: if_splits option.splits)

definition demo_builders :: "nat store_builders" where
  "demo_builders = \<lparr>sb_redb_read_only = \<lambda>_. Ok 0, sb_azure_table = \<lambda>_. Ok 1, sb_memory = \<lambda>n. Ok n, sb_filesystem = \<lambda>_. Ok 3,
     sb_overlay = \<lambda>ls. Ok (sum_list ls)\<rparr>"

definition demo_gateway_config :: gateway_config where
  "demo_gateway_config = \<lparr>storage_profile = GatewayProduction, gw_block_store_root = None, gw_container_sas_url = lit ''https'',
     gw_filesystem_cache_root = Some (Path True [lit ''c'']), gw_memory_cache_max_resident_blocks = Some 5, gw_block_store_prefix = None\<rparr>"

theorem gateway_build_store_no_panic_witness:
  "build_store demo_builders demo_gateway_config = Ok 9 \<and> (\<exists>capacity memory_cache. 0 < capacity \<and>
     gw_memory_cache_max_resident_blocks demo_gateway_config = Some capacity \<and> sb_memory demo_builders capacity = Ok memory_cache)"
proof -
  have "trim (lit ''https'') = lit ''https''" by (simp add: trim_def trim_start_def trim_end_def is_whitespace_def)
  then have "build_store demo_builders demo_gateway_config = Ok 9"
    by (simp add: build_store_def validate_storage_profile_config_def demo_gateway_config_def demo_builders_def missing_path_def
        path_is_empty_def build_overlay_store_def build_direct_azure_table_store_def expect_some_def)
  moreover have "storage_profile demo_gateway_config = GatewayProduction" by (simp add: demo_gateway_config_def)
  ultimately show ?thesis using gateway_build_store_no_panic [of demo_builders demo_gateway_config] by blast
qed

end
