(* ===== verification/Embedding_Laws.thy ===== *)
theory Embedding_Laws
  imports Embedding
begin

text \<open>
  Batches are in the order of their inputs whatever order the requests complete in; vectors
  survive their encoding; and the number of requests is bounded by the configured retries.
\<close>

section \<open>Encoding\<close>

lemma length_f32_bytes [simp]: "length (f32_to_le_bytes w) = 4"
  by (simp add: f32_to_le_bytes_def)

lemma f32_le_roundtrip: "(from_le_bytes (f32_to_le_bytes w) :: f32) = w"
proof (rule bit_word_eqI)
  fix n assume "n < LENGTH(32)"
  then have "n < 32" by simp
  then consider "n < 8" | "8 \<le> n \<and> n < 16" | "16 \<le> n \<and> n < 24" | "24 \<le> n \<and> n < 32" by linarith
  then show "bit (from_le_bytes (f32_to_le_bytes w) :: f32) n \<longleftrightarrow> bit w n"
    by cases (auto simp: f32_to_le_bytes_def bit_or_iff bit_push_bit_iff bit_ucast_iff bit_drop_bit_eq)
qed

lemma chunks_exact_concat:
  assumes "0 < n" and "\<forall>x \<in> set xs. length x = n"
  shows "chunks_exact n (concat xs) = xs"
  using assms(2)
proof (induction xs)
  case Nil
  then show ?case using assms(1) by (simp add: chunks_exact.simps [of n "[]"])
next
  case (Cons x xs)
  then show ?case using assms(1) by (simp add: chunks_exact.simps [of n "x @ concat xs"])
qed

lemma length_concat_f32: "length (concat (map f32_to_le_bytes v)) = 4 * length v"
  by (induction v) simp_all

text \<open>
  Vectors survive the wire. What a provider encodes for the logical \<^verbatim>\<open>f32le\<close> specification of
  a vector's dimension decodes to exactly the same bit patterns, by the decoder of the search
  and by that of the tree tools.
\<close>

theorem logical_embedding_roundtrip:
  assumes "length v < 2 ^ 62" and "encode_embedding to_f16 v (logical_f32_embedding_spec dims) = Ok bs"
  shows "decode_logical_f32_embedding bs dims = Ok v \<and>
    decode_embedding_values to_f32 bs (logical_f32_embedding_spec dims) = Some v"
proof -
  have d: "dims = of_nat (length v)" and bs: "bs = concat (map f32_to_le_bytes v)"
    using assms(2) by (auto simp: encode_embedding_def logical_f32_embedding_spec_def Let_def split: if_splits)
  have u: "unat dims = length v" using assms(1) by (simp add: d unat_of_nat)
  have c: "checked_mul (unat dims) 4 = Some (4 * length v)" using assms(1) by (simp add: checked_mul_def u)
  have "map from_le_bytes (chunks_exact 4 bs) = v"
    unfolding bs by (subst chunks_exact_concat) (auto simp: f32_le_roundtrip comp_def)
  then show ?thesis
    by (simp add: decode_logical_f32_embedding_def decode_embedding_values_def logical_f32_embedding_spec_def c bs length_concat_f32)
qed

theorem logical_embedding_roundtrip_witness:
  "\<exists>bs. encode_embedding (\<lambda>_. 0) [1065353216] (logical_f32_embedding_spec 1) = Ok bs \<and>
     decode_logical_f32_embedding bs 1 = Ok [1065353216]"
proof -
  obtain bs where e: "encode_embedding (\<lambda>_. 0) [1065353216] (logical_f32_embedding_spec 1) = Ok bs"
    by (simp add: encode_embedding_def logical_f32_embedding_spec_def)
  from logical_embedding_roundtrip [OF _ e, of "\<lambda>_. 0"] e show ?thesis by simp
qed

section \<open>Batches\<close>

lemma join_loop_ok:
  assumes "\<forall>i < length results. \<exists>e. emb i = Ok e" and "set order \<subseteq> Inr ` {..<length results}"
  shows "\<exists>results'. join_loop emb order results = Ok results' \<and> length results' = length results \<and>
    (\<forall>i < length results. results' ! i = (if Inr i \<in> set order then (case emb i of Inr e \<Rightarrow> Some e) else results ! i))"
  using assms
proof (induction emb order results rule: join_loop.induct)
  case (3 emb i order results)
  have i: "i < length results" using 3(3) by auto
  then obtain e where e: "emb i = Ok e" using 3(2) by blast
  let ?r = "results[i := Some e]"
  have "\<exists>results'. join_loop emb order ?r = Ok results' \<and> length results' = length ?r \<and>
    (\<forall>j < length ?r. results' ! j = (if Inr j \<in> set order then (case emb j of Inr x \<Rightarrow> Some x) else ?r ! j))"
    by (rule 3(1)) (use 3(2,3) in auto)
  then obtain results' where r: "join_loop emb order ?r = Ok results'" "length results' = length results"
    "\<And>j. j < length results \<Longrightarrow> results' ! j = (if Inr j \<in> set order then (case emb j of Inr x \<Rightarrow> Some x) else ?r ! j)"
    by auto
  show ?case using r e i by (intro exI [of _ results']) (auto simp: nth_list_update)
qed auto

lemma join_loop_err:
  "join_loop emb order results = Err e \<Longrightarrow> (\<exists>i. Inr i \<in> set order \<and> emb i = Err e) \<or> (\<exists>m. Inl m \<in> set order \<and> e = RequestFailed 1 m)"
proof (induction emb order results rule: join_loop.induct)
  case (3 emb i order results)
  then show ?case by (cases "emb i") auto
qed auto

lemma join_loop_Ok_all:
  "join_loop emb order results = Ok r \<Longrightarrow> Inr i \<in> set order \<Longrightarrow> \<exists>e. emb i = Ok e"
proof (induction emb order results rule: join_loop.induct)
  case (3 emb j order results)
  then show ?case by (cases "emb j") auto
qed auto

text \<open>
  C19. A batch of embeddings does not depend on how its requests interleave. Whatever order the
  tasks complete in, if every input can be embedded the batch is the list of the embeddings in
  the order of the inputs, and otherwise it fails with the error of one of the inputs.
\<close>

theorem embed_batch_order_independent:
  assumes "mset order = mset (map Inr [0..<length inputs])"
  shows "if \<forall>input \<in> set inputs. \<exists>e. emb input = Ok e
    then embed_batch emb order inputs = Ok (map (\<lambda>input. case emb input of Inr e \<Rightarrow> e) inputs)
    else \<exists>input \<in> set inputs. \<exists>e. emb input = Err e \<and> embed_batch emb order inputs = Err e"
proof -
  let ?f = "\<lambda>i. emb (inputs ! i)" and ?r = "replicate (length inputs) None"
  have order: "set order = Inr ` {..<length inputs}" using mset_eq_setD [OF assms] by auto
  show ?thesis
  proof (cases "\<forall>input \<in> set inputs. \<exists>e. emb input = Ok e")
    case True
    have ok: "\<forall>i < length inputs. \<exists>e. ?f i = Ok e" using True nth_mem by blast
    obtain rs where rs: "join_loop ?f order ?r = Ok rs" "length rs = length inputs"
      "\<forall>i < length inputs. rs ! i = (case ?f i of Inr e \<Rightarrow> Some e)"
      using join_loop_ok [of ?r ?f order] ok order by auto
    let ?out = "map (\<lambda>input. case emb input of Inr e \<Rightarrow> e) inputs"
    have "rs = map Some ?out"
    proof (rule nth_equalityI)
      fix i assume "i < length rs"
      then have i: "i < length inputs" by (simp add: rs(2))
      then obtain e where "?f i = Ok e" using ok by blast
      then show "rs ! i = map Some ?out ! i" using i rs(3) by simp
    qed (simp add: rs(2))
    moreover have "try_map (ok_or err) (map Some xs) = Ok xs" for err :: embedding_error and xs :: "bytes list"
      by (induction xs) simp_all
    ultimately have "embed_batch emb order inputs = Ok ?out" unfolding embed_batch_def rs(1) by (simp del: map_map)
    then show ?thesis using True by simp
  next
    case False
    then obtain input where inp: "input \<in> set inputs" "\<nexists>e. emb input = Ok e" by blast
    then obtain i where i: "i < length inputs" "inputs ! i = input" by (auto simp: in_set_conv_nth)
    have "join_loop ?f order ?r \<noteq> Ok rs" for rs
      using join_loop_Ok_all [of ?f order ?r rs i] order i inp(2) by auto
    then obtain e where e: "join_loop ?f order ?r = Err e" by (cases "join_loop ?f order ?r") auto
    from join_loop_err [OF e] obtain j where j: "j < length inputs" "?f j = Err e" using order by auto
    then have "inputs ! j \<in> set inputs \<and> emb (inputs ! j) = Err e \<and> embed_batch emb order inputs = Err e"
      using e by (simp add: embed_batch_def)
    then show ?thesis using False by auto
  qed
qed

theorem embed_batch_order_independent_witness:
  "embed_batch (\<lambda>c. Ok (content_body c)) [Inr 1, Inr 0]
     [\<lparr>media_type = [], content_body = [1]\<rparr>, \<lparr>media_type = [], content_body = [2]\<rparr>] = Ok [[1], [2]]"
  using embed_batch_order_independent [of "[Inr 1, Inr 0]"
      "[\<lparr>media_type = [], content_body = [1]\<rparr>, \<lparr>media_type = [], content_body = [2]\<rparr>]" "\<lambda>c. Ok (content_body c)"]
  by (simp add: add_mset_commute)

section \<open>Number of requests\<close>

lemma local_loop_bound:
  "attempts_made < attempt \<Longrightarrow> attempt \<le> Suc max_attempts \<Longrightarrow> local_embed_loop h send spec max_attempts attempt attempts_made l = (n, r) \<Longrightarrow>
   n \<le> max_attempts \<and> (\<forall>k m. r = Err (RequestFailed k m) \<longrightarrow> k = n \<or> k = 0)"
proof (induction h send spec max_attempts attempt attempts_made l rule: local_embed_loop.induct)
  case (1 h send spec max_attempts attempt attempts_made l)
  have fv: "first_vector h spec attempt parsed = Err (RequestFailed k m) \<Longrightarrow> k = attempt" for parsed k m
    by (cases parsed) (auto simp: first_vector_def encode_embedding_def Let_def split: list.splits if_splits)
  show ?case using 1(3-5) 1(1,2) fv
    by (subst (asm) (1) local_embed_loop.simps)
      (auto split: if_splits embedding_answer.splits)
qed

lemma gateway_loop_bound:
  "0 < attempt \<Longrightarrow> attempt \<le> Suc max_attempts \<Longrightarrow> gateway_embed_loop h request parse st spec max_attempts attempt l = (n, r) \<Longrightarrow>
   n \<le> max_attempts"
proof (induction h request parse st spec max_attempts attempt l rule: gateway_embed_loop.induct)
  case (1 h request parse st spec max_attempts attempt l)
  show ?case using 1(3-5) 1(1,2)
    by (subst (asm) (1) gateway_embed_loop.simps) (auto simp: Let_def split: if_splits sum.splits)
qed

text \<open>
  Retries are bounded, and a failed request of the local provider says how often it was
  sent. Both providers send at most one request more than the configured number of retries;
  the number of attempts that the local provider reports in \<^verbatim>\<open>RequestFailed\<close> is the number it
  made.
\<close>

theorem embedding_requests_bounded:
  assumes "local_embed_impl to_f16 post p input spec = (n, r)"
    and "gateway_embed_impl to_f16 request to_json from_slice status_of g input spec = (n', r')"
  shows "n \<le> unat (lp_max_retries p) + 1 \<and> n' \<le> unat (gp_max_retries g) + 1 \<and>
    (\<forall>k m. r = Err (RequestFailed k m) \<longrightarrow> k = n \<or> k = 0)"
proof -
  have w: "max_attempts_of m \<le> unat m + 1" for m by (simp add: max_attempts_of_def unat_word_ariths(1))
  have "n \<le> max_attempts_of (lp_max_retries p) \<and> (\<forall>k m. r = Err (RequestFailed k m) \<longrightarrow> k = n \<or> k = 0)"
    using assms(1) unfolding local_embed_impl_def by (intro local_loop_bound) simp_all
  moreover have "n' \<le> max_attempts_of (gp_max_retries g)"
    using assms(2) unfolding gateway_embed_impl_def by (auto split: sum.splits elim!: gateway_loop_bound [rotated 2])
  ultimately show ?thesis using w [of "lp_max_retries p"] w [of "gp_max_retries g"] by auto
qed

definition demo_local_provider :: local_provider where
  "demo_local_provider = \<lparr>lp_base_url = [], lp_model = [], lp_api_key = None, lp_max_retries = 2\<rparr>"

definition demo_gateway_provider :: gateway_provider where
  "demo_gateway_provider = \<lparr>gp_dns_name = [], gp_model = [], gp_max_retries = 2\<rparr>"

theorem embedding_requests_bounded_witness:
  "fst (local_embed_impl (\<lambda>_. 0) (\<lambda>u a m t k. TransportError []) demo_local_provider \<lparr>media_type = [], content_body = []\<rparr>
      (logical_f32_embedding_spec 1)) \<le> 3 \<and>
   fst (gateway_embed_impl (\<lambda>_. 0) (\<lambda>d q k. Err []) (\<lambda>t m. Ok []) (\<lambda>bs. Ok []) Some demo_gateway_provider
      \<lparr>media_type = [], content_body = []\<rparr> (logical_f32_embedding_spec 1)) \<le> 3"
proof -
  let ?l = "local_embed_impl (\<lambda>_. 0) (\<lambda>u a m t k. TransportError []) demo_local_provider \<lparr>media_type = [], content_body = []\<rparr>
      (logical_f32_embedding_spec 1)"
  let ?g = "gateway_embed_impl (\<lambda>_. 0) (\<lambda>d q k. Err []) (\<lambda>t m. Ok []) (\<lambda>bs. Ok []) Some demo_gateway_provider
      \<lparr>media_type = [], content_body = []\<rparr> (logical_f32_embedding_spec 1)"
  obtain n r n' r' where e: "?l = (n, r)" "?g = (n', r')" by fastforce
  show ?thesis using embedding_requests_bounded [OF e] unfolding e by (simp add: demo_local_provider_def demo_gateway_provider_def)
qed

text \<open>
  Two errors of the providers that hide what happened. If the gateway answers the first
  request with a status that is not retried, one request was sent but the error reports the
  configured maximum, where the local provider reports one. With the largest number of retries,
  adding one wraps to zero and no request is sent at all.
\<close>

theorem gateway_embed_misreports_attempts:
  assumes "to_json (from_utf8_lossy (content_body input)) (gp_model g) = Ok body"
    and "\<And>q. request (gp_dns_name g) q 1 = Ok response" and "resp_status response \<noteq> 200"
    and "\<not> should_retry (status_of (resp_status response)) 1 (max_attempts_of (gp_max_retries g))"
    and "gp_max_retries g \<noteq> - 1"
  shows "(\<exists>m. gateway_embed_impl to_f16 request to_json from_slice status_of g input spec =
      (1, Err (RequestFailed (unat (gp_max_retries g) + 1) m))) \<and>
    (\<exists>m. gateway_embed_impl to_f16 request to_json from_slice status_of (g\<lparr>gp_max_retries := - 1\<rparr>) input spec =
      (0, Err (RequestFailed 0 m)))"
proof -
  have "unat (gp_max_retries g + 1) = unat (gp_max_retries g) + 1"
    using assms(5) by (metis Suc_eq_plus1 add.inverse_inverse add_eq_0_iff unatSuc add.commute)
  then have m: "max_attempts_of (gp_max_retries g) = unat (gp_max_retries g) + 1" by (simp add: max_attempts_of_def)
  have z: "max_attempts_of (- 1) = 0" by (simp add: max_attempts_of_def)
  show ?thesis using assms(1-4)
    by (simp add: gateway_embed_impl_def gateway_embed_loop.simps [of _ _ _ _ _ _ "Suc 0"] m z Let_def)
qed

theorem gateway_embed_misreports_attempts_witness:
  "\<exists>m. gateway_embed_impl (\<lambda>_. 0) (\<lambda>d q k. Ok (status_response 400)) (\<lambda>t m. Ok []) (\<lambda>bs. Ok []) Some demo_gateway_provider
      \<lparr>media_type = [], content_body = []\<rparr> (logical_f32_embedding_spec 1) = (1, Err (RequestFailed 3 m))"
  using gateway_embed_misreports_attempts [of "\<lambda>t m. Ok []" "\<lparr>media_type = [], content_body = []\<rparr>" demo_gateway_provider "[]"
      "\<lambda>d q k. Ok (status_response 400)" "status_response 400" Some "\<lambda>_. 0" "\<lambda>bs. Ok []" "logical_f32_embedding_spec 1"]
  by (simp add: status_response_def should_retry_def demo_gateway_provider_def)

end
