(* ===== verification/Search_Tools.thy ===== *)
theory Search_Tools
  imports Embedding
begin

text \<open>
  Rooted search (\<^verbatim>\<open>search.rs\<close>, \<^verbatim>\<open>tree_tools.rs\<close>) and the tool server on top of it
  (\<^verbatim>\<open>mcp/src/config.rs\<close>, \<^verbatim>\<open>mcp/src/runtime.rs\<close>): configuration, search, retrieval of an e-mail. The
  search library, the block store and JSON are parameters; the times in a report are not
  modelled.
\<close>

section \<open>The search library\<close>

datatype root_block = RootBranch embedding_spec | RootLeaf stored_leaf

record found_leaf =
  fl_position :: nat
  fl_leaf_block_id :: block_hash
  fl_entry :: stored_entry

datatype search_error = Exhausted nat | OtherSearchError rstring

record 't search_lib =
  sl_disp :: "block_hash \<Rightarrow> rstring"
  sl_get :: "block_hash \<Rightarrow> block_store_error + root_block option"
  sl_prepare_target :: "root_block \<Rightarrow> f32 list \<Rightarrow> rstring + 't \<times> embedding_spec"
  sl_search :: "block_hash \<Rightarrow> 't \<Rightarrow> nat \<Rightarrow> nat \<Rightarrow> search_error + found_leaf list"
  sl_embedding_error_text :: "embedding_error \<Rightarrow> rstring"

fun search_retry :: "(nat \<Rightarrow> search_error + 'r) \<Rightarrow> search_error + 'r \<Rightarrow> search_error + 'r" where
  "search_retry again (Inr result) = Ok result"
| "search_retry again (Inl (Exhausted reachable_leaves)) =
     (if reachable_leaves > 0 then again reachable_leaves else Err (Exhausted reachable_leaves))"
| "search_retry again (Inl (OtherSearchError m)) = Err (OtherSearchError m)"

definition search_with_partial_retry ::
  "'t search_lib \<Rightarrow> block_hash \<Rightarrow> 't \<Rightarrow> nat \<Rightarrow> nat \<Rightarrow> search_error + found_leaf list" where
  "search_with_partial_retry lib root_id target traversal_width top_k =
     search_retry (\<lambda>reachable. sl_search lib root_id target traversal_width reachable)
       (sl_search lib root_id target traversal_width top_k)"

section \<open>Rooted search\<close>

record search_hit =
  hit_position :: nat
  hit_leaf_block_id :: rstring
  hit_media_type :: rstring
  hit_text :: rstring
  hit_metadata :: bmap
  hit_source_kind :: "rstring option"
  hit_source_path :: "rstring option"
  hit_source_name :: "rstring option"

definition project_leaf_entry :: "(block_hash \<Rightarrow> rstring) \<Rightarrow> block_hash \<Rightarrow> nat \<Rightarrow> stored_entry \<Rightarrow> bmap \<Rightarrow> search_hit" where
  "project_leaf_entry disp leaf_block_id position entry md =
     \<lparr>hit_position = position, hit_leaf_block_id = disp leaf_block_id,
      hit_media_type = media_type (stored_content entry), hit_text = from_utf8_lossy (content_body (stored_content entry)),
      hit_metadata = md, hit_source_kind = map_of md (lit ''source_kind''), hit_source_path = map_of md (lit ''source_path''),
      hit_source_name = source_name_from_metadata md\<rparr>"

definition rooted_search_hit :: "(block_hash \<Rightarrow> rstring) \<Rightarrow> found_leaf \<Rightarrow> search_hit" where
  "rooted_search_hit disp leaf =
     (let md = metadata_values_to_text_map (stored_metadata (fl_entry leaf)) in
      \<lparr>hit_position = fl_position leaf, hit_leaf_block_id = disp (fl_leaf_block_id leaf),
       hit_media_type = media_type (stored_content (fl_entry leaf)),
       hit_text = from_utf8_lossy (content_body (stored_content (fl_entry leaf))),
       hit_metadata = md, hit_source_kind = map_of md (lit ''source_kind''), hit_source_path = map_of md (lit ''source_path''),
       hit_source_name = source_name_from_metadata md\<rparr>)"

datatype rooted_search_error =
    RootedMissingRootBlock rstring
  | RootedInvalidTopK
  | RootedInvalidTraversalWidth
  | RootedBlockStore block_store_error
  | RootedSearch search_error
  | RootedProvider rstring
  | RootedTargetPreparation rstring

record rooted_search_report =
  report_root_id :: rstring
  report_query :: rstring
  report_top_k :: nat
  report_traversal_width :: nat
  report_embedding_spec :: embedding_spec
  report_results :: "search_hit list"

fun embedding_spec_for_block :: "root_block \<Rightarrow> embedding_spec" where
  "embedding_spec_for_block (RootBranch spec) = spec"
| "embedding_spec_for_block (RootLeaf leaf) = leaf_embedding_spec leaf"

definition query_input :: "rstring \<Rightarrow> content" where
  "query_input query = \<lparr>media_type = lit ''text/plain'', content_body = utf8 query\<rparr>"

definition search_rooted_tree ::
  "'t search_lib \<Rightarrow> (content \<Rightarrow> embedding_spec \<Rightarrow> embedding_error + bytes) \<Rightarrow> block_hash \<Rightarrow> rstring \<Rightarrow> nat \<Rightarrow> nat
     \<Rightarrow> rooted_search_error + rooted_search_report" where
  "search_rooted_tree lib emb root_id query top_k traversal_width =
     (if top_k = 0 then Err RootedInvalidTopK
      else if traversal_width = 0 then Err RootedInvalidTraversalWidth
      else
        and_then (map_err RootedBlockStore (sl_get lib root_id)) (\<lambda>found.
        and_then (ok_or (RootedMissingRootBlock (sl_disp lib root_id)) found) (\<lambda>root.
        let provider_spec = logical_f32_embedding_spec (spec_dims (embedding_spec_for_block root)) in
        and_then (map_err (\<lambda>e. RootedProvider (sl_embedding_error_text lib e)) (emb (query_input query) provider_spec)) (\<lambda>target_embedding.
        and_then (map_err (\<lambda>e. RootedProvider (sl_embedding_error_text lib e))
            (decode_logical_f32_embedding target_embedding (spec_dims provider_spec))) (\<lambda>logical_embedding.
        and_then (map_err RootedTargetPreparation (sl_prepare_target lib root logical_embedding)) (\<lambda>(target, comparison_spec).
        and_then (map_err RootedSearch (search_with_partial_retry lib root_id target traversal_width top_k)) (\<lambda>leaves.
          Ok \<lparr>report_root_id = sl_disp lib root_id, report_query = query, report_top_k = top_k,
            report_traversal_width = traversal_width, report_embedding_spec = comparison_spec,
            report_results = map (rooted_search_hit (sl_disp lib)) leaves\<rparr>)))))))"

definition default_search_report_path :: "(bytes \<Rightarrow> bytes) \<Rightarrow> (block_hash \<Rightarrow> rstring) \<Rightarrow> block_hash \<Rightarrow> rstring \<Rightarrow> path" where
  "default_search_report_path sha disp root_id query =
     Path False [lit ''rooted-search-'' @ take 8 (disp root_id) @ [45] @ hex_encode (take 4 (sha (utf8 query))) @ lit ''.json'']"

definition hit_label :: "search_hit \<Rightarrow> rstring" where
  "hit_label hit =
     (case hit_source_name hit of
        Some name \<Rightarrow> name
      | None \<Rightarrow> (case hit_source_path hit of Some p \<Rightarrow> p | None \<Rightarrow> hit_leaf_block_id hit))"

definition render_hit :: "search_hit \<Rightarrow> rstring list" where
  "render_hit hit =
     [show_nat (hit_position hit + 1) @ lit ''. '' @ hit_label hit @ lit '' ['' @ hit_leaf_block_id hit @ [93],
      lit ''   '' @ trim (replace_char 10 [32] (hit_text hit))]"

text \<open>\<open>timing\<close> is the line with the times.\<close>

definition render_search_summary :: "rstring \<Rightarrow> rooted_search_report \<Rightarrow> rstring" where
  "render_search_summary timing report =
     join [10] ([lit ''Rooted search results for '' @ report_root_id report @ lit '' (top_k '' @ show_nat (report_top_k report) @
         lit '', traversal_width '' @ show_nat (report_traversal_width report) @ [41],
       lit ''Query: '' @ report_query report, timing] @ concat (map render_hit (report_results report)))"

section \<open>Configuration of the tool server\<close>

record gateway_http3_config =
  gh_gateway_dns_name :: rstring
  gh_model :: rstring
  gh_max_retries :: u32

record gateway_http3_cache_config =
  gc_gateway :: gateway_http3_config
  gc_block_cache_root :: "path option"
  gc_memory_cache_max_resident_blocks :: nat

datatype mcp_environment_config =
    Shared environment_config
  | GatewayHttp3 gateway_http3_config
  | GatewayHttp3FilesystemCache gateway_http3_cache_config

datatype index_config = SummaryFile path | RootId rstring

record tool_descriptions_config =
  td_search_chunks :: "rstring option"
  td_get_document :: "rstring option"
  td_get_email :: "rstring option"
  td_get_thread :: "rstring option"

record mcp_config =
  mcp_environment :: mcp_environment_config
  mcp_index :: index_config
  mcp_tool_descriptions :: tool_descriptions_config
  mcp_top_k :: nat
  mcp_traversal_width :: nat

datatype mcp_config_error =
    McpInvalidTopK
  | McpInvalidTraversalWidth
  | EmptyGatewayDnsName
  | EmptyBlockCacheRoot
  | InvalidMemoryCacheCapacity
  | EmptyToolDescription rstring
  | IndexerConfig config_error

fun validate_mcp_environment :: "mcp_environment_config \<Rightarrow> mcp_config_error + unit" where
  "validate_mcp_environment (Shared env) = map_err IndexerConfig (validate_environment env)"
| "validate_mcp_environment (GatewayHttp3 g) =
     (if trim (gh_gateway_dns_name g) = [] then Err EmptyGatewayDnsName else Ok ())"
| "validate_mcp_environment (GatewayHttp3FilesystemCache g) =
     (if trim (gh_gateway_dns_name (gc_gateway g)) = [] then Err EmptyGatewayDnsName
      else if gc_memory_cache_max_resident_blocks g = 0 then Err InvalidMemoryCacheCapacity
      else if (case gc_block_cache_root g of None \<Rightarrow> False | Some p \<Rightarrow> path_is_empty p) then Err EmptyBlockCacheRoot
      else Ok ())"

definition configured_descriptions :: "tool_descriptions_config \<Rightarrow> (rstring \<times> rstring option) list" where
  "configured_descriptions t =
     [(lit ''search_chunks'', td_search_chunks t), (lit ''get_document'', td_get_document t),
      (lit ''get_email'', td_get_email t), (lit ''get_thread'', td_get_thread t)]"

definition validate_mcp_config :: "mcp_config \<Rightarrow> mcp_config_error + unit" where
  "validate_mcp_config c =
     (if mcp_top_k c = 0 then Err McpInvalidTopK
      else if mcp_traversal_width c = 0 then Err McpInvalidTraversalWidth
      else and_then (validate_mcp_environment (mcp_environment c)) (\<lambda>_.
        checks (map (\<lambda>(tool_name, description).
          case description of
            None \<Rightarrow> Ok ()
          | Some v \<Rightarrow> if trim v = [] then Err (EmptyToolDescription tool_name) else Ok ())
          (configured_descriptions (mcp_tool_descriptions c)))))"

definition resolve_summary_path :: "mcp_config \<Rightarrow> path \<Rightarrow> path option" where
  "resolve_summary_path c request_dir =
     (case mcp_index c of SummaryFile p \<Rightarrow> Some (resolve_path request_dir p) | RootId _ \<Rightarrow> None)"

definition root_id_literal :: "mcp_config \<Rightarrow> rstring option" where
  "root_id_literal c = (case mcp_index c of SummaryFile _ \<Rightarrow> None | RootId root_id \<Rightarrow> Some root_id)"

text \<open>An unknown tool is a panic: \<open>None\<close>.\<close>

definition tool_description :: "mcp_config \<Rightarrow> rstring \<Rightarrow> rstring option" where
  "tool_description c tool_name =
     (let t = mcp_tool_descriptions c;
          or_default = (\<lambda>d default_text. Some (case d of Some v \<Rightarrow> v | None \<Rightarrow> lit default_text)) in
      if tool_name = lit ''search_chunks''
      then or_default (td_search_chunks t) ''Search indexed LexonArchiveBuilder chunks in the configured block store''
      else if tool_name = lit ''get_document''
      then or_default (td_get_document t) ''Request a named document from the configured LexonArchiveBuilder index''
      else if tool_name = lit ''get_email''
      then or_default (td_get_email t) ''Retrieve an email entry from a search result leaf_block_id''
      else if tool_name = lit ''get_thread''
      then or_default (td_get_thread t) ''Request a named thread from the configured LexonArchiveBuilder index''
      else None)"

section \<open>Operations of the tool server\<close>

datatype mcp_error =
    McpConfigError mcp_config_error
  | InvalidTopK
  | InvalidTraversalWidth
  | ReadSummary rstring io_error
  | ParseSummary rstring rstring
  | InvalidRootId rstring
  | InvalidEmailLeafBlockId rstring
  | IngestionOnlySummary rstring
  | McpProvider embedding_error
  | McpBlockStore block_store_error
  | MissingRootBlock rstring
  | LeafRoot rstring
  | MissingEmailLeafBlock rstring
  | EmailBlockIsNotLeaf rstring
  | EmailLeafEntryCount rstring nat
  | EmailLeafContainsNoEmailEntries rstring
  | TargetPreparation rstring
  | McpSearch search_error
  | McpPanic

definition INGESTION_ONLY_ROOT_ID_PLACEHOLDER :: rstring where
  "INGESTION_ONLY_ROOT_ID_PLACEHOLDER = replicate 64 48"

record mcp_lib =
  ml_read :: "path \<Rightarrow> io_error + bytes"
  ml_summary_root_id :: "bytes \<Rightarrow> rstring + rstring"

definition summary_root_id :: "mcp_lib \<Rightarrow> path \<Rightarrow> mcp_error + rstring" where
  "summary_root_id ml summary_path =
     and_then (map_err (ReadSummary (display_path summary_path)) (ml_read ml summary_path)) (\<lambda>bs.
     and_then (map_err (ParseSummary (display_path summary_path)) (ml_summary_root_id ml bs)) (\<lambda>root_id.
       if root_id = INGESTION_ONLY_ROOT_ID_PLACEHOLDER then Err (IngestionOnlySummary (display_path summary_path))
       else Ok root_id))"

definition resolve_root_id :: "mcp_lib \<Rightarrow> path \<Rightarrow> mcp_config \<Rightarrow> mcp_error + block_hash" where
  "resolve_root_id ml request_dir c =
     and_then (case root_id_literal c of
                 Some root_id \<Rightarrow> Ok root_id
               | None \<Rightarrow> and_then (ok_or McpPanic (resolve_summary_path c request_dir)) (summary_root_id ml))
       (\<lambda>root_literal. map_err (\<lambda>_. InvalidRootId root_literal) (parse_block_hash root_literal))"

record search_chunks_request =
  sc_query :: rstring
  sc_top_k :: "nat option"
  sc_traversal_width :: "nat option"

record search_chunks_response =
  sr_root_id :: rstring
  sr_top_k :: nat
  sr_traversal_width :: nat
  sr_results :: "search_hit list"

definition search_chunks ::
  "mcp_lib \<Rightarrow> 't search_lib \<Rightarrow> (embedding_error + (content \<Rightarrow> embedding_spec \<Rightarrow> embedding_error + bytes)) \<Rightarrow> path \<Rightarrow> mcp_config
     \<Rightarrow> search_chunks_request \<Rightarrow> mcp_error + search_chunks_response" where
  "search_chunks ml lib provider request_dir c request =
     (let top_k = (case sc_top_k request of Some k \<Rightarrow> k | None \<Rightarrow> mcp_top_k c);
          traversal_width = (case sc_traversal_width request of Some w \<Rightarrow> w | None \<Rightarrow> mcp_traversal_width c) in
      if top_k = 0 then Err InvalidTopK
      else if traversal_width = 0 then Err InvalidTraversalWidth
      else
        and_then (resolve_root_id ml request_dir c) (\<lambda>root_id.
        and_then (map_err McpBlockStore (sl_get lib root_id)) (\<lambda>found.
        and_then (ok_or (MissingRootBlock (sl_disp lib root_id)) found) (\<lambda>root.
        and_then (case root of RootBranch spec \<Rightarrow> Ok spec | RootLeaf _ \<Rightarrow> Err (LeafRoot (sl_disp lib root_id))) (\<lambda>branch_spec.
        and_then (map_err McpProvider provider) (\<lambda>emb.
        let provider_spec = logical_f32_embedding_spec (spec_dims branch_spec) in
        and_then (map_err McpProvider (emb (query_input (sc_query request)) provider_spec)) (\<lambda>target_embedding.
        and_then (map_err McpProvider (decode_logical_f32_embedding target_embedding (spec_dims provider_spec))) (\<lambda>logical_embedding.
        and_then (map_err TargetPreparation (sl_prepare_target lib root logical_embedding)) (\<lambda>(target, _).
        and_then (map_err McpSearch (search_with_partial_retry lib root_id target traversal_width top_k)) (\<lambda>leaves.
          Ok \<lparr>sr_root_id = sl_disp lib root_id, sr_top_k = top_k, sr_traversal_width = traversal_width,
            sr_results = map (\<lambda>leaf.
              project_leaf_entry (sl_disp lib) (fl_leaf_block_id leaf) (fl_position leaf) (fl_entry leaf)
                (metadata_values_to_text_map (stored_metadata (fl_entry leaf)))) leaves\<rparr>))))))))))"

definition sole_email_leaf_entry :: "rstring \<Rightarrow> stored_entry list \<Rightarrow> mcp_error + stored_entry" where
  "sole_email_leaf_entry leaf_block_id entry_list =
     (case entry_list of [entry] \<Rightarrow> Ok entry | _ \<Rightarrow> Err (EmailLeafEntryCount leaf_block_id (length entry_list)))"

definition get_email :: "'t search_lib \<Rightarrow> rstring \<Rightarrow> mcp_error + rstring \<times> search_hit" where
  "get_email lib name =
     and_then (map_err (\<lambda>_. InvalidEmailLeafBlockId name) (parse_block_hash name)) (\<lambda>h.
     and_then (map_err McpBlockStore (sl_get lib h)) (\<lambda>found.
     and_then (ok_or (MissingEmailLeafBlock (sl_disp lib h)) found) (\<lambda>block.
     and_then (case block of RootLeaf leaf \<Rightarrow> Ok leaf | RootBranch _ \<Rightarrow> Err (EmailBlockIsNotLeaf (sl_disp lib h))) (\<lambda>leaf.
     and_then (sole_email_leaf_entry (sl_disp lib h) (leaf_entries leaf)) (\<lambda>entry.
       let md = metadata_values_to_text_map (stored_metadata entry) in
       if map_of md (lit ''source_kind'') \<noteq> Some (lit ''email'') then Err (EmailLeafContainsNoEmailEntries (sl_disp lib h))
       else Ok (sl_disp lib h, project_leaf_entry (sl_disp lib) h 0 entry md))))))"

end
