(* ===== verification/Search_Laws.thy ===== *)
theory Search_Laws
  imports Search_Tools
begin

text \<open>
  The two searches agree, a search with fewer leaves than asked for returns all of them, and a
  hit of a search can be retrieved.
\<close>

section \<open>Fewer leaves than asked for\<close>

text \<open>
  What the search library promises of a root and a target: there is a ranking of the leaves
  that the traversal reaches, a search for \<open>k\<close> of them yields the first \<open>k\<close>, and if there are
  fewer it reports their number.
\<close>

definition ranks :: "'t search_lib \<Rightarrow> block_hash \<Rightarrow> 't \<Rightarrow> nat \<Rightarrow> found_leaf list \<Rightarrow> bool" where
  "ranks lib root_id target width ranking \<longleftrightarrow>
     (\<forall>k > 0. sl_search lib root_id target width k =
        (if k \<le> length ranking then Ok (take k ranking) else Err (Exhausted (length ranking))))"

text \<open>
  A search never fails for lack of leaves: if at least one leaf is reached, asking for any
  number of leaves yields the best of them, all if there are fewer.
\<close>

theorem partial_retry_returns_what_there_is:
  assumes "ranks lib root_id target width ranking" and "0 < k" and "ranking \<noteq> []"
  shows "search_with_partial_retry lib root_id target width k = Ok (take k ranking)"
  using assms by (simp add: search_with_partial_retry_def ranks_def)

section \<open>Both searches\<close>

lemma hits_agree:
  "project_leaf_entry disp (fl_leaf_block_id leaf) (fl_position leaf) (fl_entry leaf)
     (metadata_values_to_text_map (stored_metadata (fl_entry leaf))) = rooted_search_hit disp leaf"
  by (simp add: project_leaf_entry_def rooted_search_hit_def Let_def)

definition asked_top_k :: "mcp_config \<Rightarrow> search_chunks_request \<Rightarrow> nat" where
  "asked_top_k c request = (case sc_top_k request of Some k \<Rightarrow> k | None \<Rightarrow> mcp_top_k c)"

definition asked_width :: "mcp_config \<Rightarrow> search_chunks_request \<Rightarrow> nat" where
  "asked_width c request = (case sc_traversal_width request of Some w \<Rightarrow> w | None \<Rightarrow> mcp_traversal_width c)"

definition response_of :: "rooted_search_report \<Rightarrow> search_chunks_response" where
  "response_of report =
     \<lparr>sr_root_id = report_root_id report, sr_top_k = report_top_k report,
      sr_traversal_width = report_traversal_width report, sr_results = report_results report\<rparr>"

text \<open>
  C20. The search tool of the server and the rooted search of the indexer are the same search:
  on a root that is a branch, with the same provider, one succeeds exactly if the other does,
  and then they report the same root, limits and hits.
\<close>

theorem mcp_search_is_rooted_search:
  assumes "resolve_root_id ml dir c = Ok h" and "sl_get lib h = Ok (Some (RootBranch spec))"
  shows "search_chunks ml lib (Ok emb) dir c request = Ok response \<longleftrightarrow>
    (\<exists>report. search_rooted_tree lib emb h (sc_query request) (asked_top_k c request) (asked_width c request) = Ok report \<and>
       response = response_of report)"
proof -
  have "search_chunks ml lib (Ok emb) dir c request = Ok response \<longleftrightarrow>
    asked_top_k c request \<noteq> 0 \<and> asked_width c request \<noteq> 0 \<and>
    (\<exists>bs v t s leaves. emb (query_input (sc_query request)) (logical_f32_embedding_spec (spec_dims spec)) = Ok bs \<and>
       decode_logical_f32_embedding bs (spec_dims (logical_f32_embedding_spec (spec_dims spec))) = Ok v \<and>
       sl_prepare_target lib (RootBranch spec) v = Ok (t, s) \<and>
       search_with_partial_retry lib h t (asked_width c request) (asked_top_k c request) = Ok leaves \<and>
       response = \<lparr>sr_root_id = sl_disp lib h, sr_top_k = asked_top_k c request, sr_traversal_width = asked_width c request,
         sr_results = map (rooted_search_hit (sl_disp lib)) leaves\<rparr>)"
    unfolding search_chunks_def asked_top_k_def [symmetric] asked_width_def [symmetric] Let_def hits_agree assms(1)
    by (auto simp: assms(2) result_simps split: prod.splits)
  also have "\<dots> \<longleftrightarrow> (\<exists>report. search_rooted_tree lib emb h (sc_query request) (asked_top_k c request) (asked_width c request)
       = Ok report \<and> response = response_of report)"
    by (auto simp: search_rooted_tree_def assms(2) result_simps Let_def response_of_def split: prod.splits)
  finally show ?thesis .
qed

section \<open>Retrieving a hit\<close>

text \<open>
  A hit of a search can be retrieved by its id. If the leaf of an e-mail hit is in the
  store as the block the search saw, asking the server for the e-mail under the id that the hit
  shows yields the hit's entry: the same text, metadata and source, at position 0.
\<close>

theorem mcp_hit_retrievable:
  assumes "\<And>h. length h = HASH_LEN \<Longrightarrow> sl_disp lib h = hex_encode h" and "length (fl_leaf_block_id leaf) = HASH_LEN"
    and "sl_get lib (fl_leaf_block_id leaf) = Ok (Some (RootLeaf stored))" and "leaf_entries stored = [fl_entry leaf]"
    and "hit = rooted_search_hit (sl_disp lib) leaf" and "hit_source_kind hit = Some (lit ''email'')"
  shows "get_email lib (hit_leaf_block_id hit) = Ok (hit_leaf_block_id hit, hit\<lparr>hit_position := 0\<rparr>)"
proof -
  have d: "sl_disp lib (fl_leaf_block_id leaf) = hex_encode (fl_leaf_block_id leaf)" by (rule assms(1) [OF assms(2)])
  have p: "parse_block_hash (hex_encode (fl_leaf_block_id leaf)) = Ok (fl_leaf_block_id leaf)"
    by (rule tree_hash.parse_accepts) (simp_all add: assms(2) lower_hex_encode)
  have id: "hit_leaf_block_id hit = hex_encode (fl_leaf_block_id leaf)" by (simp add: assms(5) rooted_search_hit_def Let_def d)
  have k: "map_of (metadata_values_to_text_map (stored_metadata (fl_entry leaf))) (lit ''source_kind'') = Some (lit ''email'')"
    using assms(6) unfolding assms(5) rooted_search_hit_def Let_def by (simp del: lit_def)
  show ?thesis unfolding get_email_def id p using assms(3,4) k
    by (simp add: sole_email_leaf_entry_def Let_def d assms(5) rooted_search_hit_def project_leaf_entry_def)
qed

section \<open>Validated configurations\<close>

text \<open>
  A validated configuration can be served: without limits of its own a request is never
  refused for its limits, resolving the root never panics, and each of the four registered
  tools has a description that is not blank.
\<close>

theorem mcp_validated_config_serves:
  assumes "validate_mcp_config c = Ok ()"
  shows "asked_top_k c (request\<lparr>sc_top_k := None\<rparr>) \<noteq> 0 \<and> asked_width c (request\<lparr>sc_traversal_width := None\<rparr>) \<noteq> 0 \<and>
    resolve_root_id ml dir c \<noteq> Err McpPanic \<and>
    (\<forall>tool \<in> set [lit ''search_chunks'', lit ''get_document'', lit ''get_email'', lit ''get_thread''].
       \<exists>text. tool_description c tool = Some text \<and> trim text \<noteq> [])"
proof -
  let ?t = "mcp_tool_descriptions c"
  have v: "mcp_top_k c \<noteq> 0" "mcp_traversal_width c \<noteq> 0"
    "\<And>tool v. (tool, Some v) \<in> set (configured_descriptions ?t) \<Longrightarrow> trim v \<noteq> []"
    using assms by (auto simp: validate_mcp_config_def result_simps split: if_splits)
  have panic: "resolve_root_id ml dir c \<noteq> Err McpPanic"
    by (auto simp: resolve_root_id_def root_id_literal_def resolve_summary_path_def summary_root_id_def result_simps
        split: index_config.splits if_splits elim!: map_err.elims)
  have given: "trim (case d of Some x \<Rightarrow> x | None \<Rightarrow> t) \<noteq> []"
    if "(tool, d) \<in> set (configured_descriptions ?t)" "trim t \<noteq> []" for tool d t
    using v(3) [of tool] that by (cases d) auto
  have "\<exists>t. tool_description c tool = Some t \<and> trim t \<noteq> []"
    if "tool \<in> set [lit ''search_chunks'', lit ''get_document'', lit ''get_email'', lit ''get_thread'']" for tool
  proof -
    from that consider "tool = lit ''search_chunks''" | "tool = lit ''get_document''" | "tool = lit ''get_email''" | "tool = lit ''get_thread''"
      by (auto simp del: lit_def)
    then show ?thesis
    proof cases
      case 1
      then show ?thesis using given [of "lit ''search_chunks''" "td_search_chunks ?t"]
        by (simp add: tool_description_def Let_def configured_descriptions_def trim_Nil_iff is_whitespace_def)
    next
      case 2
      then show ?thesis using given [of "lit ''get_document''" "td_get_document ?t"]
        by (simp add: tool_description_def Let_def configured_descriptions_def trim_Nil_iff is_whitespace_def)
    next
      case 3
      then show ?thesis using given [of "lit ''get_email''" "td_get_email ?t"]
        by (simp add: tool_description_def Let_def configured_descriptions_def trim_Nil_iff is_whitespace_def)
    next
      case 4
      then show ?thesis using given [of "lit ''get_thread''" "td_get_thread ?t"]
        by (simp add: tool_description_def Let_def configured_descriptions_def trim_Nil_iff is_whitespace_def)
    qed
  qed
  then show ?thesis using v(1,2) panic by (simp add: asked_top_k_def asked_width_def)
qed

section \<open>An instance\<close>

definition demo_found :: found_leaf where
  "demo_found = \<lparr>fl_position = 3, fl_leaf_block_id = replicate 32 5,
     fl_entry = \<lparr>stored_metadata = [(VText (lit ''source_kind''), VText (lit ''email''))], stored_embedding = [0],
       stored_content = \<lparr>media_type = [], content_body = []\<rparr>\<rparr>\<rparr>"

definition demo_search_lib :: "unit search_lib" where
  "demo_search_lib = \<lparr>sl_disp = hex_encode,
     sl_get = \<lambda>h. Ok (Some (if h = replicate 32 5
       then RootLeaf \<lparr>leaf_level = 0, leaf_embedding_spec = logical_f32_embedding_spec 0, leaf_entries = [fl_entry demo_found]\<rparr>
       else RootBranch (logical_f32_embedding_spec 0))),
     sl_prepare_target = \<lambda>b v. Ok ((), logical_f32_embedding_spec 0),
     sl_search = \<lambda>h t w k. if k \<le> 1 then Ok (take k [demo_found]) else Err (Exhausted 1),
     sl_embedding_error_text = \<lambda>_. []\<rparr>"

definition demo_mcp_config :: mcp_config where
  "demo_mcp_config = \<lparr>mcp_environment = GatewayHttp3 \<lparr>gh_gateway_dns_name = lit ''gw'', gh_model = [], gh_max_retries = 1\<rparr>,
     mcp_index = RootId (hex_encode (replicate 32 0)),
     mcp_tool_descriptions = \<lparr>td_search_chunks = Some (lit ''find''), td_get_document = None, td_get_email = None, td_get_thread = None\<rparr>,
     mcp_top_k = 5, mcp_traversal_width = 3\<rparr>"

definition demo_search_request :: search_chunks_request where
  "demo_search_request = \<lparr>sc_query = [], sc_top_k = None, sc_traversal_width = None\<rparr>"

definition demo_mcp_lib :: mcp_lib where
  "demo_mcp_lib = \<lparr>ml_read = \<lambda>_. Ok [], ml_summary_root_id = \<lambda>_. Ok []\<rparr>"

lemma demo_ranks: "ranks demo_search_lib h t w [demo_found]"
  by (auto simp: ranks_def demo_search_lib_def)

theorem partial_retry_returns_what_there_is_witness:
  "search_with_partial_retry demo_search_lib (replicate 32 0) () 3 5 = Ok [demo_found]"
  using partial_retry_returns_what_there_is [OF demo_ranks, of 5] by simp

lemma demo_root: "resolve_root_id demo_mcp_lib dir demo_mcp_config = Ok (replicate 32 0)"
proof -
  have "parse_block_hash (hex_encode (replicate 32 0)) = Ok (replicate 32 0)"
    by (rule tree_hash.parse_accepts) (simp_all add: HASH_LEN_def lower_hex_encode)
  then show ?thesis by (simp add: resolve_root_id_def root_id_literal_def demo_mcp_config_def)
qed

lemma demo_rooted:
  "\<exists>report. search_rooted_tree demo_search_lib (\<lambda>c s. Ok []) (replicate 32 0) [] 5 3 = Ok report"
  by (simp add: search_rooted_tree_def demo_search_lib_def decode_logical_f32_embedding_def checked_mul_def
      logical_f32_embedding_spec_def search_with_partial_retry_def chunks_exact.simps)

theorem mcp_search_is_rooted_search_witness:
  "\<exists>response. search_chunks demo_mcp_lib demo_search_lib (Ok (\<lambda>c s. Ok [])) (Path True []) demo_mcp_config demo_search_request = Ok response"
proof -
  have b: "sl_get demo_search_lib (replicate 32 0) = Ok (Some (RootBranch (logical_f32_embedding_spec 0)))"
    by (simp add: demo_search_lib_def)
  have a: "asked_top_k demo_mcp_config demo_search_request = 5" "asked_width demo_mcp_config demo_search_request = 3"
    "sc_query demo_search_request = []"
    by (simp_all add: asked_top_k_def asked_width_def demo_mcp_config_def demo_search_request_def)
  obtain report where r: "search_rooted_tree demo_search_lib (\<lambda>c s. Ok []) (replicate 32 0) [] 5 3 = Ok report"
    using demo_rooted by blast
  have "search_chunks demo_mcp_lib demo_search_lib (Ok (\<lambda>c s. Ok [])) (Path True []) demo_mcp_config demo_search_request
    = Ok (response_of report)"
    by (rule mcp_search_is_rooted_search [OF demo_root b, THEN iffD2]) (simp only: a r, blast)
  then show ?thesis ..
qed

theorem mcp_hit_retrievable_witness:
  "get_email demo_search_lib (hex_encode (replicate 32 5)) =
     Ok (hex_encode (replicate 32 5), (rooted_search_hit hex_encode demo_found)\<lparr>hit_position := 0\<rparr>)"
proof -
  have k: "hit_source_kind (rooted_search_hit hex_encode demo_found) = Some (lit ''email'')"
    by (simp add: rooted_search_hit_def demo_found_def metadata_values_to_text_map_collect bmap_collect_def Let_def)
  have l: "hit_leaf_block_id (rooted_search_hit hex_encode demo_found) = hex_encode (replicate 32 5)"
    by (simp add: rooted_search_hit_def demo_found_def Let_def)
  show ?thesis
    using mcp_hit_retrievable [of demo_search_lib demo_found
        "\<lparr>leaf_level = 0, leaf_embedding_spec = logical_f32_embedding_spec 0, leaf_entries = [fl_entry demo_found]\<rparr>"
        "rooted_search_hit hex_encode demo_found"] k
    unfolding l by (simp add: demo_search_lib_def demo_found_def HASH_LEN_def)
qed

theorem mcp_validated_config_serves_witness:
  "validate_mcp_config demo_mcp_config = Ok () \<and> resolve_root_id demo_mcp_lib (Path True []) demo_mcp_config \<noteq> Err McpPanic"
proof -
  have "validate_mcp_config demo_mcp_config = Ok ()"
    by (simp add: validate_mcp_config_def demo_mcp_config_def configured_descriptions_def trim_Nil_iff is_whitespace_def)
  with mcp_validated_config_serves [OF this] show ?thesis by blast
qed

end
