(* ===== verification/Spec2Isabelle.thy ===== *)
theory Spec2Isabelle
  imports Journal_Store Source_Snapshot_Laws Batch_Config_Laws Resolver_Laws Copy_Schedule Replay_Journal_Sizes Replay_Order_Sort
    Ingestion_Replay Ref_Store_Laws Gateway_Laws Embedding_Laws Search_Laws
begin

text \<open>
  \<^bold>\<open>LexonArchiveBuilder.\<close> The program turns mail archives and documents into a tree of
  content-addressed blocks that can be searched by embedding. An archive is copied to a
  snapshot (\<^verbatim>\<open>archive-sync/src/snapshot.rs\<close>) under a workflow journal that records progress
  (\<^verbatim>\<open>archive-sync/src/lib.rs\<close>). The indexer reads a batch request
  (\<^verbatim>\<open>indexer/src/config.rs\<close>), expands mailboxes into e-mail artifacts and chunks
  (\<^verbatim>\<open>mailbox.rs\<close>), resolves content (\<^verbatim>\<open>resolver.rs\<close>), writes one leaf block per item with its
  embedding, appends what it did to a replay journal and later replays that journal in a
  canonical order to build the tree (\<^verbatim>\<open>runtime.rs\<close>). \<^verbatim>\<open>block_copy.rs\<close> copies the blocks
  reachable from given roots between stores. Blocks are also served over HTTP/3
  (\<^verbatim>\<open>block-gateway\<close>, \<^verbatim>\<open>block-store-http3\<close>), and the tree is searched from the command line
  (\<^verbatim>\<open>search.rs\<close>) and by a tool server (\<^verbatim>\<open>mcp\<close>). All paths below are under \<^verbatim>\<open>src/crates/\<close>, with
  the prefix \<^verbatim>\<open>lexonarchivebuilder-\<close> of the crates left out.

  \<^bold>\<open>Shared theories.\<close>
  \<^item> \<^verbatim>\<open>Prelude\<close>: results and the \<^verbatim>\<open>?\<close> operator, early-exit loops, the contract
    \<open>guarded_machine\<close> of a transition system with an invariant.
  \<^item> \<^verbatim>\<open>Rust_Text\<close>, \<^verbatim>\<open>Utf8\<close>, \<^verbatim>\<open>Rust_Path\<close>, \<^verbatim>\<open>Rust_Order\<close>, \<^verbatim>\<open>Ordered_Containers\<close>: what the
    sources use of the standard library: strings as lists of scalar values with their UTF-8
    bytes, paths, orderings and stable sorting, \<^verbatim>\<open>BTreeSet\<close> and \<^verbatim>\<open>BTreeMap\<close> as sorted lists.
  \<^item> \<^verbatim>\<open>Block_Model\<close>: CBOR values, block ids in hexadecimal (three parsers, one contract) and the
    payload of custom blocks.

  \<^bold>\<open>Workflow journal\<close> (\<^verbatim>\<open>archive-sync/src/lib.rs\<close>). \<^verbatim>\<open>Workflow_Journal\<close> has the records, the
  validation and every method of \<^verbatim>\<open>WorkflowJournal\<close>; \<^verbatim>\<open>Workflow_Journal_Laws\<close> shows that
  \<^verbatim>\<open>validate\<close> is exactly a declarative well-formedness and how the methods behave;
  \<^verbatim>\<open>Journal_Machine\<close> makes every successful call of a public method, with any arguments and in
  any order, a step of a transition system: the content of a reachable journal is always sound,
  validation fails only for the stage that was set, and progress is never lost.
  \<^verbatim>\<open>Journal_Store\<close> has loading and saving, with what the file is after a failure of any call.

  \<^bold>\<open>Snapshots\<close> (\<^verbatim>\<open>archive-sync/src/snapshot.rs\<close>). \<^verbatim>\<open>Source_Snapshot\<close> has acquisition, resumption,
  the walk over the source directory and the manifest; \<^verbatim>\<open>Source_Snapshot_Laws\<close> shows that the
  walk ends, that a second acquisition resumes from the first, and when exactly the journal is
  valid afterwards.

  \<^bold>\<open>Requests and content\<close> (\<^verbatim>\<open>indexer/src/config.rs\<close>, \<^verbatim>\<open>paths.rs\<close>, \<^verbatim>\<open>mailbox.rs\<close>,
  \<^verbatim>\<open>resolver.rs\<close>). \<^verbatim>\<open>Batch_Config\<close> and \<^verbatim>\<open>Batch_Config_Laws\<close>: requests, environments, mutable ref
  names; \<^verbatim>\<open>Mailbox\<close> and \<^verbatim>\<open>Mailbox_Laws\<close>: splitting, normalisation, chunking, canonical CBOR;
  \<^verbatim>\<open>Content_Resolver\<close> and \<^verbatim>\<open>Resolver_Laws\<close>: resolution with the chunk cache and its
  equivalence to resolution without it, and that what expansion stores resolves to the chunks.

  \<^bold>\<open>Rooted copy\<close> (\<^verbatim>\<open>indexer/src/block_copy.rs\<close>, \<^verbatim>\<open>custom_blocks.rs\<close>). \<^verbatim>\<open>Copy_Failures\<close> and
  \<^verbatim>\<open>Copy_Failures_Laws\<close>: the failure tracker refines an offline computation of who reaches what;
  \<^verbatim>\<open>Block_Children\<close>: the references of a block; \<^verbatim>\<open>Copy_Queues\<close> and \<^verbatim>\<open>Copy_Queues_Laws\<close>: the
  two bounded queues; \<^verbatim>\<open>Copy_Threads\<close>: all threads as a transition system with condition
  variables; \<^verbatim>\<open>Copy_Threads_Laws\<close>, \<^verbatim>\<open>Copy_Books\<close>, \<^verbatim>\<open>Copy_Coverage\<close>, \<^verbatim>\<open>Copy_Complete\<close>,
  \<^verbatim>\<open>Copy_Schedule\<close>: bounded writes, no deadlock, and that a finished copy has every reachable
  block in the destination or in the report.

  \<^bold>\<open>Replay\<close> (\<^verbatim>\<open>indexer/src/runtime.rs\<close>). \<^verbatim>\<open>Replay_Keys\<close>: sort keys and their byte encoding;
  \<^verbatim>\<open>Replay_Batches\<close>: loading a batch by several threads; \<^verbatim>\<open>Replay_Journal\<close> with its laws and
  sizes: appending, publishing and walking the journal, and block sizes against the array heads
  of RFC 8949; \<^verbatim>\<open>Replay_Order\<close>, \<^verbatim>\<open>Replay_Order_Laws\<close>
  and \<^verbatim>\<open>Replay_Order_Sort\<close>: the external merge sort of the replay inputs. \<^verbatim>\<open>Ref_Store\<close> and
  \<^verbatim>\<open>Ref_Store_Laws\<close>: reading and writing the mutable ref that names the journal head and the
  root, in a local file (with every intermediate state of the directory), an Azure blob or an
  Azure table; when the local file meets the contract \<open>journal_contract\<close> that the journal relies on,
  and two situations in which it does not.

  \<^bold>\<open>Ingestion\<close> (\<^verbatim>\<open>indexer/src/runtime.rs\<close>). \<^verbatim>\<open>Ingestion\<close>: the items of a request, leaf blocks built by
  concurrent tasks, storing them and publishing their records, streaming or sorted.
  \<^verbatim>\<open>Ingestion_Laws\<close>: one batch; \<^verbatim>\<open>Ingestion_Run\<close>: whole runs, with the contract
  \<open>item_visitor\<close> that both ways of visiting the items satisfy; \<^verbatim>\<open>Ingestion_Replay\<close>: what was
  ingested loads again, and the metadata under which it does not. \<^verbatim>\<open>Replay_Stream\<close> and
  \<^verbatim>\<open>Replay_Stream_Laws\<close>: the batches of a replay order, loaded under any schedule of the
  threads, and the providers that serve the stored embeddings to the clustering library.

  \<^bold>\<open>Serving and searching.\<close> \<^verbatim>\<open>Gateway\<close> and \<^verbatim>\<open>Gateway_Laws\<close> (\<^verbatim>\<open>block-gateway/src/lib.rs\<close>,
  \<^verbatim>\<open>block-store-http3/src/lib.rs\<close>): the routes, the handlers and the storage profiles of the
  server, the client with its connection and its retry; composed, they read the server's
  store. \<^verbatim>\<open>Embedding\<close> and \<^verbatim>\<open>Embedding_Laws\<close> (\<^verbatim>\<open>indexer/src/embedding.rs\<close>): both providers with
  their retries, batches with out-of-order completion, vector encodings. \<^verbatim>\<open>Search_Tools\<close> and
  \<^verbatim>\<open>Search_Laws\<close> (\<^verbatim>\<open>search.rs\<close>, \<^verbatim>\<open>mcp/src/config.rs\<close>, \<^verbatim>\<open>mcp/src/runtime.rs\<close>): rooted search with its
  retry, the tool server's search and e-mail retrieval, and that both searches agree.

  \<^bold>\<open>Libraries.\<close> The block library, CBOR and JSON coding, SHA-256, the mail parser, stores and
  file systems are arguments of the definitions (records of functions such as
  \<open>journal_lib\<close>). What a property needs of them is a named contract among its hypotheses, and
  each contract has a concrete instance in the witness.

  \<^bold>\<open>Interrupts.\<close> A check for an interrupt is a branch of the model. In the ingestion the checks are
  counted and the environment says which see an interrupt; in the collection of the replay order
  a check is named by its place. An operation that is awaited together with the interrupt is
  dropped when one is seen.

  \<^bold>\<open>Bounds and fuel.\<close> A \<^verbatim>\<open>usize\<close> that counts things in memory is a natural number; word
  arithmetic is kept where it can wrap or saturate. The walk over a journal takes a bound on
  the number of blocks, because the chain is in the store: a walk that meets a cycle stops by
  itself, and a bound as large as the chain is enough (\<open>journal_replays\<close>). The directory walk
  takes the depth of the tree. Every other loop is total.

  \<^bold>\<open>Not modelled.\<close> Panics and poisoned locks; the copy with a single worker; asynchronous
  scheduling; accept loops, TLS and the HTTP, QUIC and Azure clients, which are parameters of
  the definitions that use them; clustering and approximate search, which are libraries;
  telemetry; floating-point quality measures; command-line parsing.
\<close>

end
